(* ===== verification/Iot_Prelude.thy ===== *)
theory Iot_Prelude
  imports Main "HOL-Library.Word" "HOL-Library.Monad_Syntax"
begin

text \<open>
  Shared vocabulary of the development: the machine integers of the SDK, byte
  strings, the return codes of \<^verbatim>\<open>uiot_defs.h\<close>, and the model of C memory that every
  component uses.  A C buffer is the list of its bytes and a pointer into it is an
  index; a load or a store outside the buffer is undefined behaviour in C and is the
  value \<open>None\<close> here, so that a result \<open>Some r\<close> says that no access left the buffer.
\<close>

unbundle bit_operations_syntax

named_theorems mem_simps \<open>rewrites that turn pointer code into byte-list operations\<close>
named_theorems byte_simps \<open>evaluation of single header bytes\<close>

section \<open>Types\<close>

type_synonym u8 = "8 word"
type_synonym u16 = "16 word"
type_synonym u32 = "32 word"

text \<open>\<open>size_t\<close> of the 32-bit targets RT-Thread runs on.\<close>
type_synonym size_t = "32 word"

type_synonym bytes = "u8 list"

text \<open>A C string: its bytes before the terminating NUL.\<close>
type_synonym cstr = "u8 list"

text \<open>A read position, and a write cursor: the buffer and the pointer into it.\<close>
type_synonym pos = nat
type_synonym wcur = "bytes \<times> pos"

definition str :: "string \<Rightarrow> cstr" where
  "str s = map of_char s"

definition strlen :: "cstr \<Rightarrow> size_t" where
  "strlen s = of_nat (length s)"

text \<open>\<open>HAL_Snprintf\<close> into a buffer of \<open>n\<close> bytes: the string stored and the length it would have had.\<close>

definition HAL_Snprintf :: "nat \<Rightarrow> cstr \<Rightarrow> cstr \<times> int" where
  "HAL_Snprintf n s = (take (n - 1) s, int (length s))"

section \<open>Return codes\<close>

text \<open>
  \<open>IoT_Error_t\<close>.  The functions of the SDK return \<open>int\<close>: an error code, or a length or a
  packet identifier; the codes are therefore integers under their source names.
\<close>

abbreviation (input) MQTT_ALREADY_CONNECTED :: int where "MQTT_ALREADY_CONNECTED \<equiv> 4"
abbreviation (input) MQTT_CONNECTION_ACCEPTED :: int where "MQTT_CONNECTION_ACCEPTED \<equiv> 3"
abbreviation (input) MQTT_MANUALLY_DISCONNECTED :: int where "MQTT_MANUALLY_DISCONNECTED \<equiv> 2"
abbreviation (input) MQTT_RECONNECTED :: int where "MQTT_RECONNECTED \<equiv> 1"
abbreviation (input) SUCCESS_RET :: int where "SUCCESS_RET \<equiv> 0"
abbreviation (input) FAILURE_RET :: int where "FAILURE_RET \<equiv> - 1"
abbreviation (input) ERR_PARAM_INVALID :: int where "ERR_PARAM_INVALID \<equiv> - 2"
abbreviation (input) ERR_MQTT_PUSH_TO_LIST_FAILED :: int where "ERR_MQTT_PUSH_TO_LIST_FAILED \<equiv> - 102"
abbreviation (input) ERR_MQTT_NO_CONN :: int where "ERR_MQTT_NO_CONN \<equiv> - 103"
abbreviation (input) ERR_MQTT_UNKNOWN_ERROR :: int where "ERR_MQTT_UNKNOWN_ERROR \<equiv> - 104"
abbreviation (input) ERR_MQTT_ATTEMPTING_RECONNECT :: int where "ERR_MQTT_ATTEMPTING_RECONNECT \<equiv> - 105"
abbreviation (input) ERR_MQTT_RECONNECT_TIMEOUT :: int where "ERR_MQTT_RECONNECT_TIMEOUT \<equiv> - 106"
abbreviation (input) ERR_MQTT_MAX_SUBSCRIPTIONS_REACHED :: int
  where "ERR_MQTT_MAX_SUBSCRIPTIONS_REACHED \<equiv> - 107"
abbreviation (input) ERR_MQTT_SUB_FAILED :: int where "ERR_MQTT_SUB_FAILED \<equiv> - 108"
abbreviation (input) ERR_MQTT_NOTHING_TO_READ :: int where "ERR_MQTT_NOTHING_TO_READ \<equiv> - 109"
abbreviation (input) ERR_MQTT_PACKET_READ_ERROR :: int where "ERR_MQTT_PACKET_READ_ERROR \<equiv> - 110"
abbreviation (input) ERR_MQTT_REQUEST_TIMEOUT :: int where "ERR_MQTT_REQUEST_TIMEOUT \<equiv> - 111"
abbreviation (input) ERR_MQTT_CONNACK_UNKNOWN :: int where "ERR_MQTT_CONNACK_UNKNOWN \<equiv> - 112"
abbreviation (input) ERR_MQTT_CONNACK_UNACCEPTABLE_PROTOCOL_VERSION :: int
  where "ERR_MQTT_CONNACK_UNACCEPTABLE_PROTOCOL_VERSION \<equiv> - 113"
abbreviation (input) ERR_MQTT_CONNACK_IDENTIFIER_REJECTED :: int
  where "ERR_MQTT_CONNACK_IDENTIFIER_REJECTED \<equiv> - 114"
abbreviation (input) ERR_MQTT_CONNACK_SERVER_UNAVAILABLE :: int
  where "ERR_MQTT_CONNACK_SERVER_UNAVAILABLE \<equiv> - 115"
abbreviation (input) ERR_MQTT_CONNACK_BAD_USERDATA :: int where "ERR_MQTT_CONNACK_BAD_USERDATA \<equiv> - 116"
abbreviation (input) ERR_MQTT_CONNACK_NOT_AUTHORIZED :: int
  where "ERR_MQTT_CONNACK_NOT_AUTHORIZED \<equiv> - 117"
abbreviation (input) ERR_MQTT_RX_MESSAGE_PACKET_TYPE_INVALID :: int
  where "ERR_MQTT_RX_MESSAGE_PACKET_TYPE_INVALID \<equiv> - 118"
abbreviation (input) ERR_MQTT_BUFFER_TOO_SHORT :: int where "ERR_MQTT_BUFFER_TOO_SHORT \<equiv> - 119"
abbreviation (input) ERR_MQTT_QOS_NOT_SUPPORT :: int where "ERR_MQTT_QOS_NOT_SUPPORT \<equiv> - 120"
abbreviation (input) ERR_MQTT_UNSUB_FAILED :: int where "ERR_MQTT_UNSUB_FAILED \<equiv> - 121"
abbreviation (input) ERR_MAX_TOPIC_LENGTH :: int where "ERR_MAX_TOPIC_LENGTH \<equiv> - 138"
abbreviation (input) ERR_TCP_READ_FAILED :: int where "ERR_TCP_READ_FAILED \<equiv> - 606"
abbreviation (input) ERR_TCP_WRITE_FAILED :: int where "ERR_TCP_WRITE_FAILED \<equiv> - 607"
abbreviation (input) ERR_TCP_PEER_SHUTDOWN :: int where "ERR_TCP_PEER_SHUTDOWN \<equiv> - 608"
abbreviation (input) ERR_SSL_READ_TIMEOUT :: int where "ERR_SSL_READ_TIMEOUT \<equiv> - 707"
abbreviation (input) ERR_SSL_READ_FAILED :: int where "ERR_SSL_READ_FAILED \<equiv> - 708"

section \<open>Memory\<close>

text \<open>One load, one store, and \<open>memcpy\<close> into a buffer.\<close>

definition peek :: "bytes \<Rightarrow> pos \<Rightarrow> u8 option" where
  "peek buf i = (if i < length buf then Some (buf ! i) else None)"

definition poke :: "bytes \<Rightarrow> pos \<Rightarrow> u8 \<Rightarrow> bytes option" where
  "poke buf i c = (if i < length buf then Some (buf[i := c]) else None)"

definition poke_bytes :: "bytes \<Rightarrow> pos \<Rightarrow> bytes \<Rightarrow> bytes option" where
  "poke_bytes buf i bs =
     (if i + length bs \<le> length buf
      then Some (take i buf @ bs @ drop (i + length bs) buf) else None)"

definition slice :: "bytes \<Rightarrow> pos \<Rightarrow> nat \<Rightarrow> bytes" where
  "slice buf i n = take n (drop i buf)"

text \<open>\<open>memcpy\<close> through a write cursor, which it moves past the bytes.\<close>

fun write_bytes :: "bytes \<Rightarrow> wcur \<Rightarrow> wcur option" where
  "write_bytes bs (buf, p) = map_option (\<lambda>b. (b, p + length bs)) (poke_bytes buf p bs)"

lemma peek_Some [simp]: "i < length buf \<Longrightarrow> peek buf i = Some (buf ! i)"
  by (simp add: peek_def)

lemma peek_eq_Some_iff: "peek buf i = Some c \<longleftrightarrow> i < length buf \<and> c = buf ! i"
  by (auto simp: peek_def)

lemma peek_append1 [simp]: "peek (xs @ ys) (length xs + i) = peek ys i"
  by (simp add: peek_def nth_append)

lemma peek_append2 [simp]: "peek (xs @ ys) (length xs) = peek ys 0"
  using peek_append1 [of xs ys 0] by simp

lemma peek_Cons_0 [simp]: "peek (x # xs) 0 = Some x"
  by (simp add: peek_def)

lemma peek_Cons_Suc [simp]: "peek (x # xs) (Suc i) = peek xs i"
  by (simp add: peek_def)

lemma length_poke: "poke buf i c = Some buf' \<Longrightarrow> length buf' = length buf"
  by (auto simp: poke_def split: if_splits)

lemma length_poke_bytes: "poke_bytes buf i bs = Some buf' \<Longrightarrow> length buf' = length buf"
  by (auto simp: poke_bytes_def split: if_splits)

lemma poke_bytes_Nil [simp]: "i \<le> length buf \<Longrightarrow> poke_bytes buf i [] = Some buf"
  by (simp add: poke_bytes_def)

lemma poke_bytes_single: "poke_bytes buf i [c] = poke buf i c"
  by (auto simp: poke_bytes_def poke_def upd_conv_take_nth_drop)

lemma write_bytes_Some:
  "p + length bs \<le> length buf \<Longrightarrow>
   write_bytes bs (buf, p) = Some (take p buf @ bs @ drop (p + length bs) buf, p + length bs)"
  by (simp add: poke_bytes_def)

lemma write_bytes_eq_Some_iff:
  "write_bytes bs (buf, p) = Some (buf', p') \<longleftrightarrow>
     p + length bs \<le> length buf \<and> p' = p + length bs
     \<and> buf' = take p buf @ bs @ drop (p + length bs) buf"
  by (auto simp: poke_bytes_def)

lemma write_bytes_total_iff:
  "(\<exists>cur'. write_bytes bs (buf, p) = Some cur') \<longleftrightarrow> p + length bs \<le> length buf"
  by (simp add: poke_bytes_def)

text \<open>Two consecutive copies are one copy of the concatenation.\<close>

lemma write_bytes_append [mem_simps]:
  "(write_bytes xs cur \<bind> write_bytes ys) = write_bytes (xs @ ys) cur"
proof (cases cur)
  case (Pair buf p)
  show ?thesis
  proof (cases "p + length xs \<le> length buf")
    case True
    then show ?thesis
      by (simp add: Pair poke_bytes_def ac_simps)
  next
    case False
    then show ?thesis by (simp add: Pair poke_bytes_def)
  qed
qed

declare write_bytes.simps [simp del]

lemma write_bytes_append_bind [mem_simps]:
  "(write_bytes xs cur \<bind> (\<lambda>c. write_bytes ys c \<bind> f)) = (write_bytes (xs @ ys) cur \<bind> f)"
  by (simp add: write_bytes_append [symmetric])

lemma slice_append_exact [simp]:
  "slice (xs @ ys @ zs) (length xs) (length ys) = ys"
  by (simp add: slice_def)

lemma length_slice [simp]: "i + n \<le> length buf \<Longrightarrow> length (slice buf i n) = n"
  by (simp add: slice_def)

section \<open>Words\<close>

lemma unat_of_nat_u32 [simp]: "n < 2 ^ 32 \<Longrightarrow> unat (of_nat n :: u32) = n"
  by (simp add: unat_of_nat take_bit_nat_eq_self)

lemma unat_of_nat_u16 [simp]: "n < 2 ^ 16 \<Longrightarrow> unat (of_nat n :: u16) = n"
  by (simp add: unat_of_nat take_bit_nat_eq_self)

lemma unat_strlen: "length s < 2 ^ 32 \<Longrightarrow> unat (strlen s) = length s"
  by (simp add: strlen_def)

lemma unat_add_u32:
  fixes a b :: u32
  shows "unat a + unat b < 2 ^ 32 \<Longrightarrow> unat (a + b) = unat a + unat b"
  by (simp add: unat_word_ariths)

lemma unat_div_128_less:
  fixes len :: u32
  assumes "0 < len div 128"
  shows "unat (len div 128) < unat len"
proof -
  from assms have "0 < unat len div 128"
    by (simp add: word_less_nat_alt unat_div)
  then show ?thesis by (simp add: unat_div)
qed

lemma u8_all_cases:
  fixes x :: u8
  assumes "\<forall>n < 256. P (of_nat n :: u8)"
  shows "P x"
proof -
  have "unat x < 256" using unsigned_less [of x] by simp
  with assms have "P (of_nat (unat x))" by blast
  then show ?thesis by simp
qed

section \<open>Arithmetic\<close>

lemma mod_add_inj:
  assumes "(a + i) mod m = (a + j) mod (m :: nat)" and "i < j" and "j < i + m"
  shows False
proof -
  from assms(2) have "a + i \<le> a + j" by simp
  with assms(1) have "m dvd (a + j) - (a + i)" by (metis mod_eq_dvd_iff_nat)
  with assms(2,3) show False by (simp add: nat_dvd_not_less)
qed

section \<open>The option monad\<close>

lemma bind_Some_iff:
  "(m \<bind> f) = Some r \<longleftrightarrow> (\<exists>x. m = Some x \<and> f x = Some r)"
  by (cases m) auto


section \<open>Outcomes of partial operations\<close>

text \<open>
  \<open>returns m Q\<close>: the operation is defined and its result satisfies \<open>Q\<close> (total correctness);
  \<open>ensures m Q\<close>: if it is defined, its result satisfies \<open>Q\<close>.
\<close>

definition returns :: "'a option \<Rightarrow> ('a \<Rightarrow> bool) \<Rightarrow> bool" where
  "returns m Q \<longleftrightarrow> (\<exists>x. m = Some x \<and> Q x)"

definition ensures :: "'a option \<Rightarrow> ('a \<Rightarrow> bool) \<Rightarrow> bool" where
  "ensures m Q \<longleftrightarrow> (\<forall>x. m = Some x \<longrightarrow> Q x)"

named_theorems outcome_simps \<open>evaluation of outcomes of partial operations\<close>

lemma returns_Some [outcome_simps, simp]: "returns (Some x) Q = Q x"
  by (simp add: returns_def)

lemma returns_None [outcome_simps, simp]: "\<not> returns None Q"
  by (simp add: returns_def)

lemma ensures_Some [outcome_simps, simp]: "ensures (Some x) Q = Q x"
  by (simp add: ensures_def)

lemma ensures_None [outcome_simps, simp]: "ensures None Q"
  by (simp add: ensures_def)

lemma returns_bind: "returns (m \<bind> f) Q = returns m (\<lambda>x. returns (f x) Q)"
  by (cases m) auto

lemma ensures_bind: "ensures (m \<bind> f) Q = ensures m (\<lambda>x. ensures (f x) Q)"
  by (cases m) auto

lemma returns_mono: "returns m P \<Longrightarrow> (\<And>x. P x \<Longrightarrow> Q x) \<Longrightarrow> returns m Q"
  by (auto simp: returns_def)

lemma ensures_mono: "ensures m P \<Longrightarrow> (\<And>x. P x \<Longrightarrow> Q x) \<Longrightarrow> ensures m Q"
  by (auto simp: ensures_def)

lemma ensures_bindI:
  "ensures m P \<Longrightarrow> (\<And>x. P x \<Longrightarrow> ensures (f x) Q) \<Longrightarrow> ensures (m \<bind> f) Q"
  by (cases m) auto

lemma returns_bindI:
  "returns m P \<Longrightarrow> (\<And>x. P x \<Longrightarrow> returns (f x) Q) \<Longrightarrow> returns (m \<bind> f) Q"
  by (cases m) auto

lemma returns_ensures: "returns m Q \<Longrightarrow> ensures m Q"
  by (auto simp: returns_def ensures_def)

lemma ensuresD: "ensures m Q \<Longrightarrow> m = Some x \<Longrightarrow> Q x"
  by (simp add: ensures_def)

lemma ensures_if [outcome_simps]:
  "ensures (if b then m else n) Q = ((b \<longrightarrow> ensures m Q) \<and> (\<not> b \<longrightarrow> ensures n Q))"
  by simp

lemma returns_if [outcome_simps]:
  "returns (if b then m else n) Q = ((b \<longrightarrow> returns m Q) \<and> (\<not> b \<longrightarrow> returns n Q))"
  by simp

end
