(* ===== verification/Utils_Hash.thy ===== *)
theory Utils_Hash
  imports Iot_Prelude
begin

text \<open>
  The part that \<^verbatim>\<open>utils_md5.c\<close> and \<^verbatim>\<open>utils_sha2.c\<close> share: a context with a 64-bit byte count, a chaining
  value and a 64-byte buffer; data are absorbed in pieces of any size, and the end is padded as in the
  Merkle-Damgard construction.  The locale \<open>block_hash\<close> states what the two implementations have in common; its
  lemmas show that absorbing a message in pieces is absorbing it at once, and that finishing is the padding of the standards.
\<close>

unbundle bit_operations_syntax

section \<open>Contexts\<close>

record 's hash_context =
  total0 :: u32
  total1 :: u32
  state :: 's
  buffer :: bytes

text \<open>\<open>memcpy(ctx->buffer + left, input, n)\<close>: \<open>None\<close> when it would leave the buffer.\<close>

definition copy_in :: "bytes \<Rightarrow> nat \<Rightarrow> bytes \<Rightarrow> bytes option" where
  "copy_in buf left xs =
     (if left + length xs \<le> length buf then Some (take left buf @ xs @ drop (left + length xs) buf) else None)"

text \<open>What is left when all complete blocks are processed goes into the buffer.\<close>

definition copy_rest :: "('s, 'm) hash_context_scheme \<Rightarrow> nat \<Rightarrow> bytes \<Rightarrow> ('s, 'm) hash_context_scheme option" where
  "copy_rest c left input =
     (if length input > 0 then do { b \<leftarrow> copy_in (buffer c) left input; Some (c\<lparr>buffer := b\<rparr>) } else Some c)"

section \<open>The reference: absorbing and padding\<close>

text \<open>The chaining value after all complete blocks of a message.\<close>

function absorb :: "('s \<Rightarrow> bytes \<Rightarrow> 's) \<Rightarrow> 's \<Rightarrow> bytes \<Rightarrow> 's" where
  "absorb f st m = (if 64 \<le> length m then absorb f (f st (take 64 m)) (drop 64 m) else st)"
  by pat_completeness auto
termination by (relation "measure (\<lambda>(f, st, m). length m)") auto

declare absorb.simps [simp del]

text \<open>
  The padding: one bit, zeros up to 56 modulo 64, and the length in bits as eight bytes
  produced by \<open>enc\<close>.
\<close>

definition pad_zeros :: "nat \<Rightarrow> nat" where
  "pad_zeros n = (if n mod 64 < 56 then 55 - n mod 64 else 119 - n mod 64)"

definition padded :: "(64 word \<Rightarrow> bytes) \<Rightarrow> bytes \<Rightarrow> bytes" where
  "padded enc m = m @ 0x80 # replicate (pad_zeros (length m)) 0 @ enc (8 * of_nat (length m))"

lemma absorb_short [simp]: "length m < 64 \<Longrightarrow> absorb f st m = st"
  by (simp add: absorb.simps)

lemma absorb_block: "length b = 64 \<Longrightarrow> absorb f st (b @ m) = absorb f (f st b) m"
  by (subst absorb.simps) simp

lemma absorb_append: "64 dvd length m \<Longrightarrow> absorb f st (m @ x) = absorb f (absorb f st m) x"
proof (induction f st m rule: absorb.induct)
  case (1 f st m)
  show ?case
  proof (cases "64 \<le> length m")
    case True
    then have "64 dvd length (drop 64 m)" using "1.prems" by (auto elim!: dvdE)
    with "1.IH" [OF True] have "absorb f (f st (take 64 m)) (drop 64 m @ x) = absorb f (absorb f (f st (take 64 m)) (drop 64 m)) x" .
    moreover have "absorb f st m = absorb f (f st (take 64 m)) (drop 64 m)" using True by (subst absorb.simps) simp
    moreover have "absorb f st (m @ x) = absorb f (f st (take 64 m)) (drop 64 m @ x)" using True by (subst absorb.simps) simp
    ultimately show ?thesis by simp
  next
    case False
    then have "length m = 0" using "1.prems" dvd_imp_le [of 64 "length m"] by auto
    then show ?thesis by simp
  qed
qed

text \<open>A message as its complete blocks and the rest.\<close>

definition whole :: "bytes \<Rightarrow> bytes" where "whole m = take (64 * (length m div 64)) m"
definition rest_of :: "bytes \<Rightarrow> bytes" where "rest_of m = drop (64 * (length m div 64)) m"

lemma whole_rest [simp]: "whole m @ rest_of m = m" by (simp add: whole_def rest_of_def)

lemma length_whole: "length (whole m) = 64 * (length m div 64)" "64 dvd length (whole m)"
  by (simp_all add: whole_def min_absorb2)

lemma length_rest: "length (rest_of m) = length m mod 64"
  by (simp add: rest_of_def minus_mult_div_eq_mod)

lemma absorb_whole: "absorb f st m = absorb f st (whole m)"
proof -
  have "absorb f st (whole m @ rest_of m) = absorb f (absorb f st (whole m)) (rest_of m)"
    by (rule absorb_append [OF length_whole(2)])
  then show ?thesis by (simp add: length_rest)
qed

lemma rest_append: "64 dvd length q \<Longrightarrow> rest_of (q @ x) = rest_of x"
proof (elim dvdE)
  fix k assume "length q = 64 * k"
  then have "64 * ((length q + length x) div 64) = length q + 64 * (length x div 64)" by simp
  then show ?thesis by (simp add: rest_of_def)
qed

lemma rest_short [simp]: "length m < 64 \<Longrightarrow> rest_of m = m" by (simp add: rest_of_def)


section \<open>The byte count\<close>

text \<open>The two words \<open>total\<close> as one number of 64 bits; \<open>update\<close> adds to it with a carry.\<close>

definition count :: "('s, 'm) hash_context_scheme \<Rightarrow> nat" where
  "count c = unat (total0 c) + 2 ^ 32 * unat (total1 c)"

lemma count_low: "unat (total0 c AND 63) = count c mod 64"
proof -
  have "unat (total0 c AND 63) = unat (total0 c) mod 64"
    by (simp add: take_bit_eq_mask [of 6 "total0 c", symmetric, simplified mask_eq_exp_minus_1, simplified]
        unsigned_take_bit_eq take_bit_eq_mod unat_mod)
  also have "\<dots> = count c mod 64" by (simp add: count_def mod_add_eq [symmetric])
  finally show ?thesis .
qed

lemma count_add:
  fixes a b n :: u32
  shows "(unat (a + n) + 2 ^ 32 * unat (if a + n < n then b + 1 else b)) mod 2 ^ 64
    = (unat a + 2 ^ 32 * unat b + unat n) mod 2 ^ 64"
proof -
  have l: "unat a < 2 ^ 32" "unat n < 2 ^ 32"
    using unsigned_less [of a, where 'a = nat] unsigned_less [of n, where 'a = nat] by simp_all
  have sum: "unat (a + n) = (unat a + unat n) mod 2 ^ 32" by (simp add: unat_word_ariths)
  have b: "(2 ^ 32 * unat (b + 1)) mod 2 ^ 64 = (2 ^ 32 * (unat b + 1)) mod (2 ^ 64 :: nat)"
    using mult_mod_right [of "2 ^ 32" "unat b + 1" "2 ^ 32 :: nat"] by (simp add: unat_word_ariths)
  show ?thesis
  proof (cases "unat a + unat n < 2 ^ 32")
    case True
    then have "\<not> a + n < n" using sum by (simp add: word_less_nat_alt)
    then show ?thesis using True sum by (simp add: ac_simps)
  next
    case False
    then have u: "unat (a + n) = unat a + unat n - 2 ^ 32" using sum l by (simp add: le_mod_geq)
    with l False have "a + n < n" by (simp add: word_less_nat_alt)
    moreover have "(unat (a + n) + 2 ^ 32 * unat (b + 1)) mod 2 ^ 64 = (unat (a + n) + 2 ^ 32 * (unat b + 1)) mod 2 ^ 64"
      by (rule mod_add_cong [OF refl b])
    moreover have "unat (a + n) + 2 ^ 32 * (unat b + 1) = unat a + 2 ^ 32 * unat b + unat n" using u False by (simp add: add_mult_distrib2)
    ultimately show ?thesis by (simp only: if_True)
  qed
qed


text \<open>Absorbing a message in pieces with a function \<open>update\<close>.\<close>

fun feed :: "('c \<Rightarrow> bytes \<Rightarrow> u32 \<Rightarrow> 'c option) \<Rightarrow> 'c \<Rightarrow> bytes list \<Rightarrow> 'c option" where
  "feed update c [] = Some c"
| "feed update c (x # xs) = do { c \<leftarrow> update c x (of_nat (length x)); feed update c xs }"

text \<open>The length in bits that \<open>finish\<close> writes, computed from the two words of the count.\<close>

lemma bit_length:
  fixes t0 t1 :: u32
  assumes "unat t0 + 2 ^ 32 * unat t1 < 2 ^ 61"
  shows "unat (drop_bit 29 t0 OR push_bit 3 t1) * 2 ^ 32 + unat (push_bit 3 t0) = 8 * (unat t0 + 2 ^ 32 * unat t1)"
proof -
  have t1: "unat t1 < 2 ^ 29" using assms by simp
  have "unat (drop_bit 29 t0 OR push_bit 3 t1) = unat (drop_bit 29 t0) OR unat (push_bit 3 t1)" by (simp add: unsigned_or_eq)
  also have "unat (drop_bit 29 t0) = unat t0 div 2 ^ 29" by (simp add: drop_bit_eq_div unat_div)
  also have "unat (push_bit 3 t1) = push_bit 3 (unat t1)"
    using t1 by (simp add: push_bit_eq_mult unat_word_ariths)
  also have "unat t0 div 2 ^ 29 OR push_bit 3 (unat t1) = unat t0 div 2 ^ 29 + push_bit 3 (unat t1)"
  proof (rule disjunctive_add_eq_or [symmetric])
    have "unat t0 < 2 ^ 32" using unsigned_less [of t0, where 'a = nat] by simp
    then have "unat t0 div 2 ^ 29 < 2 ^ 3" by (simp add: less_mult_imp_div_less)
    then have e: "take_bit 3 (unat t0 div 2 ^ 29) = unat t0 div 2 ^ 29" by (rule take_bit_nat_eq_self)
    have "take_bit 3 (unat t0 div 2 ^ 29) AND push_bit 3 (unat t1) = 0" by (rule bit_eqI) (auto simp: bit_simps)
    then show "unat t0 div 2 ^ 29 AND push_bit 3 (unat t1) = 0" by (simp only: e)
  qed
  finally have h: "unat (drop_bit 29 t0 OR push_bit 3 t1) = unat t0 div 2 ^ 29 + 8 * unat t1" by (simp add: push_bit_eq_mult)
  have l: "unat (push_bit 3 t0) = 8 * unat t0 mod 2 ^ 32"
    by (simp add: push_bit_eq_mult unat_word_ariths mult.commute)
  show ?thesis unfolding h l using div_mult_mod_eq [of "8 * unat t0" "2 ^ 32"] by (simp add: algebra_simps)
qed

lemma halves_u64:
  fixes h l :: u32
  shows "ucast (of_nat (unat h * 2 ^ 32 + unat l) :: 64 word) = l"
    and "ucast (drop_bit 32 (of_nat (unat h * 2 ^ 32 + unat l) :: 64 word)) = h"
proof -
  have b: "unat h < 2 ^ 32" "unat l < 2 ^ 32"
    using unsigned_less [of h, where 'a = nat] unsigned_less [of l, where 'a = nat] by simp_all
  define n where "n = (of_nat (unat h * 2 ^ 32 + unat l) :: 64 word)"
  have n: "unat n = unat h * 2 ^ 32 + unat l"
    using b by (simp add: n_def unat_of_nat take_bit_nat_eq_self del: of_nat_add of_nat_mult)
  have "(ucast n :: u32) = l"
    by (rule word_unat_eq_iff [THEN iffD2]) (use b in \<open>simp add: unsigned_ucast_eq n take_bit_eq_mod\<close>)
  moreover have "(ucast (drop_bit 32 n) :: u32) = h"
    by (rule word_unat_eq_iff [THEN iffD2]) (use b in \<open>simp add: unsigned_ucast_eq n take_bit_eq_mod unat_div drop_bit_eq_div\<close>)
  ultimately show "ucast (of_nat (unat h * 2 ^ 32 + unat l) :: 64 word) = l"
    "ucast (drop_bit 32 (of_nat (unat h * 2 ^ 32 + unat l) :: 64 word)) = h" by (simp_all only: n_def)
qed

section \<open>What the two hash functions have in common\<close>

text \<open>
  \<open>process\<close> and \<open>update\<close> are the functions of the C file, \<open>blocks\<close> is the loop of \<open>update\<close> with the data left over,
  and \<open>compress\<close> is what \<open>process\<close> does to the chaining value.
\<close>

locale block_hash =
  fixes process :: "('s, 'm) hash_context_scheme \<Rightarrow> bytes \<Rightarrow> ('s, 'm) hash_context_scheme"
    and blocks :: "('s, 'm) hash_context_scheme \<Rightarrow> bytes \<Rightarrow> ('s, 'm) hash_context_scheme \<times> bytes"
    and update :: "('s, 'm) hash_context_scheme \<Rightarrow> bytes \<Rightarrow> u32 \<Rightarrow> ('s, 'm) hash_context_scheme option"
    and compress :: "'s \<Rightarrow> bytes \<Rightarrow> 's"
  assumes process: "process c b = c\<lparr>state := compress (state c) b\<rparr>"
    and blocks: "blocks c input =
      (if 64 \<le> length input then blocks (process c (take 64 input)) (drop 64 input) else (c, input))"
    and update: "update c input ilen =
      (if unat ilen > length input then None
       else if ilen = 0 then Some c
       else do {
         let input = take (unat ilen) input;
         let left = total0 c AND 0x3F;
         let fill = 64 - left;
         let c = c\<lparr>total0 := total0 c + ilen\<rparr>;
         let c = (if total0 c < ilen then c\<lparr>total1 := total1 c + 1\<rparr> else c);
         (c, input, left) \<leftarrow> (if left \<noteq> 0 \<and> ilen \<ge> fill then do {
             b \<leftarrow> copy_in (buffer c) (unat left) (take (unat fill) input);
             let c = process (c\<lparr>buffer := b\<rparr>) b;
             Some (c, drop (unat fill) input, 0) }
           else Some (c, input, left));
         let (c, input) = blocks c input;
         copy_rest c (unat left) input })"
begin

lemma blocks_eq: "blocks c m = (c\<lparr>state := absorb compress (state c) m\<rparr>, rest_of m)"
proof (induction "length m" arbitrary: c m rule: less_induct)
  case less
  show ?case
  proof (cases "64 \<le> length m")
    case True
    let ?b = "take 64 m" and ?m = "drop 64 m"
    have "blocks c m = blocks (process c ?b) ?m" using True by (subst blocks) simp
    also have "\<dots> = (c\<lparr>state := absorb compress (compress (state c) ?b) ?m\<rparr>, rest_of ?m)"
      using True by (simp add: less process)
    also have "absorb compress (compress (state c) ?b) ?m = absorb compress (state c) m"
      using True absorb_block [of ?b compress "state c" ?m] by simp
    also have "rest_of ?m = rest_of m" using True rest_append [of ?b ?m] by simp
    finally show ?thesis .
  next
    case False
    then show ?thesis by (subst blocks) simp
  qed
qed

text \<open>The context \<open>c\<close> has absorbed the message \<open>m\<close>, starting from \<open>iv\<close>.\<close>

definition absorbed :: "'s \<Rightarrow> bytes \<Rightarrow> ('s, 'm) hash_context_scheme \<Rightarrow> bool" where
  "absorbed iv m c \<longleftrightarrow> count c mod 2 ^ 64 = length m mod 2 ^ 64 \<and> length (buffer c) = 64
     \<and> state c = absorb compress iv m \<and> take (length m mod 64) (buffer c) = rest_of m"

lemma absorbed_left:
  assumes "absorbed iv m c"
  shows "unat (total0 c AND 0x3F) = length m mod 64"
proof -
  have "count c mod 64 = count c mod 2 ^ 64 mod 64" by (simp add: mod_mod_cancel)
  also have "\<dots> = length m mod 2 ^ 64 mod 64" using assms by (simp add: absorbed_def)
  also have "\<dots> = length m mod 64" by (simp add: mod_mod_cancel)
  finally show ?thesis by (simp add: count_low)
qed

text \<open>The three ways data go into the buffer: it is completed and processed, or it is empty, or it stays incomplete.\<close>

lemma absorb_completed:
  assumes "0 < length m mod 64" and "64 - length m mod 64 \<le> length x"
  defines "fill \<equiv> 64 - length m mod 64"
  shows "absorb f iv (m @ x) = absorb f (f (absorb f iv m) (rest_of m @ take fill x)) (drop fill x)"
    and "rest_of (m @ x) = rest_of (drop fill x)" and "(length m + length x) mod 64 = length (drop fill x) mod 64"
proof -
  let ?b = "rest_of m @ take fill x"
  have b: "length ?b = 64" using assms(2) by (simp add: length_rest fill_def min_absorb2)
  have "m @ x = whole m @ ?b @ drop fill x" by (metis append.assoc append_take_drop_id whole_rest)
  note e = arg_cong [OF this]
  show "absorb f iv (m @ x) = absorb f (f (absorb f iv m) ?b) (drop fill x)"
    unfolding e [of "absorb f iv"] absorb_append [OF length_whole(2)] absorb_block [OF b] absorb_whole [symmetric] ..
  have d: "64 dvd length (whole m @ ?b)" using b length_whole(2) [of m] by simp
  show r: "rest_of (m @ x) = rest_of (drop fill x)"
    using e [of rest_of] rest_append [OF d, of "drop fill x"] by simp
  show "(length m + length x) mod 64 = length (drop fill x) mod 64"
    using arg_cong [OF r, of length] by (simp add: length_rest)
qed

lemma absorb_aligned:
  assumes "length m mod 64 = 0"
  shows "absorb f iv (m @ x) = absorb f (absorb f iv m) x" and "rest_of (m @ x) = rest_of x"
    and "(length m + length x) mod 64 = length x mod 64"
proof -
  have d: "64 dvd length m" using assms by auto
  show "absorb f iv (m @ x) = absorb f (absorb f iv m) x" by (rule absorb_append [OF d])
  show r: "rest_of (m @ x) = rest_of x" by (rule rest_append [OF d])
  show "(length m + length x) mod 64 = length x mod 64" using arg_cong [OF r, of length] by (simp add: length_rest)
qed

lemma absorb_incomplete:
  assumes "length m mod 64 + length x < 64"
  shows "absorb f iv (m @ x) = absorb f iv m" and "rest_of (m @ x) = rest_of m @ x"
    and "(length m + length x) mod 64 = length m mod 64 + length x"
proof -
  have e: "m @ x = whole m @ (rest_of m @ x)" by (metis append.assoc whole_rest)
  have l: "length (rest_of m @ x) < 64" using assms by (simp add: length_rest)
  show "absorb f iv (m @ x) = absorb f iv m"
    unfolding arg_cong [OF e, of "absorb f iv"] absorb_append [OF length_whole(2)] absorb_short [OF l] absorb_whole [symmetric] ..
  show r: "rest_of (m @ x) = rest_of m @ x"
    unfolding arg_cong [OF e, of rest_of] rest_append [OF length_whole(2)] rest_short [OF l] ..
  show "(length m + length x) mod 64 = length m mod 64 + length x"
    using arg_cong [OF r, of length] by (simp add: length_rest)
qed

lemma copy_in_Some: "left + length xs \<le> length buf \<Longrightarrow>
    copy_in buf left xs = Some (take left buf @ xs @ drop (left + length xs) buf)"
  by (simp add: copy_in_def)

lemma store_rest:
  assumes "k + length t \<le> length (buffer d)"
  shows "copy_rest d k t = Some (d\<lparr>buffer := take k (buffer d) @ t @ drop (k + length t) (buffer d)\<rparr>)"
  using assms by (auto simp: copy_rest_def copy_in_def)

lemma update_absorbed:
  assumes "absorbed iv m c" and "unat n \<le> length input"
  shows "\<exists>c'. update c input n = Some c' \<and> absorbed iv (m @ take (unat n) input) c' \<and> hash_context.more c' = hash_context.more c"
proof (cases "n = 0")
  case True
  with assms show ?thesis by (simp add: update)
next
  case False
  define x where "x = take (unat n) input"
  have x: "length x = unat n" using assms(2) by (simp add: x_def)
  let ?l = "length m mod 64" and ?c = "c\<lparr>total0 := total0 c + n, total1 := (if total0 c + n < n then total1 c + 1 else total1 c)\<rparr>"
  note left = absorbed_left [OF assms(1)]
  have l: "?l < 64" by simp
  have fill: "unat (64 - (total0 c AND 0x3F)) = 64 - ?l"
    using left l by (subst unat_sub) (simp_all add: word_le_nat_alt)
  have cnt: "count ?c mod 2 ^ 64 = (length m + length x) mod 2 ^ 64"
  proof -
    have "count ?c mod 2 ^ 64 = (count c + unat n) mod 2 ^ 64" using count_add [of "total0 c" n "total1 c"] by (simp add: count_def)
    also have "\<dots> = (length m + unat n) mod 2 ^ 64"
      using assms(1) by (intro mod_add_cong refl) (simp add: absorbed_def)
    finally show ?thesis by (simp add: x)
  qed
  define c1 where "c1 = ?c"
  have buf: "length (buffer c1) = 64" "buffer c1 = buffer c" and st: "state c1 = absorb compress iv m"
    and rest: "take ?l (buffer c) = rest_of m" and more: "hash_context.more c1 = hash_context.more c"
    and cnt1: "count c1 mod 2 ^ 64 = (length m + length x) mod 2 ^ 64"
    using assms(1) cnt by (simp_all add: absorbed_def c1_def)
  have upd: "update c input n = do {
      (c, input, left) \<leftarrow> (if ?l \<noteq> 0 \<and> 64 - ?l \<le> length x then do {
          b \<leftarrow> copy_in (buffer c) ?l (take (64 - ?l) x);
          Some (process (c1\<lparr>buffer := b\<rparr>) b, drop (64 - ?l) x, 0) }
        else Some (c1, x, ?l));
      let (c, input) = blocks c input;
      copy_rest c left input }"
  proof -
    have le: "64 - (total0 c AND 0x3F) \<le> n \<longleftrightarrow> 64 - ?l \<le> length x" using fill x by (simp add: word_le_nat_alt)
    have z: "total0 c AND 0x3F = 0 \<longleftrightarrow> ?l = 0" using left by (metis unat_0 unsigned_eq_0_iff)
    have "\<not> length input < unat n" using assms(2) by simp
    then show ?thesis unfolding update using False
      by (simp add: Let_def x_def [symmetric] fill left le z blocks_eq c1_def cong: if_cong)
  qed
  have result: "update c input n = Some (c1\<lparr>state := st', buffer := b'\<rparr>) \<Longrightarrow> st' = absorb compress iv (m @ x) \<Longrightarrow>
      length b' = 64 \<Longrightarrow> take ((length m + length x) mod 64) b' = rest_of (m @ x) \<Longrightarrow> ?thesis" for st' b'
    using cnt1 more by (simp add: absorbed_def x_def [symmetric] count_def)
  show ?thesis
  proof (cases "?l \<noteq> 0 \<and> 64 - ?l \<le> length x")
    case True
    let ?f = "64 - ?l"
    let ?b = "rest_of m @ take ?f x"
    note a = absorb_completed [of m x]
    have b: "length ?b = 64" using True by (simp add: length_rest min_absorb2)
    have "copy_in (buffer c) ?l (take ?f x) = Some ?b" using True buf rest l by (simp add: copy_in_def min_absorb2)
    then have "update c input n = Some (c1\<lparr>state := absorb compress (compress (state c1) ?b) (drop ?f x),
        buffer := rest_of (drop ?f x) @ drop (length (rest_of (drop ?f x))) ?b\<rparr>)"
      using True b store_rest [of 0 "rest_of (drop ?f x)" "c1\<lparr>buffer := ?b, state := absorb compress (compress (state c1) ?b) (drop ?f x)\<rparr>"]
      by (simp add: upd blocks_eq process length_rest del: length_append drop_append)
    then show ?thesis
    proof (rule result)
      show "absorb compress (compress (state c1) ?b) (drop ?f x) = absorb compress iv (m @ x)"
        using a(1) [of compress iv] True by (simp only: st) simp
      have r: "length (rest_of (drop ?f x)) < 64" by (simp add: length_rest)
      show "length (rest_of (drop ?f x) @ drop (length (rest_of (drop ?f x))) ?b) = 64"
        unfolding length_append [of "rest_of (drop ?f x)"] length_drop [of _ ?b] b using r by simp
      show "take ((length m + length x) mod 64) (rest_of (drop ?f x) @ drop (length (rest_of (drop ?f x))) ?b) = rest_of (m @ x)"
        using a(2,3) True by (simp add: length_rest del: drop_append)
    qed
  next
    case F: False
    show ?thesis
    proof (cases "?l = 0")
      case True
      note a = absorb_aligned [OF True]
      have "update c input n = Some (c1\<lparr>state := absorb compress (state c1) x,
          buffer := rest_of x @ drop (length (rest_of x)) (buffer c)\<rparr>)"
        using True store_rest [of 0 "rest_of x" "c1\<lparr>state := absorb compress (state c1) x\<rparr>"] buf
        by (simp add: upd blocks_eq length_rest)
      then show ?thesis by (rule result) (use a(1) [of compress iv x] a(2,3) st buf in \<open>simp_all add: length_rest\<close>)
    next
      case False
      with F have lt: "?l + length x < 64" by simp
      note a = absorb_incomplete [OF this]
      have "length x < 64" using lt by simp
      then have "update c input n = Some (c1\<lparr>state := state c1, buffer := rest_of m @ x @ drop (?l + length x) (buffer c)\<rparr>)"
        using F store_rest [of ?l x c1] buf rest lt by (auto simp: upd blocks_eq)
      then show ?thesis by (rule result) (use a(1) [of compress iv] a(2,3) st buf lt in \<open>simp_all add: length_rest\<close>)
    qed
  qed
qed

lemma feed_absorbed:
  assumes "absorbed iv m c" and "\<forall>x\<in>set xs. length x < 2 ^ 32"
  shows "\<exists>c'. feed update c xs = Some c' \<and> absorbed iv (m @ concat xs) c' \<and> hash_context.more c' = hash_context.more c"
  using assms
proof (induction xs arbitrary: c m)
  case (Cons x xs)
  from Cons.prems have n: "unat (of_nat (length x) :: u32) = length x" by (simp add: unat_of_nat_u32)
  from update_absorbed [OF Cons.prems(1), of "of_nat (length x)" x] n obtain c1 where
    c1: "update c x (of_nat (length x)) = Some c1" "absorbed iv (m @ x) c1" "hash_context.more c1 = hash_context.more c" by auto
  from Cons.IH [OF c1(2)] Cons.prems(2) c1 show ?case by auto
qed simp

text \<open>
  The end of \<open>finish\<close>: the padding and the eight length bytes are absorbed like data.  The words \<open>high\<close> and \<open>low\<close> are the two
  halves of the length in bits.
\<close>

lemma finish_absorbed:
  assumes "absorbed iv m c" and "length m < 2 ^ 61"
    and lst: "lst = total0 c AND 0x3F"
    and padn: "padn = (if lst < 56 then 56 - lst else 120 - lst)"
    and high: "high = (drop_bit 29 (total0 c) OR push_bit 3 (total1 c))" and low: "low = push_bit 3 (total0 c)"
    and msglen: "msglen = enc (of_nat (unat high * 2 ^ 32 + unat low))" and "length msglen = 8"
  shows "\<exists>c1 c2. update c (0x80 # replicate 63 0) padn = Some c1 \<and> update c1 msglen 8 = Some c2
    \<and> absorbed iv (padded enc m) c2 \<and> hash_context.more c2 = hash_context.more c"
proof -
  have "unat (total0 c) < 2 ^ 32" "unat (total1 c) < 2 ^ 32"
    using unsigned_less [of "total0 c", where 'a = nat] unsigned_less [of "total1 c", where 'a = nat] by simp_all
  then have "count c < 2 ^ 64" by (simp add: count_def)
  with assms(1,2) have cnt: "count c = length m" by (simp add: absorbed_def)
  have len: "msglen = enc (8 * of_nat (length m))"
  proof -
    have "unat high * 2 ^ 32 + unat low = 8 * length m"
      unfolding high low using bit_length [of "total0 c" "total1 c"] cnt assms(2) by (simp only: count_def)
    then show ?thesis unfolding msglen by simp
  qed
  have l: "unat lst = length m mod 64" using absorbed_left [OF assms(1)] by (simp add: lst)
  have p: "unat padn = Suc (pad_zeros (length m))"
    using l by (auto simp: padn pad_zeros_def word_less_nat_alt unat_sub word_le_nat_alt)
  have "pad_zeros (length m) \<le> 63" by (auto simp: pad_zeros_def)
  then have t: "take (unat padn) (0x80 # replicate 63 0) = 0x80 # replicate (pad_zeros (length m)) (0 :: u8)" by (simp add: p)
  from update_absorbed [OF assms(1), of padn "0x80 # replicate 63 0"] p \<open>pad_zeros (length m) \<le> 63\<close> t obtain c1 where
    c1: "update c (0x80 # replicate 63 0) padn = Some c1" "absorbed iv (m @ 0x80 # replicate (pad_zeros (length m)) 0) c1"
      "hash_context.more c1 = hash_context.more c" by auto
  from update_absorbed [OF c1(2), of 8 msglen] assms(8) c1 show ?thesis by (auto simp: padded_def len [symmetric])
qed

end

end
