(* ===== verification/Utils_Sha2.thy ===== *)
theory Utils_Sha2
  imports Utils_Hash
begin

text \<open>
  SHA-256 and HMAC-SHA-256 of \<^verbatim>\<open>utils_sha2.c\<close> (with \<open>INFRA_SHA256_SMALLER\<close>, as the file defines it) and their correctness: the
  compression function is the one of FIPS 180-4, digesting data in any pieces is SHA-256 of
  their concatenation, and the keyed function is the HMAC of RFC 2104.
\<close>

unbundle bit_operations_syntax

section \<open>Bytes and words\<close>

definition get_uint32_be :: "bytes \<Rightarrow> nat \<Rightarrow> u32" where
  "get_uint32_be b i = push_bit 24 (ucast (b ! i)) OR push_bit 16 (ucast (b ! (i + 1))) OR push_bit 8 (ucast (b ! (i + 2)))
     OR ucast (b ! (i + 3))"

definition put_uint32_be :: "u32 \<Rightarrow> bytes" where
  "put_uint32_be n = [ucast (drop_bit 24 n), ucast (drop_bit 16 n), ucast (drop_bit 8 n), ucast n]"

section \<open>The compression function\<close>

type_synonym sha_state = "u32 \<times> u32 \<times> u32 \<times> u32 \<times> u32 \<times> u32 \<times> u32 \<times> u32"

record iot_sha256_context = "sha_state hash_context" +
  is224 :: int

definition K256 :: "u32 list" where
  "K256 = [0x428A2F98, 0x71374491, 0xB5C0FBCF, 0xE9B5DBA5, 0x3956C25B, 0x59F111F1, 0x923F82A4, 0xAB1C5ED5,
     0xD807AA98, 0x12835B01, 0x243185BE, 0x550C7DC3, 0x72BE5D74, 0x80DEB1FE, 0x9BDC06A7, 0xC19BF174,
     0xE49B69C1, 0xEFBE4786, 0x0FC19DC6, 0x240CA1CC, 0x2DE92C6F, 0x4A7484AA, 0x5CB0A9DC, 0x76F988DA,
     0x983E5152, 0xA831C66D, 0xB00327C8, 0xBF597FC7, 0xC6E00BF3, 0xD5A79147, 0x06CA6351, 0x14292967,
     0x27B70A85, 0x2E1B2138, 0x4D2C6DFC, 0x53380D13, 0x650A7354, 0x766A0ABB, 0x81C2C92E, 0x92722C85,
     0xA2BFE8A1, 0xA81A664B, 0xC24B8B70, 0xC76C51A3, 0xD192E819, 0xD6990624, 0xF40E3585, 0x106AA070,
     0x19A4C116, 0x1E376C08, 0x2748774C, 0x34B0BCB5, 0x391C0CB3, 0x4ED8AA4A, 0x5B9CCA4F, 0x682E6FF3,
     0x748F82EE, 0x78A5636F, 0x84C87814, 0x8CC70208, 0x90BEFFFA, 0xA4506CEB, 0xBEF9A3F7, 0xC67178F2]"

definition SHR :: "u32 \<Rightarrow> nat \<Rightarrow> u32" where "SHR x n = drop_bit n (x AND 0xFFFFFFFF)"
definition ROTR :: "u32 \<Rightarrow> nat \<Rightarrow> u32" where "ROTR x n = SHR x n OR push_bit (32 - n) x"
definition sha_S0 :: "u32 \<Rightarrow> u32" where "sha_S0 x = ROTR x 7 XOR ROTR x 18 XOR SHR x 3"
definition sha_S1 :: "u32 \<Rightarrow> u32" where "sha_S1 x = ROTR x 17 XOR ROTR x 19 XOR SHR x 10"
definition sha_S2 :: "u32 \<Rightarrow> u32" where "sha_S2 x = ROTR x 2 XOR ROTR x 13 XOR ROTR x 22"
definition sha_S3 :: "u32 \<Rightarrow> u32" where "sha_S3 x = ROTR x 6 XOR ROTR x 11 XOR ROTR x 25"
definition sha_F0 :: "u32 \<Rightarrow> u32 \<Rightarrow> u32 \<Rightarrow> u32" where "sha_F0 x y z = (x AND y) OR (z AND (x OR y))"
definition sha_F1 :: "u32 \<Rightarrow> u32 \<Rightarrow> u32 \<Rightarrow> u32" where "sha_F1 x y z = z XOR (x AND (y XOR z))"

text \<open>One iteration of the loop: the word \<open>W[i]\<close> is computed and appended, \<open>P\<close> is executed and the registers move on by one.\<close>

definition sha256_step :: "bytes \<Rightarrow> u32 list \<times> sha_state \<Rightarrow> nat \<Rightarrow> u32 list \<times> sha_state" where
  "sha256_step data = (\<lambda>(W, A0, A1, A2, A3, A4, A5, A6, A7) i.
     let w = (if i < 16 then get_uint32_be data (4 * i)
              else sha_S1 (W ! (i - 2)) + W ! (i - 7) + sha_S0 (W ! (i - 15)) + W ! (i - 16));
         temp1 = A7 + sha_S3 A4 + sha_F1 A4 A5 A6 + K256 ! i + w;
         temp2 = sha_S2 A0 + sha_F0 A0 A1 A2;
         A3 = A3 + temp1;
         A7 = temp1 + temp2
     in (W @ [w], A7, A0, A1, A2, A3, A4, A5, A6))"

definition utils_sha256_process :: "iot_sha256_context \<Rightarrow> bytes \<Rightarrow> iot_sha256_context" where
  "utils_sha256_process ctx data =
     ctx\<lparr>state := (case (state ctx, snd (foldl (sha256_step data) ([], state ctx) [0..<64])) of
       ((s0, s1, s2, s3, s4, s5, s6, s7), (A0, A1, A2, A3, A4, A5, A6, A7)) \<Rightarrow>
         (s0 + A0, s1 + A1, s2 + A2, s3 + A3, s4 + A4, s5 + A5, s6 + A6, s7 + A7))\<rparr>"

section \<open>Digesting\<close>

definition utils_sha256_init :: iot_sha256_context where
  "utils_sha256_init = \<lparr> total0 = 0, total1 = 0, state = (0, 0, 0, 0, 0, 0, 0, 0), buffer = replicate 64 0, is224 = 0 \<rparr>"

definition utils_sha256_free :: "iot_sha256_context option \<Rightarrow> iot_sha256_context option" where
  "utils_sha256_free ctx = (case ctx of None \<Rightarrow> None | Some ctx \<Rightarrow>
     Some (ctx\<lparr>total0 := 0, total1 := 0, state := (0, 0, 0, 0, 0, 0, 0, 0), buffer := map (\<lambda>_. 0) (buffer ctx), is224 := 0\<rparr>))"

definition sha256_iv :: sha_state where
  "sha256_iv = (0x6A09E667, 0xBB67AE85, 0x3C6EF372, 0xA54FF53A, 0x510E527F, 0x9B05688C, 0x1F83D9AB, 0x5BE0CD19)"

definition utils_sha256_starts :: "iot_sha256_context \<Rightarrow> iot_sha256_context" where
  "utils_sha256_starts ctx = ctx\<lparr>total0 := 0, total1 := 0, state := sha256_iv, is224 := 0\<rparr>"

function sha256_blocks :: "iot_sha256_context \<Rightarrow> bytes \<Rightarrow> iot_sha256_context \<times> bytes" where
  "sha256_blocks ctx input =
     (if 64 \<le> length input then sha256_blocks (utils_sha256_process ctx (take 64 input)) (drop 64 input) else (ctx, input))"
  by pat_completeness auto
termination by (relation "measure (\<lambda>(ctx, input). length input)") auto

declare sha256_blocks.simps [simp del]

definition utils_sha256_update :: "iot_sha256_context \<Rightarrow> bytes \<Rightarrow> u32 \<Rightarrow> iot_sha256_context option" where
  "utils_sha256_update ctx input ilen =
     (if unat ilen > length input then None
      else if ilen = 0 then Some ctx
      else do {
        let input = take (unat ilen) input;
        let left = total0 ctx AND 0x3F;
        let fill = 64 - left;
        let ctx = ctx\<lparr>total0 := total0 ctx + ilen\<rparr>;
        let ctx = (if total0 ctx < ilen then ctx\<lparr>total1 := total1 ctx + 1\<rparr> else ctx);
        (ctx, input, left) \<leftarrow> (if left \<noteq> 0 \<and> ilen \<ge> fill then do {
            b \<leftarrow> copy_in (buffer ctx) (unat left) (take (unat fill) input);
            let ctx = utils_sha256_process (ctx\<lparr>buffer := b\<rparr>) b;
            Some (ctx, drop (unat fill) input, 0) }
          else Some (ctx, input, left));
        let (ctx, input) = sha256_blocks ctx input;
        copy_rest ctx (unat left) input })"

definition sha256_padding :: bytes where
  "sha256_padding = 0x80 # replicate 63 0"

text \<open>The 32 bytes at \<open>output\<close> afterwards: a SHA-224 context would leave the last four as they were.\<close>

definition utils_sha256_finish :: "iot_sha256_context \<Rightarrow> bytes \<Rightarrow> (bytes \<times> iot_sha256_context) option" where
  "utils_sha256_finish ctx output = do {
     let high = drop_bit 29 (total0 ctx) OR push_bit 3 (total1 ctx);
     let low = push_bit 3 (total0 ctx);
     let msglen = put_uint32_be high @ put_uint32_be low;
     let last = total0 ctx AND 0x3F;
     let padn = (if last < 56 then 56 - last else 120 - last);
     ctx \<leftarrow> utils_sha256_update ctx sha256_padding padn;
     ctx \<leftarrow> utils_sha256_update ctx msglen 8;
     let (s0, s1, s2, s3, s4, s5, s6, s7) = state ctx;
     Some (concat (map put_uint32_be [s0, s1, s2, s3, s4, s5, s6])
       @ (if is224 ctx = 0 then put_uint32_be s7 else drop 28 output), ctx) }"

definition utils_sha256 :: "bytes \<Rightarrow> u32 \<Rightarrow> bytes \<Rightarrow> bytes option" where
  "utils_sha256 input ilen output = do {
     let ctx = utils_sha256_init;
     let ctx = utils_sha256_starts ctx;
     ctx \<leftarrow> utils_sha256_update ctx input ilen;
     (output, ctx) \<leftarrow> utils_sha256_finish ctx output;
     let freed = utils_sha256_free (Some ctx);
     Some output }"

text \<open>
  \<open>utils_hmac_sha256\<close>: \<open>None\<close> inside stands for a null pointer; the result is what \<open>output\<close> holds afterwards.
\<close>

definition utils_hmac_sha256 :: "bytes option \<Rightarrow> u32 \<Rightarrow> bytes option \<Rightarrow> u32 \<Rightarrow> bytes \<Rightarrow> bytes option" where
  "utils_hmac_sha256 msg msg_len key key_len output =
     (case (msg, key) of
        (Some msg, Some key) \<Rightarrow>
          if key_len > 64 then Some output
          else if unat key_len > length key then None
          else do {
            let pad = take (unat key_len) key @ replicate (64 - unat key_len) 0;
            let k_ipad = map (\<lambda>b. b XOR 0x36) pad;
            let k_opad = map (\<lambda>b. b XOR 0x5c) pad;
            let context = utils_sha256_starts utils_sha256_init;
            context \<leftarrow> utils_sha256_update context k_ipad 64;
            context \<leftarrow> utils_sha256_update context msg msg_len;
            (output, context) \<leftarrow> utils_sha256_finish context output;
            let context = utils_sha256_starts utils_sha256_init;
            context \<leftarrow> utils_sha256_update context k_opad 64;
            context \<leftarrow> utils_sha256_update context output 32;
            (output, context) \<leftarrow> utils_sha256_finish context output;
            Some output }
      | _ \<Rightarrow> Some output)"

section \<open>SHA-256 as in FIPS 180-4\<close>

definition Ch :: "u32 \<Rightarrow> u32 \<Rightarrow> u32 \<Rightarrow> u32" where "Ch x y z = (x AND y) XOR (NOT x AND z)"
definition Maj :: "u32 \<Rightarrow> u32 \<Rightarrow> u32 \<Rightarrow> u32" where "Maj x y z = (x AND y) XOR (x AND z) XOR (y AND z)"
definition Sigma0 :: "u32 \<Rightarrow> u32" where "Sigma0 x = word_rotr 2 x XOR word_rotr 13 x XOR word_rotr 22 x"
definition Sigma1 :: "u32 \<Rightarrow> u32" where "Sigma1 x = word_rotr 6 x XOR word_rotr 11 x XOR word_rotr 25 x"
definition sigma0 :: "u32 \<Rightarrow> u32" where "sigma0 x = word_rotr 7 x XOR word_rotr 18 x XOR drop_bit 3 x"
definition sigma1 :: "u32 \<Rightarrow> u32" where "sigma1 x = word_rotr 17 x XOR word_rotr 19 x XOR drop_bit 10 x"

text \<open>The message schedule.\<close>

function fips_W :: "bytes \<Rightarrow> nat \<Rightarrow> u32" where
  "fips_W M t = (if t < 16 then get_uint32_be M (4 * t)
     else sigma1 (fips_W M (t - 2)) + fips_W M (t - 7) + sigma0 (fips_W M (t - 15)) + fips_W M (t - 16))"
  by pat_completeness auto
termination by (relation "measure snd") auto

declare fips_W.simps [simp del]

definition fips_step :: "bytes \<Rightarrow> sha_state \<Rightarrow> nat \<Rightarrow> sha_state" where
  "fips_step M = (\<lambda>(a, b, c, d, e, f, g, h) t.
     let T1 = h + Sigma1 e + Ch e f g + K256 ! t + fips_W M t; T2 = Sigma0 a + Maj a b c
     in (T1 + T2, a, b, c, d + T1, e, f, g))"

definition fips_compress :: "sha_state \<Rightarrow> bytes \<Rightarrow> sha_state" where
  "fips_compress st M = (case (st, foldl (fips_step M) st [0..<64]) of
     ((s0, s1, s2, s3, s4, s5, s6, s7), (a, b, c, d, e, f, g, h)) \<Rightarrow>
       (s0 + a, s1 + b, s2 + c, s3 + d, s4 + e, s5 + f, s6 + g, s7 + h))"

definition be64 :: "64 word \<Rightarrow> bytes" where
  "be64 n = put_uint32_be (ucast (drop_bit 32 n)) @ put_uint32_be (ucast n)"

definition sha256_digest :: "bytes \<Rightarrow> bytes" where
  "sha256_digest m = (case absorb fips_compress sha256_iv (padded be64 m) of
     (a, b, c, d, e, f, g, h) \<Rightarrow> concat (map put_uint32_be [a, b, c, d, e, f, g, h]))"

text \<open>RFC 2104 with a block size of 64 bytes, for keys of at most one block.\<close>

definition hmac_sha256 :: "bytes \<Rightarrow> bytes \<Rightarrow> bytes" where
  "hmac_sha256 key m = (let pad = key @ replicate (64 - length key) 0 in
     sha256_digest (map (\<lambda>b. b XOR 0x5c) pad @ sha256_digest (map (\<lambda>b. b XOR 0x36) pad @ m)))"

section \<open>The compression function is the one of the standard\<close>

lemma and_all_u32: "x AND 0xFFFFFFFF = x" for x :: u32
proof -
  have "(0xFFFFFFFF :: u32) = - 1" by code_simp
  then show ?thesis by (simp only: and.right_neutral)
qed

lemma ROTR_rotr:
  assumes "0 < n" and "n < 32"
  shows "ROTR x n = word_rotr n x"
proof (rule bit_word_eqI)
  fix i :: nat assume "i < LENGTH(32)"
  then have i: "i < 32" by simp
  show "bit (ROTR x n) i = bit (word_rotr n x) i"
  proof (cases "i + n < 32")
    case True
    then show ?thesis using i assms by (auto simp: ROTR_def SHR_def and_all_u32 bit_simps ac_simps)
  next
    case False
    have "\<not> bit x (n + i)" using False bit_imp_le_length [of x "n + i"] by auto
    moreover have "(i + n) mod 32 = i + n - 32" using False i assms by (simp add: le_mod_geq)
    moreover have "i - (32 - n) = i + n - 32" using False assms by simp
    moreover have "32 - n \<le> i" using False by simp
    ultimately show ?thesis using False i assms by (simp add: ROTR_def SHR_def and_all_u32 bit_simps)
  qed
qed

lemma sha_functions:
  "sha_S0 = sigma0" "sha_S1 = sigma1" "sha_S2 = Sigma0" "sha_S3 = Sigma1" "sha_F0 = Maj" "sha_F1 = Ch"
  by (simp_all add: fun_eq_iff sha_S0_def sha_S1_def sha_S2_def sha_S3_def sigma0_def sigma1_def Sigma0_def Sigma1_def ROTR_rotr SHR_def and_all_u32)
    (auto simp: fun_eq_iff sha_F0_def sha_F1_def Maj_def Ch_def bit_simps intro!: bit_word_eqI)

lemma sha256_steps:
  "foldl (sha256_step M) ([], st) [0..<n] = (map (fips_W M) [0..<n], foldl (fips_step M) st [0..<n])"
proof (induction n)
  case (Suc n)
  have w: "(if n < 16 then get_uint32_be M (4 * n)
      else sigma1 (map (fips_W M) [0..<n] ! (n - 2)) + map (fips_W M) [0..<n] ! (n - 7)
        + sigma0 (map (fips_W M) [0..<n] ! (n - 15)) + map (fips_W M) [0..<n] ! (n - 16)) = fips_W M n"
    by (subst fips_W.simps) simp
  have "sha256_step M (map (fips_W M) [0..<n], r) n = (map (fips_W M) [0..<n] @ [fips_W M n], fips_step M r n)" for r
  proof -
    obtain a b c d e f g h where "r = (a, b, c, d, e, f, g, h)" by (metis surj_pair)
    then show ?thesis unfolding sha256_step_def fips_step_def sha_functions by (simp only: prod.case w Let_def)
  qed
  with Suc show ?case by simp
qed simp

lemma sha_process_compress: "utils_sha256_process c b = c\<lparr>state := fips_compress (state c) b\<rparr>"
  unfolding utils_sha256_process_def fips_compress_def sha256_steps snd_conv ..

interpretation sha256: block_hash utils_sha256_process sha256_blocks utils_sha256_update fips_compress
  by unfold_locales (rule sha_process_compress sha256_blocks.simps utils_sha256_update_def)+


section \<open>Digests\<close>

lemma be64_halves: "be64 (of_nat (unat h * 2 ^ 32 + unat l)) = put_uint32_be h @ put_uint32_be l"
  by (simp only: be64_def halves_u64)

lemma sha_length_put [simp]: "length (put_uint32_be n) = 4" by (simp add: put_uint32_be_def)

lemma length_digest [simp]: "length (sha256_digest m) = 32"
  by (simp add: sha256_digest_def split: prod.splits)

abbreviation "sha_absorbed m c \<equiv> sha256.absorbed sha256_iv m c \<and> is224 c = 0"

lemma more_is224: "hash_context.more c' = hash_context.more c \<Longrightarrow> is224 c' = is224 c"
  by (cases c; cases c') simp

lemma sha_starts_absorbed: "length (buffer ctx) = 64 \<Longrightarrow> sha_absorbed [] (utils_sha256_starts ctx)"
  by (simp add: sha256.absorbed_def utils_sha256_starts_def count_def)

lemma sha_update_absorbed:
  assumes "sha_absorbed m c" and "unat n \<le> length input"
  shows "\<exists>c'. utils_sha256_update c input n = Some c' \<and> sha_absorbed (m @ take (unat n) input) c'"
  using sha256.update_absorbed [of sha256_iv m c n input] assms more_is224 by fastforce

lemma sha_finish_digest:
  assumes "sha_absorbed m c" and "length m < 2 ^ 61"
  shows "\<exists>c'. utils_sha256_finish c out = Some (sha256_digest m, c')"
proof -
  from sha256.finish_absorbed [where enc = be64, OF conjunct1 [OF assms(1)] assms(2) refl refl refl refl be64_halves [symmetric]]
  obtain c1 c2 where "utils_sha256_update c (0x80 # replicate 63 0) (if total0 c AND 0x3F < 56 then 56 - (total0 c AND 0x3F) else 120 - (total0 c AND 0x3F)) = Some c1"
    "utils_sha256_update c1 (put_uint32_be (drop_bit 29 (total0 c) OR push_bit 3 (total1 c)) @ put_uint32_be (push_bit 3 (total0 c))) 8 = Some c2"
    "sha256.absorbed sha256_iv (padded be64 m) c2" "hash_context.more c2 = hash_context.more c"
    by auto
  moreover from more_is224 [OF this(4)] assms(1) have "is224 c2 = 0" by simp
  ultimately show ?thesis
    by (auto simp: utils_sha256_finish_def sha256_padding_def sha256_digest_def sha256.absorbed_def Let_def split: prod.splits)
qed

section \<open>Properties\<close>

text \<open>
  C25. SHA-256.  After \<open>utils_sha256_starts\<close> on a context with its 64-byte buffer, absorbing any pieces of data (each shorter than
  \<open>2\<^sup>3\<^sup>2\<close> bytes, together shorter than \<open>2\<^sup>6\<^sup>1\<close>) and finishing never leaves the buffer and gives the SHA-256 digest of
  FIPS 180-4 of their concatenation, however they are cut; the one-shot function gives the same digest.
\<close>
theorem sha256_streaming:
  assumes "length (buffer ctx) = 64" and "\<forall>x\<in>set xs. length x < 2 ^ 32" and "length (concat xs) < 2 ^ 61"
  shows "\<exists>c c'. feed utils_sha256_update (utils_sha256_starts ctx) xs = Some c
    \<and> utils_sha256_finish c out = Some (sha256_digest (concat xs), c')
    \<and> (\<forall>m. xs = [m] \<longrightarrow> utils_sha256 m (of_nat (length m)) out = Some (sha256_digest m))"
proof -
  note st = sha_starts_absorbed [OF assms(1)]
  from sha256.feed_absorbed [OF conjunct1 [OF st] assms(2)] obtain c where
    c: "feed utils_sha256_update (utils_sha256_starts ctx) xs = Some c" "sha_absorbed (concat xs) c"
    using st more_is224 by fastforce
  from sha_finish_digest [OF c(2) assms(3)] obtain c' where f: "utils_sha256_finish c out = Some (sha256_digest (concat xs), c')" ..
  have "utils_sha256 m (of_nat (length m)) out = Some (sha256_digest m)" if "xs = [m]" for m
  proof -
    have "length (buffer utils_sha256_init) = 64" by (simp add: utils_sha256_init_def)
    from sha_update_absorbed [OF sha_starts_absorbed [OF this], of "of_nat (length m)" m] assms(2) that obtain d where
      d: "utils_sha256_update (utils_sha256_starts utils_sha256_init) m (of_nat (length m)) = Some d" "sha_absorbed m d" by auto
    from sha_finish_digest [OF d(2), of out] assms(3) that d(1) show ?thesis by (auto simp: utils_sha256_def)
  qed
  with c f show ?thesis by blast
qed

theorem sha256_streaming_witness:
  "\<exists>c c'. feed utils_sha256_update (utils_sha256_starts utils_sha256_init) [str ''a'', str ''bc''] = Some c
    \<and> utils_sha256_finish c [] = Some (sha256_digest (str ''abc''), c')"
proof -
  have "length (buffer utils_sha256_init) = 64" by (simp add: utils_sha256_init_def)
  from sha256_streaming [OF this, of "[str ''a'', str ''bc'']"] show ?thesis by (auto simp: str_def)
qed

text \<open>
  C26. HMAC.  \<open>utils_hmac_sha256\<close> computes the HMAC of RFC 2104 with SHA-256 for every key of at most 64 bytes and every message that is
  readable and shorter than \<open>2\<^sup>3\<^sup>2\<close> bytes; a longer key, which the standard hashes first, leaves the output untouched, as does
  a null pointer.
\<close>
theorem hmac_sha256_correct:
  assumes "unat msg_len \<le> length msg" and "unat key_len \<le> length key"
  shows "utils_hmac_sha256 (Some msg) msg_len (Some key) key_len out =
      Some (if key_len \<le> 64 then hmac_sha256 (take (unat key_len) key) (take (unat msg_len) msg) else out)
    \<and> utils_hmac_sha256 None msg_len k key_len out = Some out
    \<and> utils_hmac_sha256 (Some msg) msg_len None key_len out = Some out"
proof (cases "key_len \<le> 64")
  case True
  let ?pad = "take (unat key_len) key @ replicate (64 - unat key_len) 0"
  let ?i = "map (\<lambda>b. b XOR 0x36) ?pad" and ?o = "map (\<lambda>b. b XOR 0x5c) ?pad" and ?m = "take (unat msg_len) msg"
  have k: "unat key_len \<le> 64" using True by (simp add: word_le_nat_alt)
  then have pad: "length ?i = 64" "length ?o = 64" using assms(2) by simp_all
  have ml: "length ?m < 2 ^ 32" using unsigned_less [of msg_len, where 'a = nat] by simp
  have "length (buffer utils_sha256_init) = 64" by (simp add: utils_sha256_init_def)
  note st = sha_starts_absorbed [OF this]
  from sha_update_absorbed [OF st, of 64 ?i] pad obtain c1 where
    c1: "utils_sha256_update (utils_sha256_starts utils_sha256_init) ?i 64 = Some c1" "sha_absorbed ?i c1"
    by (auto simp del: map_append)
  from sha_update_absorbed [OF c1(2) assms(1)] obtain c2 where
    c2: "utils_sha256_update c1 msg msg_len = Some c2" "sha_absorbed (?i @ ?m) c2" by blast
  have "length (?i @ ?m) < 2 ^ 61" using pad(1) ml unfolding length_append by simp
  from sha_finish_digest [OF c2(2) this] obtain c3 where c3: "utils_sha256_finish c2 out = Some (sha256_digest (?i @ ?m), c3)" ..
  from sha_update_absorbed [OF st, of 64 ?o] pad obtain d1 where
    d1: "utils_sha256_update (utils_sha256_starts utils_sha256_init) ?o 64 = Some d1" "sha_absorbed ?o d1"
    by (auto simp del: map_append)
  from sha_update_absorbed [OF d1(2), of 32 "sha256_digest (?i @ ?m)"] obtain d2 where
    d2: "utils_sha256_update d1 (sha256_digest (?i @ ?m)) 32 = Some d2" "sha_absorbed (?o @ sha256_digest (?i @ ?m)) d2"
    by (auto simp del: map_append)
  have "length (?o @ sha256_digest (?i @ ?m)) < 2 ^ 61" using pad(2) unfolding length_append by simp
  from sha_finish_digest [OF d2(2) this] obtain d3 where
    d3: "utils_sha256_finish d2 (sha256_digest (?i @ ?m)) = Some (sha256_digest (?o @ sha256_digest (?i @ ?m)), d3)" by blast
  have "hmac_sha256 (take (unat key_len) key) ?m = sha256_digest (?o @ sha256_digest (?i @ ?m))"
    using assms(2) by (simp add: hmac_sha256_def min_absorb2)
  moreover have "utils_hmac_sha256 (Some msg) msg_len (Some key) key_len out = Some (sha256_digest (?o @ sha256_digest (?i @ ?m)))"
    using True assms(2) c1(1) c2(1) c3 d1(1) d2(1) d3 by (simp add: utils_hmac_sha256_def Let_def leD del: map_append)
  ultimately show ?thesis using True by (simp add: utils_hmac_sha256_def del: map_append)
next
  case False
  then have "64 < key_len" by simp
  with False show ?thesis by (simp add: utils_hmac_sha256_def)
qed

theorem hmac_sha256_correct_witness:
  "utils_hmac_sha256 (Some (str ''abc'')) 3 (Some (str ''k'')) 1 [] = Some (hmac_sha256 (str ''k'') (str ''abc''))"
  using hmac_sha256_correct [of 3 "str ''abc''" 1 "str ''k''" "[]"] by (simp add: str_def)

end
