(* ===== verification/Mqtt_Codec.thy ===== *)
theory Mqtt_Codec
  imports Iot_Prelude
begin

text \<open>
  The wire primitives of \<^verbatim>\<open>mqtt_client_common.c\<close>: single bytes, big-endian 16-bit
  integers, length-prefixed strings and the variable-length \<^emph>\<open>remaining length\<close> field
  of the MQTT fixed header, with the size estimate \<open>get_mqtt_packet_len\<close> that guards every
  serialiser.  The locale \<open>wire_codec\<close> states what a writer and a reader owe each other;
  it is interpreted on the 16-bit and the remaining-length primitives of the source.
\<close>

section \<open>Definitions\<close>

abbreviation (input) MAX_NO_OF_REMAINING_LENGTH_BYTES :: nat
  where "MAX_NO_OF_REMAINING_LENGTH_BYTES \<equiv> 4"

fun mqtt_write_char :: "u8 \<Rightarrow> wcur \<Rightarrow> wcur option" where
  "mqtt_write_char c (buf, p) = do { buf \<leftarrow> poke buf p c; Some (buf, p + 1) }"

definition mqtt_write_uint_16 :: "u16 \<Rightarrow> wcur \<Rightarrow> wcur option" where
  "mqtt_write_uint_16 anInt cur = do {
     cur \<leftarrow> mqtt_write_char (ucast (anInt div 256)) cur;
     mqtt_write_char (ucast (anInt mod 256)) cur }"

definition mqtt_write_utf8_string :: "cstr \<Rightarrow> wcur \<Rightarrow> wcur option" where
  "mqtt_write_utf8_string string cur = do {
     cur \<leftarrow> mqtt_write_uint_16 (ucast (strlen string)) cur;
     write_bytes string cur }"

text \<open>
  The \<open>do \<dots> while (length > 0)\<close> loop; the cursor moves by the number of bytes the C
  function returns.
\<close>

function mqtt_write_packet_rem_len :: "u32 \<Rightarrow> wcur \<Rightarrow> wcur option" where
  "mqtt_write_packet_rem_len len cur =
     (let encodeByte = ucast (len mod 128) :: u8;
          len' = len div 128
      in do {
        cur \<leftarrow> mqtt_write_char (if len' > 0 then encodeByte OR 0x80 else encodeByte) cur;
        if len' > 0 then mqtt_write_packet_rem_len len' cur else Some cur })"
  by pat_completeness auto
termination
  by (relation "measure (\<lambda>(len, cur). unat len)") (auto intro: unat_div_128_less)

declare mqtt_write_packet_rem_len.simps [simp del]

definition get_mqtt_packet_len :: "size_t \<Rightarrow> size_t" where
  "get_mqtt_packet_len rem_len =
     (let rem_len = rem_len + 1 in
      if rem_len < 128 then rem_len + 1
      else if rem_len < 16384 then rem_len + 2
      else if rem_len < 2097151 then rem_len + 3
      else rem_len + 4)"

text \<open>
  \<open>bufchar\<close> copies \<open>count\<close> bytes from the file-scope \<open>bufptr\<close> into one character and
  returns \<open>count\<close>; the model threads \<open>bufptr\<close> explicitly.
\<close>

primrec bufchar_loop :: "nat \<Rightarrow> u8 \<Rightarrow> bytes \<Rightarrow> pos \<Rightarrow> (u8 \<times> pos) option" where
  "bufchar_loop 0 c buf bufptr = Some (c, bufptr)"
| "bufchar_loop (Suc n) c buf bufptr = do {
     c \<leftarrow> peek buf bufptr;
     bufchar_loop n c buf (bufptr + 1) }"

definition bufchar :: "u8 \<Rightarrow> u32 \<Rightarrow> bytes \<Rightarrow> pos \<Rightarrow> (u32 \<times> u8 \<times> pos) option" where
  "bufchar c count buf bufptr = do {
     (c, bufptr) \<leftarrow> bufchar_loop (unat count) c buf bufptr;
     Some (count, c, bufptr) }"

text \<open>
  \<open>_decode_packet_rem_len_from_buf_read\<close>, called with \<open>bufchar\<close>.  The result is the error
  code (\<open>Inl\<close>) or the decoded \<open>*value\<close> and \<open>*readBytesLen\<close>.  The loop reads at most
  four bytes, so the recursion is on the number of bytes still allowed.
\<close>

function decode_packet_rem_len_from_buf_read ::
  "nat \<Rightarrow> u32 \<Rightarrow> u32 \<Rightarrow> u8 \<Rightarrow> bytes \<Rightarrow> pos \<Rightarrow> (int + u32 \<times> u32) option" where
  "decode_packet_rem_len_from_buf_read len multiplier value c buf bufptr =
     (let len = len + 1 in
      if len > MAX_NO_OF_REMAINING_LENGTH_BYTES then Some (Inl ERR_MQTT_PACKET_READ_ERROR)
      else do {
        (getLen, c, bufptr) \<leftarrow> bufchar c 1 buf bufptr;
        if getLen \<noteq> 1 then Some (Inl FAILURE_RET)
        else
          let value = value + (ucast c AND 127) * multiplier;
              multiplier = multiplier * 128
          in if c AND 128 \<noteq> 0
             then decode_packet_rem_len_from_buf_read len multiplier value c buf bufptr
             else Some (Inr (value, of_nat len)) })"
  by pat_completeness auto
termination
  by (relation "measure (\<lambda>(len, m, v, c, buf, p). 4 - len)") auto

declare decode_packet_rem_len_from_buf_read.simps [simp del]

definition mqtt_read_packet_rem_len_form_buf ::
  "bytes \<Rightarrow> pos \<Rightarrow> (int + u32 \<times> u32) option" where
  "mqtt_read_packet_rem_len_form_buf buf p =
     decode_packet_rem_len_from_buf_read 0 1 0 0 buf p"

definition mqtt_read_uint16_t :: "bytes \<Rightarrow> pos \<Rightarrow> (u16 \<times> pos) option" where
  "mqtt_read_uint16_t buf p = do {
     firstByte \<leftarrow> peek buf p;
     secondByte \<leftarrow> peek buf (p + 1);
     Some (ucast secondByte + 256 * ucast firstByte, p + 2) }"

definition mqtt_read_char :: "bytes \<Rightarrow> pos \<Rightarrow> (u8 \<times> pos) option" where
  "mqtt_read_char buf p = do { c \<leftarrow> peek buf p; Some (c, p + 1) }"

section \<open>Reference encodings\<close>

text \<open>
  What MQTT 3.1.1 section 2.2.3 prescribes for the remaining length, on natural numbers,
  and the two-byte and string encodings of sections 1.5.2 and 1.5.3.
\<close>

fun rem_len_bytes :: "nat \<Rightarrow> bytes" where
  "rem_len_bytes n =
     (if n < 128 then [of_nat n] else of_nat (n mod 128 + 128) # rem_len_bytes (n div 128))"

declare rem_len_bytes.simps [simp del]

definition uint16_bytes :: "u16 \<Rightarrow> bytes" where
  "uint16_bytes n = [ucast (n div 256), ucast (n mod 256)]"

definition utf8_bytes :: "cstr \<Rightarrow> bytes" where
  "utf8_bytes s = uint16_bytes (of_nat (length s)) @ s"

section \<open>The contract between a writer and a reader\<close>

text \<open>
  A writer lays down the encoding of its value, and a reader placed at an encoding
  returns the value and stops right behind it.
\<close>

locale wire_codec =
  fixes enc :: "'a \<Rightarrow> bytes"
    and wr :: "'a \<Rightarrow> wcur \<Rightarrow> wcur option"
    and rd :: "bytes \<Rightarrow> pos \<Rightarrow> ('a \<times> pos) option"
    and ok :: "'a \<Rightarrow> bool"
  assumes wr_enc: "ok x \<Longrightarrow> wr x cur = write_bytes (enc x) cur"
    and rd_enc: "ok x \<Longrightarrow> rd (us @ enc x @ vs) (length us) = Some (x, length us + length (enc x))"
begin

lemma fits_iff:
  assumes "ok x"
  shows "(\<exists>cur'. wr x (buf, p) = Some cur') \<longleftrightarrow> p + length (enc x) \<le> length buf"
  using assms by (simp add: wr_enc write_bytes_total_iff del: split_paired_Ex)

lemma frame:
  assumes "ok x" and "wr x (buf, p) = Some (buf', p')"
  shows "length buf' = length buf \<and> p' = p + length (enc x)
       \<and> take p buf' = take p buf \<and> drop p' buf' = drop p' buf"
  using assms by (auto simp: wr_enc write_bytes_eq_Some_iff)

lemma read_back:
  assumes "ok x" and "wr x (buf, p) = Some (buf', p')"
  shows "rd buf' p = Some (x, p')"
proof -
  from assms have le: "p + length (enc x) \<le> length buf"
    and buf': "buf' = take p buf @ enc x @ drop (p + length (enc x)) buf"
    and p': "p' = p + length (enc x)"
    by (auto simp: wr_enc write_bytes_eq_Some_iff)
  from le have "length (take p buf) = p" by simp
  with rd_enc [OF assms(1), of "take p buf" "drop (p + length (enc x)) buf"]
  show ?thesis by (simp add: buf' p')
qed

lemma prefix_free:
  assumes "ok x" and "ok y" and "enc x @ us = enc y @ vs"
  shows "x = y \<and> us = vs"
proof -
  from rd_enc [OF assms(1), of "[]" us] rd_enc [OF assms(2), of "[]" vs] assms(3)
  have "x = y" by simp
  with assms(3) show ?thesis by simp
qed

end

section \<open>Writers are copies of the reference encodings\<close>

lemma mqtt_write_char_bytes [mem_simps]: "mqtt_write_char c cur = write_bytes [c] cur"
  by (cases cur) (auto simp: poke_bytes_single map_option_case write_bytes.simps split: option.splits)

lemma mqtt_write_uint_16_bytes [mem_simps]:
  "mqtt_write_uint_16 n cur = write_bytes (uint16_bytes n) cur"
  by (simp add: mqtt_write_uint_16_def uint16_bytes_def mem_simps)

lemma ucast_of_nat_u32_u16: "ucast (of_nat n :: u32) = (of_nat n :: u16)"
  by (simp add: unsigned_of_nat word_of_nat_eq_iff)

lemma mqtt_write_utf8_string_bytes [mem_simps]:
  "mqtt_write_utf8_string s cur = write_bytes (utf8_bytes s) cur"
  by (simp add: mqtt_write_utf8_string_def utf8_bytes_def strlen_def ucast_of_nat_u32_u16 mem_simps)

text \<open>The seven-bit digits of the remaining length, checked byte by byte.\<close>

lemma digit_bytes_all:
  "list_all (\<lambda>n. (of_nat n :: u8) OR 128 = of_nat (n + 128)
      \<and> (of_nat (n + 128) :: u8) AND 128 \<noteq> 0 \<and> (of_nat n :: u8) AND 128 = 0
      \<and> (ucast (of_nat (n + 128) :: u8) :: u32) AND 127 = of_nat n
      \<and> (ucast (of_nat n :: u8) :: u32) AND 127 = of_nat n) [0..<128]"
  by code_simp

lemma digit_bytes:
  assumes "n < 128"
  shows "(of_nat n :: u8) OR 128 = of_nat (n + 128)"
    and "(of_nat (n + 128) :: u8) AND 128 \<noteq> 0"
    and "(of_nat n :: u8) AND 128 = 0"
    and "(ucast (of_nat (n + 128) :: u8) :: u32) AND 127 = of_nat n"
    and "(ucast (of_nat n :: u8) :: u32) AND 127 = of_nat n"
  using digit_bytes_all assms unfolding list_all_iff by auto

lemma ucast_digit: "ucast (len mod 128 :: u32) = (of_nat (unat len mod 128) :: u8)"
proof -
  have "ucast (len mod 128) = (of_nat (unat (len mod 128)) :: u8)" by simp
  also have "unat (len mod 128) = unat len mod 128" by (simp add: unat_mod)
  finally show ?thesis .
qed

lemma mqtt_write_packet_rem_len_bytes [mem_simps]:
  "mqtt_write_packet_rem_len len cur = write_bytes (rem_len_bytes (unat len)) cur"
proof (induction len cur rule: mqtt_write_packet_rem_len.induct)
  case (1 len cur)
  show ?case
  proof (cases "0 < len div 128")
    case True
    then have big: "\<not> unat len < 128" by (simp add: word_less_nat_alt unat_div)
    have "mqtt_write_packet_rem_len len cur =
        (write_bytes [of_nat (unat len mod 128 + 128)] cur \<bind>
           (\<lambda>c. write_bytes (rem_len_bytes (unat len div 128)) c))"
      using True 1 [OF refl refl]
      by (subst mqtt_write_packet_rem_len.simps)
        (auto simp: Let_def ucast_digit digit_bytes(1) mqtt_write_char_bytes unat_div
          intro!: Option.bind_cong)
    with big show ?thesis
      by (simp add: write_bytes_append rem_len_bytes.simps [of "unat len"])
  next
    case False
    then have "unat len < 128"
      by (simp add: word_less_nat_alt unat_div div_eq_0_iff)
    then show ?thesis
      using False
      by (subst mqtt_write_packet_rem_len.simps)
        (simp add: Let_def ucast_digit mqtt_write_char_bytes rem_len_bytes.simps [of "unat len"])
  qed
qed

lemma length_uint16_bytes [simp]: "length (uint16_bytes n) = 2"
  by (simp add: uint16_bytes_def)

lemma length_utf8_bytes [simp]: "length (utf8_bytes s) = 2 + length s"
  by (simp add: utf8_bytes_def)

lemma length_rem_len_bytes:
  "length (rem_len_bytes n) =
     (if n < 128 then 1 else if n < 16384 then 2 else if n < 2097152 then 3
      else if n < 268435456 then 4 else 4 + length (rem_len_bytes (n div 268435456)))"
proof -
  have step: "length (rem_len_bytes m) = (if m < 128 then 1 else 1 + length (rem_len_bytes (m div 128)))" for m
    by (subst rem_len_bytes.simps) simp
  show ?thesis
    using step [of n] step [of "n div 128"] step [of "n div 16384"] step [of "n div 2097152"]
    by (auto simp: div_mult2_eq [symmetric])
qed

lemma rem_len_bytes_le_4: "length (rem_len_bytes n) \<le> 4 \<longleftrightarrow> n < 268435456"
proof -
  have "0 < length (rem_len_bytes m)" for m by (subst rem_len_bytes.simps) simp
  then show ?thesis by (subst length_rem_len_bytes) (auto simp: not_le)
qed

section \<open>Readers\<close>

lemma bufchar_1: "bufchar c 1 buf p = map_option (\<lambda>c. (1, c, p + 1)) (peek buf p)"
  by (cases "peek buf p") (simp_all add: bufchar_def)

lemma decode_rem_len_bytes:
  "len + length (rem_len_bytes n) \<le> 4 \<Longrightarrow>
   decode_packet_rem_len_from_buf_read len m v c (us @ rem_len_bytes n @ vs) (length us) =
     Some (Inr (v + of_nat n * m, of_nat (len + length (rem_len_bytes n))))"
proof (induction n arbitrary: len m v c us rule: rem_len_bytes.induct)
  case (1 n)
  show ?case
  proof (cases "n < 128")
    case True
    with 1(2) show ?thesis
      by (subst decode_packet_rem_len_from_buf_read.simps)
        (simp add: rem_len_bytes.simps [of n] bufchar_1 Let_def digit_bytes)
  next
    case False
    let ?d = "of_nat (n mod 128 + 128) :: u8"
    have enc: "rem_len_bytes n = ?d # rem_len_bytes (n div 128)"
      using False by (simp add: rem_len_bytes.simps [of n])
    have split: "(of_nat n :: u32) = of_nat (n mod 128) + of_nat (n div 128) * 128"
      by (metis mod_mult_div_eq of_nat_add of_nat_mult of_nat_numeral mult.commute)
    from 1(2) enc have le: "Suc len + length (rem_len_bytes (n div 128)) \<le> 4" by simp
    have "decode_packet_rem_len_from_buf_read len m v c (us @ rem_len_bytes n @ vs) (length us) =
       decode_packet_rem_len_from_buf_read (Suc len) (m * 128) (v + of_nat (n mod 128) * m) ?d
         ((us @ [?d]) @ rem_len_bytes (n div 128) @ vs) (length (us @ [?d]))"
      using le by (subst decode_packet_rem_len_from_buf_read.simps)
        (simp add: enc bufchar_1 Let_def digit_bytes del: of_nat_add)
    also have "\<dots> = Some (Inr (v + of_nat (n mod 128) * m + of_nat (n div 128) * (m * 128),
        of_nat (Suc len + length (rem_len_bytes (n div 128)))))"
      by (rule 1(1) [OF False le])
    finally show ?thesis by (simp add: enc split algebra_simps)
  qed
qed

lemma uint16_split: "ucast (ucast (n mod 256) :: u8) + 256 * ucast (ucast (n div 256) :: u8) = (n :: u16)"
proof -
  have "unat n div 256 < 256" using unsigned_less [of n, where 'a = nat] by simp
  then show ?thesis
    by (simp add: word_unat_eq_iff unat_word_ariths unsigned_ucast_eq take_bit_eq_mod unat_mod unat_div)
qed
lemma mqtt_read_uint16_bytes:
  "mqtt_read_uint16_t (us @ uint16_bytes n @ vs) (length us) = Some (n, length us + 2)"
  by (simp add: mqtt_read_uint16_t_def uint16_bytes_def nth_append peek_def uint16_split)
section \<open>The primitives satisfy the contract\<close>

text \<open>The remaining-length reader as a codec reader: value and next position.\<close>

definition read_rem_len :: "bytes \<Rightarrow> pos \<Rightarrow> (u32 \<times> pos) option" where
  "read_rem_len buf p =
     (case mqtt_read_packet_rem_len_form_buf buf p of
        Some (Inr (v, n)) \<Rightarrow> Some (v, p + unat n)
      | _ \<Rightarrow> None)"

interpretation u16_codec: wire_codec uint16_bytes mqtt_write_uint_16 mqtt_read_uint16_t "\<lambda>_. True"
  by unfold_locales (simp_all add: mem_simps mqtt_read_uint16_bytes)

interpretation rem_len_codec: wire_codec
  "\<lambda>len. rem_len_bytes (unat len)" mqtt_write_packet_rem_len read_rem_len
  "\<lambda>len. len < 268435456"
proof unfold_locales
  fix x :: u32 and cur
  show "mqtt_write_packet_rem_len x cur = write_bytes (rem_len_bytes (unat x)) cur"
    by (rule mqtt_write_packet_rem_len_bytes)
next
  fix x :: u32 and us vs
  assume "x < 268435456"
  then have le: "length (rem_len_bytes (unat x)) \<le> 4"
    by (simp add: rem_len_bytes_le_4 word_less_nat_alt)
  then show "read_rem_len (us @ rem_len_bytes (unat x) @ vs) (length us) =
      Some (x, length us + length (rem_len_bytes (unat x)))"
    by (simp add: read_rem_len_def mqtt_read_packet_rem_len_form_buf_def
        decode_rem_len_bytes unat_of_nat_u32)
qed

section \<open>Bounds of the decoder and of the size estimate\<close>

lemma and_127_le: "unat (x AND 127 :: u32) \<le> 127"
  using word_and_le1 [of x 127] by (simp add: word_le_nat_alt)

lemma decode_bounds:
  "decode_packet_rem_len_from_buf_read len (of_nat (128 ^ len)) v c buf p = Some (Inr (v', n)) \<Longrightarrow>
   unat v < 128 ^ len \<Longrightarrow> len \<le> 4 \<Longrightarrow>
   unat v' < 268435456 \<and> len < unat n \<and> unat n \<le> 4 \<and> p + (unat n - len) \<le> length buf"
proof (induction "4 - len" arbitrary: len v c p)
  case 0
  then show ?case by (subst (asm) decode_packet_rem_len_from_buf_read.simps) simp
next
  case (Suc k)
  then have len: "len < 4" by simp
  let ?m = "128 ^ len :: nat"
  let ?d = "buf ! p"
  let ?v = "v + (ucast ?d AND 127) * of_nat ?m :: u32"
  have pow: "?m * 128 \<le> 268435456"
    using power_increasing [of "Suc len" 4 "128 :: nat"] len by simp
  then have um: "unat (of_nat ?m :: u32) = ?m" by (intro unat_of_nat_u32) simp
  have d: "unat (ucast ?d AND 127 :: u32) \<le> 127" by (rule and_127_le)
  have "unat (ucast ?d AND 127 :: u32) * ?m \<le> 127 * ?m" using d by simp
  with pow Suc.prems(2) have small: "unat v + unat (ucast ?d AND 127 :: u32) * ?m < ?m * 128" by linarith
  have uv: "unat ?v = unat v + unat (ucast ?d AND 127 :: u32) * ?m"
    using small pow um by (simp add: unat_word_ariths del: of_nat_power)
  with small have vlt: "unat ?v < 128 ^ Suc len" by simp
  from Suc.prems(1) len have p: "p < length buf"
    and step: "(if ?d AND 128 \<noteq> 0
        then decode_packet_rem_len_from_buf_read (Suc len) (of_nat (128 ^ Suc len)) ?v ?d buf (Suc p)
        else Some (Inr (?v, of_nat (Suc len)))) = Some (Inr (v', n))"
    by (subst (asm) (1) decode_packet_rem_len_from_buf_read.simps,
        auto simp: bufchar_1 peek_def Let_def mult.commute split: if_splits)+
  show ?case
  proof (cases "?d AND 128 \<noteq> 0")
    case True
    with step have "decode_packet_rem_len_from_buf_read (Suc len) (of_nat (128 ^ Suc len)) ?v ?d buf (Suc p) =
        Some (Inr (v', n))" by simp
    moreover have "k = 4 - Suc len" "Suc len \<le> 4" using Suc.hyps(2) len by auto
    ultimately have "unat v' < 268435456 \<and> Suc len < unat n \<and> unat n \<le> 4
        \<and> Suc p + (unat n - Suc len) \<le> length buf"
      using Suc.hyps(1) vlt by blast
    then show ?thesis by auto
  next
    case False
    with step have "v' = ?v" "n = of_nat (Suc len)" by auto
    moreover from this len have "unat n = Suc len" by (simp del: of_nat_Suc)
    ultimately show ?thesis using len p vlt pow by simp
  qed
qed

lemma decode_total:
  "p + (4 - len) \<le> length buf \<Longrightarrow>
   \<exists>r. decode_packet_rem_len_from_buf_read len m v c buf p = Some r"
proof (induction "4 - len" arbitrary: len m v c p)
  case 0
  then show ?case by (subst decode_packet_rem_len_from_buf_read.simps) simp
next
  case (Suc k)
  then have "p < length buf" "k = 4 - Suc len" "Suc p + (4 - Suc len) \<le> length buf" by auto
  with Suc.hyps(1) show ?case
    by (subst decode_packet_rem_len_from_buf_read.simps) (auto simp: bufchar_1 Let_def)
qed

lemma decode_error:
  "decode_packet_rem_len_from_buf_read len m v c buf p = Some (Inl e) \<Longrightarrow>
   len \<le> 4 \<Longrightarrow>
   e = ERR_MQTT_PACKET_READ_ERROR \<and> (\<forall>i < 4 - len. buf ! (p + i) AND 128 \<noteq> 0)"
proof (induction "4 - len" arbitrary: len m v c p)
  case 0
  then show ?case by (subst (asm) decode_packet_rem_len_from_buf_read.simps) simp
next
  case (Suc k)
  from Suc.prems(1) Suc.hyps(2) obtain m' v' c' where p: "buf ! p AND 128 \<noteq> 0"
    and rest: "decode_packet_rem_len_from_buf_read (Suc len) m' v' c' buf (Suc p) = Some (Inl e)"
    by (subst (asm) decode_packet_rem_len_from_buf_read.simps)
      (auto simp: bufchar_1 peek_def Let_def split: if_splits)
  have e: "e = ERR_MQTT_PACKET_READ_ERROR" and
    tl: "\<forall>i < 4 - Suc len. buf ! (Suc p + i) AND 128 \<noteq> 0"
    using Suc.hyps(1) [OF _ rest] Suc.hyps(2) by auto
  show ?case
  proof (intro conjI allI impI)
    fix i assume "i < 4 - len"
    with p tl show "buf ! (p + i) AND 128 \<noteq> 0" by (cases i) auto
  qed (rule e)
qed

lemma rem_len_value_bound:
  assumes "mqtt_read_packet_rem_len_form_buf buf p = Some (Inr (v, n))"
  shows "unat v < 268435456 \<and> 1 \<le> unat n \<and> unat n \<le> 4 \<and> p + unat n \<le> length buf"
  using decode_bounds [of 0 0 0 buf p v n] assms
  by (simp add: mqtt_read_packet_rem_len_form_buf_def)

lemma rem_len_total:
  assumes "p + 4 \<le> length buf"
  shows "\<exists>r. mqtt_read_packet_rem_len_form_buf buf p = Some r"
  using decode_total [of p 0 buf] assms by (simp add: mqtt_read_packet_rem_len_form_buf_def)

lemma get_mqtt_packet_len_unat:
  assumes "unat n < 268435456"
  shows "unat (get_mqtt_packet_len n) =
    1 + length (rem_len_bytes (unat n)) + unat n
    + (if unat n \<in> {127, 16383, 2097150, 2097151} then 1 else 0)"
proof -
  have 1: "unat (n + 1) = unat n + 1"
    using assms by (simp add: unat_word_ariths)
  have k: "unat (k + n) = unat k + unat n" if "unat k \<le> 5" for k :: u32
    using that assms by (simp add: unat_word_ariths)
  show ?thesis
    using assms
    by (subst length_rem_len_bytes)
      (auto simp: get_mqtt_packet_len_def Let_def word_less_nat_alt 1 k add.commute [of n])
qed

section \<open>Properties\<close>

text \<open>
  C19. The remaining length round-trips through the wire.  For every length the MQTT
  protocol allows (below \<open>2\<^sup>2\<^sup>8\<close>), what \<open>mqtt_write_packet_rem_len\<close> wrote at a position
  is read back from there by \<open>mqtt_read_packet_rem_len_form_buf\<close> with the same value and the
  same number of bytes, which is between one and four; no other byte of the buffer moved.
\<close>
theorem rem_len_roundtrip:
  assumes "len < 268435456"
    and "mqtt_write_packet_rem_len len (buf, p) = Some (buf', p')"
  shows "mqtt_read_packet_rem_len_form_buf buf' p = Some (Inr (len, of_nat (p' - p)))
    \<and> p + 1 \<le> p' \<and> p' \<le> p + 4 \<and> length buf' = length buf
    \<and> take p buf' = take p buf \<and> drop p' buf' = drop p' buf"
proof -
  from rem_len_codec.read_back [OF assms] obtain n where
    n: "mqtt_read_packet_rem_len_form_buf buf' p = Some (Inr (len, n))" and p': "p' = p + unat n"
    by (auto simp: read_rem_len_def split: option.splits sum.splits)
  from rem_len_value_bound [OF n] n p' rem_len_codec.frame [OF assms] show ?thesis by auto
qed

theorem rem_len_roundtrip_witness:
  "\<exists>buf'. mqtt_write_packet_rem_len 321 ([0, 0, 0, 0, 0], 1) = Some (buf', 3)
     \<and> mqtt_read_packet_rem_len_form_buf buf' 1 = Some (Inr (321, 2))"
proof -
  have w: "mqtt_write_packet_rem_len 321 ([0, 0, 0, 0, 0], 1) = Some ([0, 193, 2, 0, 0], 3)"
    by code_simp
  from rem_len_roundtrip [OF _ w] have
    "mqtt_read_packet_rem_len_form_buf [0, 193, 2, 0, 0] 1 = Some (Inr (321, 2))" by simp
  with w show ?thesis by blast
qed

text \<open>
  The remaining-length decoder is total and bounded: given four readable bytes it
  always returns; an accepted length is below \<open>2\<^sup>2\<^sup>8\<close>, takes one to four bytes and none of
  them lies outside the buffer; and the only error it reports is
  \<open>ERR_MQTT_PACKET_READ_ERROR\<close>, exactly for four continuation bytes in a row.
\<close>
theorem rem_len_decoder_bounds:
  assumes "p + 4 \<le> length buf"
  shows "case mqtt_read_packet_rem_len_form_buf buf p of
      None \<Rightarrow> False
    | Some (Inl e) \<Rightarrow> e = ERR_MQTT_PACKET_READ_ERROR \<and> (\<forall>i < 4. buf ! (p + i) AND 128 \<noteq> 0)
    | Some (Inr (v, n)) \<Rightarrow> unat v < 2 ^ 28 \<and> 1 \<le> unat n \<and> unat n \<le> 4 \<and> p + unat n \<le> length buf"
proof -
  from rem_len_total [OF assms] obtain r where r: "mqtt_read_packet_rem_len_form_buf buf p = Some r" ..
  show ?thesis
  proof (cases r)
    case (Inl e)
    with r decode_error [of 0 1 0 0 buf p e] show ?thesis
      by (simp add: mqtt_read_packet_rem_len_form_buf_def)
  next
    case (Inr vn)
    with r rem_len_value_bound show ?thesis by (cases vn) auto
  qed
qed

theorem rem_len_decoder_bounds_witness:
  "case mqtt_read_packet_rem_len_form_buf [255, 255, 255, 255] 0 of
      None \<Rightarrow> False
    | Some (Inl e) \<Rightarrow> e = ERR_MQTT_PACKET_READ_ERROR \<and> (\<forall>i < 4. [255, 255, 255, 255 :: u8] ! (0 + i) AND 128 \<noteq> 0)
    | Some (Inr (v, n)) \<Rightarrow> unat v < 2 ^ 28 \<and> 1 \<le> unat n \<and> unat n \<le> 4 \<and> 0 + unat n \<le> length [255, 255, 255, 255 :: u8]"
  by (rule rem_len_decoder_bounds) simp

text \<open>
  The size estimate that guards the serialisers never falls short: for every
  remaining length of the protocol, \<open>get_mqtt_packet_len\<close> is the exact size of the packet (one
  header byte, the remaining-length field, the rest), except for the lengths 127, 16383,
  2097150 and 2097151, where the estimate is one byte too large, because the code compares
  after adding the header byte.
\<close>
theorem packet_len_estimate:
  assumes "unat n < 2 ^ 28"
  shows "unat (get_mqtt_packet_len n) =
    1 + length (rem_len_bytes (unat n)) + unat n
    + (if unat n \<in> {127, 16383, 2097150, 2097151} then 1 else 0)"
  using assms by (intro get_mqtt_packet_len_unat) simp

theorem packet_len_estimate_witness:
  "unat (get_mqtt_packet_len 127) = 1 + length (rem_len_bytes 127) + 127 + 1"
  using packet_len_estimate [of 127] by simp

end
