(* ===== verification/Mqtt_Packets.thy ===== *)
theory Mqtt_Packets
  imports Mqtt_Codec
begin

text \<open>
  The MQTT control packets of the SDK: the fixed-header byte, the serialisers of
  CONNECT, PUBLISH, SUBSCRIBE, UNSUBSCRIBE, the acknowledgements and the packets
  without payload, and the deserialisers of CONNACK, PUBLISH, PUBACK/PUBREC, SUBACK and
  UNSUBACK.  A serialiser returns the error code (\<open>Inl\<close>, the buffer is not touched) or the
  new buffer and \<open>*serialized_len\<close> (\<open>Inr\<close>); the outer \<open>option\<close> is \<open>None\<close> when an access
  leaves a buffer.  Pointer arguments that every caller passes as the address of an array or of a
  local are not optional; the others keep their NULL check.
\<close>

section \<open>The fixed header\<close>

datatype MessageTypes =
    RESERVED | CONNECT | CONNACK | PUBLISH | PUBACK | PUBREC | PUBREL | PUBCOMP
  | SUBSCRIBE | SUBACK | UNSUBSCRIBE | UNSUBACK | PINGREQ | PINGRESP | DISCONNECT

text \<open>The numbers the enumeration gives its members.\<close>

primrec msg_code :: "MessageTypes \<Rightarrow> u8" where
  "msg_code RESERVED = 0"
| "msg_code CONNECT = 1"
| "msg_code CONNACK = 2"
| "msg_code PUBLISH = 3"
| "msg_code PUBACK = 4"
| "msg_code PUBREC = 5"
| "msg_code PUBREL = 6"
| "msg_code PUBCOMP = 7"
| "msg_code SUBSCRIBE = 8"
| "msg_code SUBACK = 9"
| "msg_code UNSUBSCRIBE = 10"
| "msg_code UNSUBACK = 11"
| "msg_code PINGREQ = 12"
| "msg_code PINGRESP = 13"
| "msg_code DISCONNECT = 14"

text \<open>
  The enumeration \<open>QoS\<close>.  The code also casts arbitrary bytes to it (the two header bits,
  the SUBACK return codes); those values are \<open>QOS_OTHER\<close>.
\<close>

datatype QoS = QOS0 | QOS1 | QOS2 | QOS_OTHER u8

definition qos_of_u8 :: "u8 \<Rightarrow> QoS" where
  "qos_of_u8 b = (if b = 0 then QOS0 else if b = 1 then QOS1 else if b = 2 then QOS2 else QOS_OTHER b)"

primrec u8_of_qos :: "QoS \<Rightarrow> u8" where
  "u8_of_qos QOS0 = 0"
| "u8_of_qos QOS1 = 1"
| "u8_of_qos QOS2 = 2"
| "u8_of_qos (QOS_OTHER b) = b"

abbreviation (input) MQTT_HEADER_TYPE_SHIFT :: nat where "MQTT_HEADER_TYPE_SHIFT \<equiv> 4"
abbreviation (input) MQTT_HEADER_TYPE_MASK :: u8 where "MQTT_HEADER_TYPE_MASK \<equiv> 0xF0"
abbreviation (input) MQTT_HEADER_DUP_SHIFT :: nat where "MQTT_HEADER_DUP_SHIFT \<equiv> 3"
abbreviation (input) MQTT_HEADER_DUP_MASK :: u8 where "MQTT_HEADER_DUP_MASK \<equiv> 0x08"
abbreviation (input) MQTT_HEADER_QOS_SHIFT :: nat where "MQTT_HEADER_QOS_SHIFT \<equiv> 1"
abbreviation (input) MQTT_HEADER_QOS_MASK :: u8 where "MQTT_HEADER_QOS_MASK \<equiv> 0x06"
abbreviation (input) MQTT_HEADER_RETAIN_MASK :: u8 where "MQTT_HEADER_RETAIN_MASK \<equiv> 0x01"

text \<open>The four field reads that the deserialisers repeat.\<close>

definition header_type :: "u8 \<Rightarrow> u8" where
  "header_type header = drop_bit MQTT_HEADER_TYPE_SHIFT (header AND MQTT_HEADER_TYPE_MASK)"

definition header_dup :: "u8 \<Rightarrow> u8" where
  "header_dup header = drop_bit MQTT_HEADER_DUP_SHIFT (header AND MQTT_HEADER_DUP_MASK)"

definition header_qos :: "u8 \<Rightarrow> QoS" where
  "header_qos header = qos_of_u8 (drop_bit MQTT_HEADER_QOS_SHIFT (header AND MQTT_HEADER_QOS_MASK))"

definition header_retained :: "u8 \<Rightarrow> u8" where
  "header_retained header = header AND MQTT_HEADER_RETAIN_MASK"

definition mqtt_init_packet_header ::
  "MessageTypes \<Rightarrow> QoS \<Rightarrow> u8 \<Rightarrow> u8 \<Rightarrow> int + u8" where
  "mqtt_init_packet_header message_type Qos dup retained =
     (if message_type = RESERVED then Inl ERR_MQTT_UNKNOWN_ERROR
      else
        let type = msg_code message_type;
            qos = (case Qos of QOS0 \<Rightarrow> 0 | QOS1 \<Rightarrow> 1 | QOS2 \<Rightarrow> 2 | QOS_OTHER _ \<Rightarrow> 0)
        in Inr ((push_bit MQTT_HEADER_TYPE_SHIFT type AND MQTT_HEADER_TYPE_MASK)
             OR (push_bit MQTT_HEADER_DUP_SHIFT dup AND MQTT_HEADER_DUP_MASK)
             OR (push_bit MQTT_HEADER_QOS_SHIFT qos AND MQTT_HEADER_QOS_MASK)
             OR (retained AND MQTT_HEADER_RETAIN_MASK)))"

section \<open>Serialisers\<close>

definition serialize_packet_with_zero_payload ::
  "bytes \<Rightarrow> size_t \<Rightarrow> MessageTypes \<Rightarrow> (int + bytes \<times> u32) option" where
  "serialize_packet_with_zero_payload buf buf_len packetType =
     (if 4 > buf_len then Some (Inl ERR_MQTT_BUFFER_TOO_SHORT)
      else case mqtt_init_packet_header packetType QOS0 0 0 of
        Inl ret \<Rightarrow> Some (Inl ret)
      | Inr header \<Rightarrow> do {
          cur \<leftarrow> mqtt_write_char header (buf, 0);
          (buf, ptr) \<leftarrow> mqtt_write_packet_rem_len 0 cur;
          Some (Inr (buf, of_nat ptr)) })"

definition serialize_pub_ack_packet ::
  "bytes \<Rightarrow> size_t \<Rightarrow> MessageTypes \<Rightarrow> u8 \<Rightarrow> u16 \<Rightarrow> (int + bytes \<times> u32) option" where
  "serialize_pub_ack_packet buf buf_len packet_type dup packet_id =
     (let requestQoS = (if packet_type = PUBREL then QOS1 else QOS0);
          ret = mqtt_init_packet_header packet_type requestQoS dup 0
      in if 4 > buf_len then Some (Inl ERR_MQTT_BUFFER_TOO_SHORT)
      else case ret of
        Inl ret \<Rightarrow> Some (Inl ret)
      | Inr header \<Rightarrow> do {
          cur \<leftarrow> mqtt_write_char header (buf, 0);
          cur \<leftarrow> mqtt_write_packet_rem_len 2 cur;
          (buf, ptr) \<leftarrow> mqtt_write_uint_16 packet_id cur;
          Some (Inr (buf, of_nat ptr)) })"

definition get_publish_packet_len :: "QoS \<Rightarrow> cstr \<Rightarrow> size_t \<Rightarrow> u32" where
  "get_publish_packet_len qos topicName payload_len =
     (let len = 2 + strlen topicName + payload_len
      in if u8_of_qos qos > 0 then len + 2 else len)"

text \<open>
  \<open>payload\<close> is the object the payload pointer refers to, if it is not NULL; \<open>memcpy\<close> of
  more bytes than the object has is out of bounds.
\<close>

definition serialize_publish_packet ::
  "bytes \<Rightarrow> size_t \<Rightarrow> u8 \<Rightarrow> QoS \<Rightarrow> u8 \<Rightarrow> u16 \<Rightarrow> cstr \<Rightarrow> bytes option \<Rightarrow> size_t
     \<Rightarrow> (int + bytes \<times> u32) option" where
  "serialize_publish_packet buf buf_len dup qos retained packet_id topicName payload payload_len =
     (case payload of
        None \<Rightarrow> Some (Inl ERR_PARAM_INVALID)
      | Some payload \<Rightarrow>
          let rem_len = get_publish_packet_len qos topicName payload_len in
          if get_mqtt_packet_len rem_len > buf_len then Some (Inl ERR_MQTT_BUFFER_TOO_SHORT)
          else case mqtt_init_packet_header PUBLISH qos dup retained of
            Inl ret \<Rightarrow> Some (Inl ret)
          | Inr header \<Rightarrow> do {
              cur \<leftarrow> mqtt_write_char header (buf, 0);
              cur \<leftarrow> mqtt_write_packet_rem_len rem_len cur;
              cur \<leftarrow> mqtt_write_utf8_string topicName cur;
              cur \<leftarrow> (if u8_of_qos qos > 0 then mqtt_write_uint_16 packet_id cur else Some cur);
              (buf, ptr) \<leftarrow> (if unat payload_len \<le> length payload
                            then write_bytes (take (unat payload_len) payload) cur else None);
              Some (Inr (buf, of_nat ptr)) })"

text \<open>
  SUBSCRIBE and UNSUBSCRIBE.  Both take \<open>count\<close> and \<open>char **topicFilters\<close>, and both
  add the loop index to the first string (\<open>*topicFilters + i\<close>): iteration \<open>i\<close> sees the
  suffix of the first filter from its \<open>i\<close>-th byte, not the \<open>i\<close>-th filter, so the models take
  the first filter.  The callers pass \<open>count = 1\<close>.  The loops recurse on the iterations left.
\<close>

primrec sub_rem_len_loop :: "nat \<Rightarrow> size_t \<Rightarrow> nat \<Rightarrow> cstr \<Rightarrow> size_t \<Rightarrow> size_t option" where
  "sub_rem_len_loop 0 extra i topicFilter len = Some len"
| "sub_rem_len_loop (Suc n) extra i topicFilter len =
     (if i \<le> length topicFilter
      then sub_rem_len_loop n extra (i + 1) topicFilter
             (len + (2 + strlen (drop i topicFilter) + extra))
      else None)"

definition get_subscribe_packet_rem_len :: "u32 \<Rightarrow> cstr \<Rightarrow> u32 option" where
  "get_subscribe_packet_rem_len count topicFilter =
     sub_rem_len_loop (unat count) 1 0 topicFilter 2"

definition get_unsubscribe_packet_rem_len :: "u32 \<Rightarrow> cstr \<Rightarrow> u32 option" where
  "get_unsubscribe_packet_rem_len count topicFilter =
     sub_rem_len_loop (unat count) 0 0 topicFilter 2"

primrec subscribe_payload_loop :: "nat \<Rightarrow> nat \<Rightarrow> cstr \<Rightarrow> QoS list \<Rightarrow> wcur \<Rightarrow> wcur option" where
  "subscribe_payload_loop 0 i topicFilter requestedQoSs cur = Some cur"
| "subscribe_payload_loop (Suc n) i topicFilter requestedQoSs cur =
     (if i \<le> length topicFilter \<and> i < length requestedQoSs then do {
        cur \<leftarrow> mqtt_write_utf8_string (drop i topicFilter) cur;
        cur \<leftarrow> mqtt_write_char (u8_of_qos (requestedQoSs ! i)) cur;
        subscribe_payload_loop n (i + 1) topicFilter requestedQoSs cur }
      else None)"

definition serialize_subscribe_packet ::
  "bytes \<Rightarrow> size_t \<Rightarrow> u8 \<Rightarrow> u16 \<Rightarrow> u32 \<Rightarrow> cstr \<Rightarrow> QoS list \<Rightarrow> (int + bytes \<times> u32) option" where
  "serialize_subscribe_packet buf buf_len dup packet_id count topicFilter requestedQoSs = do {
     rem_len \<leftarrow> get_subscribe_packet_rem_len count topicFilter;
     if get_mqtt_packet_len rem_len > buf_len then Some (Inl ERR_MQTT_BUFFER_TOO_SHORT)
     else case mqtt_init_packet_header SUBSCRIBE QOS1 dup 0 of
       Inl ret \<Rightarrow> Some (Inl ret)
     | Inr header \<Rightarrow> do {
         cur \<leftarrow> mqtt_write_char header (buf, 0);
         cur \<leftarrow> mqtt_write_packet_rem_len rem_len cur;
         cur \<leftarrow> mqtt_write_uint_16 packet_id cur;
         (buf, ptr) \<leftarrow> subscribe_payload_loop (unat count) 0 topicFilter requestedQoSs cur;
         Some (Inr (buf, of_nat ptr)) } }"

primrec unsubscribe_payload_loop :: "nat \<Rightarrow> nat \<Rightarrow> cstr \<Rightarrow> wcur \<Rightarrow> wcur option" where
  "unsubscribe_payload_loop 0 i topicFilter cur = Some cur"
| "unsubscribe_payload_loop (Suc n) i topicFilter cur =
     (if i \<le> length topicFilter then do {
        cur \<leftarrow> mqtt_write_utf8_string (drop i topicFilter) cur;
        unsubscribe_payload_loop n (i + 1) topicFilter cur }
      else None)"

definition serialize_unsubscribe_packet ::
  "bytes \<Rightarrow> size_t \<Rightarrow> u8 \<Rightarrow> u16 \<Rightarrow> u32 \<Rightarrow> cstr \<Rightarrow> (int + bytes \<times> u32) option" where
  "serialize_unsubscribe_packet buf buf_len dup packet_id count topicFilter = do {
     rem_len \<leftarrow> get_unsubscribe_packet_rem_len count topicFilter;
     if get_mqtt_packet_len rem_len > buf_len then Some (Inl ERR_MQTT_BUFFER_TOO_SHORT)
     else case mqtt_init_packet_header UNSUBSCRIBE QOS1 dup 0 of
       Inl ret \<Rightarrow> Some (Inl ret)
     | Inr header \<Rightarrow> do {
         cur \<leftarrow> mqtt_write_char header (buf, 0);
         cur \<leftarrow> mqtt_write_packet_rem_len rem_len cur;
         cur \<leftarrow> mqtt_write_uint_16 packet_id cur;
         (buf, ptr) \<leftarrow> unsubscribe_payload_loop (unat count) 0 topicFilter cur;
         Some (Inr (buf, of_nat ptr)) } }"

text \<open>CONNECT.\<close>

record MQTTConnectParams =
  client_id :: "cstr option"
  username :: "cstr option"
  password :: "cstr option"
  mqtt_version :: u8
  keep_alive_interval :: u16
  clean_session :: u8
  auto_connect_enable :: u8

definition opt_string_len :: "cstr option \<Rightarrow> size_t" where
  "opt_string_len s = (case s of None \<Rightarrow> 0 | Some s \<Rightarrow> strlen s + 2)"

text \<open>\<open>client_id\<close> has passed the caller's NULL check.\<close>

definition get_packet_connect_rem_len :: "cstr \<Rightarrow> MQTTConnectParams \<Rightarrow> u32" where
  "get_packet_connect_rem_len cid options =
     (let len = (if mqtt_version options = 3 then 12
                 else if mqtt_version options = 4 then 10 else 0);
          len = len + (strlen cid + 2);
          len = len + opt_string_len (username options)
      in len + opt_string_len (password options))"

definition connect_flags :: "MQTTConnectParams \<Rightarrow> u8" where
  "connect_flags options =
     (if clean_session options \<noteq> 0 then 0x02 else 0)
     OR (if username options \<noteq> None then 0x80 else 0)
     OR 0x40"

definition serialize_connect_packet ::
  "bytes \<Rightarrow> size_t \<Rightarrow> MQTTConnectParams \<Rightarrow> (int + bytes \<times> u32) option" where
  "serialize_connect_packet buf buf_len options =
     (case client_id options of
        None \<Rightarrow> Some (Inl ERR_PARAM_INVALID)
      | Some cid \<Rightarrow>
          if cid = [] then Some (Inl ERR_PARAM_INVALID)
          else
            let rem_len = get_packet_connect_rem_len cid options in
            if get_mqtt_packet_len rem_len > buf_len then Some (Inl ERR_MQTT_BUFFER_TOO_SHORT)
            else case mqtt_init_packet_header CONNECT QOS0 0 0 of
              Inl ret \<Rightarrow> Some (Inl ret)
            | Inr header \<Rightarrow> do {
                cur \<leftarrow> mqtt_write_char header (buf, 0);
                cur \<leftarrow> mqtt_write_packet_rem_len rem_len cur;
                cur \<leftarrow> mqtt_write_utf8_string
                        (if mqtt_version options = 4 then str ''MQTT'' else str ''MQIsdp'') cur;
                cur \<leftarrow> mqtt_write_char (if mqtt_version options = 4 then 4 else 3) cur;
                cur \<leftarrow> mqtt_write_char (connect_flags options) cur;
                cur \<leftarrow> mqtt_write_uint_16 (keep_alive_interval options) cur;
                cur \<leftarrow> mqtt_write_utf8_string cid cur;
                cur \<leftarrow> (case username options of
                          Some u \<Rightarrow> if connect_flags options AND 0x80 \<noteq> 0
                                    then mqtt_write_utf8_string u cur else Some cur
                        | None \<Rightarrow> Some cur);
                (buf, ptr) \<leftarrow> (case password options of
                          Some w \<Rightarrow> if connect_flags options AND 0x40 \<noteq> 0
                                    then mqtt_write_utf8_string w cur else Some cur
                        | None \<Rightarrow> Some cur);
                Some (Inr (buf, of_nat ptr)) })"

section \<open>Deserialisers\<close>

definition deserialize_ack_packet ::
  "bytes \<Rightarrow> size_t \<Rightarrow> (int + u8 \<times> u8 \<times> u16) option" where
  "deserialize_ack_packet buf buf_len =
     (if 4 > buf_len then Some (Inl ERR_MQTT_BUFFER_TOO_SHORT)
      else do {
        (header, curdata) \<leftarrow> mqtt_read_char buf 0;
        r \<leftarrow> mqtt_read_packet_rem_len_form_buf buf curdata;
        case r of
          Inl ret \<Rightarrow> Some (Inl ret)
        | Inr (decodedLen, readBytesLen) \<Rightarrow>
            let curdata = curdata + unat readBytesLen;
                enddata = curdata + unat decodedLen
            in if enddata - curdata < 2 then Some (Inl FAILURE_RET)
            else do {
              (packet_id, curdata) \<leftarrow> mqtt_read_uint16_t buf curdata;
              if enddata - curdata \<ge> 1 then do {
                (ack_code, curdata) \<leftarrow> mqtt_read_char buf curdata;
                if ack_code \<noteq> 0 then Some (Inl FAILURE_RET)
                else Some (Inr (header_type header, header_dup header, packet_id)) }
              else Some (Inr (header_type header, header_dup header, packet_id)) } })"

text \<open>
  The SUBACK payload loop: \<open>n\<close> bytes are left before \<open>enddata\<close>; \<open>grantedQoSs\<close> is the
  caller's array, and a store behind its end is out of bounds.
\<close>

primrec suback_loop ::
  "nat \<Rightarrow> bytes \<Rightarrow> pos \<Rightarrow> u32 \<Rightarrow> u32 \<Rightarrow> QoS list \<Rightarrow> (int + u32 \<times> QoS list) option" where
  "suback_loop 0 buf curdata max_count count grantedQoSs = Some (Inr (count, grantedQoSs))"
| "suback_loop (Suc n) buf curdata max_count count grantedQoSs =
     (if count > max_count then Some (Inl FAILURE_RET)
      else do {
        (c, curdata) \<leftarrow> mqtt_read_char buf curdata;
        if unat count < length grantedQoSs
        then suback_loop n buf curdata max_count (count + 1)
               (grantedQoSs[unat count := qos_of_u8 c])
        else None })"

definition deserialize_suback_packet ::
  "u32 \<Rightarrow> QoS list \<Rightarrow> bytes \<Rightarrow> size_t \<Rightarrow> (int + u16 \<times> u32 \<times> QoS list) option" where
  "deserialize_suback_packet max_count grantedQoSs buf buf_len =
     (if 5 > buf_len then Some (Inl ERR_MQTT_BUFFER_TOO_SHORT)
      else do {
        (header, curdata) \<leftarrow> mqtt_read_char buf 0;
        if header_type header \<noteq> msg_code SUBACK then Some (Inl FAILURE_RET)
        else do {
          r \<leftarrow> mqtt_read_packet_rem_len_form_buf buf curdata;
          case r of
            Inl ret \<Rightarrow> Some (Inl ret)
          | Inr (decodedLen, readBytesLen) \<Rightarrow>
              let curdata = curdata + unat readBytesLen;
                  enddata = curdata + unat decodedLen
              in if enddata - curdata < 2 then Some (Inl FAILURE_RET)
              else do {
                (packet_id, curdata) \<leftarrow> mqtt_read_uint16_t buf curdata;
                l \<leftarrow> suback_loop (enddata - curdata) buf curdata max_count 0 grantedQoSs;
                case l of
                  Inl ret \<Rightarrow> Some (Inl ret)
                | Inr (count, qs) \<Rightarrow> Some (Inr (packet_id, count, qs)) } } })"

definition deserialize_unsuback_packet :: "bytes \<Rightarrow> size_t \<Rightarrow> (int + u16) option" where
  "deserialize_unsuback_packet buf buf_len = do {
     r \<leftarrow> deserialize_ack_packet buf buf_len;
     case r of
       Inl ret \<Rightarrow> Some (Inl ret)
     | Inr (type, dup, packet_id) \<Rightarrow>
         if msg_code UNSUBACK \<noteq> type then Some (Inl FAILURE_RET) else Some (Inr packet_id) }"

text \<open>
  CONNACK: the session-present flag and the SDK's code for the return code byte.
\<close>

definition connack_return_code :: "u8 \<Rightarrow> int" where
  "connack_return_code c =
     (if c = 0 then MQTT_CONNECTION_ACCEPTED
      else if c = 1 then ERR_MQTT_CONNACK_UNACCEPTABLE_PROTOCOL_VERSION
      else if c = 2 then ERR_MQTT_CONNACK_IDENTIFIER_REJECTED
      else if c = 3 then ERR_MQTT_CONNACK_SERVER_UNAVAILABLE
      else if c = 4 then ERR_MQTT_CONNACK_BAD_USERDATA
      else if c = 5 then ERR_MQTT_CONNACK_NOT_AUTHORIZED
      else ERR_MQTT_CONNACK_UNKNOWN)"

definition deserialize_connack_packet :: "bytes \<Rightarrow> size_t \<Rightarrow> (int + u8 \<times> int) option" where
  "deserialize_connack_packet buf buflen =
     (if 4 > buflen then Some (Inl ERR_MQTT_BUFFER_TOO_SHORT)
      else do {
        (header, curdata) \<leftarrow> mqtt_read_char buf 0;
        if msg_code CONNACK \<noteq> header_type header then Some (Inl FAILURE_RET)
        else do {
          r \<leftarrow> mqtt_read_packet_rem_len_form_buf buf curdata;
          case r of
            Inl ret \<Rightarrow> Some (Inl ret)
          | Inr (decodedLen, readBytesLen) \<Rightarrow>
              let curdata = curdata + unat readBytesLen;
                  enddata = curdata + unat decodedLen
              in if enddata - curdata \<noteq> 2 then Some (Inl FAILURE_RET)
              else do {
                (flags, curdata) \<leftarrow> mqtt_read_char buf curdata;
                (rc, curdata) \<leftarrow> mqtt_read_char buf curdata;
                Some (Inr (flags AND 1, connack_return_code rc)) } } })"

abbreviation (input) UIOT_MQTT_TX_BUF_LEN :: nat where "UIOT_MQTT_TX_BUF_LEN \<equiv> 2048"
abbreviation (input) UIOT_MQTT_RX_BUF_LEN :: nat where "UIOT_MQTT_RX_BUF_LEN \<equiv> 2048"

text \<open>The string pointer, its length and the new read pointer, or failure.\<close>

definition read_string_with_len :: "bytes \<Rightarrow> pos \<Rightarrow> pos \<Rightarrow> (pos \<times> u16 \<times> pos) option option" where
  "read_string_with_len buf p enddata =
     (if int enddata - int p > 1 then do {
        (stringLen, p) \<leftarrow> mqtt_read_uint16_t buf p;
        if unat stringLen > UIOT_MQTT_RX_BUF_LEN then Some None
        else if p + unat stringLen \<le> enddata then Some (Some (p, stringLen, p + unat stringLen))
        else Some None }
      else Some None)"

text \<open>
  The out-parameters of \<open>deserialize_publish_packet\<close>.  Topic and payload are pointers into
  the buffer; the packet identifier is written for QoS 1 and above only.
\<close>

record publish_fields =
  pub_dup :: u8
  pub_qos :: QoS
  pub_retained :: u8
  pub_packet_id :: "u16 option"
  pub_topic :: pos
  pub_topic_len :: u16
  pub_payload :: pos
  pub_payload_len :: size_t

definition read_publish_id :: "QoS \<Rightarrow> bytes \<Rightarrow> pos \<Rightarrow> (u16 option \<times> pos) option" where
  "read_publish_id qos buf curdata =
     (if qos \<noteq> QOS0 then do {
        (packet_id, curdata) \<leftarrow> mqtt_read_uint16_t buf curdata;
        Some (Some packet_id, curdata) }
      else Some (None, curdata))"

definition deserialize_publish_packet :: "bytes \<Rightarrow> size_t \<Rightarrow> (int + publish_fields) option" where
  "deserialize_publish_packet buf buf_len =
     (if 4 > buf_len then Some (Inl ERR_MQTT_BUFFER_TOO_SHORT)
      else do {
        (header, curdata) \<leftarrow> mqtt_read_char buf 0;
        if msg_code PUBLISH \<noteq> header_type header then Some (Inl FAILURE_RET)
        else do {
          r \<leftarrow> mqtt_read_packet_rem_len_form_buf buf curdata;
          case r of
            Inl ret \<Rightarrow> Some (Inl ret)
          | Inr (decodedLen, readBytesLen) \<Rightarrow>
              let curdata = curdata + unat readBytesLen;
                  enddata = curdata + unat decodedLen
              in do {
                s \<leftarrow> read_string_with_len buf curdata enddata;
                case s of
                  None \<Rightarrow> Some (Inl FAILURE_RET)
                | Some (topic, topic_len, curdata) \<Rightarrow>
                    if 0 > int enddata - int curdata then Some (Inl FAILURE_RET)
                    else do {
                    (packet_id, curdata) \<leftarrow> read_publish_id (header_qos header) buf curdata;
                    Some (Inr \<lparr> pub_dup = header_dup header, pub_qos = header_qos header,
                      pub_retained = header_retained header, pub_packet_id = packet_id,
                      pub_topic = topic, pub_topic_len = topic_len, pub_payload = curdata,
                      pub_payload_len = of_int (int enddata - int curdata) \<rparr>) } } } })"

section \<open>The header byte\<close>

lemma u8_flag_bits_all:
  "list_all (\<lambda>n. (push_bit 3 (of_nat n :: u8)) AND 8 = (if odd n then 8 else 0)
      \<and> (of_nat n :: u8) AND 1 = (if odd n then 1 else 0)) [0..<256]"
  by code_simp

lemma u8_flag_bits:
  fixes b :: u8
  shows "push_bit 3 b AND 8 = (if odd (unat b) then 8 else 0)"
    and "b AND 1 = (if odd (unat b) then 1 else 0)"
proof -
  have "unat b < 256" using unsigned_less [of b, where 'a = nat] by simp
  then have "unat b \<in> set [0..<256]" by simp
  with u8_flag_bits_all have
    "push_bit 3 (of_nat (unat b) :: u8) AND 8 = (if odd (unat b) then 8 else 0)
     \<and> (of_nat (unat b) :: u8) AND 1 = (if odd (unat b) then 1 else 0)"
    unfolding list_all_iff by (rule bspec)
  then show "push_bit 3 b AND 8 = (if odd (unat b) then 8 else 0)"
    and "b AND 1 = (if odd (unat b) then 1 else 0)" by simp_all
qed

primrec qos_wire :: "QoS \<Rightarrow> QoS" where
  "qos_wire QOS0 = QOS0" | "qos_wire QOS1 = QOS1" | "qos_wire QOS2 = QOS2" | "qos_wire (QOS_OTHER _) = QOS0"

lemma header_fields:
  assumes "mqtt_init_packet_header t q dup retained = Inr h"
  shows "header_type h = msg_code t" and "header_dup h = dup AND 1"
    and "header_qos h = qos_wire q" and "header_retained h = retained AND 1"
proof -
  from assms have t: "t \<noteq> RESERVED" by (auto simp: mqtt_init_packet_header_def)
  note defs = mqtt_init_packet_header_def Let_def u8_flag_bits
    header_type_def header_dup_def header_qos_def header_retained_def qos_of_u8_def
  from assms t show "header_type h = msg_code t"
    by (cases t; cases q; cases "odd (unat dup)"; cases "odd (unat retained)") (auto simp: defs)
  from assms t show "header_dup h = dup AND 1"
    by (cases t; cases q; cases "odd (unat dup)"; cases "odd (unat retained)") (auto simp: defs)
  from assms t show "header_qos h = qos_wire q"
    by (cases t; cases q; cases "odd (unat dup)"; cases "odd (unat retained)") (auto simp: defs)
  from assms t show "header_retained h = retained AND 1"
    by (cases t; cases q; cases "odd (unat dup)"; cases "odd (unat retained)") (auto simp: defs)
qed

section \<open>Serialisers refine a reference packet format\<close>

text \<open>A control packet: header byte, remaining length of the body, body.\<close>

definition mqtt_packet :: "u8 \<Rightarrow> bytes \<Rightarrow> bytes" where
  "mqtt_packet h body = h # rem_len_bytes (length body) @ body"

text \<open>The size the guard compares with the buffer, on natural numbers.\<close>

definition packet_estimate :: "nat \<Rightarrow> nat" where
  "packet_estimate n = unat (get_mqtt_packet_len (of_nat n))"

lemma packet_estimate_ge:
  assumes "length body < 2 ^ 28"
  shows "length (mqtt_packet h body) \<le> packet_estimate (length body)"
    and "packet_estimate (length body) \<le> length (mqtt_packet h body) + 1"
  using get_mqtt_packet_len_unat [of "of_nat (length body)"] assms
  by (simp_all add: packet_estimate_def mqtt_packet_def)

text \<open>
  The contract the serialisers share: a guard on the estimated size, then one run of
  writes that lays the packet down from the start of the buffer.
\<close>

locale packet_serialiser =
  fixes ser :: "bytes \<Rightarrow> size_t \<Rightarrow> 'p \<Rightarrow> (int + bytes \<times> u32) option"
    and hdr :: "'p \<Rightarrow> u8"
    and body :: "'p \<Rightarrow> bytes"
    and ok :: "'p \<Rightarrow> bool"
  assumes small: "ok x \<Longrightarrow> length (body x) < 2 ^ 28"
    and ser_eq: "ok x \<Longrightarrow> ser buf buf_len x =
      (if buf_len < get_mqtt_packet_len (of_nat (length (body x)))
       then Some (Inl ERR_MQTT_BUFFER_TOO_SHORT)
       else write_bytes (mqtt_packet (hdr x) (body x)) (buf, 0) \<bind> (\<lambda>(b, p). Some (Inr (b, of_nat p))))"
begin

lemma too_short:
  assumes "ok x" and "unat buf_len < packet_estimate (length (body x))"
  shows "ser buf buf_len x = Some (Inl ERR_MQTT_BUFFER_TOO_SHORT)"
  using assms by (simp add: ser_eq packet_estimate_def word_less_nat_alt)

lemma written:
  assumes "ok x" and "packet_estimate (length (body x)) \<le> unat buf_len"
    and "unat buf_len \<le> length buf"
  shows "ser buf buf_len x =
    Some (Inr (mqtt_packet (hdr x) (body x) @ drop (length (mqtt_packet (hdr x) (body x))) buf,
               of_nat (length (mqtt_packet (hdr x) (body x)))))"
proof -
  let ?pk = "mqtt_packet (hdr x) (body x)"
  from packet_estimate_ge(1) [OF small [OF assms(1)], of "hdr x"] assms(2,3)
  have "length ?pk \<le> length buf" by simp
  with assms(2) show ?thesis
    by (simp add: ser_eq [OF assms(1)] packet_estimate_def word_less_nat_alt write_bytes_Some)
qed

lemma memory_safe:
  assumes "ok x" and "unat buf_len \<le> length buf"
  shows "\<exists>r. ser buf buf_len x = Some r"
  using too_short [OF assms(1), of buf_len buf] written [OF assms(1) _ assms(2)]
  by (metis not_less)

lemma exact:
  assumes "ok x" and "unat buf_len \<le> length buf"
  shows "ser buf buf_len x = Some (
    if unat buf_len < packet_estimate (length (body x)) then Inl ERR_MQTT_BUFFER_TOO_SHORT
    else Inr (mqtt_packet (hdr x) (body x) @ drop (length (mqtt_packet (hdr x) (body x))) buf,
              of_nat (length (mqtt_packet (hdr x) (body x)))))"
  using too_short [OF assms(1), of buf_len buf] written [OF assms(1) _ assms(2)] by simp

lemma length_kept:
  assumes "ok x" and "ser buf buf_len x = Some (Inr (buf', n))"
  shows "length buf' = length buf"
  using assms by (auto simp: ser_eq bind_Some_iff write_bytes_eq_Some_iff split: if_splits)

end

text \<open>Bodies of the packets the client sends.\<close>

definition publish_body :: "QoS \<Rightarrow> u16 \<Rightarrow> cstr \<Rightarrow> bytes \<Rightarrow> bytes" where
  "publish_body qos packet_id topic payload =
     utf8_bytes topic @ (if u8_of_qos qos > 0 then uint16_bytes packet_id else []) @ payload"

definition subscribe_body :: "u16 \<Rightarrow> cstr \<Rightarrow> QoS \<Rightarrow> bytes" where
  "subscribe_body packet_id topic qos = uint16_bytes packet_id @ utf8_bytes topic @ [u8_of_qos qos]"

definition unsubscribe_body :: "u16 \<Rightarrow> cstr \<Rightarrow> bytes" where
  "unsubscribe_body packet_id topic = uint16_bytes packet_id @ utf8_bytes topic"

definition header_byte :: "MessageTypes \<Rightarrow> QoS \<Rightarrow> u8 \<Rightarrow> u8 \<Rightarrow> u8" where
  "header_byte t q dup retained =
     (case mqtt_init_packet_header t q dup retained of Inl _ \<Rightarrow> 0 | Inr h \<Rightarrow> h)"

lemma init_header_byte:
  "t \<noteq> RESERVED \<Longrightarrow> mqtt_init_packet_header t q dup retained = Inr (header_byte t q dup retained)"
  by (simp add: header_byte_def mqtt_init_packet_header_def Let_def)

text \<open>The tuple a PUBLISH packet carries, and the serialiser called on it.\<close>

type_synonym publish_args = "u8 \<times> QoS \<times> u8 \<times> u16 \<times> cstr \<times> bytes"

fun serialize_publish_args :: "bytes \<Rightarrow> size_t \<Rightarrow> publish_args \<Rightarrow> (int + bytes \<times> u32) option" where
  "serialize_publish_args buf buf_len (dup, qos, retained, packet_id, topic, payload) =
     serialize_publish_packet buf buf_len dup qos retained packet_id topic (Some payload)
       (of_nat (length payload))"

interpretation publish_ser: packet_serialiser serialize_publish_args
  "\<lambda>(dup, qos, retained, packet_id, topic, payload). header_byte PUBLISH qos dup retained"
  "\<lambda>(dup, qos, retained, packet_id, topic, payload). publish_body qos packet_id topic payload"
  "\<lambda>(dup, qos, retained, packet_id, topic, payload). length topic + length payload + 4 < 2 ^ 28"
proof (unfold_locales, goal_cases)
  case (1 x)
  then show ?case by (cases x) (auto simp: publish_body_def)
next
  case (2 x buf buf_len)
  obtain dup qos retained packet_id topic payload where
    x: "x = (dup, qos, retained, packet_id, topic, payload)" by (cases x) auto
  from 2 have sm: "length topic + length payload + 4 < 268435456" by (simp add: x)
  have rem: "get_publish_packet_len qos topic (of_nat (length payload)) =
      of_nat (length (publish_body qos packet_id topic payload))"
    by (simp add: get_publish_packet_len_def publish_body_def strlen_def Let_def algebra_simps)
  have un: "unat (of_nat (length (publish_body qos packet_id topic payload)) :: u32) =
      length (publish_body qos packet_id topic payload)"
    using sm by (intro unat_of_nat_u32) (simp add: publish_body_def)
  show ?case
    using sm rem un
    by (cases "u8_of_qos qos > 0")
      (simp_all add: x serialize_publish_packet_def init_header_byte mem_simps
        mqtt_packet_def publish_body_def Let_def)
qed

text \<open>SUBSCRIBE and UNSUBSCRIBE of one topic filter, as the client calls them.\<close>

type_synonym subscribe_args = "u8 \<times> u16 \<times> cstr \<times> QoS"
type_synonym unsubscribe_args = "u8 \<times> u16 \<times> cstr"

fun serialize_subscribe_args :: "bytes \<Rightarrow> size_t \<Rightarrow> subscribe_args \<Rightarrow> (int + bytes \<times> u32) option" where
  "serialize_subscribe_args buf buf_len (dup, packet_id, topic, qos) =
     serialize_subscribe_packet buf buf_len dup packet_id 1 topic [qos]"

fun serialize_unsubscribe_args :: "bytes \<Rightarrow> size_t \<Rightarrow> unsubscribe_args \<Rightarrow> (int + bytes \<times> u32) option" where
  "serialize_unsubscribe_args buf buf_len (dup, packet_id, topic) =
     serialize_unsubscribe_packet buf buf_len dup packet_id 1 topic"

interpretation subscribe_ser: packet_serialiser serialize_subscribe_args
  "\<lambda>(dup, packet_id, topic, qos). header_byte SUBSCRIBE QOS1 dup 0"
  "\<lambda>(dup, packet_id, topic, qos). subscribe_body packet_id topic qos"
  "\<lambda>(dup, packet_id, topic, qos). length topic + 5 < 2 ^ 28"
proof (unfold_locales, goal_cases)
  case (1 x)
  then show ?case by (cases x) (auto simp: subscribe_body_def)
next
  case (2 x buf buf_len)
  obtain dup packet_id topic qos where x: "x = (dup, packet_id, topic, qos)" by (cases x) auto
  from 2 have sm: "length topic + 5 < 268435456" by (simp add: x)
  have rem: "get_subscribe_packet_rem_len 1 topic = Some (of_nat (length (subscribe_body packet_id topic qos)))"
    by (simp add: get_subscribe_packet_rem_len_def subscribe_body_def strlen_def algebra_simps)
  have un: "unat (of_nat (length (subscribe_body packet_id topic qos)) :: u32) =
      length (subscribe_body packet_id topic qos)"
    using sm by (intro unat_of_nat_u32) (simp add: subscribe_body_def)
  show ?case
    using rem un
    by (simp add: x serialize_subscribe_packet_def init_header_byte mem_simps
        mqtt_packet_def subscribe_body_def Let_def)
qed

interpretation unsubscribe_ser: packet_serialiser serialize_unsubscribe_args
  "\<lambda>(dup, packet_id, topic). header_byte UNSUBSCRIBE QOS1 dup 0"
  "\<lambda>(dup, packet_id, topic). unsubscribe_body packet_id topic"
  "\<lambda>(dup, packet_id, topic). length topic + 5 < 2 ^ 28"
proof (unfold_locales, goal_cases)
  case (1 x)
  then show ?case by (cases x) (auto simp: unsubscribe_body_def)
next
  case (2 x buf buf_len)
  obtain dup packet_id topic where x: "x = (dup, packet_id, topic)" by (cases x) auto
  from 2 have sm: "length topic + 5 < 268435456" by (simp add: x)
  have rem: "get_unsubscribe_packet_rem_len 1 topic = Some (of_nat (length (unsubscribe_body packet_id topic)))"
    by (simp add: get_unsubscribe_packet_rem_len_def unsubscribe_body_def strlen_def algebra_simps)
  have un: "unat (of_nat (length (unsubscribe_body packet_id topic)) :: u32) =
      length (unsubscribe_body packet_id topic)"
    using sm by (intro unat_of_nat_u32) (simp add: unsubscribe_body_def)
  show ?case
    using rem un
    by (simp add: x serialize_unsubscribe_packet_def init_header_byte mem_simps
        mqtt_packet_def unsubscribe_body_def Let_def)
qed

text \<open>CONNECT, for the two protocol versions the size computation knows.\<close>

definition opt_utf8 :: "cstr option \<Rightarrow> bytes" where
  "opt_utf8 s = (case s of None \<Rightarrow> [] | Some s \<Rightarrow> utf8_bytes s)"

definition connect_body :: "MQTTConnectParams \<Rightarrow> bytes" where
  "connect_body options =
     utf8_bytes (if mqtt_version options = 4 then str ''MQTT'' else str ''MQIsdp'')
     @ [if mqtt_version options = 4 then 4 else 3, connect_flags options]
     @ uint16_bytes (keep_alive_interval options)
     @ opt_utf8 (client_id options) @ opt_utf8 (username options) @ opt_utf8 (password options)"

definition connect_ok :: "MQTTConnectParams \<Rightarrow> bool" where
  "connect_ok options \<longleftrightarrow>
     mqtt_version options \<in> {3, 4} \<and> client_id options \<notin> {None, Some []}
     \<and> length (connect_body options) < 2 ^ 28"

lemma connect_flag_user: "connect_flags options AND 0x80 \<noteq> 0 \<longleftrightarrow> username options \<noteq> None"
  by (simp add: connect_flags_def)

lemma connect_flag_password: "connect_flags options AND 0x40 \<noteq> 0"
  by (simp add: connect_flags_def)

lemma connect_rem_len:
  assumes "mqtt_version options = 3 \<or> mqtt_version options = 4" and "client_id options = Some cid"
  shows "get_packet_connect_rem_len cid options = of_nat (length (connect_body options))"
  using assms
  by (cases "username options"; cases "password options")
    (auto simp: get_packet_connect_rem_len_def connect_body_def opt_utf8_def opt_string_len_def
      str_def strlen_def Let_def)

interpretation connect_ser: packet_serialiser serialize_connect_packet
  "\<lambda>_. header_byte CONNECT QOS0 0 0" connect_body connect_ok
proof (unfold_locales, goal_cases)
  case (1 x)
  then show ?case by (simp add: connect_ok_def)
next
  case (2 x buf buf_len)
  then obtain cid where cid: "client_id x = Some cid" "cid \<noteq> []"
    and v: "mqtt_version x = 3 \<or> mqtt_version x = 4" and sm: "length (connect_body x) < 2 ^ 32"
    by (auto simp: connect_ok_def)
  obtain L where L: "length (connect_body x) = L" by simp
  from connect_rem_len [OF v cid(1)] sm
  have rem: "get_packet_connect_rem_len cid x = of_nat L" and un: "unat (of_nat L :: u32) = L"
    by (simp_all add: L)
  show ?case
    unfolding mqtt_packet_def L
    using cid v connect_flag_user [of x] connect_flag_password [of x]
    by (cases "username x"; cases "password x")
      (simp_all add: serialize_connect_packet_def init_header_byte mem_simps rem un Let_def
        connect_body_def opt_utf8_def cong: if_cong)
qed

lemma rem_len_bytes_small [simp]:
  "rem_len_bytes 0 = [0]" "rem_len_bytes 2 = [2]" "rem_len_bytes (Suc (Suc 0)) = [2]"
  by (simp_all add: rem_len_bytes.simps)

lemma pub_ack_written:
  assumes "4 \<le> buf_len" and "unat buf_len \<le> length buf" and "t \<noteq> RESERVED"
  shows "serialize_pub_ack_packet buf buf_len t dup packet_id =
    Some (Inr (mqtt_packet (header_byte t (if t = PUBREL then QOS1 else QOS0) dup 0) (uint16_bytes packet_id)
      @ drop 4 buf, 4))"
proof -
  from assms(1,2) have "4 \<le> length buf" by (simp add: word_le_nat_alt)
  then show ?thesis
    using assms(1,3)
    by (simp add: serialize_pub_ack_packet_def init_header_byte mem_simps write_bytes_Some
        mqtt_packet_def not_less Let_def)
qed

lemma zero_payload_written:
  assumes "4 \<le> buf_len" and "unat buf_len \<le> length buf" and "t \<noteq> RESERVED"
  shows "serialize_packet_with_zero_payload buf buf_len t =
    Some (Inr (mqtt_packet (header_byte t QOS0 0 0) [] @ drop 2 buf, 2))"
proof -
  from assms(1,2) have "4 \<le> length buf" by (simp add: word_le_nat_alt)
  then show ?thesis
    using assms(1,3)
    by (simp add: serialize_packet_with_zero_payload_def init_header_byte mem_simps write_bytes_Some
        mqtt_packet_def not_less eval_nat_numeral)
qed

section \<open>Deserialisers\<close>

text \<open>Reading the fixed header of a well-formed packet.\<close>

lemma read_header_of_packet:
  "mqtt_read_char (mqtt_packet h body @ rest) 0 = Some (h, 1)"
  by (simp add: mqtt_read_char_def mqtt_packet_def)

lemma read_rem_len_of_packet:
  assumes "length body < 2 ^ 28"
  shows "mqtt_read_packet_rem_len_form_buf (mqtt_packet h body @ rest) 1 =
    Some (Inr (of_nat (length body), of_nat (length (rem_len_bytes (length body)))))"
  using decode_rem_len_bytes [of 0 "length body" 1 0 0 "[h]" "body @ rest"] assms
    rem_len_bytes_le_4 [of "length body"]
  by (simp add: mqtt_packet_def mqtt_read_packet_rem_len_form_buf_def)

lemma unat_rem_len_count [simp]:
  "n < 2 ^ 28 \<Longrightarrow> unat (of_nat (length (rem_len_bytes n)) :: u32) = length (rem_len_bytes n)"
  using rem_len_bytes_le_4 [of n] by (intro unat_of_nat_u32) simp

lemma read_uint16_at:
  assumes "buf = us @ uint16_bytes n @ vs" and "p = length us"
  shows "mqtt_read_uint16_t buf p = Some (n, p + 2)"
  using mqtt_read_uint16_bytes [of us n vs] assms by simp

lemma deserialize_ack_of_packet:
  assumes "4 \<le> buf_len"
  shows "deserialize_ack_packet (mqtt_packet h (uint16_bytes packet_id) @ rest) buf_len =
    Some (Inr (header_type h, header_dup h, packet_id))"
proof -
  let ?b = "mqtt_packet h (uint16_bytes packet_id) @ rest"
  have r: "mqtt_read_uint16_t ?b (Suc (Suc 0)) = Some (packet_id, Suc (Suc (Suc (Suc 0))))"
    using read_uint16_at [of ?b "[h, 2]" packet_id rest 2]
    by (simp add: mqtt_packet_def eval_nat_numeral)
  show ?thesis
    using assms r read_rem_len_of_packet [of "uint16_bytes packet_id" h rest]
    by (simp add: deserialize_ack_packet_def read_header_of_packet not_less Let_def)
qed

lemma deserialize_publish_eval:
  assumes "4 \<le> buf_len" and "mqtt_read_char buf 0 = Some (h, 1)" and "header_type h = msg_code PUBLISH"
    and "mqtt_read_packet_rem_len_form_buf buf 1 = Some (Inr (dl, n))"
    and "unat n = k" and "unat dl = l"
    and "read_string_with_len buf (1 + k) (1 + k + l) = Some (Some (t, tlen, c))"
    and "read_publish_id (header_qos h) buf c = Some (i, c')" and "c \<le> 1 + k + l"
  shows "deserialize_publish_packet buf buf_len = Some (Inr \<lparr> pub_dup = header_dup h,
    pub_qos = header_qos h, pub_retained = header_retained h, pub_packet_id = i, pub_topic = t,
    pub_topic_len = tlen, pub_payload = c', pub_payload_len = of_int (int (1 + k + l) - int c') \<rparr>)"
  using assms(1-4,7-9) unfolding assms(5,6) [symmetric]
  by (simp add: deserialize_publish_packet_def not_less Let_def)

text \<open>The byte positions inside a PUBLISH packet.\<close>

lemma publish_layout:
  assumes buf: "buf = pre @ utf8_bytes topic @ (if q = QOS0 then [] else uint16_bytes packet_id) @ payload @ rest"
    and len: "length topic \<le> UIOT_MQTT_RX_BUF_LEN"
    and c: "c = length pre + 2 + length topic + (if q = QOS0 then 0 else 2)"
  shows "read_string_with_len buf (length pre) (c + length payload) =
      Some (Some (length pre + 2, of_nat (length topic), length pre + 2 + length topic))"
    and "read_publish_id q buf (length pre + 2 + length topic) = Some (if q = QOS0 then None else Some packet_id, c)"
    and "slice buf (length pre + 2) (length topic) = topic"
    and "slice buf c (length payload) = payload"
    and "unat (of_nat (length topic) :: u16) = length topic"
proof -
  let ?i = "if q = QOS0 then [] else uint16_bytes packet_id"
  show len16: "unat (of_nat (length topic) :: u16) = length topic"
    using len by (intro unat_of_nat_u16) simp
  have b1: "buf = pre @ uint16_bytes (of_nat (length topic)) @ topic @ ?i @ payload @ rest"
    by (simp add: buf utf8_bytes_def)
  show "read_string_with_len buf (length pre) (c + length payload) =
      Some (Some (length pre + 2, of_nat (length topic), length pre + 2 + length topic))"
    using read_uint16_at [OF b1 refl] len by (simp add: read_string_with_len_def len16 c)
  have "q \<noteq> QOS0 \<Longrightarrow> buf = (pre @ utf8_bytes topic) @ uint16_bytes packet_id @ payload @ rest"
    by (simp add: buf)
  from read_uint16_at [OF this, of "length pre + 2 + length topic"]
  show "read_publish_id q buf (length pre + 2 + length topic) = Some (if q = QOS0 then None else Some packet_id, c)"
    by (simp add: read_publish_id_def c)
  show "slice buf (length pre + 2) (length topic) = topic"
    using slice_append_exact [of "pre @ uint16_bytes (of_nat (length topic))" topic "?i @ payload @ rest"]
    by (simp add: b1)
  have "c = length (pre @ utf8_bytes topic @ ?i)" by (simp add: c)
  with slice_append_exact [of "pre @ utf8_bytes topic @ ?i" payload rest]
  show "slice buf c (length payload) = payload" by (simp only: buf append_assoc)
qed

lemma header_qos_pos: "u8_of_qos (header_qos h) > 0 \<longleftrightarrow> header_qos h \<noteq> QOS0"
  by (auto simp: header_qos_def qos_of_u8_def word_gt_0)

lemma deserialize_publish_of_packet:
  assumes "4 \<le> buf_len" and "header_type h = msg_code PUBLISH"
    and "length topic \<le> UIOT_MQTT_RX_BUF_LEN" and "length topic + length payload + 4 < 2 ^ 28"
    and buf: "buf = mqtt_packet h (publish_body (header_qos h) packet_id topic payload) @ rest"
  shows "\<exists>f. deserialize_publish_packet buf buf_len = Some (Inr f)
    \<and> pub_dup f = header_dup h \<and> pub_qos f = header_qos h \<and> pub_retained f = header_retained h
    \<and> pub_packet_id f = (if header_qos h = QOS0 then None else Some packet_id)
    \<and> slice buf (pub_topic f) (unat (pub_topic_len f)) = topic
    \<and> slice buf (pub_payload f) (unat (pub_payload_len f)) = payload
    \<and> unat (pub_topic_len f) = length topic \<and> unat (pub_payload_len f) = length payload"
proof -
  let ?body = "publish_body (header_qos h) packet_id topic payload"
  let ?pre = "h # rem_len_bytes (length ?body)"
  define c where "c = length ?pre + 2 + length topic + (if header_qos h = QOS0 then 0 else 2)"
  have b: "buf = ?pre @ utf8_bytes topic @ (if header_qos h = QOS0 then [] else uint16_bytes packet_id) @ payload @ rest"
    by (simp add: buf mqtt_packet_def publish_body_def header_qos_pos)
  note lay = publish_layout [OF b assms(3) c_def]
  have e: "1 + length (rem_len_bytes (length ?body)) + length ?body = c + length payload"
    by (simp add: c_def publish_body_def header_qos_pos)
  have sm: "length ?body < 2 ^ 28" using assms(4) by (simp add: publish_body_def)
  have lp: "unat (of_int (int (c + length payload) - int c) :: u32) = length payload"
    using assms(4) by simp
  have h: "mqtt_read_char buf 0 = Some (h, 1)" and r: "mqtt_read_packet_rem_len_form_buf buf 1 =
      Some (Inr (of_nat (length ?body), of_nat (length (rem_len_bytes (length ?body)))))"
    using read_header_of_packet [of h ?body rest] read_rem_len_of_packet [OF sm, of h rest]
    by (simp_all add: buf)
  have u: "unat (of_nat (length (rem_len_bytes (length ?body))) :: u32) = length (rem_len_bytes (length ?body))"
    "unat (of_nat (length ?body) :: u32) = length ?body"
    using sm by (simp_all del: length_append)
  have "length ?pre + 2 + length topic \<le> c + length payload" by (simp add: c_def)
  note des = deserialize_publish_eval [OF assms(1) h assms(2) r u, unfolded e, OF _ lay(2) this, simplified]
  show ?thesis
    using lay(1,3-5) lp by (simp add: des)
qed

text \<open>
  What the receive loop leaves in the read buffer: a complete fixed header, and room for
  as many bytes as the remaining length announces.
\<close>

definition framed :: "bytes \<Rightarrow> nat \<Rightarrow> bool" where
  "framed buf slack = (case mqtt_read_packet_rem_len_form_buf buf 1 of
      Some (Inr (v, n)) \<Rightarrow> 1 + unat n + unat v + slack \<le> length buf
    | _ \<Rightarrow> False)"

lemma framedE:
  assumes "framed buf slack"
  obtains v n where "mqtt_read_packet_rem_len_form_buf buf (Suc 0) = Some (Inr (v, n))"
    "1 + unat n + unat v + slack \<le> length buf" "mqtt_read_char buf 0 = Some (buf ! 0, Suc 0)"
proof -
  from assms obtain v n where
    "mqtt_read_packet_rem_len_form_buf buf 1 = Some (Inr (v, n))" "1 + unat n + unat v + slack \<le> length buf"
    by (auto simp: framed_def split: option.splits sum.splits)
  moreover from this have "0 < length buf" by linarith
  then have "mqtt_read_char buf 0 = Some (buf ! 0, Suc 0)" by (simp add: mqtt_read_char_def)
  ultimately show ?thesis using that by simp
qed

lemma read_uint16_safe: "p + 2 \<le> length buf \<Longrightarrow> \<exists>w. mqtt_read_uint16_t buf p = Some (w, p + 2)"
  by (simp add: mqtt_read_uint16_t_def)

lemma read_char_safe: "p < length buf \<Longrightarrow> mqtt_read_char buf p = Some (buf ! p, Suc p)"
  by (simp add: mqtt_read_char_def)

lemma read_string_safe:
  assumes "enddata \<le> length buf"
  shows "\<exists>s. read_string_with_len buf p enddata = Some s \<and> (\<forall>t l c. s = Some (t, l, c) \<longrightarrow> c \<le> enddata)"
proof (cases "int enddata - int p > 1")
  case True
  with assms have "p + 2 \<le> length buf" by linarith
  then obtain w where "mqtt_read_uint16_t buf p = Some (w, p + 2)" using read_uint16_safe by blast
  with True show ?thesis by (simp add: read_string_with_len_def)
qed (simp add: read_string_with_len_def)

lemma suback_loop_safe:
  "p + n \<le> length buf \<Longrightarrow> unat max_count < length qs \<Longrightarrow>
   \<exists>r. suback_loop n buf p max_count count qs = Some r"
proof (induction n arbitrary: p count qs)
  case (Suc n)
  then show ?case
    by (auto simp: read_char_safe word_less_nat_alt not_less intro!: Suc.IH)
qed simp

lemma deserialize_ack_safe:
  assumes "framed buf 0"
  shows "\<exists>r. deserialize_ack_packet buf len = Some r"
proof (rule framedE [OF assms])
  fix v n assume r: "mqtt_read_packet_rem_len_form_buf buf (Suc 0) = Some (Inr (v, n))"
    "1 + unat n + unat v + 0 \<le> length buf" "mqtt_read_char buf 0 = Some (buf ! 0, Suc 0)"
  show ?thesis
  proof (cases "unat v < 2")
    case False
    with r obtain w where "mqtt_read_uint16_t buf (Suc (unat n)) = Some (w, Suc (unat n) + 2)"
      using read_uint16_safe [of "Suc (unat n)" buf] by auto
    with r False show ?thesis
      by (auto simp: deserialize_ack_packet_def Let_def read_char_safe)
  qed (use r in \<open>auto simp: deserialize_ack_packet_def Let_def\<close>)
qed

lemma deserialize_suback_safe:
  assumes "framed buf 0" and "unat max_count < length qs"
  shows "\<exists>r. deserialize_suback_packet max_count qs buf len = Some r"
proof (rule framedE [OF assms(1)])
  fix v n assume r: "mqtt_read_packet_rem_len_form_buf buf (Suc 0) = Some (Inr (v, n))"
    "1 + unat n + unat v + 0 \<le> length buf" "mqtt_read_char buf 0 = Some (buf ! 0, Suc 0)"
  show ?thesis
  proof (cases "unat v < 2")
    case False
    with r obtain w where w: "mqtt_read_uint16_t buf (Suc (unat n)) = Some (w, Suc (unat n) + 2)"
      using read_uint16_safe [of "Suc (unat n)" buf] by auto
    from r False have "Suc (unat n) + 2 + (unat v - 2) \<le> length buf" by simp
    from suback_loop_safe [OF this assms(2)] obtain l where
      "suback_loop (unat v - 2) buf (Suc (unat n) + 2) max_count 0 qs = Some l" by blast
    with r w False show ?thesis
      by (cases l) (auto simp: deserialize_suback_packet_def Let_def)
  qed (use r in \<open>auto simp: deserialize_suback_packet_def Let_def\<close>)
qed

lemma deserialize_unsuback_safe:
  assumes "framed buf 0"
  shows "\<exists>r. deserialize_unsuback_packet buf len = Some r"
  using deserialize_ack_safe [OF assms, of len]
  by (auto simp: deserialize_unsuback_packet_def split: sum.splits)

lemma deserialize_connack_safe:
  assumes "framed buf 0"
  shows "\<exists>r. deserialize_connack_packet buf len = Some r"
proof (rule framedE [OF assms])
  fix v n assume r: "mqtt_read_packet_rem_len_form_buf buf (Suc 0) = Some (Inr (v, n))"
    "1 + unat n + unat v + 0 \<le> length buf" "mqtt_read_char buf 0 = Some (buf ! 0, Suc 0)"
  then show ?thesis
    by (auto simp: deserialize_connack_packet_def Let_def read_char_safe)
qed

text \<open>
  PUBLISH reads the packet identifier without comparing with the end of the packet: two
  bytes of slack behind the packet are needed.
\<close>

lemma deserialize_publish_safe:
  assumes "framed buf 2"
  shows "\<exists>r. deserialize_publish_packet buf len = Some r"
proof (rule framedE [OF assms])
  fix v n assume r: "mqtt_read_packet_rem_len_form_buf buf (Suc 0) = Some (Inr (v, n))"
    "1 + unat n + unat v + 2 \<le> length buf" "mqtt_read_char buf 0 = Some (buf ! 0, Suc 0)"
  let ?e = "Suc (unat n + unat v)"
  obtain s where s: "read_string_with_len buf (Suc (unat n)) ?e = Some s"
    and le: "\<And>t l c. s = Some (t, l, c) \<Longrightarrow> c \<le> ?e"
    using read_string_safe [of ?e buf "Suc (unat n)"] r(2) by auto
  have i: "\<exists>r. read_publish_id q buf c = Some r" if "c \<le> ?e" for q c
    using read_uint16_safe [of c buf] that r(2) by (auto simp: read_publish_id_def)
  show ?thesis
  proof (cases s)
    case None
    with r s show ?thesis by (simp add: deserialize_publish_packet_def Let_def)
  next
    case (Some tlc)
    obtain t l c where tlc: "tlc = (t, l, c)" by (cases tlc)
    from i [of c "header_qos (buf ! 0)"] le Some tlc obtain x c' where
      "read_publish_id (header_qos (buf ! 0)) buf c = Some (x, c')" by auto
    with r s Some tlc show ?thesis by (simp add: deserialize_publish_packet_def Let_def)
  qed
qed

lemma deserialize_connack_of_packet:
  assumes "4 \<le> buf_len" and "header_type h = msg_code CONNACK"
  shows "deserialize_connack_packet (mqtt_packet h [flags, rc] @ rest) buf_len =
    Some (Inr (flags AND 1, connack_return_code rc))"
  using assms read_rem_len_of_packet [of "[flags, rc]" h rest]
  by (simp add: deserialize_connack_packet_def read_header_of_packet not_less Let_def)
    (simp add: mqtt_packet_def mqtt_read_char_def)

section \<open>Properties\<close>

text \<open>
  The fixed-header byte round-trips: from the byte \<open>mqtt_init_packet_header\<close> builds, the
  field reads of the deserialisers give back the message type, the low bit of the DUP and RETAIN
  arguments and the QoS (a QoS outside the enumeration is sent as QoS 0).
\<close>
lemma header_byte_roundtrip:
  assumes "mqtt_init_packet_header t q dup retained = Inr h"
  shows "header_type h = msg_code t \<and> header_dup h = dup AND 1
    \<and> header_qos h = qos_wire q \<and> header_retained h = retained AND 1"
  using header_fields [OF assms] by simp

lemma header_byte_roundtrip_witness:
  "mqtt_init_packet_header PUBLISH QOS1 1 0 = Inr 0x3A
   \<and> header_type 0x3A = 3 \<and> header_dup 0x3A = 1 \<and> header_qos 0x3A = QOS1 \<and> header_retained 0x3A = 0"
proof -
  have w: "mqtt_init_packet_header PUBLISH QOS1 1 0 = Inr 0x3A" by code_simp
  from header_byte_roundtrip [OF w] w show ?thesis by simp
qed

text \<open>
  C7. \<open>serialize_publish_packet\<close> is memory-safe and exact.  Given a buffer with at least the
  advertised \<open>buf_len\<close> bytes, it reports \<open>ERR_MQTT_BUFFER_TOO_SHORT\<close> without writing when the
  size estimate exceeds \<open>buf_len\<close>, and otherwise leaves exactly the PUBLISH packet of MQTT 3.1.1
  at the start of the buffer (header byte, remaining length, topic, packet identifier for QoS
  above 0, payload), returns its length and keeps every byte behind it.
\<close>
theorem serialize_publish_exact:
  assumes "length topic + length payload + 4 < 2 ^ 28" and "unat buf_len \<le> length buf"
    and "body = publish_body qos packet_id topic payload"
  shows "serialize_publish_packet buf buf_len dup qos retained packet_id topic (Some payload)
      (of_nat (length payload)) = Some (
    if unat buf_len < packet_estimate (length body) then Inl ERR_MQTT_BUFFER_TOO_SHORT
    else let pkt = mqtt_packet (header_byte PUBLISH qos dup retained) body
         in Inr (pkt @ drop (length pkt) buf, of_nat (length pkt)))"
  using publish_ser.exact [of "(dup, qos, retained, packet_id, topic, payload)" buf_len buf] assms
  by (simp add: Let_def)

theorem serialize_publish_exact_witness:
  "serialize_publish_packet (replicate 16 0) 16 0 QOS1 0 7 [97, 47, 98] (Some [1, 2]) (of_nat (length [1, 2 :: u8]))
   = Some (Inr ([0x32, 9, 0, 3, 97, 47, 98, 0, 7, 1, 2] @ replicate 5 0, 11))"
proof -
  have e: "packet_estimate (length (publish_body QOS1 7 [97, 47, 98] [1, 2])) = 11"
    "mqtt_packet (header_byte PUBLISH QOS1 0 0) (publish_body QOS1 7 [97, 47, 98] [1, 2]) =
      [0x32, 9, 0, 3, 97, 47, 98, 0, 7, 1, 2]"
    by code_simp+
  show ?thesis
    using serialize_publish_exact [OF _ _ refl, where topic = "[97, 47, 98]" and payload = "[1, 2]"
      and buf_len = 16 and buf = "replicate 16 0" and qos = QOS1 and packet_id = 7 and dup = 0 and retained = 0]
    by (simp add: e Let_def)
qed

text \<open>
  SUBSCRIBE and UNSUBSCRIBE of one topic filter are memory-safe and exact in the same sense:
  the guard or the packet of the protocol at the start of the buffer.
\<close>
theorem serialize_subscribe_exact:
  assumes "length topic + 5 < 2 ^ 28" and "unat buf_len \<le> length buf"
  shows "serialize_subscribe_packet buf buf_len dup packet_id 1 topic [qos] = Some (
      if unat buf_len < packet_estimate (length (subscribe_body packet_id topic qos))
      then Inl ERR_MQTT_BUFFER_TOO_SHORT
      else let pkt = mqtt_packet (header_byte SUBSCRIBE QOS1 dup 0) (subscribe_body packet_id topic qos)
           in Inr (pkt @ drop (length pkt) buf, of_nat (length pkt)))
    \<and> serialize_unsubscribe_packet buf buf_len dup packet_id 1 topic = Some (
      if unat buf_len < packet_estimate (length (unsubscribe_body packet_id topic))
      then Inl ERR_MQTT_BUFFER_TOO_SHORT
      else let pkt = mqtt_packet (header_byte UNSUBSCRIBE QOS1 dup 0) (unsubscribe_body packet_id topic)
           in Inr (pkt @ drop (length pkt) buf, of_nat (length pkt)))"
  using subscribe_ser.exact [of "(dup, packet_id, topic, qos)" buf_len buf]
    unsubscribe_ser.exact [of "(dup, packet_id, topic)" buf_len buf] assms
  by (simp add: Let_def)

theorem serialize_subscribe_exact_witness:
  "serialize_subscribe_packet (replicate 12 0) 12 0 7 1 [97, 47, 35] [QOS1] =
     Some (Inr ([0x82, 8, 0, 7, 0, 3, 97, 47, 35, 1] @ replicate 2 0, 10))
   \<and> serialize_unsubscribe_packet (replicate 12 0) 12 0 7 1 [97, 47, 35] =
     Some (Inr ([0xA2, 7, 0, 7, 0, 3, 97, 47, 35] @ replicate 3 0, 9))"
proof -
  have e: "packet_estimate (length (subscribe_body 7 [97, 47, 35] QOS1)) = 10"
    "mqtt_packet (header_byte SUBSCRIBE QOS1 0 0) (subscribe_body 7 [97, 47, 35] QOS1) =
      [0x82, 8, 0, 7, 0, 3, 97, 47, 35, 1]"
    "packet_estimate (length (unsubscribe_body 7 [97, 47, 35])) = 9"
    "mqtt_packet (header_byte UNSUBSCRIBE QOS1 0 0) (unsubscribe_body 7 [97, 47, 35]) =
      [0xA2, 7, 0, 7, 0, 3, 97, 47, 35]"
    by code_simp+
  show ?thesis
    using serialize_subscribe_exact [of "[97, 47, 35]" 12 "replicate 12 0" 0 7 QOS1]
    by (simp add: e Let_def)
qed

text \<open>
  \<open>serialize_connect_packet\<close> is memory-safe and exact for the protocol versions 3 and 4 and
  a non-empty client identifier: protocol name and level, connect flags, keep-alive, client
  identifier, then user name and password where they are given.
\<close>
theorem serialize_connect_exact:
  assumes "mqtt_version options = 3 \<or> mqtt_version options = 4" and "client_id options = Some (c # cs)"
    and "length (connect_body options) < 2 ^ 28" and "unat buf_len \<le> length buf"
  shows "serialize_connect_packet buf buf_len options = Some (
    if unat buf_len < packet_estimate (length (connect_body options)) then Inl ERR_MQTT_BUFFER_TOO_SHORT
    else let pkt = mqtt_packet (header_byte CONNECT QOS0 0 0) (connect_body options)
         in Inr (pkt @ drop (length pkt) buf, of_nat (length pkt)))"
  using connect_ser.exact [of options buf_len buf] assms by (auto simp: connect_ok_def Let_def)

theorem serialize_connect_exact_witness:
  "serialize_connect_packet (replicate 20 0) 20 \<lparr> client_id = Some [97], username = None, password = None,
      mqtt_version = 4, keep_alive_interval = 60, clean_session = 1, auto_connect_enable = 1 \<rparr>
   = Some (Inr ([0x10, 13, 0, 4, 77, 81, 84, 84, 4, 0x42, 0, 60, 0, 1, 97] @ replicate 5 0, 15))"
proof -
  let ?o = "\<lparr> client_id = Some [97], username = None, password = None,
      mqtt_version = 4, keep_alive_interval = 60, clean_session = 1, auto_connect_enable = 1 \<rparr>"
  have e: "packet_estimate 13 = 15" "length (connect_body ?o) = 13"
    "mqtt_packet (header_byte CONNECT QOS0 0 0) (connect_body ?o) =
      [0x10, 13, 0, 4, 77, 81, 84, 84, 4, 0x42, 0, 60, 0, 1, 97]"
    by code_simp+
  show ?thesis
    using serialize_connect_exact [of ?o 97 "[]" 20 "replicate 20 0"]
    by (simp add: e Let_def)
qed

text \<open>
  C6. PUBLISH round trip.  What \<open>serialize_publish_packet\<close> leaves in the buffer,
  \<open>deserialize_publish_packet\<close> reads back: the same DUP and RETAIN bits, QoS and packet
  identifier, and topic and payload pointers that delimit the same bytes (topics up to the
  receive buffer's size, the bound the reader enforces).
\<close>
theorem publish_roundtrip:
  assumes "length topic \<le> UIOT_MQTT_RX_BUF_LEN" and "length topic + length payload + 4 < 2 ^ 28"
    and "qos \<in> {QOS0, QOS1, QOS2}" and "unat buf_len \<le> length buf" and "4 \<le> n"
    and "serialize_publish_packet buf buf_len dup qos retained packet_id topic (Some payload)
           (of_nat (length payload)) = Some (Inr (buf', len))"
  shows "\<exists>f. deserialize_publish_packet buf' n = Some (Inr f)
    \<and> pub_dup f = dup AND 1 \<and> pub_qos f = qos \<and> pub_retained f = retained AND 1
    \<and> pub_packet_id f = (if qos = QOS0 then None else Some packet_id)
    \<and> slice buf' (pub_topic f) (unat (pub_topic_len f)) = topic
    \<and> slice buf' (pub_payload f) (unat (pub_payload_len f)) = payload
    \<and> unat (pub_topic_len f) = length topic \<and> unat (pub_payload_len f) = length payload"
proof -
  let ?h = "header_byte PUBLISH qos dup retained"
  have h: "header_type ?h = msg_code PUBLISH" "header_dup ?h = dup AND 1"
    "header_qos ?h = qos" "header_retained ?h = retained AND 1"
    using header_fields [OF init_header_byte, of PUBLISH qos dup retained] assms(3) by auto
  obtain rest where
    "buf' = mqtt_packet ?h (publish_body (header_qos ?h) packet_id topic payload) @ rest"
    using publish_ser.exact [of "(dup, qos, retained, packet_id, topic, payload)" buf_len buf] assms(2,4,6)
    by (auto simp: h split: if_splits)
  from deserialize_publish_of_packet [OF assms(5) h(1) assms(1,2) this] show ?thesis
    unfolding h .
qed

theorem publish_roundtrip_witness:
  "\<exists>f. deserialize_publish_packet ([0x32, 9, 0, 3, 97, 47, 98, 0, 7, 1, 2] @ replicate 5 0) 16 = Some (Inr f)
     \<and> pub_packet_id f = Some 7
     \<and> slice ([0x32, 9, 0, 3, 97, 47, 98, 0, 7, 1, 2] @ replicate 5 0) (pub_payload f) (unat (pub_payload_len f)) = [1, 2]"
proof -
  have "serialize_publish_packet (replicate 16 0) 16 0 QOS1 0 7 [97, 47, 98] (Some [1, 2])
      (of_nat (length [1, 2 :: u8])) =
    Some (Inr ([0x32, 9, 0, 3, 97, 47, 98, 0, 7, 1, 2] @ replicate 5 0, 11))" by code_simp
  from publish_roundtrip [OF _ _ _ _ _ this, of 16] show ?thesis by auto
qed

text \<open>
  Acknowledgement round trip.  A PUBACK, PUBREC, PUBREL or PUBCOMP packet
  that \<open>serialize_pub_ack_packet\<close> writes takes four bytes, and \<open>deserialize_ack_packet\<close> gives
  back its type, DUP bit and packet identifier.
\<close>
theorem ack_roundtrip:
  assumes "t \<noteq> RESERVED" and "4 \<le> buf_len" and "unat buf_len \<le> length buf" and "4 \<le> n"
  shows "\<exists>buf'. serialize_pub_ack_packet buf buf_len t dup packet_id = Some (Inr (buf', 4))
    \<and> drop 4 buf' = drop 4 buf
    \<and> deserialize_ack_packet buf' n = Some (Inr (msg_code t, dup AND 1, packet_id))"
proof -
  let ?h = "header_byte t (if t = PUBREL then QOS1 else QOS0) dup 0"
  have "header_type ?h = msg_code t" "header_dup ?h = dup AND 1"
    using header_fields [OF init_header_byte [OF assms(1)]] by auto
  with pub_ack_written [OF assms(2,3,1), of dup packet_id]
    deserialize_ack_of_packet [OF assms(4), of ?h packet_id "drop 4 buf"]
  show ?thesis by (simp add: mqtt_packet_def)
qed

theorem ack_roundtrip_witness:
  "\<exists>buf'. serialize_pub_ack_packet (replicate 6 0) 6 PUBACK 0 513 = Some (Inr (buf', 4))
    \<and> drop 4 buf' = drop 4 (replicate 6 0)
    \<and> deserialize_ack_packet buf' 6 = Some (Inr (msg_code PUBACK, 0, 513))"
  using ack_roundtrip [of PUBACK 6 "replicate 6 0" 6 0 513] by simp

text \<open>
  C20. The deserialisers never read or write outside their buffers on a framed packet, that is one whose
  announced length lies within the buffer, whatever its contents: PUBACK/PUBREC, UNSUBACK and
  CONNACK as it is; SUBACK when the array for the granted QoS values is longer than
  \<open>max_count\<close> (the guard lets one element too many through); PUBLISH when the buffer has two more bytes, since
  the packet identifier is read without comparing with the end of the packet.
\<close>
theorem deserialisers_memory_safe:
  assumes "framed buf 0" and "framed rxbuf 2" and "unat max_count < length qs"
  shows "deserialize_ack_packet buf n \<noteq> None \<and> deserialize_unsuback_packet buf n \<noteq> None
    \<and> deserialize_connack_packet buf n \<noteq> None
    \<and> deserialize_suback_packet max_count qs buf n \<noteq> None
    \<and> deserialize_publish_packet rxbuf n \<noteq> None"
  using deserialize_ack_safe [OF assms(1), of n] deserialize_unsuback_safe [OF assms(1), of n]
    deserialize_connack_safe [OF assms(1), of n] deserialize_suback_safe [OF assms(1,3), of n]
    deserialize_publish_safe [OF assms(2), of n]
  by auto

theorem deserialisers_memory_safe_witness:
  "deserialize_suback_packet 1 [QOS0, QOS0, QOS0] [0x90, 5, 0, 7, 1, 1, 1] 7 \<noteq> None"
proof -
  have "framed [0x90, 5, 0, 7, 1, 1, 1] 0" "framed [0x32, 3, 0, 1, 97, 0, 0] 2"
    by code_simp+
  from deserialisers_memory_safe [OF this, of 1 "[QOS0, QOS0, QOS0]" 7] show ?thesis by simp
qed

text \<open>
  CONNACK.  On the four-byte CONNACK packet \<open>deserialize_connack_packet\<close> reports
  the session-present bit and the SDK code of the return code byte; the connection counts as
  accepted for return code 0 alone, the codes 1 to 5 have an error of their own each, and every
  other byte is \<open>ERR_MQTT_CONNACK_UNKNOWN\<close>.
\<close>
theorem connack_codes:
  assumes "4 \<le> n" and "header_type h = msg_code CONNACK"
  shows "\<exists>code. deserialize_connack_packet (mqtt_packet h [flags, rc] @ rest) n = Some (Inr (flags AND 1, code))
    \<and> (code = MQTT_CONNECTION_ACCEPTED \<longleftrightarrow> rc = 0)
    \<and> (code = ERR_MQTT_CONNACK_UNKNOWN \<longleftrightarrow> rc > 5)
    \<and> (rc \<in> {1..5} \<longrightarrow> code = - 112 - uint rc)"
proof -
  have "rc > 5 \<or> rc \<in> {0, 1, 2, 3, 4, 5}"
  proof (rule disjCI)
    assume "rc \<notin> {0, 1, 2, 3, 4, 5}"
    then have "unat rc \<noteq> 0 \<and> unat rc \<noteq> 1 \<and> unat rc \<noteq> 2 \<and> unat rc \<noteq> 3 \<and> unat rc \<noteq> 4 \<and> unat rc \<noteq> 5"
      by (auto simp: word_unat_eq_iff)
    then have "5 < unat rc" by linarith
    then show "rc > 5" by (simp add: word_less_nat_alt)
  qed
  then have "(connack_return_code rc = MQTT_CONNECTION_ACCEPTED \<longleftrightarrow> rc = 0)
    \<and> (connack_return_code rc = ERR_MQTT_CONNACK_UNKNOWN \<longleftrightarrow> rc > 5)
    \<and> (rc \<in> {1..5} \<longrightarrow> connack_return_code rc = - 112 - uint rc)"
    by (auto simp: connack_return_code_def)
  with deserialize_connack_of_packet [OF assms] show ?thesis by simp
qed

theorem connack_codes_witness:
  "\<exists>code. deserialize_connack_packet (mqtt_packet 0x20 [1, 5] @ []) 4 = Some (Inr (1, code)) \<and> code = - 117"
proof -
  have "header_type 0x20 = msg_code CONNACK" by code_simp
  from connack_codes [OF _ this, of 4 1 5 "[]"] show ?thesis by simp
qed

end
