(* ===== verification/Mqtt_Topic.thy ===== *)
theory Mqtt_Topic
  imports Iot_Prelude
begin

text \<open>
  Topic comparison and wildcard matching of \<^verbatim>\<open>mqtt_client_common.c\<close>.  A topic filter is a
  C string; the topic of a received message is a buffer and a length, as \<open>_deliver_message\<close>
  passes it, so that a read before the start of the buffer or behind its end is visible.  The matcher is
  compared with the level-by-level matching of MQTT 3.1.1 section 4.7.
\<close>

abbreviation (input) SLASH :: u8 where "SLASH \<equiv> 0x2F"
abbreviation (input) PLUS :: u8 where "PLUS \<equiv> 0x2B"
abbreviation (input) HASH :: u8 where "HASH \<equiv> 0x23"

section \<open>Definitions\<close>

text \<open>\<open>strlen\<close> of the string that starts at the beginning of a buffer: it needs a NUL inside.\<close>

fun buf_strlen :: "bytes \<Rightarrow> nat option" where
  "buf_strlen [] = None"
| "buf_strlen (c # cs) = (if c = 0 then Some 0 else map_option Suc (buf_strlen cs))"

definition is_topic_equals :: "bytes \<Rightarrow> cstr \<Rightarrow> bool option" where
  "is_topic_equals topicName topic_filter = do {
     n \<leftarrow> buf_strlen topicName;
     Some (n = length topic_filter \<and> take n topicName = topic_filter) }"

text \<open>The inner loop: skip until the next separator or the end of the name.\<close>

function skip_level :: "bytes \<Rightarrow> pos \<Rightarrow> pos \<Rightarrow> pos option" where
  "skip_level name curn curn_end =
     (if curn + 1 < curn_end then do {
        c \<leftarrow> peek name (curn + 1);
        if c \<noteq> SLASH then skip_level name (curn + 1) curn_end else Some curn }
      else Some curn)"
  by pat_completeness auto
termination
  by (relation "measure (\<lambda>(name, curn, curn_end). curn_end - curn)") auto

declare skip_level.simps [simp del]

text \<open>
  The main loop.  Every iteration advances the filter, so the recursion is on what is left of it; the
  result is the rest of the filter and the position in the name where the loop stopped.
\<close>

fun topic_match_loop :: "cstr \<Rightarrow> bytes \<Rightarrow> pos \<Rightarrow> pos \<Rightarrow> (cstr \<times> pos) option" where
  "topic_match_loop [] name curn curn_end = Some ([], curn)"
| "topic_match_loop (f # fs) name curn curn_end =
     (if \<not> curn < curn_end then Some (f # fs, curn)
      else do {
        n \<leftarrow> peek name curn;
        if f = PLUS \<and> n = SLASH then topic_match_loop fs name curn curn_end
        else if n = SLASH \<and> f \<noteq> SLASH then Some (f # fs, curn)
        else if f \<noteq> PLUS \<and> f \<noteq> HASH \<and> f \<noteq> n then Some (f # fs, curn)
        else do {
          curn \<leftarrow> (if f = PLUS then skip_level name curn curn_end
                   else if f = HASH then Some (curn_end - 1) else Some curn);
          topic_match_loop fs name (curn + 1) curn_end } })"

definition is_topic_matched :: "cstr \<Rightarrow> bytes \<Rightarrow> u16 \<Rightarrow> bool option" where
  "is_topic_matched topic_filter topicName topicNameLen = do {
     (curf, curn) \<leftarrow> topic_match_loop topic_filter topicName 0 (unat topicNameLen);
     case curf of
       [] \<Rightarrow> Some (curn = unat topicNameLen)
     | f # fs \<Rightarrow>
         if f = HASH \<or> (case fs of [] \<Rightarrow> False | f' # _ \<Rightarrow> f' = HASH) then Some True
         else if f = PLUS
         then (if curn = 0 then None else do { c \<leftarrow> peek topicName (curn - 1); Some (c = SLASH) })
         else Some False }"

section \<open>Matching as the protocol defines it\<close>

fun levels :: "cstr \<Rightarrow> cstr list" where
  "levels [] = [[]]"
| "levels (c # cs) =
     (if c = SLASH then [] # levels cs else (c # hd (levels cs)) # tl (levels cs))"

fun levels_match :: "cstr list \<Rightarrow> cstr list \<Rightarrow> bool" where
  "levels_match [] ns = (ns = [])"
| "levels_match (f # fs) ns =
     (if f = [HASH] \<and> fs = [] then True
      else case ns of [] \<Rightarrow> False
        | n # ns \<Rightarrow> (f = [PLUS] \<or> f = n) \<and> levels_match fs ns)"

definition topic_spec :: "cstr \<Rightarrow> cstr \<Rightarrow> bool" where
  "topic_spec topic_filter name = levels_match (levels topic_filter) (levels name)"

text \<open>
  The format the source assumes: a wildcard is a level of its own, and \<open>#\<close> is the last level.
\<close>

definition plain_level :: "cstr \<Rightarrow> bool" where
  "plain_level l \<longleftrightarrow> PLUS \<notin> set l \<and> HASH \<notin> set l"

fun valid_levels :: "cstr list \<Rightarrow> bool" where
  "valid_levels [] = True"
| "valid_levels (l # ls) = ((plain_level l \<or> l = [PLUS] \<or> (l = [HASH] \<and> ls = [])) \<and> valid_levels ls)"

definition valid_filter :: "cstr \<Rightarrow> bool" where
  "valid_filter f = valid_levels (levels f)"

section \<open>The loop on lists\<close>

text \<open>The same loop on what is left of the filter and of the name.\<close>

fun match_rest :: "cstr \<Rightarrow> cstr \<Rightarrow> cstr \<times> cstr" where
  "match_rest [] ns = ([], ns)"
| "match_rest (f # fs) [] = (f # fs, [])"
| "match_rest (f # fs) (n # ns) =
     (if f = PLUS \<and> n = SLASH then match_rest fs (n # ns)
      else if n = SLASH \<and> f \<noteq> SLASH then (f # fs, n # ns)
      else if f \<noteq> PLUS \<and> f \<noteq> HASH \<and> f \<noteq> n then (f # fs, n # ns)
      else if f = PLUS then match_rest fs (dropWhile (\<lambda>c. c \<noteq> SLASH) ns)
      else if f = HASH then match_rest fs []
      else match_rest fs ns)"

text \<open>The verdict on the rests, for a name that is not empty and does not end in a separator.\<close>

fun rest_ok :: "cstr \<times> cstr \<Rightarrow> bool" where
  "rest_ok ([], ns) = (ns = [])"
| "rest_ok (f # fs, ns) = (f = HASH \<or> (fs \<noteq> [] \<and> hd fs = HASH))"

abbreviation name_from :: "bytes \<Rightarrow> pos \<Rightarrow> pos \<Rightarrow> cstr" where
  "name_from name i e \<equiv> drop i (take e name)"

lemma name_from_Cons:
  "i < e \<Longrightarrow> e \<le> length name \<Longrightarrow> name_from name i e = name ! i # name_from name (Suc i) e"
  by (simp add: Cons_nth_drop_Suc [symmetric])

lemma skip_level_list:
  "curn < curn_end \<Longrightarrow> curn_end \<le> length name \<Longrightarrow>
   \<exists>p. skip_level name curn curn_end = Some p \<and> curn \<le> p \<and> p < curn_end
     \<and> name_from name (Suc p) curn_end = dropWhile (\<lambda>c. c \<noteq> SLASH) (name_from name (Suc curn) curn_end)"
proof (induction name curn curn_end rule: skip_level.induct)
  case (1 name curn curn_end)
  show ?case
  proof (cases "Suc curn < curn_end \<and> name ! Suc curn \<noteq> SLASH")
    case True
    with 1 obtain p where "skip_level name (Suc curn) curn_end = Some p" "Suc curn \<le> p" "p < curn_end"
      "name_from name (Suc p) curn_end = dropWhile (\<lambda>c. c \<noteq> SLASH) (name_from name (Suc (Suc curn)) curn_end)"
      by (auto simp: peek_def)
    with True 1(2,3) show ?thesis
      by (subst skip_level.simps) (simp add: name_from_Cons [of "Suc curn"])
  next
    case False
    with 1(2,3) show ?thesis
      by (subst skip_level.simps, cases "Suc curn < curn_end") (auto simp: name_from_Cons [of "Suc curn"])
  qed
qed

lemma topic_match_loop_list:
  "e \<le> length name \<Longrightarrow> i \<le> e \<Longrightarrow>
   \<exists>fs' j. topic_match_loop fs name i e = Some (fs', j) \<and> i \<le> j \<and> j \<le> e
     \<and> match_rest fs (name_from name i e) = (fs', name_from name j e)"
proof (induction fs arbitrary: i)
  case Nil
  then show ?case by auto
next
  case (Cons f fs)
  show ?case
  proof (cases "i < e")
    case False
    with Cons.prems show ?thesis by auto
  next
    case True
    note nf = name_from_Cons [OF True Cons.prems(1)]
    obtain p where p: "skip_level name i e = Some p" "i \<le> p" "p < e"
      "name_from name (Suc p) e = dropWhile (\<lambda>c. c \<noteq> SLASH) (name_from name (Suc i) e)"
      using skip_level_list [OF True Cons.prems(1)] by blast
    have "name_from name (Suc (e - 1)) e = []" using True by simp
    with True Cons.prems p Cons.IH [of i] Cons.IH [of "Suc i"] Cons.IH [of "Suc p"] Cons.IH [of "Suc (e - 1)"]
    show ?thesis by (fastforce simp: nf)
  qed
qed

lemma levels_ne [simp]: "levels s \<noteq> []"
  by (cases s) auto

lemma hd_levels_Nil_iff: "hd (levels s) = [] \<longleftrightarrow> s = [] \<or> hd s = SLASH"
  by (cases s) auto

lemma levels_dropWhile:
  "tl (levels ns) = (case dropWhile (\<lambda>c. c \<noteq> SLASH) ns of [] \<Rightarrow> [] | _ # ns' \<Rightarrow> levels ns')"
  by (induction ns) auto

text \<open>Names the guard of the last test does not meet: not ending in a separator.\<close>

abbreviation no_trail :: "cstr \<Rightarrow> bool" where
  "no_trail ns \<equiv> ns \<noteq> [] \<longrightarrow> last ns \<noteq> SLASH"

definition hash_free :: "cstr \<Rightarrow> bool" where
  "hash_free fs \<longleftrightarrow> HASH \<notin> set fs"

text \<open>
  Inside a level, the loop compares the rest of the level byte by byte; at the start of a level it
  treats wildcards.  Both statements go together by induction on the filter.
\<close>

definition mid_spec :: "cstr \<Rightarrow> cstr \<Rightarrow> bool" where
  "mid_spec fs ns \<longleftrightarrow>
     hd (levels fs) = hd (levels ns) \<and> levels_match (tl (levels fs)) (tl (levels ns))"

definition agrees :: "cstr \<Rightarrow> cstr \<Rightarrow> bool \<Rightarrow> bool" where
  "agrees fs ns spec \<longleftrightarrow>
     (spec \<longrightarrow> rest_ok (match_rest fs ns)) \<and> (hash_free fs \<longrightarrow> rest_ok (match_rest fs ns) \<longrightarrow> spec)"


lemma plain_no_hash: "plain_level (hd (levels fs)) \<Longrightarrow> fs = [] \<or> hd fs \<noteq> HASH"
  by (cases fs) (auto simp: plain_level_def)

lemma hash_alone: "valid_filter (HASH # fs) \<Longrightarrow> fs = []"
  by (cases fs) (auto simp: valid_filter_def plain_level_def split: if_splits)

lemma agrees_False: "agrees fs ns spec" if "\<not> spec" and "hash_free fs \<Longrightarrow> \<not> rest_ok (match_rest fs ns)"
  using that by (auto simp: agrees_def)

lemma match_no_levels:
  assumes "levels_match (levels fs) []"
  shows "\<exists>fs'. fs = HASH # fs'"
proof -
  from assms have "levels fs = [[HASH]]" by (cases "levels fs") (auto split: if_splits)
  then show ?thesis by (cases fs) (auto split: if_splits)
qed

lemma slash_at_end: "agrees (SLASH # fs) [] (levels_match (levels fs) [])"
proof (cases "levels_match (levels fs) []")
  case True
  with match_no_levels obtain fs' where "fs = HASH # fs'" by blast
  then show ?thesis by (simp add: agrees_def hash_free_def)
next
  case False
  then show ?thesis by (intro agrees_False) (cases fs; force simp: hash_free_def)+
qed

lemma mid_step:
  assumes start: "\<And>fs' ns'. length fs' < length fs \<Longrightarrow> valid_filter fs' \<Longrightarrow> ns' \<noteq> [] \<Longrightarrow> last ns' \<noteq> SLASH \<Longrightarrow>
      agrees fs' ns' (topic_spec fs' ns')"
    and mid: "\<And>fs' ns'. length fs' < length fs \<Longrightarrow> plain_level (hd (levels fs')) \<Longrightarrow> valid_levels (tl (levels fs')) \<Longrightarrow>
      no_trail ns' \<Longrightarrow> agrees fs' ns' (mid_spec fs' ns')"
    and v: "plain_level (hd (levels fs))" "valid_levels (tl (levels fs))" and n: "no_trail ns"
  shows "agrees fs ns (mid_spec fs ns)"
proof (cases fs)
  case Nil
  then show ?thesis by (cases ns) (auto simp: agrees_def mid_spec_def)
next
  case fs: (Cons f fs')
  show ?thesis
  proof (cases "f = SLASH")
    case True
    then have vf: "valid_filter fs'" using v fs by (simp add: valid_filter_def)
    show ?thesis
    proof (cases ns)
      case Nil
      with True show ?thesis using slash_at_end [of fs'] by (simp add: fs mid_spec_def)
    next
      case ns: (Cons m ns')
      show ?thesis
      proof (cases "m = SLASH")
        case mT: True
        with n ns have "ns' \<noteq> []" "last ns' \<noteq> SLASH" by (auto split: if_splits)
        with start [of fs' ns'] vf have "agrees fs' ns' (topic_spec fs' ns')" by (simp add: fs)
        with True mT show ?thesis by (simp add: fs ns agrees_def mid_spec_def topic_spec_def hash_free_def)
      next
        case False
        with True show ?thesis
          by (intro agrees_False) (cases fs'; force simp: fs ns mid_spec_def hash_free_def)+
      qed
    qed
  next
    case False
    with v fs have pl: "f \<noteq> PLUS" "f \<noteq> HASH" "plain_level (hd (levels fs'))" "valid_levels (tl (levels fs'))"
      by (auto simp: plain_level_def)
    note nh = plain_no_hash [OF pl(3)]
    show ?thesis
    proof (cases "ns \<noteq> [] \<and> hd ns = f")
      case True
      then obtain ns' where ns: "ns = f # ns'" by (cases ns) auto
      with n have "no_trail ns'" by (auto split: if_splits)
      with mid [of fs' ns'] pl have "agrees fs' ns' (mid_spec fs' ns')" by (simp add: fs)
      moreover have "match_rest fs ns = match_rest fs' ns'" "hash_free fs = hash_free fs'"
        "mid_spec fs ns = mid_spec fs' ns'"
        using False pl(1,2) by (simp_all add: fs ns hash_free_def mid_spec_def)
      ultimately show ?thesis by (simp only: agrees_def)
    next
      case nT: False
      have "match_rest fs ns = (fs, ns)" using False pl nT by (cases ns) (simp_all add: fs)
      moreover have "\<not> rest_ok (fs, ns)" using pl nh by (simp add: fs)
      moreover have "\<not> mid_spec fs ns" using False nT by (cases ns) (simp_all add: fs mid_spec_def)
      ultimately show ?thesis by (simp add: agrees_def)
    qed
  qed
qed

lemma start_step:
  assumes start: "\<And>fs' ns'. length fs' < length fs \<Longrightarrow> valid_filter fs' \<Longrightarrow> ns' \<noteq> [] \<Longrightarrow> last ns' \<noteq> SLASH \<Longrightarrow>
      agrees fs' ns' (topic_spec fs' ns')"
    and mid: "plain_level (hd (levels fs)) \<Longrightarrow> valid_levels (tl (levels fs)) \<Longrightarrow> agrees fs ns (mid_spec fs ns)"
    and v: "valid_filter fs" and n: "ns \<noteq> []" "last ns \<noteq> SLASH"
  shows "agrees fs ns (topic_spec fs ns)"
proof -
  obtain l ls where lf: "levels fs = l # ls" by (cases "levels fs") auto
  obtain m ms where ln: "levels ns = m # ms" by (cases "levels ns") auto
  from v lf consider "plain_level l" | "l = [PLUS]" | "l = [HASH]" "ls = []"
    by (auto simp: valid_filter_def)
  then show ?thesis
  proof cases
    case 1
    then have "topic_spec fs ns = mid_spec fs ns"
      by (auto simp: topic_spec_def mid_spec_def lf ln plain_level_def)
    with mid 1 v lf show ?thesis by (simp add: valid_filter_def)
  next
    case 3
    then have "fs = [HASH]" using lf hash_alone [of "tl fs"] v by (cases fs) (auto split: if_splits)
    with n show ?thesis by (cases ns) (auto simp: agrees_def hash_free_def)
  next
    case 2
    then obtain r where fs: "fs = PLUS # r" and r: "r = [] \<or> hd r = SLASH"
      using lf by (cases fs) (auto simp: hd_levels_Nil_iff split: if_splits)
    let ?d = "dropWhile (\<lambda>c. c \<noteq> SLASH) ns"
    have mr: "match_rest fs ns = match_rest r ?d"
      using n by (cases ns) (auto simp: fs)
    have sp: "topic_spec fs ns = levels_match (tl (levels r)) (case ?d of [] \<Rightarrow> [] | _ # ns' \<Rightarrow> levels ns')"
      using levels_dropWhile [of ns] lf ln 2 by (auto simp: topic_spec_def fs)
    show ?thesis
    proof (cases r)
      case Nil
      then show ?thesis by (cases ?d) (simp_all only: agrees_def mr sp Nil match_rest.simps rest_ok.simps
          list.case levels.simps list.sel levels_match.simps levels_ne not_False_eq_True simp_thms list.distinct)
    next
      case rC: (Cons f r')
      with r have f: "f = SLASH" by simp
      have vr: "valid_filter r'" using v f by (simp add: valid_filter_def fs rC)
      show ?thesis
      proof (cases ?d)
        case Nil
        then have "match_rest fs ns = match_rest (SLASH # r') []" "topic_spec fs ns = levels_match (levels r') []"
          unfolding mr sp by (simp_all only: rC f list.case levels.simps list.sel simp_thms if_True)
        moreover have "hash_free fs = hash_free (SLASH # r')" by (simp add: hash_free_def fs rC f)
        ultimately show ?thesis using slash_at_end [of r'] by (simp only: agrees_def)
      next
        case dC: (Cons c ns')
        then have c: "c = SLASH" using hd_dropWhile [of "\<lambda>c. c \<noteq> SLASH" ns] by (simp only: list.sel list.distinct simp_thms)
        have "last ?d = last ns" using last_append [of "takeWhile (\<lambda>c. c \<noteq> SLASH) ns" ?d, unfolded takeWhile_dropWhile_id]
          by (simp only: dC list.distinct if_False)
        then have "last (SLASH # ns') \<noteq> SLASH" using n(2) by (simp only: dC c not_False_eq_True)
        then have "ns' \<noteq> []" "last ns' \<noteq> SLASH" by (simp_all split: if_splits)
        with start [of r' ns'] vr have "agrees r' ns' (topic_spec r' ns')" by (simp add: fs rC)
        moreover have "match_rest fs ns = match_rest r' ns'" "topic_spec fs ns = topic_spec r' ns'"
          unfolding mr sp dC c rC f by (simp_all add: topic_spec_def)
        moreover have "hash_free fs = hash_free r'" by (simp add: hash_free_def fs rC f)
        ultimately show ?thesis by (simp only: agrees_def)
      qed
    qed
  qed
qed


lemma match_rest_agrees:
  "(valid_filter fs \<longrightarrow> (\<forall>ns. ns \<noteq> [] \<longrightarrow> last ns \<noteq> SLASH \<longrightarrow> agrees fs ns (topic_spec fs ns)))
   \<and> (plain_level (hd (levels fs)) \<longrightarrow> valid_levels (tl (levels fs)) \<longrightarrow>
      (\<forall>ns. no_trail ns \<longrightarrow> agrees fs ns (mid_spec fs ns)))"
proof (induction fs rule: length_induct)
  case (1 fs)
  have s: "agrees fs' ns (topic_spec fs' ns)"
    if "length fs' < length fs" "valid_filter fs'" "ns \<noteq> []" "last ns \<noteq> SLASH" for fs' ns
    using 1 that by blast
  have m: "agrees fs' ns (mid_spec fs' ns)"
    if "length fs' < length fs" "plain_level (hd (levels fs'))" "valid_levels (tl (levels fs'))" "no_trail ns" for fs' ns
    using 1 that by blast
  have mid: "agrees fs ns (mid_spec fs ns)"
    if "plain_level (hd (levels fs))" "valid_levels (tl (levels fs))" "no_trail ns" for ns
    using mid_step [OF s m that] by blast
  have "agrees fs ns (topic_spec fs ns)" if "valid_filter fs" "ns \<noteq> []" "last ns \<noteq> SLASH" for ns
    using start_step [OF s mid that] that(3) by blast
  with mid show ?case by blast
qed

lemma match_rest_plus: "match_rest fs ns = (PLUS # r, ns') \<Longrightarrow> ns' = []"
  by (induction fs ns rule: match_rest.induct) (auto split: if_splits)

lemma is_topic_matched_rest:
  assumes "unat n \<le> length buf" and name: "name = take (unat n) buf" and "name \<noteq> []" and "last name \<noteq> SLASH"
  shows "is_topic_matched flt buf n = Some (rest_ok (match_rest flt name))"
proof -
  obtain fs' j where loop: "topic_match_loop flt buf 0 (unat n) = Some (fs', j)" "j \<le> unat n"
    "match_rest flt name = (fs', name_from buf j (unat n))"
    using topic_match_loop_list [of "unat n" buf 0 flt] assms(1,2) by auto
  have n0: "0 < unat n" using assms(3) name by (cases "unat n") auto
  show ?thesis
  proof (cases fs')
    case Nil
    with loop assms(1) show ?thesis by (auto simp: is_topic_matched_def)
  next
    case (Cons f r)
    have "peek buf (j - 1) \<noteq> Some SLASH \<and> peek buf (j - 1) \<noteq> None \<and> j \<noteq> 0" if "f = PLUS"
    proof -
      from match_rest_plus [of flt name r] loop that Cons have "name_from buf j (unat n) = []" by simp
      with loop(2) assms(1) have "j = unat n" by simp
      moreover have "last name = buf ! (unat n - 1)"
        using assms(1,3) n0 by (simp add: name last_conv_nth)
      ultimately show ?thesis using assms(1,4) n0 by (simp add: peek_def)
    qed
    with loop Cons show ?thesis
      by (cases r) (auto simp: is_topic_matched_def)
  qed
qed


section \<open>Filters without wildcards and filters ending in the multi-level wildcard\<close>

text \<open>Over a plain prefix the loop consumes equal bytes and stops at the first difference.\<close>

lemma match_rest_plain:
  "plain_level p \<Longrightarrow>
   (if \<exists>ns'. ns = p @ ns' then match_rest (p @ q) ns = match_rest q (drop (length p) ns)
    else \<exists>a b ns'. p = a @ b \<and> b \<noteq> [] \<and> match_rest (p @ q) ns = (b @ q, ns'))"
proof (induction p arbitrary: ns)
  case Nil
  then show ?case by simp
next
  case (Cons f p)
  then have pl: "f \<noteq> PLUS" "f \<noteq> HASH" "plain_level p" by (auto simp: plain_level_def)
  show ?case
  proof (cases "ns \<noteq> [] \<and> hd ns = f")
    case True
    then obtain ns' where ns: "ns = f # ns'" by (cases ns) auto
    with pl have step: "match_rest ((f # p) @ q) ns = match_rest (p @ q) ns'" by simp
    show ?thesis
    proof (cases "\<exists>ns''. ns' = p @ ns''")
      case True
      with Cons.IH [OF pl(3), of ns'] step show ?thesis by (auto simp: ns)
    next
      case False
      with Cons.IH [OF pl(3), of ns'] obtain a b ns'' where
        "p = a @ b" "b \<noteq> []" "match_rest (p @ q) ns' = (b @ q, ns'')" by auto
      with False step show ?thesis by (auto simp: ns intro!: exI [of _ "f # a"])
    qed
  next
    case False
    with pl have "match_rest ((f # p) @ q) ns = ((f # p) @ q, ns)" by (cases ns) auto
    with False show ?thesis by (auto intro!: exI [of _ "[]"])
  qed
qed

lemma rest_ok_plain:
  assumes "plain_level p"
  shows "rest_ok (match_rest p ns) \<longleftrightarrow> p = ns"
proof (cases "\<exists>ns'. ns = p @ ns'")
  case True
  with match_rest_plain [OF assms, of ns "[]"] show ?thesis by auto
next
  case False
  with match_rest_plain [OF assms, of ns "[]"] obtain a b ns' where
    ab: "p = a @ b" "b \<noteq> []" "match_rest p ns = (b, ns')" by auto
  with assms have "HASH \<notin> set b" by (simp add: plain_level_def)
  with ab False show ?thesis by (cases b; cases "tl b") (auto simp: neq_Nil_conv)
qed

lemma rest_ok_multi:
  assumes "plain_level p"
  shows "rest_ok (match_rest (p @ [SLASH, HASH]) ns) \<longleftrightarrow> (\<exists>ns'. ns = p @ ns')"
proof (cases "\<exists>ns'. ns = p @ ns'")
  case True
  have "rest_ok (match_rest [SLASH, HASH] ns')" for ns'
  proof (cases ns')
    case (Cons c cs)
    then show ?thesis by (cases cs) auto
  qed simp
  with True match_rest_plain [OF assms, of ns "[SLASH, HASH]"] show ?thesis by auto
next
  case False
  with match_rest_plain [OF assms, of ns "[SLASH, HASH]"] obtain a b ns' where
    ab: "p = a @ b" "b \<noteq> []" "match_rest (p @ [SLASH, HASH]) ns = (b @ [SLASH, HASH], ns')" by auto
  with assms have "HASH \<notin> set b" by (simp add: plain_level_def)
  with ab False show ?thesis by (cases b; cases "tl b") (auto simp: neq_Nil_conv)
qed

section \<open>Properties\<close>

text \<open>
  C9. Topic matching agrees with the protocol.  For a well-formed filter (wildcards are whole levels,
  \<open>#\<close> is last) and a topic that is not empty and does not end in a separator, \<open>_is_topic_matched\<close> stays in the
  topic buffer, accepts every topic that MQTT 3.1.1 section 4.7 says the filter matches, and, when the
  filter has no \<open>#\<close>, accepts no other.
\<close>
theorem topic_matching_correct:
  assumes "valid_filter flt" and "unat n \<le> length buf"
    and "name = take (unat n) buf" and "name \<noteq> []" and "last name \<noteq> SLASH"
  shows "\<exists>b. is_topic_matched flt buf n = Some b
    \<and> (topic_spec flt name \<longrightarrow> b) \<and> (HASH \<notin> set flt \<longrightarrow> b = topic_spec flt name)"
proof -
  from match_rest_agrees [of flt] assms(1,4,5) have "agrees flt name (topic_spec flt name)" by blast
  then show ?thesis
    using is_topic_matched_rest [OF assms(2-5), of flt] by (auto simp: agrees_def hash_free_def)
qed

theorem topic_matching_correct_witness:
  "\<exists>b. is_topic_matched (str ''a/+/c'') (str ''a/bb/c'') 6 = Some b \<and> b"
proof -
  have "valid_filter (str ''a/+/c'')" "topic_spec (str ''a/+/c'') (str ''a/bb/c'')"
    "take (unat (6 :: u16)) (str ''a/bb/c'') = str ''a/bb/c''" "str ''a/bb/c'' \<noteq> []"
    "last (str ''a/bb/c'') \<noteq> SLASH" "unat (6 :: u16) \<le> length (str ''a/bb/c'')"
    by code_simp+
  with topic_matching_correct [of "str ''a/+/c''" 6 "str ''a/bb/c''" "str ''a/bb/c''"] show ?thesis by auto
qed

text \<open>
  A filter without wildcards matches exactly the topic that equals it.
\<close>
lemma topic_matching_plain:
  assumes "PLUS \<notin> set flt" and "HASH \<notin> set flt" and "unat n \<le> length buf"
    and "take (unat n) buf \<noteq> []" and "last (take (unat n) buf) \<noteq> SLASH"
  shows "is_topic_matched flt buf n = Some (flt = take (unat n) buf)"
  using is_topic_matched_rest [OF assms(3) refl assms(4,5), of flt] rest_ok_plain [of flt] assms(1,2)
  by (simp add: plain_level_def)

lemma topic_matching_plain_witness:
  "is_topic_matched (str ''a/b'') (str ''a/bc'') 4 = Some False"
proof -
  have "PLUS \<notin> set (str ''a/b'')" "HASH \<notin> set (str ''a/b'')" "unat (4 :: u16) \<le> length (str ''a/bc'')"
    "take (unat (4 :: u16)) (str ''a/bc'') \<noteq> []" "last (take (unat (4 :: u16)) (str ''a/bc'')) \<noteq> SLASH"
    "str ''a/b'' \<noteq> take (unat (4 :: u16)) (str ''a/bc'')"
    by code_simp+
  with topic_matching_plain [of "str ''a/b''" 4 "str ''a/bc''"] show ?thesis by simp
qed

text \<open>
  What a filter \<open>p/#\<close> with a plain \<open>p\<close> matches: every topic that has the bytes of \<open>p\<close>
  as a prefix.  The protocol asks for \<open>p\<close> itself or for \<open>p\<close> followed by a separator, so the
  code accepts topics it should not: \<open>a/#\<close> accepts \<open>ab\<close>.
\<close>
theorem topic_matching_multi_level:
  assumes "PLUS \<notin> set p" and "HASH \<notin> set p" and "unat n \<le> length buf"
    and "take (unat n) buf \<noteq> []" and "last (take (unat n) buf) \<noteq> SLASH"
  shows "is_topic_matched (p @ [SLASH, HASH]) buf n =
    Some (length p \<le> unat n \<and> take (length p) buf = p)"
proof -
  have "(\<exists>ns'. take (unat n) buf = p @ ns') \<longleftrightarrow> length p \<le> unat n \<and> take (length p) buf = p"
  proof
    assume "\<exists>ns'. take (unat n) buf = p @ ns'"
    then obtain ns' where e: "take (unat n) buf = p @ ns'" ..
    then have "length (p @ ns') = unat n" using assms(3) by (metis length_take min.absorb2)
    moreover have "take (length p) buf = take (length p) (take (unat n) buf)"
      using calculation by (simp add: min_def)
    ultimately show "length p \<le> unat n \<and> take (length p) buf = p" using e by simp
  next
    assume "length p \<le> unat n \<and> take (length p) buf = p"
    then show "\<exists>ns'. take (unat n) buf = p @ ns'"
      by (metis le_add_diff_inverse take_add)
  qed
  with is_topic_matched_rest [OF assms(3) refl assms(4,5)] rest_ok_multi [of p] assms(1,2) show ?thesis
    by (simp add: plain_level_def)
qed

theorem topic_matching_multi_level_witness:
  "is_topic_matched (str ''a'' @ [SLASH, HASH]) (str ''ab'') 2 = Some True
   \<and> \<not> topic_spec (str ''a'' @ [SLASH, HASH]) (str ''ab'')"
proof -
  have "PLUS \<notin> set (str ''a'')" "HASH \<notin> set (str ''a'')" "unat (2 :: u16) \<le> length (str ''ab'')"
    "take (unat (2 :: u16)) (str ''ab'') \<noteq> []" "last (take (unat (2 :: u16)) (str ''ab'')) \<noteq> SLASH"
    "length (str ''a'') \<le> unat (2 :: u16)" "take (length (str ''a'')) (str ''ab'') = str ''a''"
    "\<not> topic_spec (str ''a'' @ [SLASH, HASH]) (str ''ab'')"
    by code_simp+
  with topic_matching_multi_level [of "str ''a''" 2 "str ''ab''"] show ?thesis by simp
qed

end
