(* ===== verification/Utils_List.thy ===== *)
theory Utils_List
  imports Iot_Prelude
begin

text \<open>
  The doubly linked list of \<^verbatim>\<open>utils_list.c\<close> on an explicit store.  Nodes live at addresses;
  reading or writing a node that is not allocated, or through NULL, is \<open>None\<close>, so a freed node
  that is touched again is visible.  The relation \<open>dll\<close> says that a list object and the store
  represent a sequence of (address, value) pairs; every operation is shown to refine the operation on
  sequences.  The locale \<open>node_list\<close> is the interface the MQTT client relies on.
\<close>

section \<open>Definitions\<close>

type_synonym addr = nat

record 'v ListNode =
  prev :: "addr option"
  nxt :: "addr option"
  val :: 'v

type_synonym 'v store = "addr \<Rightarrow> 'v ListNode option"

text \<open>
  The list object.  \<open>free_fn\<close> tells whether the \<open>free\<close> callback is set; the values handed to it are
  returned by the operations that free.
\<close>

record List =
  head :: "addr option"
  tail :: "addr option"
  len :: u32
  free_fn :: bool

datatype ListDirection = LIST_HEAD | LIST_TAIL

record ListIterator =
  it_next :: "addr option"
  direction :: ListDirection

text \<open>Assignment to the fields of a node through a pointer, which must be allocated.\<close>

definition set_prev :: "'v store \<Rightarrow> addr option \<Rightarrow> addr option \<Rightarrow> 'v store option" where
  "set_prev st p x = do { a \<leftarrow> p; n \<leftarrow> st a; Some (st(a \<mapsto> n\<lparr>prev := x\<rparr>)) }"

definition set_next :: "'v store \<Rightarrow> addr option \<Rightarrow> addr option \<Rightarrow> 'v store option" where
  "set_next st p x = do { a \<leftarrow> p; n \<leftarrow> st a; Some (st(a \<mapsto> n\<lparr>nxt := x\<rparr>)) }"

definition list_new :: "bool \<Rightarrow> List option" where
  "list_new granted =
     (if granted then Some \<lparr> head = None, tail = None, len = 0, free_fn = False \<rparr> else None)"

text \<open>\<open>a\<close> is the block the allocator returned, \<open>None\<close> when it had none.\<close>

definition list_node_new :: "'v store \<Rightarrow> addr option \<Rightarrow> 'v \<Rightarrow> 'v store \<times> addr option" where
  "list_node_new st block v =
     (case block of None \<Rightarrow> (st, None)
      | Some a \<Rightarrow> (st(a \<mapsto> \<lparr> prev = None, nxt = None, val = v \<rparr>), Some a))"

definition list_rpush ::
  "'v store \<Rightarrow> List \<Rightarrow> addr option \<Rightarrow> ('v store \<times> List \<times> addr option) option" where
  "list_rpush st self node =
     (case node of None \<Rightarrow> Some (st, self, None)
      | Some a \<Rightarrow>
          if len self \<noteq> 0 then do {
            st \<leftarrow> set_prev st node (tail self);
            st \<leftarrow> set_next st node None;
            st \<leftarrow> set_next st (tail self) node;
            Some (st, self\<lparr>tail := node, len := len self + 1\<rparr>, node) }
          else do {
            st \<leftarrow> set_next st node None;
            st \<leftarrow> set_prev st node None;
            Some (st, self\<lparr>head := node, tail := node, len := len self + 1\<rparr>, node) })"

definition list_lpush ::
  "'v store \<Rightarrow> List \<Rightarrow> addr option \<Rightarrow> ('v store \<times> List \<times> addr option) option" where
  "list_lpush st self node =
     (case node of None \<Rightarrow> Some (st, self, None)
      | Some a \<Rightarrow>
          if len self \<noteq> 0 then do {
            st \<leftarrow> set_next st node (head self);
            st \<leftarrow> set_prev st node None;
            st \<leftarrow> set_prev st (head self) node;
            Some (st, self\<lparr>head := node, len := len self + 1\<rparr>, node) }
          else do {
            st \<leftarrow> set_next st node None;
            st \<leftarrow> set_prev st node None;
            Some (st, self\<lparr>head := node, tail := node, len := len self + 1\<rparr>, node) })"

definition list_rpop :: "'v store \<Rightarrow> List \<Rightarrow> ('v store \<times> List \<times> addr option) option" where
  "list_rpop st self =
     (if len self = 0 then Some (st, self, None)
      else do {
        a \<leftarrow> tail self;
        n \<leftarrow> st a;
        let self = self\<lparr>len := len self - 1\<rparr>;
        (st, self) \<leftarrow>
          (if len self \<noteq> 0 then do {
             let self = self\<lparr>tail := prev n\<rparr>;
             st \<leftarrow> set_next st (tail self) None;
             Some (st, self) }
           else Some (st, self\<lparr>tail := None, head := None\<rparr>));
        st \<leftarrow> set_prev st (Some a) None;
        st \<leftarrow> set_next st (Some a) None;
        Some (st, self, Some a) })"

definition list_lpop :: "'v store \<Rightarrow> List \<Rightarrow> ('v store \<times> List \<times> addr option) option" where
  "list_lpop st self =
     (if len self = 0 then Some (st, self, None)
      else do {
        a \<leftarrow> head self;
        n \<leftarrow> st a;
        let self = self\<lparr>len := len self - 1\<rparr>;
        (st, self) \<leftarrow>
          (if len self \<noteq> 0 then do {
             let self = self\<lparr>head := nxt n\<rparr>;
             st \<leftarrow> set_prev st (head self) None;
             Some (st, self) }
           else Some (st, self\<lparr>head := None, tail := None\<rparr>));
        st \<leftarrow> set_prev st (Some a) None;
        st \<leftarrow> set_next st (Some a) None;
        Some (st, self, Some a) })"

text \<open>The result lists the values passed to the \<open>free\<close> callback.\<close>

definition list_remove ::
  "'v store \<Rightarrow> List \<Rightarrow> addr \<Rightarrow> ('v store \<times> List \<times> 'v list) option" where
  "list_remove st self a = do {
     n \<leftarrow> st a;
     (st, self) \<leftarrow>
       (if prev n \<noteq> None then do { st \<leftarrow> set_next st (prev n) (nxt n); Some (st, self) }
        else Some (st, self\<lparr>head := nxt n\<rparr>));
     n \<leftarrow> st a;
     (st, self) \<leftarrow>
       (if nxt n \<noteq> None then do { st \<leftarrow> set_prev st (nxt n) (prev n); Some (st, self) }
        else Some (st, self\<lparr>tail := prev n\<rparr>));
     n \<leftarrow> st a;
     Some (st(a := None), self\<lparr>len := len self - 1\<rparr>, if free_fn self then [val n] else []) }"

definition list_iterator_new_from_node :: "bool \<Rightarrow> addr option \<Rightarrow> ListDirection \<Rightarrow> ListIterator option" where
  "list_iterator_new_from_node granted node dir =
     (if granted then Some \<lparr> it_next = node, direction = dir \<rparr> else None)"

definition list_iterator_new :: "bool \<Rightarrow> List \<Rightarrow> ListDirection \<Rightarrow> ListIterator option" where
  "list_iterator_new granted self dir =
     list_iterator_new_from_node granted (if dir = LIST_HEAD then head self else tail self) dir"

definition list_iterator_next ::
  "'v store \<Rightarrow> ListIterator \<Rightarrow> (ListIterator \<times> addr option) option" where
  "list_iterator_next st it =
     (case it_next it of
        None \<Rightarrow> Some (it, None)
      | Some cur \<Rightarrow> do {
          n \<leftarrow> st cur;
          Some (it\<lparr>it_next := (if direction it = LIST_HEAD then nxt n else prev n)\<rparr>, Some cur) })"

text \<open>
  \<open>list_find\<close>: the \<open>while (node)\<close> loop with fuel, which bounds the number of nodes visited;
  \<open>match\<close> is the callback, or equality of values when it is not set.  The result is
  \<open>Some None\<close> when there is no node.
\<close>

fun list_find_loop ::
  "nat \<Rightarrow> 'v store \<Rightarrow> ('v \<Rightarrow> 'v \<Rightarrow> bool) \<Rightarrow> 'v \<Rightarrow> ListIterator \<Rightarrow> addr option \<Rightarrow> addr option option" where
  "list_find_loop fuel st match v it None = Some None"
| "list_find_loop 0 st match v it (Some a) = None"
| "list_find_loop (Suc fuel) st match v it (Some a) = do {
     n \<leftarrow> st a;
     if match v (val n) then Some (Some a)
     else do {
       (it, node) \<leftarrow> list_iterator_next st it;
       list_find_loop fuel st match v it node } }"

definition list_find ::
  "nat \<Rightarrow> bool \<Rightarrow> 'v store \<Rightarrow> List \<Rightarrow> ('v \<Rightarrow> 'v \<Rightarrow> bool) option \<Rightarrow> 'v \<Rightarrow> addr option option" where
  "list_find fuel granted st self match v =
     (case list_iterator_new granted self LIST_HEAD of
        None \<Rightarrow> Some None
      | Some it \<Rightarrow> do {
          (it, node) \<leftarrow> list_iterator_next st it;
          list_find_loop fuel st (case match of None \<Rightarrow> (=) | Some m \<Rightarrow> m) v it node })"

text \<open>\<open>while (index--)\<close> of \<open>list_at\<close>.\<close>

primrec list_at_loop ::
  "nat \<Rightarrow> 'v store \<Rightarrow> ListIterator \<Rightarrow> addr option \<Rightarrow> addr option option" where
  "list_at_loop 0 st it node = Some node"
| "list_at_loop (Suc i) st it node = do {
     (it, node) \<leftarrow> list_iterator_next st it;
     list_at_loop i st it node }"

definition list_at :: "bool \<Rightarrow> 'v store \<Rightarrow> List \<Rightarrow> int \<Rightarrow> addr option option" where
  "list_at granted st self index =
     (let (dir, index) = (if index < 0 then (LIST_TAIL, - index - 1) else (LIST_HEAD, index))
      in if (of_int index :: u32) < len self
         then (case list_iterator_new granted self dir of
                 None \<Rightarrow> Some None
               | Some it \<Rightarrow> do {
                   (it, node) \<leftarrow> list_iterator_next st it;
                   list_at_loop (nat index) st it node })
         else Some None)"

primrec list_destroy_loop ::
  "nat \<Rightarrow> bool \<Rightarrow> 'v store \<Rightarrow> addr option \<Rightarrow> 'v list \<Rightarrow> ('v store \<times> 'v list) option" where
  "list_destroy_loop 0 ff st cur freed = Some (st, freed)"
| "list_destroy_loop (Suc l) ff st cur freed = do {
     a \<leftarrow> cur;
     n \<leftarrow> st a;
     list_destroy_loop l ff (st(a := None)) (nxt n) (if ff then freed @ [val n] else freed) }"

definition list_destroy :: "'v store \<Rightarrow> List \<Rightarrow> ('v store \<times> 'v list) option" where
  "list_destroy st self = list_destroy_loop (unat (len self)) (free_fn self) st (head self) []"

section \<open>Representation\<close>

type_synonym 'v nodes = "(addr \<times> 'v) list"

fun first_addr :: "addr option \<Rightarrow> 'v nodes \<Rightarrow> addr option" where
  "first_addr q [] = q"
| "first_addr q (x # xs) = Some (fst x)"

definition last_addr :: "addr option \<Rightarrow> 'v nodes \<Rightarrow> addr option" where
  "last_addr p xs = (if xs = [] then p else Some (fst (last xs)))"

text \<open>A linked segment: \<open>p\<close> is the node before it and \<open>q\<close> the node behind it.\<close>

fun dseg :: "'v store \<Rightarrow> addr option \<Rightarrow> 'v nodes \<Rightarrow> addr option \<Rightarrow> bool" where
  "dseg st p [] q = True"
| "dseg st p (x # xs) q =
     (st (fst x) = Some \<lparr> prev = p, nxt = first_addr q xs, val = snd x \<rparr> \<and> dseg st (Some (fst x)) xs q)"

definition dll :: "'v store \<Rightarrow> List \<Rightarrow> 'v nodes \<Rightarrow> bool" where
  "dll st self xs \<longleftrightarrow> dseg st None xs None \<and> distinct (map fst xs)
     \<and> head self = first_addr None xs \<and> tail self = last_addr None xs \<and> unat (len self) = length xs"

lemma first_addr_append [simp]: "first_addr q (xs @ ys) = first_addr (first_addr q ys) xs"
  by (cases xs) auto

lemma last_addr_append [simp]: "last_addr p (xs @ ys) = last_addr (last_addr p xs) ys"
  by (simp add: last_addr_def)

lemma last_addr_Nil [simp]: "last_addr p [] = p"
  by (simp add: last_addr_def)

lemma last_addr_Cons [simp]: "last_addr p (x # xs) = last_addr (Some (fst x)) xs"
  by (simp add: last_addr_def)

lemma dseg_append [simp]:
  "dseg st p (xs @ ys) q \<longleftrightarrow> dseg st p xs (first_addr q ys) \<and> dseg st (last_addr p xs) ys q"
  by (induction xs arbitrary: p) auto

lemma dseg_upd [simp]: "a \<notin> fst ` set xs \<Longrightarrow> dseg (st(a := x)) p xs q = dseg st p xs q"
  by (induction xs arbitrary: p) auto

lemma unat_len_pos: "len self \<noteq> 0 \<longleftrightarrow> unat (len self) \<noteq> 0"
  by (simp add: unat_eq_0)

lemma unat_succ: "unat x < 2 ^ 32 - 1 \<Longrightarrow> unat (x + 1 :: u32) = unat x + 1"
  by (simp add: unat_word_ariths)

lemma unat_pred: "unat x \<noteq> 0 \<Longrightarrow> unat (x - 1 :: u32) = unat x - 1"
  by (metis unat_minus_one unat_0)

lemma dll_len: "dll st self xs \<Longrightarrow> len self = 0 \<longleftrightarrow> xs = []"
  by (auto simp: dll_def unat_eq_0 [symmetric])

lemma list_rpush_refines:
  assumes "dll st self xs" and "st a = Some n" and "a \<notin> fst ` set xs" and "length xs < 2 ^ 32 - 1"
  shows "\<exists>st' self'. list_rpush st self (Some a) = Some (st', self', Some a)
    \<and> dll st' self' (xs @ [(a, val n)]) \<and> free_fn self' = free_fn self
    \<and> (\<forall>b. b \<noteq> a \<longrightarrow> b \<notin> fst ` set xs \<longrightarrow> st' b = st b)"
proof (cases xs rule: rev_cases)
  case Nil
  with assms show ?thesis
    by (auto simp: list_rpush_def unat_eq_0 dll_def set_prev_def set_next_def)
next
  case (snoc ys y)
  from assms(4) assms(1) have u: "unat (len self + 1) = unat (len self) + 1"
    by (intro unat_succ) (simp add: dll_def)
  from assms snoc have "tail self = Some (fst y)" "len self \<noteq> 0" "fst y \<noteq> a" "fst y \<notin> fst ` set ys" "a \<notin> fst ` set ys"
    using dll_len [OF assms(1)] by (simp_all add: dll_def)
  with assms snoc u show ?thesis
    by (auto simp: list_rpush_def dll_def set_prev_def set_next_def)
qed

lemma list_lpush_refines:
  assumes "dll st self xs" and "st a = Some n" and "a \<notin> fst ` set xs" and "length xs < 2 ^ 32 - 1"
  shows "\<exists>st' self'. list_lpush st self (Some a) = Some (st', self', Some a)
    \<and> dll st' self' ((a, val n) # xs) \<and> free_fn self' = free_fn self"
proof (cases xs)
  case Nil
  with assms show ?thesis
    by (auto simp: list_lpush_def unat_eq_0 dll_def set_prev_def set_next_def)
next
  case (Cons y ys)
  from assms(4) assms(1) have u: "unat (len self + 1) = unat (len self) + 1"
    by (intro unat_succ) (simp add: dll_def)
  from assms Cons have "head self = Some (fst y)" "len self \<noteq> 0" "fst y \<noteq> a" "fst y \<notin> fst ` set ys" "a \<notin> fst ` set ys"
    using dll_len [OF assms(1)] by (simp_all add: dll_def)
  with assms Cons u show ?thesis
    by (auto simp: list_lpush_def dll_def set_prev_def set_next_def)
qed

lemma list_remove_refines:
  assumes "dll st self (xs @ (a, v) # ys)"
  shows "\<exists>st' self'. list_remove st self a = Some (st', self', if free_fn self then [v] else [])
    \<and> dll st' self' (xs @ ys) \<and> free_fn self' = free_fn self \<and> st' a = None
    \<and> (\<forall>b. b \<notin> fst ` set (xs @ (a, v) # ys) \<longrightarrow> st' b = st b)"
proof -
  have u: "unat (len self - 1) = length xs + length ys"
    using assms unat_pred [of "len self"] by (simp add: dll_def)
  show ?thesis
  proof (cases xs rule: rev_cases; cases ys)
    assume "xs = []" "ys = []"
    with assms u show ?thesis by (auto simp: list_remove_def dll_def)
  next
    fix y ys' assume "xs = []" "ys = y # ys'"
    with assms u show ?thesis by (auto simp: list_remove_def dll_def set_prev_def set_next_def)
  next
    fix xs' x assume "xs = xs' @ [x]" "ys = []"
    with assms u show ?thesis by (auto simp: list_remove_def dll_def set_prev_def set_next_def)
  next
    fix xs' x y ys' assume e: "xs = xs' @ [x]" "ys = y # ys'"
    with assms have "a \<notin> fst ` set xs'" "a \<notin> fst ` set ys'" "fst x \<notin> fst ` set xs'" "fst x \<notin> fst ` set ys'"
      "fst y \<notin> fst ` set xs'" "fst y \<notin> fst ` set ys'" "fst x \<noteq> a" "fst y \<noteq> a" "fst x \<noteq> fst y"
      by (auto simp: dll_def)
    with assms u e show ?thesis by (auto simp: list_remove_def dll_def set_prev_def set_next_def)
  qed
qed

lemma list_rpop_refines:
  assumes "dll st self (xs @ [(a, v)])"
  shows "\<exists>st' self'. list_rpop st self = Some (st', self', Some a)
    \<and> dll st' self' xs \<and> st' a = Some \<lparr> prev = None, nxt = None, val = v \<rparr>"
proof -
  have u: "unat (len self - 1) = length xs" and l: "len self \<noteq> 0"
    using assms unat_pred [of "len self"] dll_len [OF assms] by (simp_all add: dll_def)
  have z: "len self - 1 = 0 \<longleftrightarrow> xs = []" using u by (metis unat_eq_0 length_0_conv)
  show ?thesis
  proof (cases xs rule: rev_cases)
    case Nil
    with assms u l z show ?thesis
      by (auto simp: list_rpop_def dll_def set_prev_def set_next_def)
  next
    case (snoc ys y)
    then have "len self - 1 \<noteq> 0" using z by simp
    moreover from assms snoc have "fst y \<noteq> a" "fst y \<notin> fst ` set ys" "a \<notin> fst ` set ys" by (auto simp: dll_def)
    ultimately show ?thesis
      using assms u l snoc by (auto simp: list_rpop_def dll_def set_prev_def set_next_def)
  qed
qed

lemma list_lpop_refines:
  assumes "dll st self ((a, v) # xs)"
  shows "\<exists>st' self'. list_lpop st self = Some (st', self', Some a)
    \<and> dll st' self' xs \<and> st' a = Some \<lparr> prev = None, nxt = None, val = v \<rparr>"
proof -
  have u: "unat (len self - 1) = length xs" and l: "len self \<noteq> 0"
    using assms unat_pred [of "len self"] dll_len [OF assms] by (simp_all add: dll_def)
  have z: "len self - 1 = 0 \<longleftrightarrow> xs = []" using u by (metis unat_eq_0 length_0_conv)
  show ?thesis
  proof (cases xs)
    case Nil
    with assms u l z show ?thesis
      by (auto simp: list_lpop_def dll_def set_prev_def set_next_def)
  next
    case (Cons y ys)
    then have "len self - 1 \<noteq> 0" using z by simp
    moreover from assms Cons have "fst y \<noteq> a" "fst y \<notin> fst ` set ys" "a \<notin> fst ` set ys" by (auto simp: dll_def)
    ultimately show ?thesis
      using assms u l Cons by (auto simp: list_lpop_def dll_def set_prev_def set_next_def)
  qed
qed


text \<open>Searching, indexing and destroying walk the represented sequence.\<close>

lemma list_find_loop_refines:
  "dseg st p xs None \<Longrightarrow> length xs \<le> fuel \<Longrightarrow> it_next it = first_addr None (tl xs) \<Longrightarrow>
   direction it = LIST_HEAD \<Longrightarrow>
   list_find_loop fuel st match v it (first_addr None xs) =
     Some (map_option fst (find (\<lambda>x. match v (snd x)) xs))"
proof (induction xs arbitrary: fuel p it)
  case (Cons x xs)
  then obtain fuel' where f: "fuel = Suc fuel'" by (cases fuel) auto
  have *: "list_find_loop fuel' st match v it' (first_addr None xs) =
      Some (map_option fst (find (\<lambda>x. match v (snd x)) xs))"
    if "it_next it' = first_addr None (tl xs)" "direction it' = LIST_HEAD" for it'
    using Cons.IH [of "Some (fst x)" fuel' it'] Cons.prems f that by simp
  show ?case
  proof (cases xs)
    case Nil
    with Cons.prems f show ?thesis by (simp add: list_iterator_next_def)
  next
    case (Cons y ys)
    with Cons.prems f * show ?thesis by (auto simp: list_iterator_next_def)
  qed
qed simp

lemma list_find_refines:
  assumes "dll st self xs" and "length xs \<le> fuel"
  shows "list_find fuel True st self (Some match) v = Some (map_option fst (find (\<lambda>x. match v (snd x)) xs))"
    and "list_find fuel True st self None v = Some (map_option fst (find (\<lambda>x. v = snd x) xs))"
proof -
  have *: "list_find fuel True st self m v = Some (map_option fst
      (find (\<lambda>x. (case m of None \<Rightarrow> (=) | Some m \<Rightarrow> m) v (snd x)) xs))" for m
  proof (cases xs)
    case Nil
    with assms show ?thesis
      by (simp add: list_find_def list_iterator_new_def list_iterator_new_from_node_def list_iterator_next_def dll_def)
  next
    case (Cons x ys)
    let ?it = "\<lparr> it_next = first_addr None ys, direction = LIST_HEAD \<rparr>"
    from assms Cons have "dseg st None xs None" by (simp add: dll_def)
    from list_find_loop_refines [OF this assms(2), of ?it] assms Cons show ?thesis
      by (simp add: list_find_def list_iterator_new_def list_iterator_new_from_node_def list_iterator_next_def dll_def)
  qed
  show "list_find fuel True st self (Some match) v = Some (map_option fst (find (\<lambda>x. match v (snd x)) xs))"
    using * [of "Some match"] by simp
  show "list_find fuel True st self None v = Some (map_option fst (find (\<lambda>x. v = snd x) xs))"
    using * [of None] by simp
qed

lemma list_at_head_loop:
  "dseg st p (x # xs) None \<Longrightarrow> i < length (x # xs) \<Longrightarrow>
   list_at_loop i st \<lparr> it_next = first_addr None xs, direction = LIST_HEAD \<rparr> (Some (fst x)) =
     Some (Some (fst ((x # xs) ! i)))"
proof (induction xs arbitrary: i p x)
  case (Cons y ys)
  show ?case
  proof (cases i)
    case (Suc j)
    with Cons.IH [of "Some (fst x)" y j] Cons.prems show ?thesis by (auto simp: list_iterator_next_def)
  qed simp
qed simp

lemma list_at_tail_loop:
  "dseg st None (xs @ [x]) q \<Longrightarrow> i < length (xs @ [x]) \<Longrightarrow>
   list_at_loop i st \<lparr> it_next = last_addr None xs, direction = LIST_TAIL \<rparr> (Some (fst x)) =
     Some (Some (fst (rev (xs @ [x]) ! i)))"
proof (induction xs arbitrary: i x q rule: rev_induct)
  case (snoc y ys)
  show ?case
  proof (cases i)
    case (Suc j)
    with snoc.IH [of y "Some (fst x)" j] snoc.prems show ?thesis by (auto simp: list_iterator_next_def)
  qed simp
qed simp

lemma list_at_refines:
  assumes "dll st self xs" and "- (2 ^ 31) \<le> index" and "index < 2 ^ 31"
  shows "list_at True st self index = Some (
    if 0 \<le> index then (if nat index < length xs then Some (fst (xs ! nat index)) else None)
    else (if nat (- index - 1) < length xs then Some (fst (rev xs ! nat (- index - 1))) else None))"
proof -
  have un: "(of_int j :: u32) < len self \<longleftrightarrow> nat j < length xs" if "0 \<le> j" "j < 2 ^ 31" for j
  proof -
    note jb = that
    obtain k where k: "j = int k" using zero_le_imp_eq_int [OF jb(1)] by blast
    have "unat (of_nat k :: u32) = k" using jb(2) k by (intro unat_of_nat_u32) simp
    with assms(1) show ?thesis
      unfolding k of_int_of_nat_eq nat_int by (simp only: word_less_nat_alt dll_def)
  qed
  show ?thesis
  proof (cases "0 \<le> index")
    case True
    show ?thesis
    proof (cases "nat index < length xs")
      case T: True
      then obtain x ys where xs: "xs = x # ys" by (cases xs) auto
      with assms(1) list_at_head_loop [of st None x ys "nat index"] T True un [OF True assms(3)] show ?thesis
        by (simp add: list_at_def list_iterator_new_def list_iterator_new_from_node_def list_iterator_next_def dll_def)
    qed (use True un [OF True assms(3)] in \<open>simp add: list_at_def\<close>)
  next
    case False
    then have j: "0 \<le> - index - 1" "- index - 1 < 2 ^ 31" using assms(2) by auto
    show ?thesis
    proof (cases "nat (- index - 1) < length xs")
      case T: True
      then obtain ys x where xs: "xs = ys @ [x]" by (cases xs rule: rev_cases) auto
      with assms(1) list_at_tail_loop [of st ys x None "nat (- index - 1)"] T False un [OF j] show ?thesis
        by (simp add: list_at_def list_iterator_new_def list_iterator_new_from_node_def list_iterator_next_def dll_def)
    qed (use False un [OF j] in \<open>simp add: list_at_def\<close>)
  qed
qed

lemma list_destroy_loop_refines:
  "dseg st p xs None \<Longrightarrow> distinct (map fst xs) \<Longrightarrow>
   list_destroy_loop (length xs) ff st (first_addr None xs) freed =
     Some (\<lambda>a. if a \<in> fst ` set xs then None else st a, if ff then freed @ map snd xs else freed)"
proof (induction xs arbitrary: st p freed)
  case (Cons x xs)
  then have s: "dseg (st(fst x := None)) (Some (fst x)) xs None" and d: "distinct (map fst xs)"
    and x: "st (fst x) = Some \<lparr> prev = p, nxt = first_addr None xs, val = snd x \<rparr>" by simp_all
  show ?case
    by (simp add: x Cons.IH [OF s d]) (auto simp: fun_eq_iff)
qed simp

lemma list_destroy_refines:
  assumes "dll st self xs"
  shows "list_destroy st self =
    Some (\<lambda>a. if a \<in> fst ` set xs then None else st a, if free_fn self then map snd xs else [])"
  using list_destroy_loop_refines [of st None xs "free_fn self" "[]"] assms
  by (simp add: list_destroy_def dll_def)


section \<open>The interface the client relies on\<close>

text \<open>
  A container of nodes identified by their addresses: \<open>rep\<close> relates a state to the sequence it
  represents, \<open>avail\<close> says that a node holding a value is allocated and not linked.
\<close>

locale node_list =
  fixes rep :: "'s \<Rightarrow> 'v nodes \<Rightarrow> bool"
    and avail :: "'s \<Rightarrow> addr \<Rightarrow> 'v \<Rightarrow> bool"
    and push :: "'s \<Rightarrow> addr \<Rightarrow> 's option"
    and remove :: "'s \<Rightarrow> addr \<Rightarrow> 's option"
    and capacity :: nat
  assumes rep_distinct: "rep s xs \<Longrightarrow> distinct (map fst xs)"
    and push_law: "rep s xs \<Longrightarrow> avail s a v \<Longrightarrow> a \<notin> fst ` set xs \<Longrightarrow> length xs < capacity \<Longrightarrow>
      \<exists>s'. push s a = Some s' \<and> rep s' (xs @ [(a, v)])"
    and remove_law: "rep s (xs @ (a, v) # ys) \<Longrightarrow> \<exists>s'. remove s a = Some s' \<and> rep s' (xs @ ys)"
begin

lemma remove_member:
  assumes "rep s xs" and "a \<in> fst ` set xs"
  shows "\<exists>s'. remove s a = Some s' \<and> rep s' (filter (\<lambda>x. fst x \<noteq> a) xs)"
proof -
  from assms(2) obtain us v vs where xs: "xs = us @ (a, v) # vs"
    by (metis imageE prod.collapse split_list)
  with rep_distinct [OF assms(1)] have "filter (\<lambda>x. fst x \<noteq> a) us = us" "filter (\<lambda>x. fst x \<noteq> a) vs = vs"
    by (auto simp: filter_id_conv)
  with remove_law [of s us a v vs] assms(1) show ?thesis by (simp add: xs)
qed

text \<open>Taking back the node that was just pushed restores the sequence.\<close>

lemma push_remove:
  assumes "rep s xs" and "avail s a v" and "a \<notin> fst ` set xs" and "length xs < capacity"
  shows "\<exists>s' s''. push s a = Some s' \<and> remove s' a = Some s'' \<and> rep s'' xs"
  using push_law [OF assms] remove_law [of _ xs a v "[]"] by fastforce

text \<open>Removing several nodes, in any order, leaves the others in their order.\<close>

lemma remove_all:
  assumes "rep s xs" and "set as \<subseteq> fst ` set xs" and "distinct as"
  shows "\<exists>s'. foldr (\<lambda>a m. m \<bind> (\<lambda>s. remove s a)) (rev as) (Some s) = Some s'
    \<and> rep s' (filter (\<lambda>x. fst x \<notin> set as) xs)"
  using assms(2,3)
proof (induction as rule: rev_induct)
  case Nil
  with assms(1) show ?case by simp
next
  case (snoc a as)
  then obtain s' where s': "foldr (\<lambda>a m. m \<bind> (\<lambda>s. remove s a)) (rev as) (Some s) = Some s'"
    "rep s' (filter (\<lambda>x. fst x \<notin> set as) xs)" by auto
  from snoc.prems have "a \<in> fst ` set (filter (\<lambda>x. fst x \<notin> set as) xs)" by auto
  from remove_member [OF s'(2) this] s'(1) show ?case by (simp add: conj_commute cong: conj_cong)
qed

end

text \<open>The list of the source provides it, over pairs of a store and a list object.\<close>

definition dl_push :: "'v store \<times> List \<Rightarrow> addr \<Rightarrow> ('v store \<times> List) option" where
  "dl_push s a = map_option (\<lambda>(st, self, _). (st, self)) (list_rpush (fst s) (snd s) (Some a))"

definition dl_remove :: "'v store \<times> List \<Rightarrow> addr \<Rightarrow> ('v store \<times> List) option" where
  "dl_remove s a = map_option (\<lambda>(st, self, _). (st, self)) (list_remove (fst s) (snd s) a)"

interpretation dl: node_list
  "\<lambda>s xs. dll (fst s) (snd s) xs" "\<lambda>s a v. \<exists>n. fst s a = Some n \<and> val n = v" dl_push dl_remove "2 ^ 32 - 1"
proof (unfold_locales, goal_cases)
  case (1 s xs)
  then show ?case by (simp add: dll_def)
next
  case (2 s xs a v)
  then obtain n where n: "fst s a = Some n" "val n = v" by blast
  from list_rpush_refines [OF 2(1) n(1) 2(3,4)] n(2) show ?case by (auto simp: dl_push_def)
next
  case (3 s xs a v ys)
  from list_remove_refines [OF 3] show ?case by (auto simp: dl_remove_def)
qed

section \<open>Properties\<close>


definition node1 :: "nat ListNode" where "node1 = \<lparr> prev = None, nxt = None, val = 7 \<rparr>"
definition list1 :: List where "list1 = \<lparr> head = Some 1, tail = Some 1, len = 1, free_fn = True \<rparr>"


text \<open>
  Searching and indexing return what the represented sequence holds: \<open>list_find\<close> the first
  node whose value matches, \<open>list_at\<close> the node at a position, counted from the end for negative
  indices, and NULL when there is none; and \<open>list_destroy\<close> releases every node once and hands all
  values to the free callback in order.
\<close>
theorem list_queries_refine:
  assumes "dll st self xs" and "length xs \<le> fuel" and "- (2 ^ 31) \<le> i" and "i < 2 ^ 31"
  shows "list_find fuel True st self (Some match) v = Some (map_option fst (find (\<lambda>x. match v (snd x)) xs))
    \<and> list_at True st self i = Some (
        if 0 \<le> i then (if nat i < length xs then Some (fst (xs ! nat i)) else None)
        else (if nat (- i - 1) < length xs then Some (fst (rev xs ! nat (- i - 1))) else None))
    \<and> list_destroy st self =
        Some (\<lambda>a. if a \<in> fst ` set xs then None else st a, if free_fn self then map snd xs else [])"
  using list_find_refines(1) [OF assms(1,2)] list_at_refines [OF assms(1,3,4)] list_destroy_refines [OF assms(1)]
  by blast

theorem list_queries_refine_witness:
  "list_at True [1 \<mapsto> node1] list1 (- 1) = Some (Some 1)"
proof -
  have "dll [1 \<mapsto> node1] list1 [(1, 7)]" by (simp add: dll_def list1_def node1_def)
  from list_queries_refine [OF this, of 1 "- 1"] show ?thesis by simp
qed

text \<open>
  A node that was pushed to the end of a list and is removed again leaves the list as it
  was: the rollback of a request whose packet could not be sent restores the waiting list.
\<close>
lemma list_push_rollback:
  assumes "dll st self xs" and "st a = Some n" and "a \<notin> fst ` set xs" and "length xs < 2 ^ 32 - 1"
  shows "\<exists>st' self' st'' self''. list_rpush st self (Some a) = Some (st', self', Some a)
    \<and> list_remove st' self' a = Some (st'', self'', if free_fn self then [val n] else [])
    \<and> dll st'' self'' xs \<and> st'' a = None"
proof -
  from list_rpush_refines [OF assms] obtain st' self' where
    p: "list_rpush st self (Some a) = Some (st', self', Some a)" "dll st' self' (xs @ [(a, val n)])"
    "free_fn self' = free_fn self" by blast
  from list_remove_refines [OF p(2)] p show ?thesis by fastforce
qed

lemma list_push_rollback_witness:
  "\<exists>st' self' st'' self''. list_rpush [1 \<mapsto> node1, 2 \<mapsto> node1] list1 (Some 2) = Some (st', self', Some 2)
    \<and> list_remove st' self' 2 = Some (st'', self'', [7]) \<and> dll st'' self'' [(1, 7)] \<and> st'' 2 = None"
proof -
  have "dll [1 \<mapsto> node1, 2 \<mapsto> node1] list1 [(1, 7)]" by (simp add: dll_def list1_def node1_def)
  from list_push_rollback [OF this, of 2 node1] show ?thesis by (simp add: node1_def list1_def)
qed

end
