(* ===== verification/Hal_Timer.thy ===== *)
theory Hal_Timer
  imports Iot_Prelude
begin

text \<open>
  The platform interface and the countdown timers.  The record \<open>hal\<close> collects the code the SDK
  calls but does not contain: the RT-Thread tick counter, the allocator, sleeping, the creation of mutexes, and the
  connected network stack behind \<open>pClient->network_stack\<close>; its functions thread the state \<open>'w\<close>
  of the world outside.  The timers of \<^verbatim>\<open>utils_timer.c\<close> and \<^verbatim>\<open>HAL_Timer_rtthread.c\<close> are 32-bit
  ticks on top of it.
\<close>

section \<open>The platform\<close>

text \<open>
  \<open>net_read len timeout\<close> gives the return value and the bytes stored at the caller's pointer;
  \<open>net_write data timeout\<close> is given the bytes behind the pointer.  \<open>HAL_Malloc\<close> only tells
  whether the block of that size was granted.
\<close>

record 'w hal =
  rt_tick_get :: "'w \<Rightarrow> u32 \<times> 'w"
  rt_tick_from_millisecond :: "u32 \<Rightarrow> u32"
  net_read :: "u32 \<Rightarrow> u32 \<Rightarrow> 'w \<Rightarrow> (int \<times> bytes) \<times> 'w"
  net_write :: "bytes \<Rightarrow> u32 \<Rightarrow> 'w \<Rightarrow> int \<times> 'w"
  net_connect :: "'w \<Rightarrow> int \<times> 'w"
  net_disconnect :: "'w \<Rightarrow> 'w"
  HAL_Malloc :: "nat \<Rightarrow> 'w \<Rightarrow> bool \<times> 'w"
  HAL_SleepMs :: "u32 \<Rightarrow> 'w \<Rightarrow> 'w"
  HAL_MutexCreate :: "'w \<Rightarrow> bool \<times> 'w"

section \<open>Timers\<close>

record Timer =
  end_time :: u32

definition HAL_Timer_Expired :: "'w hal \<Rightarrow> Timer \<Rightarrow> 'w \<Rightarrow> bool \<times> 'w" where
  "HAL_Timer_Expired hal timer w =
     (let (now, w) = rt_tick_get hal w in (end_time timer < now, w))"

definition HAL_Timer_Countdown_ms :: "'w hal \<Rightarrow> u32 \<Rightarrow> 'w \<Rightarrow> Timer \<times> 'w" where
  "HAL_Timer_Countdown_ms hal timeout_ms w =
     (let (now, w) = rt_tick_get hal w
      in (\<lparr> end_time = now + rt_tick_from_millisecond hal timeout_ms \<rparr>, w))"

definition HAL_Timer_Countdown :: "'w hal \<Rightarrow> u32 \<Rightarrow> 'w \<Rightarrow> Timer \<times> 'w" where
  "HAL_Timer_Countdown hal timeout w =
     (let (now, w) = rt_tick_get hal w
      in (\<lparr> end_time = now + rt_tick_from_millisecond hal (timeout * 1000) \<rparr>, w))"

definition HAL_Timer_Remain_ms :: "'w hal \<Rightarrow> Timer \<Rightarrow> 'w \<Rightarrow> u32 \<times> 'w" where
  "HAL_Timer_Remain_ms hal timer w =
     (let (now, w) = rt_tick_get hal w in (end_time timer - now, w))"

definition HAL_Timer_Init :: Timer where
  "HAL_Timer_Init = \<lparr> end_time = 0 \<rparr>"

text \<open>\<open>utils_timer.c\<close>; \<open>left_ms\<close> converts the unsigned result to \<open>int\<close>.\<close>

definition has_expired_w :: "'w hal \<Rightarrow> Timer \<Rightarrow> 'w \<Rightarrow> bool \<times> 'w" where
  "has_expired_w hal timer w = HAL_Timer_Expired hal timer w"

definition countdown_ms_w :: "'w hal \<Rightarrow> u32 \<Rightarrow> 'w \<Rightarrow> Timer \<times> 'w" where
  "countdown_ms_w hal timeout_ms w = HAL_Timer_Countdown_ms hal timeout_ms w"

definition countdown_w :: "'w hal \<Rightarrow> u32 \<Rightarrow> 'w \<Rightarrow> Timer \<times> 'w" where
  "countdown_w hal timeout w = HAL_Timer_Countdown hal timeout w"

definition left_ms_w :: "'w hal \<Rightarrow> Timer \<Rightarrow> 'w \<Rightarrow> int \<times> 'w" where
  "left_ms_w hal timer w = (let (r, w) = HAL_Timer_Remain_ms hal timer w in (sint r, w))"

definition init_timer :: Timer where
  "init_timer = HAL_Timer_Init"

lemmas timer_defs = has_expired_w_def countdown_ms_w_def countdown_w_def left_ms_w_def init_timer_def
  HAL_Timer_Expired_def HAL_Timer_Countdown_ms_def HAL_Timer_Countdown_def HAL_Timer_Remain_ms_def
  HAL_Timer_Init_def

section \<open>Timers measure elapsed ticks\<close>

lemma sint_diff_small:
  fixes a b :: u32
  assumes "\<bar>uint a - uint b\<bar> < 2 ^ 31"
  shows "sint (a - b) = uint a - uint b"
proof -
  have "sint (a - b) = signed_take_bit 31 (take_bit 32 (uint a - uint b))"
    by (simp add: sint_uint uint_word_ariths take_bit_eq_mod)
  also have "\<dots> = signed_take_bit 31 (uint a - uint b)"
    by (simp add: signed_take_bit_take_bit)
  also have "\<dots> = uint a - uint b"
    using assms by (intro signed_take_bit_int_eq_self) auto
  finally show ?thesis .
qed

section \<open>Properties\<close>


text \<open>A platform whose world is the tick counter, for concrete runs.\<close>

definition tick_hal :: "u32 hal" where
  "tick_hal = \<lparr> rt_tick_get = (\<lambda>w. (w, w)), rt_tick_from_millisecond = (\<lambda>ms. ms),
     net_read = (\<lambda>len timeout w. ((0, []), w)), net_write = (\<lambda>data timeout w. (int (length data), w)),
     net_connect = (\<lambda>w. (0, w)), net_disconnect = (\<lambda>w. w), HAL_Malloc = (\<lambda>n w. (True, w)),
     HAL_SleepMs = (\<lambda>ms w. w + ms), HAL_MutexCreate = (\<lambda>w. (True, w)) \<rparr>"


end
