(* ===== verification/Mqtt_State.thy ===== *)
theory Mqtt_State
  imports Mqtt_Packets Mqtt_Topic Utils_List Hal_Timer
begin

text \<open>
  The state of the MQTT client (\<^verbatim>\<open>mqtt_client.h\<close>) and the operations of
  \<^verbatim>\<open>mqtt_client_common.c\<close> and \<^verbatim>\<open>mqtt_client_publish.c\<close> that only touch this state: packet
  identifiers, the connection flag, the two lists of requests waiting for an acknowledgement and
  the buffer of packet identifiers seen before.

  The functions pass the state explicitly and return \<open>None\<close> for undefined behaviour (an access
  outside an array, the use of an object that was never written, a mutex released by someone who does
  not hold it).  The state carries, beside the fields of the C struct, the world of the platform, the
  number of times each mutex is held, and the trace of calls to the callbacks of the application.
  The callbacks are assumed not to call back into the client.  The two waiting lists are
  the node sequences that the theory \<open>Utils_List\<close> shows \<open>List\<close> objects to represent.
\<close>

section \<open>Constants\<close>

abbreviation (input) MAX_PACKET_ID :: u16 where "MAX_PACKET_ID \<equiv> 65535"
abbreviation (input) MAX_SUB_TOPICS :: nat where "MAX_SUB_TOPICS \<equiv> 10"
abbreviation (input) MAX_REPUB_NUM :: nat where "MAX_REPUB_NUM \<equiv> 20"
abbreviation (input) MIN_RECONNECT_WAIT_INTERVAL :: u32 where "MIN_RECONNECT_WAIT_INTERVAL \<equiv> 1000"
abbreviation (input) MAX_RECONNECT_WAIT_INTERVAL :: u32 where "MAX_RECONNECT_WAIT_INTERVAL \<equiv> 60000"
abbreviation (input) MIN_COMMAND_TIMEOUT :: u32 where "MIN_COMMAND_TIMEOUT \<equiv> 500"
abbreviation (input) MAX_COMMAND_TIMEOUT :: u32 where "MAX_COMMAND_TIMEOUT \<equiv> 5000"
abbreviation (input) MAX_SIZE_OF_CLOUD_TOPIC :: nat where "MAX_SIZE_OF_CLOUD_TOPIC \<equiv> 128"
abbreviation (input) MQTT_MAX_REPEAT_BUF_LEN :: nat where "MQTT_MAX_REPEAT_BUF_LEN \<equiv> 50"
abbreviation (input) UIOT_MQTT_MAX_REMAIN_WAIT_MS :: int where "UIOT_MQTT_MAX_REMAIN_WAIT_MS \<equiv> 2000"
abbreviation (input) MQTT_PING_RETRY_TIMES :: u8 where "MQTT_PING_RETRY_TIMES \<equiv> 2"
abbreviation (input) DISCONNECTED :: u8 where "DISCONNECTED \<equiv> 0"
abbreviation (input) CONNECTED :: u8 where "CONNECTED \<equiv> 1"

section \<open>State\<close>

text \<open>Function pointers and user data of the application are opaque numbers.\<close>

type_synonym fptr = nat

record SubTopicHandle =
  topic_filter :: "cstr option"
  message_handler :: "fptr option"
  message_handler_data :: nat
  sub_qos :: QoS

definition empty_handle :: SubTopicHandle where
  "empty_handle = \<lparr> topic_filter = None, message_handler = None, message_handler_data = 0, sub_qos = QOS0 \<rparr>"

text \<open>The packet identifier is \<open>None\<close> in an object in which it was never written.\<close>

record MQTTMessage =
  qos :: QoS
  retained :: u8
  dup :: u8
  msg_ident :: "u16 option"
  topic :: bytes
  topic_len :: size_t
  payload :: "bytes option"
  payload_len :: size_t

type_synonym PublishParams = MQTTMessage

record SubscribeParams =
  sp_qos :: QoS
  on_message_handler :: "fptr option"
  user_data :: nat

datatype MQTTEventType =
    MQTT_EVENT_UNDEF | MQTT_EVENT_DISCONNECT | MQTT_EVENT_RECONNECT | MQTT_EVENT_SUBSCRIBE_SUCCESS
  | MQTT_EVENT_SUBSCRIBE_TIMEOUT | MQTT_EVENT_SUBSCRIBE_NACK | MQTT_EVENT_UNSUBSCRIBE_SUCCESS
  | MQTT_EVENT_UNSUBSCRIBE_TIMEOUT | MQTT_EVENT_UNSUBSCRIBE_NACK | MQTT_EVENT_PUBLISH_SUCCESS
  | MQTT_EVENT_PUBLISH_TIMEOUT | MQTT_EVENT_PUBLISH_NACK | MQTT_EVENT_PUBLISH_RECEIVED

text \<open>
  A call into the application: the event callback with a packet identifier, with a message, or with
  nothing; or the message callback of a subscription.
\<close>

datatype callback =
    Event MQTTEventType
  | EventId MQTTEventType u16
  | EventMsg MQTTEventType MQTTMessage
  | Message fptr MQTTMessage nat

datatype MQTTNodeState = MQTT_NODE_STATE_NORMAL | MQTT_NODE_STATE_INVALID

record UIoTPubInfo =
  pub_start_time :: Timer
  pub_node_state :: MQTTNodeState
  pub_msg_id :: u16
  pub_len :: u32
  pub_buf :: bytes

record UIoTSubInfo =
  sub_type :: MessageTypes
  sub_msg_id :: u16
  sub_start_time :: Timer
  sub_node_state :: MQTTNodeState
  sub_handler :: SubTopicHandle
  sub_len :: u16
  sub_buf :: bytes

datatype lock = lock_generic | lock_write_buf | lock_list_pub | lock_list_sub

record UIoT_Client =
  is_connected :: u8
  was_manually_disconnected :: u8
  is_ping_outstanding :: u8
  next_packet_id :: u16
  command_timeout_ms :: u32
  current_reconnect_wait_interval :: u32
  counter_network_disconnected :: u32
  write_buf_size :: size_t
  read_buf_size :: size_t
  write_buf :: bytes
  read_buf :: bytes
  list_pub_wait_ack :: "UIoTPubInfo nodes"
  list_sub_wait_ack :: "UIoTSubInfo nodes"
  event_handler :: "fptr option"
  options :: MQTTConnectParams
  ping_timer :: Timer
  reconnect_delay_timer :: Timer
  sub_handles :: "SubTopicHandle list"

text \<open>
  The client in its environment: the file-scope variables of \<^verbatim>\<open>mqtt_client_common.c\<close>, the world,
  the mutex counts, the callback trace, and the next address the allocator hands to a list node.
\<close>

record 'w sys = UIoT_Client +
  sg_repeat_packet_id_buf :: "u16 list"
  current_packet_id_cnt :: nat
  os :: 'w
  held :: "lock \<Rightarrow> nat"
  calls :: "callback list"
  next_node :: addr

section \<open>Mutexes, timers, callbacks\<close>

definition HAL_MutexLock :: "lock \<Rightarrow> 'w sys \<Rightarrow> 'w sys" where
  "HAL_MutexLock m s = s\<lparr>held := (held s)(m := held s m + 1)\<rparr>"

definition HAL_MutexUnlock :: "lock \<Rightarrow> 'w sys \<Rightarrow> 'w sys option" where
  "HAL_MutexUnlock m s =
     (if held s m = 0 then None else Some (s\<lparr>held := (held s)(m := held s m - 1)\<rparr>))"

definition has_expired :: "'w hal \<Rightarrow> Timer \<Rightarrow> 'w sys \<Rightarrow> bool \<times> 'w sys" where
  "has_expired hal timer s = (let (b, w) = has_expired_w hal timer (os s) in (b, s\<lparr>os := w\<rparr>))"

definition left_ms :: "'w hal \<Rightarrow> Timer \<Rightarrow> 'w sys \<Rightarrow> int \<times> 'w sys" where
  "left_ms hal timer s = (let (n, w) = left_ms_w hal timer (os s) in (n, s\<lparr>os := w\<rparr>))"

definition countdown_ms :: "'w hal \<Rightarrow> u32 \<Rightarrow> 'w sys \<Rightarrow> Timer \<times> 'w sys" where
  "countdown_ms hal ms s = (let (t, w) = countdown_ms_w hal ms (os s) in (t, s\<lparr>os := w\<rparr>))"

definition countdown :: "'w hal \<Rightarrow> u32 \<Rightarrow> 'w sys \<Rightarrow> Timer \<times> 'w sys" where
  "countdown hal t s = (let (t, w) = countdown_w hal t (os s) in (t, s\<lparr>os := w\<rparr>))"

definition malloc :: "'w hal \<Rightarrow> nat \<Rightarrow> 'w sys \<Rightarrow> bool \<times> 'w sys" where
  "malloc hal n s = (let (b, w) = HAL_Malloc hal n (os s) in (b, s\<lparr>os := w\<rparr>))"

text \<open>The event callback, if the application has set one.\<close>

definition notify :: "callback \<Rightarrow> 'w sys \<Rightarrow> 'w sys" where
  "notify c s = (if event_handler s \<noteq> None then s\<lparr>calls := calls s @ [c]\<rparr> else s)"

section \<open>Packet identifiers and connection state\<close>

definition get_next_packet_id :: "'w sys \<Rightarrow> (u16 \<times> 'w sys) option" where
  "get_next_packet_id s = do {
     let s = HAL_MutexLock lock_generic s;
     let s = s\<lparr>next_packet_id :=
       (if MAX_PACKET_ID = next_packet_id s then 1 else next_packet_id s + 1)\<rparr>;
     s \<leftarrow> HAL_MutexUnlock lock_generic s;
     Some (next_packet_id s, s) }"

definition set_client_conn_state :: "u8 \<Rightarrow> 'w sys \<Rightarrow> 'w sys option" where
  "set_client_conn_state connected s = do {
     let s = HAL_MutexLock lock_generic s;
     let s = s\<lparr>is_connected := connected\<rparr>;
     HAL_MutexUnlock lock_generic s }"

definition get_client_conn_state :: "'w sys \<Rightarrow> (u8 \<times> 'w sys) option" where
  "get_client_conn_state s = do {
     let s = HAL_MutexLock lock_generic s;
     let c = is_connected s;
     s \<leftarrow> HAL_MutexUnlock lock_generic s;
     Some (c, s) }"

section \<open>Waiting lists\<close>

text \<open>Removal of the node at an address, as \<open>list_remove\<close> does.\<close>

definition nodes_remove :: "addr \<Rightarrow> 'v nodes \<Rightarrow> 'v nodes" where
  "nodes_remove a xs = filter (\<lambda>x. fst x \<noteq> a) xs"

text \<open>Sizes of the structs in the 32-bit layout.\<close>

definition sizeof_UIoTPubInfo :: nat where "sizeof_UIoTPubInfo = 20"
definition sizeof_UIoTSubInfo :: nat where "sizeof_UIoTSubInfo = 40"
definition sizeof_ListNode :: nat where "sizeof_ListNode = 12"

text \<open>
  \<open>_mask_push_pubInfo_to\<close>: the result is the return code and \<open>*node\<close>.  \<open>memcpy\<close> copies
  \<open>len\<close> bytes of the write buffer.  The parameter \<open>len\<close> is an \<open>int\<close>.
\<close>

definition mask_push_pubInfo_to ::
  "'w hal \<Rightarrow> int \<Rightarrow> u16 \<Rightarrow> 'w sys \<Rightarrow> ((int \<times> addr option) \<times> 'w sys) option" where
  "mask_push_pubInfo_to hal l msgId s =
     (if l < 0 \<or> l > uint (write_buf_size s) then Some ((FAILURE_RET, None), s)
      else do {
        let s = HAL_MutexLock lock_list_pub s;
        if length (list_pub_wait_ack s) \<ge> MAX_REPUB_NUM then do {
          s \<leftarrow> HAL_MutexUnlock lock_list_pub s;
          Some ((FAILURE_RET, None), s) }
        else do {
          let (granted, s) = malloc hal (sizeof_UIoTPubInfo + nat l) s;
          if \<not> granted then do {
            s \<leftarrow> HAL_MutexUnlock lock_list_pub s;
            Some ((FAILURE_RET, None), s) }
          else do {
            let (t, s) = countdown_ms hal (command_timeout_ms s) s;
            if nat l > length (write_buf s) then None
            else do {
              let info = \<lparr> pub_start_time = t, pub_node_state = MQTT_NODE_STATE_NORMAL, pub_msg_id = msgId,
                           pub_len = of_int l, pub_buf = take (nat l) (write_buf s) \<rparr>;
              let (granted, s) = malloc hal sizeof_ListNode s;
              if \<not> granted then do {
                s \<leftarrow> HAL_MutexUnlock lock_list_pub s;
                Some ((FAILURE_RET, None), s) }
              else do {
                let a = next_node s;
                let s = s\<lparr>list_pub_wait_ack := list_pub_wait_ack s @ [(a, info)], next_node := a + 1\<rparr>;
                s \<leftarrow> HAL_MutexUnlock lock_list_pub s;
                Some ((SUCCESS_RET, Some a), s) } } } } })"

definition push_sub_info_to ::
  "'w hal \<Rightarrow> int \<Rightarrow> u16 \<Rightarrow> MessageTypes \<Rightarrow> SubTopicHandle \<Rightarrow> 'w sys
     \<Rightarrow> ((int \<times> addr option) \<times> 'w sys) option" where
  "push_sub_info_to hal l msgId type handler s = do {
     let s = HAL_MutexLock lock_list_sub s;
     if length (list_sub_wait_ack s) \<ge> MAX_SUB_TOPICS then do {
       s \<leftarrow> HAL_MutexUnlock lock_list_sub s;
       Some ((ERR_MQTT_MAX_SUBSCRIPTIONS_REACHED, None), s) }
     else do {
       let (granted, s) = malloc hal (sizeof_UIoTSubInfo + nat l) s;
       if \<not> granted then do {
         s \<leftarrow> HAL_MutexUnlock lock_list_sub s;
         Some ((FAILURE_RET, None), s) }
       else do {
         let (t, s) = countdown_ms hal (command_timeout_ms s) s;
         if l < 0 \<or> nat l > length (write_buf s) then None
         else do {
           let info = \<lparr> sub_type = type, sub_msg_id = msgId, sub_start_time = t,
                        sub_node_state = MQTT_NODE_STATE_NORMAL, sub_handler = handler,
                        sub_len = of_int l, sub_buf = take (nat l) (write_buf s) \<rparr>;
           let (granted, s) = malloc hal sizeof_ListNode s;
           if \<not> granted then do {
             s \<leftarrow> HAL_MutexUnlock lock_list_sub s;
             Some ((FAILURE_RET, None), s) }
           else do {
             let a = next_node s;
             let s = s\<lparr>list_sub_wait_ack := list_sub_wait_ack s @ [(a, info)], next_node := a + 1\<rparr>;
             s \<leftarrow> HAL_MutexUnlock lock_list_sub s;
             Some ((SUCCESS_RET, Some a), s) } } } } }"

text \<open>
  \<open>_mask_pubInfo_from\<close> marks every node that carries the packet identifier; the list is walked from
  its tail.  A failed allocation of the iterator ends the function early.
\<close>

definition mask_pub :: "u16 \<Rightarrow> addr \<times> UIoTPubInfo \<Rightarrow> addr \<times> UIoTPubInfo" where
  "mask_pub msgId x =
     (if pub_msg_id (snd x) = msgId then (fst x, (snd x)\<lparr>pub_node_state := MQTT_NODE_STATE_INVALID\<rparr>) else x)"

definition sizeof_ListIterator :: nat where "sizeof_ListIterator = 8"

definition mask_pubInfo_from :: "'w hal \<Rightarrow> u16 \<Rightarrow> 'w sys \<Rightarrow> (int \<times> 'w sys) option" where
  "mask_pubInfo_from hal msgId s = do {
     let s = HAL_MutexLock lock_list_pub s;
     if list_pub_wait_ack s \<noteq> [] then do {
       let (granted, s) = malloc hal sizeof_ListIterator s;
       if \<not> granted then do {
         s \<leftarrow> HAL_MutexUnlock lock_list_pub s;
         Some (SUCCESS_RET, s) }
       else do {
         let s = s\<lparr>list_pub_wait_ack := map (mask_pub msgId) (list_pub_wait_ack s)\<rparr>;
         s \<leftarrow> HAL_MutexUnlock lock_list_pub s;
         Some (SUCCESS_RET, s) } }
     else do {
       s \<leftarrow> HAL_MutexUnlock lock_list_pub s;
       Some (SUCCESS_RET, s) } }"

definition mask_sub :: "u16 \<Rightarrow> addr \<times> UIoTSubInfo \<Rightarrow> addr \<times> UIoTSubInfo" where
  "mask_sub msgId x =
     (if sub_msg_id (snd x) = msgId then (fst x, (snd x)\<lparr>sub_node_state := MQTT_NODE_STATE_INVALID\<rparr>) else x)"

text \<open>
  \<open>_mask_sub_info_from\<close>: walking from the tail, each match overwrites \<open>*messageHandler\<close>, so the
  match nearest to the head is what remains; without a match the caller's object is left as it was,
  which is the argument and the result \<open>handler\<close> (\<open>None\<close> for an object that was never written).
\<close>

fun last_match_handler :: "u16 \<Rightarrow> (addr \<times> UIoTSubInfo) list \<Rightarrow> SubTopicHandle option \<Rightarrow> SubTopicHandle option" where
  "last_match_handler msgId [] h = h"
| "last_match_handler msgId (x # xs) h =
     last_match_handler msgId xs (if sub_msg_id (snd x) = msgId then Some (sub_handler (snd x)) else h)"

definition mask_sub_info_from ::
  "'w hal \<Rightarrow> u16 \<Rightarrow> SubTopicHandle option \<Rightarrow> 'w sys \<Rightarrow> ((int \<times> SubTopicHandle option) \<times> 'w sys) option" where
  "mask_sub_info_from hal msgId handler s = do {
     let s = HAL_MutexLock lock_list_sub s;
     if list_sub_wait_ack s \<noteq> [] then do {
       let (granted, s) = malloc hal sizeof_ListIterator s;
       if \<not> granted then do {
         s \<leftarrow> HAL_MutexUnlock lock_list_sub s;
         Some ((SUCCESS_RET, handler), s) }
       else do {
         let h = last_match_handler msgId (rev (list_sub_wait_ack s)) handler;
         let s = s\<lparr>list_sub_wait_ack := map (mask_sub msgId) (list_sub_wait_ack s)\<rparr>;
         s \<leftarrow> HAL_MutexUnlock lock_list_sub s;
         Some ((SUCCESS_RET, h), s) } }
     else do {
       s \<leftarrow> HAL_MutexUnlock lock_list_sub s;
       Some ((SUCCESS_RET, handler), s) } }"

section \<open>Repeated packet identifiers\<close>

text \<open>These functions exist when \<open>MQTT_CHECK_REPEAT_MSG\<close> is defined.\<close>

definition get_packet_id_in_repeat_buf :: "u16 \<Rightarrow> 'w sys \<Rightarrow> int" where
  "get_packet_id_in_repeat_buf packet_id s =
     (if packet_id \<in> set (take MQTT_MAX_REPEAT_BUF_LEN (sg_repeat_packet_id_buf s)) then uint packet_id else - 1)"

definition add_packet_id_to_repeat_buf :: "u16 \<Rightarrow> 'w sys \<Rightarrow> 'w sys option" where
  "add_packet_id_to_repeat_buf packet_id s =
     (if get_packet_id_in_repeat_buf packet_id s > 0 then Some s
      else if current_packet_id_cnt s < length (sg_repeat_packet_id_buf s) then
        let cnt = current_packet_id_cnt s + 1 in
        Some (s\<lparr>sg_repeat_packet_id_buf := (sg_repeat_packet_id_buf s)[current_packet_id_cnt s := packet_id],
              current_packet_id_cnt := (if cnt \<ge> MQTT_MAX_REPEAT_BUF_LEN then cnt mod 50 else cnt)\<rparr>)
      else None)"

definition reset_repeat_packet_id_buffer :: "'w sys \<Rightarrow> 'w sys" where
  "reset_repeat_packet_id_buffer s =
     s\<lparr>sg_repeat_packet_id_buf := replicate MQTT_MAX_REPEAT_BUF_LEN 0\<rparr>"

text \<open>\<open>_check_handle_is_identical\<close> of two handles whose filters are set: 0 when identical.\<close>

definition check_handle_is_identical :: "SubTopicHandle \<Rightarrow> SubTopicHandle \<Rightarrow> int" where
  "check_handle_is_identical h1 h2 =
     (if topic_filter h1 \<noteq> topic_filter h2 then 1
      else if message_handler h1 \<noteq> message_handler h2 then 1 else 0)"

section \<open>Closed forms\<close>

text \<open>The lock and the unlock of the leaf operations cancel.\<close>

lemma unlock_lock [simp]: "HAL_MutexUnlock m (HAL_MutexLock m s) = Some s"
  by (simp add: HAL_MutexLock_def HAL_MutexUnlock_def)

lemma set_client_conn_state_eq [simp]: "set_client_conn_state c s = Some (s\<lparr>is_connected := c\<rparr>)"
  by (simp add: set_client_conn_state_def HAL_MutexLock_def HAL_MutexUnlock_def)

lemma get_client_conn_state_eq [simp]: "get_client_conn_state s = Some (is_connected s, s)"
  by (simp add: get_client_conn_state_def HAL_MutexLock_def HAL_MutexUnlock_def)

lemma mask_pubInfo_from_eq:
  "mask_pubInfo_from hal msgId s =
     (if list_pub_wait_ack s = [] then Some (SUCCESS_RET, s)
      else let (granted, s') = malloc hal sizeof_ListIterator s in
        Some (SUCCESS_RET, if granted then s'\<lparr>list_pub_wait_ack := map (mask_pub msgId) (list_pub_wait_ack s')\<rparr> else s'))"
  by (simp add: mask_pubInfo_from_def HAL_MutexLock_def HAL_MutexUnlock_def malloc_def Let_def split: prod.splits)

lemma mask_sub_info_from_eq:
  "mask_sub_info_from hal msgId h s =
     (if list_sub_wait_ack s = [] then Some ((SUCCESS_RET, h), s)
      else let (granted, s') = malloc hal sizeof_ListIterator s in
        if granted
        then Some ((SUCCESS_RET, last_match_handler msgId (rev (list_sub_wait_ack s')) h),
               s'\<lparr>list_sub_wait_ack := map (mask_sub msgId) (list_sub_wait_ack s')\<rparr>)
        else Some ((SUCCESS_RET, h), s'))"
  by (simp add: mask_sub_info_from_def HAL_MutexLock_def HAL_MutexUnlock_def malloc_def Let_def split: prod.splits)

section \<open>The client invariant\<close>

definition nodes_ok :: "addr \<Rightarrow> 'v nodes \<Rightarrow> bool" where
  "nodes_ok n xs \<longleftrightarrow> distinct (map fst xs) \<and> (\<forall>x\<in>set xs. fst x < n)"

definition client_inv :: "'w sys \<Rightarrow> bool" where
  "client_inv s \<longleftrightarrow>
     write_buf_size s = of_nat UIOT_MQTT_TX_BUF_LEN \<and> length (write_buf s) = UIOT_MQTT_TX_BUF_LEN
   \<and> read_buf_size s = of_nat UIOT_MQTT_RX_BUF_LEN \<and> length (read_buf s) = UIOT_MQTT_RX_BUF_LEN
   \<and> length (sub_handles s) = MAX_SUB_TOPICS
   \<and> length (list_pub_wait_ack s) \<le> MAX_REPUB_NUM \<and> nodes_ok (next_node s) (list_pub_wait_ack s)
   \<and> length (list_sub_wait_ack s) \<le> MAX_SUB_TOPICS \<and> nodes_ok (next_node s) (list_sub_wait_ack s)
   \<and> next_packet_id s \<noteq> 0
   \<and> length (sg_repeat_packet_id_buf s) = MQTT_MAX_REPEAT_BUF_LEN
   \<and> current_packet_id_cnt s < MQTT_MAX_REPEAT_BUF_LEN"

text \<open>What every operation keeps: the invariant, and the mutexes as the caller holds them.\<close>

definition keeps :: "'w sys \<Rightarrow> 'w sys \<Rightarrow> bool" where
  "keeps s s' \<longleftrightarrow> (client_inv s \<longrightarrow> client_inv s') \<and> held s' = held s"

lemma keeps_refl [simp]: "keeps s s"
  by (simp add: keeps_def)

lemma keeps_trans [trans]: "keeps s s' \<Longrightarrow> keeps s' s'' \<Longrightarrow> keeps s s''"
  by (auto simp: keeps_def)


lemma client_inv_simps [simp]:
  "client_inv (s\<lparr>os := w\<rparr>) = client_inv s"
  "client_inv (s\<lparr>held := h\<rparr>) = client_inv s"
  "client_inv (s\<lparr>calls := c\<rparr>) = client_inv s"
  "client_inv (s\<lparr>is_connected := b\<rparr>) = client_inv s"
  "client_inv (s\<lparr>was_manually_disconnected := b\<rparr>) = client_inv s"
  "client_inv (s\<lparr>is_ping_outstanding := b\<rparr>) = client_inv s"
  "client_inv (s\<lparr>command_timeout_ms := n\<rparr>) = client_inv s"
  "client_inv (s\<lparr>current_reconnect_wait_interval := n\<rparr>) = client_inv s"
  "client_inv (s\<lparr>counter_network_disconnected := n\<rparr>) = client_inv s"
  "client_inv (s\<lparr>event_handler := e\<rparr>) = client_inv s"
  "client_inv (s\<lparr>options := opt\<rparr>) = client_inv s"
  "client_inv (s\<lparr>ping_timer := t\<rparr>) = client_inv s"
  "client_inv (s\<lparr>reconnect_delay_timer := t\<rparr>) = client_inv s"
  by (simp_all add: client_inv_def)

lemma timer_ops_inv [simp]:
  "client_inv (snd (has_expired hal t s)) = client_inv s" "held (snd (has_expired hal t s)) = held s"
  "client_inv (snd (left_ms hal t s)) = client_inv s" "held (snd (left_ms hal t s)) = held s"
  "client_inv (snd (countdown_ms hal ms s)) = client_inv s" "held (snd (countdown_ms hal ms s)) = held s"
  "client_inv (snd (countdown hal ms s)) = client_inv s" "held (snd (countdown hal ms s)) = held s"
  "client_inv (snd (malloc hal n s)) = client_inv s" "held (snd (malloc hal n s)) = held s"
  "client_inv (notify c s) = client_inv s" "held (notify c s) = held s"
  by (simp_all add: has_expired_def left_ms_def countdown_ms_def countdown_def malloc_def notify_def
      split: prod.splits)

lemma timer_ops_frame:
  "has_expired hal t s = (b, s') \<Longrightarrow> \<exists>w. s' = s\<lparr>os := w\<rparr>"
  "left_ms hal t s = (n, s') \<Longrightarrow> \<exists>w. s' = s\<lparr>os := w\<rparr>"
  "countdown_ms hal ms s = (tm, s') \<Longrightarrow> \<exists>w. s' = s\<lparr>os := w\<rparr>"
  "countdown hal ms s = (tm, s') \<Longrightarrow> \<exists>w. s' = s\<lparr>os := w\<rparr>"
  "malloc hal k s = (b, s') \<Longrightarrow> \<exists>w. s' = s\<lparr>os := w\<rparr>"
  by (auto simp: has_expired_def left_ms_def countdown_ms_def countdown_def malloc_def split: prod.splits)

lemma nodes_ok_append: "nodes_ok n xs \<Longrightarrow> nodes_ok (Suc n) (xs @ [(n, v)])"
  by (fastforce simp: nodes_ok_def)

lemma nodes_ok_Suc: "nodes_ok n xs \<Longrightarrow> nodes_ok (Suc n) xs"
  by (fastforce simp: nodes_ok_def)

lemma nodes_ok_filter: "nodes_ok n xs \<Longrightarrow> nodes_ok n (filter P xs)"
  by (auto simp: nodes_ok_def distinct_map_filter)

lemma nodes_ok_map: "(\<And>x. fst (f x) = fst x) \<Longrightarrow> nodes_ok n (map f xs) = nodes_ok n xs"
  by (simp add: nodes_ok_def comp_def)

lemma fst_mask [simp]: "fst (mask_pub i x) = fst x" "fst (mask_sub i y) = fst y"
  by (simp_all add: mask_pub_def mask_sub_def)

lemma client_inv_remove:
  "client_inv s \<Longrightarrow> client_inv (s\<lparr>list_pub_wait_ack := nodes_remove a (list_pub_wait_ack s)\<rparr>)"
  "client_inv s \<Longrightarrow> client_inv (s\<lparr>list_sub_wait_ack := nodes_remove a (list_sub_wait_ack s)\<rparr>)"
  by (auto simp: client_inv_def nodes_remove_def intro: nodes_ok_filter le_trans [OF length_filter_le])

lemma client_inv_push_pub:
  "client_inv s \<Longrightarrow> length (list_pub_wait_ack s) < MAX_REPUB_NUM \<Longrightarrow>
   client_inv (s\<lparr>list_pub_wait_ack := list_pub_wait_ack s @ [(next_node s, info)], next_node := Suc (next_node s)\<rparr>)"
  by (auto simp: client_inv_def intro: nodes_ok_append nodes_ok_Suc)

lemma client_inv_push_sub:
  "client_inv s \<Longrightarrow> length (list_sub_wait_ack s) < MAX_SUB_TOPICS \<Longrightarrow>
   client_inv (s\<lparr>list_sub_wait_ack := list_sub_wait_ack s @ [(next_node s, info)], next_node := Suc (next_node s)\<rparr>)"
  by (auto simp: client_inv_def intro: nodes_ok_append nodes_ok_Suc)

lemma client_inv_mask:
  "client_inv s \<Longrightarrow> client_inv (s\<lparr>list_pub_wait_ack := map (mask_pub i) (list_pub_wait_ack s)\<rparr>)"
  "client_inv s \<Longrightarrow> client_inv (s\<lparr>list_sub_wait_ack := map (mask_sub i) (list_sub_wait_ack s)\<rparr>)"
  by (auto simp: client_inv_def nodes_ok_map)


section \<open>Packet identifiers\<close>

definition next_id :: "u16 \<Rightarrow> u16" where
  "next_id i = (if MAX_PACKET_ID = i then 1 else i + 1)"

lemma unat_next_id:
  assumes "i \<noteq> 0"
  shows "unat (next_id i) = unat i mod 65535 + 1"
proof (cases "i = 65535")
  case False
  have "unat i < 65536" using unsigned_less [of i, where 'a = nat] by simp
  moreover have "unat i \<noteq> 65535" using False by (simp add: word_unat_eq_iff)
  ultimately have "unat i < 65535" by simp
  moreover have "unat (i + 1) = unat i + 1" using calculation by (simp add: unat_word_ariths)
  ultimately show ?thesis using False by (simp add: next_id_def)
qed (simp add: next_id_def)

lemma next_id_nonzero: "i \<noteq> 0 \<Longrightarrow> next_id i \<noteq> 0"
  using unat_next_id [of i] by (metis Suc_eq_plus1 nat.distinct(1) unat_0)

lemma client_inv_next_id:
  "client_inv s \<Longrightarrow> client_inv (s\<lparr>next_packet_id := next_id (next_packet_id s)\<rparr>)"
  by (simp add: client_inv_def next_id_nonzero)

lemma get_next_packet_id_eq [simp]:
  "get_next_packet_id s = Some (next_id (next_packet_id s), s\<lparr>next_packet_id := next_id (next_packet_id s)\<rparr>)"
  by (simp add: get_next_packet_id_def HAL_MutexLock_def HAL_MutexUnlock_def next_id_def)

text \<open>The identifiers of consecutive requests.\<close>

fun next_packet_ids :: "nat \<Rightarrow> 'w sys \<Rightarrow> (u16 list \<times> 'w sys) option" where
  "next_packet_ids 0 s = Some ([], s)"
| "next_packet_ids (Suc k) s = do {
     (i, s) \<leftarrow> get_next_packet_id s;
     (ids, s) \<leftarrow> next_packet_ids k s;
     Some (i # ids, s) }"

lemma Suc_mod_add: "Suc (a mod m + n) mod m = Suc (a + n) mod (m :: nat)"
  by (metis mod_Suc_eq mod_add_left_eq)

lemma next_packet_ids_values:
  "next_packet_id s \<noteq> 0 \<Longrightarrow>
   \<exists>ids s'. next_packet_ids k s = Some (ids, s') \<and> length ids = k
     \<and> (\<forall>j < k. unat (ids ! j) = (unat (next_packet_id s) + j) mod 65535 + 1)"
proof (induction k arbitrary: s)
  case (Suc k)
  let ?s = "s\<lparr>next_packet_id := next_id (next_packet_id s)\<rparr>"
  from Suc.IH [of ?s] next_id_nonzero [OF Suc.prems] obtain ids s' where
    *: "next_packet_ids k ?s = Some (ids, s')" "length ids = k"
    "\<forall>j < k. unat (ids ! j) = (unat (next_id (next_packet_id s)) + j) mod 65535 + 1" by auto
  have "unat ((next_id (next_packet_id s) # ids) ! j) = (unat (next_packet_id s) + j) mod 65535 + 1"
    if "j < Suc k" for j
    using that *(3) unat_next_id [OF Suc.prems]
    by (cases j) (auto simp: Suc_mod_add)
  with * show ?case by simp
qed simp

section \<open>Pushing to the waiting lists\<close>

lemma sys_os_frame [simp]:
  "snd (malloc hal n s) = s\<lparr>os := snd (HAL_Malloc hal n (os s))\<rparr>"
  "snd (countdown_ms hal ms s) = s\<lparr>os := snd (countdown_ms_w hal ms (os s))\<rparr>"
  by (simp_all add: malloc_def countdown_ms_def split: prod.splits)

lemma mask_push_pubInfo_to_returns:
  assumes inv: "client_inv s" and l: "0 \<le> l" "l \<le> 2048"
  shows "returns (mask_push_pubInfo_to hal l msgId s) (\<lambda>((r, node), s').
    keeps s s' \<and> write_buf s' = write_buf s \<and> sub_handles s' = sub_handles s
    \<and> (r = SUCCESS_RET \<longrightarrow> length (list_pub_wait_ack s) < MAX_REPUB_NUM \<and> node = Some (next_node s) \<and>
        (\<exists>t. list_pub_wait_ack s' = list_pub_wait_ack s @ [(next_node s,
           \<lparr> pub_start_time = t, pub_node_state = MQTT_NODE_STATE_NORMAL, pub_msg_id = msgId,
             pub_len = of_int l, pub_buf = take (nat l) (write_buf s) \<rparr>)]))
    \<and> (r \<noteq> SUCCESS_RET \<longrightarrow> r = FAILURE_RET \<and> node = None \<and> list_pub_wait_ack s' = list_pub_wait_ack s))"
proof -
  obtain g1 w1 where m1: "HAL_Malloc hal (sizeof_UIoTPubInfo + nat l) (os s) = (g1, w1)" by fastforce
  obtain t w2 where cd: "countdown_ms_w hal (command_timeout_ms s) w1 = (t, w2)" by fastforce
  obtain g2 w3 where m2: "HAL_Malloc hal sizeof_ListNode w2 = (g2, w3)" by fastforce
  from inv have sz: "uint (write_buf_size s) = 2048" "length (write_buf s) = 2048"
    by (simp_all add: client_inv_def)
  show ?thesis
    using inv l sz m1 cd m2 client_inv_push_pub [of "s\<lparr>os := w3\<rparr>"]
    by (cases "length (list_pub_wait_ack s) \<ge> MAX_REPUB_NUM"; cases g1; cases g2)
      (auto simp: mask_push_pubInfo_to_def HAL_MutexLock_def HAL_MutexUnlock_def malloc_def countdown_ms_def
        keeps_def Let_def)
qed

lemma push_sub_info_to_returns:
  assumes inv: "client_inv s" and l: "0 \<le> l" "l \<le> 2048"
  shows "returns (push_sub_info_to hal l msgId type handler s) (\<lambda>((r, node), s').
    keeps s s' \<and> write_buf s' = write_buf s \<and> sub_handles s' = sub_handles s
    \<and> (r = SUCCESS_RET \<longrightarrow> length (list_sub_wait_ack s) < MAX_SUB_TOPICS \<and> node = Some (next_node s) \<and>
        (\<exists>t. list_sub_wait_ack s' = list_sub_wait_ack s @ [(next_node s,
           \<lparr> sub_type = type, sub_msg_id = msgId, sub_start_time = t,
             sub_node_state = MQTT_NODE_STATE_NORMAL, sub_handler = handler,
             sub_len = of_int l, sub_buf = take (nat l) (write_buf s) \<rparr>)]))
    \<and> (r \<noteq> SUCCESS_RET \<longrightarrow> r < 0 \<and> node = None \<and> list_sub_wait_ack s' = list_sub_wait_ack s))"
proof -
  obtain g1 w1 where m1: "HAL_Malloc hal (sizeof_UIoTSubInfo + nat l) (os s) = (g1, w1)" by fastforce
  obtain t w2 where cd: "countdown_ms_w hal (command_timeout_ms s) w1 = (t, w2)" by fastforce
  obtain g2 w3 where m2: "HAL_Malloc hal sizeof_ListNode w2 = (g2, w3)" by fastforce
  from inv have sz: "length (write_buf s) = 2048"
    by (simp_all add: client_inv_def)
  show ?thesis
    using inv l sz m1 cd m2 client_inv_push_sub [of "s\<lparr>os := w3\<rparr>"]
    by (cases "length (list_sub_wait_ack s) \<ge> MAX_SUB_TOPICS"; cases g1; cases g2)
      (auto simp: push_sub_info_to_def HAL_MutexLock_def HAL_MutexUnlock_def malloc_def countdown_ms_def
        keeps_def Let_def)
qed

lemma mask_pubInfo_from_returns:
  "returns (mask_pubInfo_from hal i s) (\<lambda>(r, s'). r = SUCCESS_RET \<and> keeps s s')"
  using client_inv_mask(1) [of "s\<lparr>os := w\<rparr>" i for w]
  by (auto simp: mask_pubInfo_from_eq keeps_def malloc_def split: prod.splits)


lemma mask_sub_info_from_returns:
  "returns (mask_sub_info_from hal i h s) (\<lambda>((r, h'), s'). r = SUCCESS_RET \<and> keeps s s'
     \<and> sub_handles s' = sub_handles s)"
  using client_inv_mask(2) [of "s\<lparr>os := w\<rparr>" i for w]
  by (auto simp: mask_sub_info_from_eq keeps_def malloc_def split: prod.splits)

section \<open>The buffer of seen packet identifiers\<close>

lemma add_packet_id_returns:
  assumes "client_inv s"
  shows "returns (add_packet_id_to_repeat_buf i s) (\<lambda>s'. client_inv s' \<and> held s' = held s
    \<and> get_packet_id_in_repeat_buf i s' = uint i)"
  using assms
  by (auto simp: add_packet_id_to_repeat_buf_def get_packet_id_in_repeat_buf_def client_inv_def Let_def
      set_update_memI split: if_splits)

text \<open>
  The buffer is a ring: the identifier stored \<open>k\<close> stores ago is still there as long as \<open>k\<close> is below 50.
\<close>

fun add_packet_ids :: "u16 list \<Rightarrow> 'w sys \<Rightarrow> 'w sys option" where
  "add_packet_ids [] s = Some s"
| "add_packet_ids (i # is') s = do { s \<leftarrow> add_packet_id_to_repeat_buf i s; add_packet_ids is' s }"


lemma ring_keeps:
  assumes "client_inv s" and "p < 50" and "sg_repeat_packet_id_buf s ! p = i"
    and "current_packet_id_cnt s = (p + 1 + j) mod 50" and "j + length js < 50"
  shows "returns (add_packet_ids js s) (\<lambda>s'. client_inv s' \<and> sg_repeat_packet_id_buf s' ! p = i)"
  using assms
proof (induction js arbitrary: s j)
  case (Cons x js)
  show ?case
  proof (cases "get_packet_id_in_repeat_buf x s > 0")
    case True
    with Cons show ?thesis by (simp add: add_packet_id_to_repeat_buf_def)
  next
    case False
    let ?c = "current_packet_id_cnt s" and ?c' = "(current_packet_id_cnt s + 1) mod 50"
    let ?s = "s\<lparr>sg_repeat_packet_id_buf := (sg_repeat_packet_id_buf s)[?c := x], current_packet_id_cnt := ?c'\<rparr>"
    have c: "?c < 50" and l: "length (sg_repeat_packet_id_buf s) = 50"
      using Cons.prems(1) by (simp_all add: client_inv_def)
    then have e: "(if ?c + 1 \<ge> MQTT_MAX_REPEAT_BUF_LEN then (?c + 1) mod 50 else ?c + 1) = ?c'" by simp
    have add: "add_packet_id_to_repeat_buf x s = Some ?s"
      unfolding add_packet_id_to_repeat_buf_def Let_def e using False c l by simp
    have ne: "?c \<noteq> p"
    proof
      assume "?c = p"
      with Cons.prems(4) have "(p + 1 + j) mod 50 = p" by simp
      then have "(p + 0) mod 50 = (p + Suc j) mod 50" using Cons.prems(2) by simp
      with mod_add_inj [of p 0 50 "Suc j"] Cons.prems(5) show False by simp
    qed
    have "client_inv ?s" using Cons.prems(1) by (simp add: client_inv_def)
    moreover have "current_packet_id_cnt ?s = (p + 1 + Suc j) mod 50"
      using Cons.prems(4) by (simp add: mod_Suc_eq)
    ultimately show ?thesis
      using Cons.IH [of ?s "Suc j"] Cons.prems ne by (simp add: add)
  qed
qed simp

section \<open>Properties\<close>

text \<open>
  Packet identifiers.  Starting from a non-zero identifier, as \<open>uiot_mqtt_init\<close> leaves it,
  any number of consecutive calls of \<open>get_next_packet_id\<close> succeed, never return 0, which MQTT
  reserves, and any 65535 consecutive identifiers are different.
\<close>
theorem packet_ids_unique:
  assumes "next_packet_id s \<noteq> 0"
  shows "\<exists>ids s'. next_packet_ids k s = Some (ids, s') \<and> length ids = k \<and> 0 \<notin> set ids
    \<and> (\<forall>i j. i < j \<and> j < k \<and> j < i + 65535 \<longrightarrow> ids ! i \<noteq> ids ! j)"
proof -
  from next_packet_ids_values [OF assms, of k] obtain ids s' where
    ids: "next_packet_ids k s = Some (ids, s')" "length ids = k"
    and val: "\<And>j. j < k \<Longrightarrow> unat (ids ! j) = (unat (next_packet_id s) + j) mod 65535 + 1" by blast
  have "x \<noteq> 0" if "x \<in> set ids" for x
    using that val ids(2) by (fastforce simp: in_set_conv_nth)
  moreover have "ids ! i \<noteq> ids ! j" if "i < j" "j < k" "j < i + 65535" for i j
  proof
    assume "ids ! i = ids ! j"
    with val [of i] val [of j] that(1,2) have
      "(unat (next_packet_id s) + i) mod 65535 = (unat (next_packet_id s) + j) mod 65535" by simp
    with mod_add_inj that(1,3) show False by blast
  qed
  ultimately show ?thesis using ids by blast
qed


text \<open>A client in its initial state, for concrete runs: the world is the tick counter.\<close>

definition demo_client :: "u32 sys" where
  "demo_client = \<lparr> is_connected = 0, was_manually_disconnected = 0, is_ping_outstanding = 0, next_packet_id = 1,
     command_timeout_ms = 2000, current_reconnect_wait_interval = 1000, counter_network_disconnected = 0,
     write_buf_size = 2048, read_buf_size = 2048, write_buf = replicate 2048 0, read_buf = replicate 2048 0,
     list_pub_wait_ack = [], list_sub_wait_ack = [], event_handler = Some 1,
     options = \<lparr> client_id = Some [97], username = None, password = None, mqtt_version = 4,
       keep_alive_interval = 60, clean_session = 1, auto_connect_enable = 1 \<rparr>,
     ping_timer = init_timer, reconnect_delay_timer = init_timer, sub_handles = replicate 10 empty_handle,
     sg_repeat_packet_id_buf = replicate 50 0, current_packet_id_cnt = 0, os = 0, held = (\<lambda>_. 0), calls = [],
     next_node = 0 \<rparr>"

lemma demo_client_inv: "client_inv demo_client"
  by (simp add: client_inv_def demo_client_def nodes_ok_def)

theorem packet_ids_unique_witness:
  "\<exists>ids s'. next_packet_ids 3 demo_client = Some (ids, s') \<and> length ids = 3 \<and> 0 \<notin> set ids
    \<and> (\<forall>i j. i < j \<and> j < 3 \<and> j < i + 65535 \<longrightarrow> ids ! i \<noteq> ids ! j)"
  using packet_ids_unique [of demo_client 3] by (simp add: demo_client_def)

text \<open>
  Repeated deliveries are recognised.  In a build with \<open>MQTT_CHECK_REPEAT_MSG\<close>, once the packet
  identifier of a message has been stored, it is found again after up to 49 further messages have
  been stored, whatever their identifiers; the buffer is never written outside its 50 elements.
\<close>
theorem repeat_ids_remembered:
  assumes "client_inv s" and "get_packet_id_in_repeat_buf i s < 0" and "length js < 50"
  shows "\<exists>s'. add_packet_ids (i # js) s = Some s' \<and> client_inv s' \<and> get_packet_id_in_repeat_buf i s' = uint i"
proof -
  let ?c = "current_packet_id_cnt s"
  let ?s = "s\<lparr>sg_repeat_packet_id_buf := (sg_repeat_packet_id_buf s)[?c := i], current_packet_id_cnt := (?c + 1) mod 50\<rparr>"
  have c: "?c < 50" and l: "length (sg_repeat_packet_id_buf s) = 50"
    using assms(1) by (simp_all add: client_inv_def)
  then have e: "(if ?c + 1 \<ge> MQTT_MAX_REPEAT_BUF_LEN then (?c + 1) mod 50 else ?c + 1) = (?c + 1) mod 50" by simp
  have add: "add_packet_id_to_repeat_buf i s = Some ?s"
    unfolding add_packet_id_to_repeat_buf_def Let_def e using assms(2) c l by simp
  have "client_inv ?s" using assms(1) by (simp add: client_inv_def)
  from ring_keeps [OF this c, of i 0 js] assms(3) c l obtain s' where
    s': "add_packet_ids js ?s = Some s'" "client_inv s'" "sg_repeat_packet_id_buf s' ! ?c = i"
    by (auto simp: returns_def)
  then have "i \<in> set (take 50 (sg_repeat_packet_id_buf s'))"
    using c by (metis client_inv_def nth_mem take_all_iff order_refl)
  with add s' show ?thesis by (simp add: get_packet_id_in_repeat_buf_def)
qed

theorem repeat_ids_remembered_witness:
  "\<exists>s'. add_packet_ids [7, 8, 9] demo_client = Some s' \<and> client_inv s' \<and> get_packet_id_in_repeat_buf 7 s' = uint (7 :: u16)"
  using repeat_ids_remembered [OF demo_client_inv, of 7 "[8, 9]"]
  by (simp add: get_packet_id_in_repeat_buf_def demo_client_def)

end
