(* ===== verification/Mqtt_Transport.thy ===== *)
theory Mqtt_Transport
  imports Mqtt_State
begin

text \<open>
  Sending and receiving whole packets over the network stack (\<^verbatim>\<open>mqtt_client_common.c\<close>):
  \<open>send_mqtt_packet\<close>, the remaining-length reader on the network, and \<open>_read_mqtt_packet\<close>.
  Loops whose length depends on the peer take \<open>fuel\<close>, the number of iterations allowed; running out of
  it is \<open>None\<close>.  The locale \<open>network\<close> states what the functions behind \<open>network_stack.read\<close> and
  \<open>network_stack.write\<close> promise; with it the amount of fuel that is enough is proved.
\<close>

section \<open>Definitions\<close>

text \<open>
  The send loop.  The third argument of \<open>write\<close> is the whole \<open>length\<close> in every iteration,
  not what is left, as in the source; reading the write buffer behind its end is out of bounds.
\<close>

primrec send_loop :: "'w hal \<Rightarrow> nat \<Rightarrow> size_t \<Rightarrow> Timer \<Rightarrow> size_t \<Rightarrow> 'w sys \<Rightarrow> (size_t \<times> 'w sys) option" where
  "send_loop hal 0 l timer sent s = None"
| "send_loop hal (Suc fuel) l timer sent s =
     (if \<not> sent < l then Some (sent, s)
      else do {
        let (expired, s) = has_expired hal timer s;
        if expired then Some (sent, s)
        else do {
          let (left, s) = left_ms hal timer s;
          if unat sent + unat l > length (write_buf s) then None
          else do {
            let (send_len, w) = net_write hal (slice (write_buf s) (unat sent) (unat l)) (of_int left) (os s);
            let s = s\<lparr>os := w\<rparr>;
            if send_len < 0 then Some (sent, s)
            else send_loop hal fuel l timer (sent + of_int send_len) s } } })"

definition send_mqtt_packet :: "'w hal \<Rightarrow> nat \<Rightarrow> size_t \<Rightarrow> Timer \<Rightarrow> 'w sys \<Rightarrow> (int \<times> 'w sys) option" where
  "send_mqtt_packet hal fuel l timer s =
     (if l \<ge> write_buf_size s then Some (ERR_MQTT_BUFFER_TOO_SHORT, s)
      else do {
        (sent, s) \<leftarrow> send_loop hal fuel l timer 0 s;
        if sent = l then Some (SUCCESS_RET, s) else Some (FAILURE_RET, s) })"

text \<open>\<open>network_stack.read\<close> into the read buffer at a position.\<close>

definition read_into :: "'w hal \<Rightarrow> pos \<Rightarrow> u32 \<Rightarrow> int \<Rightarrow> 'w sys \<Rightarrow> (int \<times> 'w sys) option" where
  "read_into hal p n timeout s = do {
     let ((ret, data), w) = net_read hal n (of_int timeout) (os s);
     b \<leftarrow> poke_bytes (read_buf s) p data;
     Some (ret, s\<lparr>read_buf := b, os := w\<rparr>) }"

text \<open>
  \<open>_decode_packet_rem_len_with_net_read\<close>: the error code, or \<open>*value\<close>; at most four bytes are read,
  the recursion is on the number of bytes still allowed.  The local \<open>i\<close> must have been written by
  the read.
\<close>

function decode_packet_rem_len_with_net_read ::
  "'w hal \<Rightarrow> nat \<Rightarrow> u32 \<Rightarrow> u32 \<Rightarrow> int \<Rightarrow> 'w sys \<Rightarrow> ((int + u32) \<times> 'w sys) option" where
  "decode_packet_rem_len_with_net_read hal l multiplier value timeout s =
     (let l = l + 1 in
      if l > MAX_NO_OF_REMAINING_LENGTH_BYTES then Some (Inl ERR_MQTT_PACKET_READ_ERROR, s)
      else
        let ((ret, data), w) = net_read hal 1 (of_int timeout) (os s);
            s = s\<lparr>os := w\<rparr>
        in if ret \<le> 0 then Some (Inl FAILURE_RET, s)
        else case data of
          [i] \<Rightarrow>
            let value = value + (ucast i AND 127) * multiplier;
                multiplier = multiplier * 128
            in if i AND 128 \<noteq> 0
               then decode_packet_rem_len_with_net_read hal l multiplier value timeout s
               else Some (Inr value, s)
        | _ \<Rightarrow> None)"
  by pat_completeness auto
termination
  by (relation "measure (\<lambda>(hal, l, m, v, t, s). 4 - l)") auto

declare decode_packet_rem_len_with_net_read.simps [simp del]

text \<open>The loop that throws away a packet larger than the read buffer.\<close>

primrec drain_loop ::
  "'w hal \<Rightarrow> nat \<Rightarrow> u32 \<Rightarrow> size_t \<Rightarrow> size_t \<Rightarrow> int \<Rightarrow> 'w sys \<Rightarrow> 'w sys option" where
  "drain_loop hal 0 rem_len total_bytes_read bytes_to_be_read timeout s = None"
| "drain_loop hal (Suc fuel) rem_len total_bytes_read bytes_to_be_read timeout s = do {
     (read_len, s) \<leftarrow> read_into hal 0 bytes_to_be_read timeout s;
     let (total_bytes_read, bytes_to_be_read) =
       (if read_len > 0 then
          let total_bytes_read = total_bytes_read + of_int read_len
          in (total_bytes_read, if rem_len - total_bytes_read \<ge> read_buf_size s then read_buf_size s else rem_len - total_bytes_read)
        else (total_bytes_read, bytes_to_be_read));
     if total_bytes_read < rem_len \<and> read_len > 0
     then drain_loop hal fuel rem_len total_bytes_read bytes_to_be_read timeout s
     else Some s }"

text \<open>\<open>left_ms\<close> raised to at least one, as computed before every read.\<close>

definition wait_ms :: "'w hal \<Rightarrow> Timer \<Rightarrow> 'w sys \<Rightarrow> int \<times> 'w sys" where
  "wait_ms hal timer s = (let (t, s) = left_ms hal timer s in (if t \<le> 0 then 1 else t, s))"

text \<open>
  The part of \<open>_read_mqtt_packet\<close> after the remaining length is known: the return code and, on success,
  \<open>*packet_type\<close>.  A body that arrives only in part counts as read; an empty body
  is not read at all (the value 1 passes the two tests).  The time to wait is added up
  modulo \<open>2\<^sup>3\<^sup>2\<close>.
\<close>

definition read_packet_body ::
  "'w hal \<Rightarrow> nat \<Rightarrow> Timer \<Rightarrow> u32 \<Rightarrow> 'w sys \<Rightarrow> ((int \<times> u8 option) \<times> 'w sys) option" where
  "read_packet_body hal fuel timer rem_len s =
     (if rem_len \<ge> read_buf_size s then do {
        let (t, s) = wait_ms hal timer s;
        s \<leftarrow> drain_loop hal fuel rem_len 0 (read_buf_size s) (t + UIOT_MQTT_MAX_REMAIN_WAIT_MS) s;
        Some ((ERR_MQTT_BUFFER_TOO_SHORT, None), s) }
      else do {
        (b, l) \<leftarrow> mqtt_write_packet_rem_len rem_len (read_buf s, 1);
        let s = s\<lparr>read_buf := b\<rparr>;
        if rem_len > 0 \<and> of_nat l + rem_len > read_buf_size s then do {
          let (t, s) = wait_ms hal timer s;
          (_, s) \<leftarrow> read_into hal 0 rem_len (t + UIOT_MQTT_MAX_REMAIN_WAIT_MS) s;
          Some ((ERR_MQTT_BUFFER_TOO_SHORT, None), s) }
        else do {
          (read_len, s) \<leftarrow>
            (if rem_len > 0 then do {
               let (t, s) = wait_ms hal timer s;
               read_into hal l rem_len (t + UIOT_MQTT_MAX_REMAIN_WAIT_MS) s }
             else Some (1, s));
          if read_len < 0 then Some ((read_len, None), s)
          else if read_len = 0 then Some ((ERR_MQTT_NOTHING_TO_READ, None), s)
          else do {
            h \<leftarrow> peek (read_buf s) 0;
            Some ((SUCCESS_RET, Some (header_type h)), s) } } })"

definition read_mqtt_packet ::
  "'w hal \<Rightarrow> nat \<Rightarrow> Timer \<Rightarrow> 'w sys \<Rightarrow> ((int \<times> u8 option) \<times> 'w sys) option" where
  "read_mqtt_packet hal fuel timer s = do {
     let (t, s) = wait_ms hal timer s;
     (read_len, s) \<leftarrow> read_into hal 0 1 t s;
     if read_len < 0 then Some ((read_len, None), s)
     else if read_len = 0 then Some ((ERR_MQTT_NOTHING_TO_READ, None), s)
     else do {
       let (t, s) = wait_ms hal timer s;
       (r, s) \<leftarrow> decode_packet_rem_len_with_net_read hal 0 1 0 (t + UIOT_MQTT_MAX_REMAIN_WAIT_MS) s;
       case r of
         Inl ret \<Rightarrow> Some ((ret, None), s)
       | Inr rem_len \<Rightarrow> read_packet_body hal fuel timer rem_len s } }"

section \<open>Frames\<close>

text \<open>What an operation may change: the world only; or the read buffer and the world.\<close>

definition os_frame :: "'w sys \<Rightarrow> 'w sys \<Rightarrow> bool" where
  "os_frame s s' \<longleftrightarrow> s' = s\<lparr>os := os s'\<rparr>"

definition rx_frame :: "'w sys \<Rightarrow> 'w sys \<Rightarrow> bool" where
  "rx_frame s s' \<longleftrightarrow> s' = s\<lparr>read_buf := read_buf s', os := os s'\<rparr> \<and> length (read_buf s') = length (read_buf s)"

lemma os_frame_refl [simp]: "os_frame s s"
  by (simp add: os_frame_def)

lemma os_frame_os [simp]: "os_frame s (s\<lparr>os := w\<rparr>)"
  by (simp add: os_frame_def)

lemma os_frame_os_left [simp]: "os_frame (s\<lparr>os := w\<rparr>) s' = os_frame s s'"
  by (simp add: os_frame_def)

lemma rx_frame_os_left [simp]: "rx_frame (s\<lparr>os := w\<rparr>) s' = rx_frame s s'"
  by (simp add: rx_frame_def)

lemma rx_frame_refl [simp]: "rx_frame s s"
  by (simp add: rx_frame_def)

lemma rx_frame_upd [simp]: "length b = length (read_buf s) \<Longrightarrow> rx_frame s (s\<lparr>read_buf := b, os := w\<rparr>)"
  by (simp add: rx_frame_def)

lemma rx_frame_upd1 [simp]: "length b = length (read_buf s) \<Longrightarrow> rx_frame s (s\<lparr>read_buf := b\<rparr>)"
  by (simp add: rx_frame_def)

lemma rx_frameE:
  assumes "rx_frame s s'"
  obtains b w where "s' = s\<lparr>read_buf := b, os := w\<rparr>" and "length b = length (read_buf s)"
  using assms unfolding rx_frame_def by blast

lemma os_frameE:
  assumes "os_frame s s'"
  obtains w where "s' = s\<lparr>os := w\<rparr>"
  using assms unfolding os_frame_def by blast

lemma os_rx_frame: "os_frame s s' \<Longrightarrow> rx_frame s s'"
  by (erule os_frameE) (simp add: rx_frame_def)

lemma rx_frame_trans: "rx_frame s s' \<Longrightarrow> rx_frame s' s'' \<Longrightarrow> rx_frame s s''"
  by (erule rx_frameE, erule rx_frameE) simp

lemma os_frame_trans: "os_frame s s' \<Longrightarrow> os_frame s' s'' \<Longrightarrow> os_frame s s''"
  by (erule os_frameE, erule os_frameE) simp

lemma rx_frame_keeps: "rx_frame s s' \<Longrightarrow> keeps s s'"
  by (erule rx_frameE) (simp add: keeps_def client_inv_def)

lemma os_frame_keeps: "os_frame s s' \<Longrightarrow> keeps s s'"
  by (erule os_frameE) (simp add: keeps_def)

lemma clock_frames:
  "has_expired hal t s = (b, s') \<Longrightarrow> os_frame s s'"
  "left_ms hal t s = (n, s') \<Longrightarrow> os_frame s s'"
  "wait_ms hal t s = (n, s') \<Longrightarrow> os_frame s s'"
  "countdown_ms hal ms s = (tm, s') \<Longrightarrow> os_frame s s'"
  "countdown hal ms s = (tm, s') \<Longrightarrow> os_frame s s'"
  "malloc hal k s = (b, s') \<Longrightarrow> os_frame s s'"
  by (auto simp: os_frame_def wait_ms_def has_expired_def left_ms_def countdown_ms_def countdown_def malloc_def Let_def
      split: prod.splits)

section \<open>What the network stack promises\<close>

text \<open>
  What \<^verbatim>\<open>uiot_import.h\<close> documents of the read and write functions: a read returns an error, or the number
  of bytes it stored, at most as many as asked for (0 after a timeout without data); a write returns an
  error, or the number of bytes it sent, and the TCP port turns a write of nothing into an error.
\<close>

definition read_contract :: "'w hal \<Rightarrow> bool" where
  "read_contract hal \<longleftrightarrow> (\<forall>n t w ret data w'. net_read hal n t w = ((ret, data), w') \<longrightarrow>
     length data \<le> unat n \<and> (ret \<ge> 0 \<longrightarrow> ret = int (length data)))"

definition write_contract :: "'w hal \<Rightarrow> bool" where
  "write_contract hal \<longleftrightarrow> (\<forall>d t w ret w'. net_write hal d t w = (ret, w') \<longrightarrow> d \<noteq> [] \<longrightarrow> length d < 2 ^ 31 \<longrightarrow>
     ret < 0 \<or> (0 < ret \<and> ret \<le> int (length d)))"

locale network =
  fixes hal :: "'w hal"
  assumes read_ok: "read_contract hal" and write_ok: "write_contract hal"
begin

lemma readD:
  assumes "net_read hal n t w = ((ret, data), w')"
  shows "length data \<le> unat n" and "ret \<ge> 0 \<Longrightarrow> ret = int (length data)"
  using read_ok assms unfolding read_contract_def by blast+

lemma writeD:
  assumes "net_write hal d t w = (ret, w')" and "d \<noteq> []" and "length d < 2 ^ 31" and "\<not> ret < 0"
  shows "0 < ret" and "ret \<le> int (length d)"
  using write_ok assms unfolding write_contract_def by blast+

text \<open>
  Every iteration that goes on has sent at least one byte, so \<open>length - sent + 1\<close> iterations are
  enough; a packet of at most half the buffer is never read behind the end of the buffer.
\<close>

lemma send_loop_returns:
  assumes "unat l - unat sent < fuel" and "2 * unat l \<le> length (write_buf s)" and "length (write_buf s) < 2 ^ 32"
  shows "returns (send_loop hal fuel l timer sent s) (\<lambda>x. os_frame s (snd x))"
  using assms
proof (induction fuel arbitrary: sent s)
  case (Suc fuel)
  show ?case
  proof (cases "sent < l")
    case True
    obtain e w1 where e: "has_expired_w hal timer (os s) = (e, w1)" by fastforce
    obtain lf w2 where lf: "left_ms_w hal timer w1 = (lf, w2)" by fastforce
    let ?d = "slice (write_buf s) (unat sent) (unat l)"
    obtain n w3 where n: "net_write hal ?d (of_int lf) w2 = (n, w3)" by fastforce
    have lt: "unat sent < unat l" using True by (simp add: word_less_nat_alt)
    with Suc.prems(2) have fit: "unat sent + unat l \<le> length (write_buf s)" by simp
    then have ld: "length ?d = unat l" by simp
    have rec: "returns (send_loop hal fuel l timer (sent + of_int n) (s\<lparr>os := w3\<rparr>)) (\<lambda>x. os_frame s (snd x))"
      if "\<not> n < 0"
    proof -
      have "?d \<noteq> []" using ld lt by auto
      moreover have "length ?d < 2 ^ 31" using ld Suc.prems(2,3) by simp
      ultimately have n': "0 < n" "n \<le> int (unat l)" using writeD [OF n _ _ that] ld by simp_all
      then obtain k where k: "n = int k" "0 < k" "k \<le> unat l" by (metis of_nat_0_less_iff of_nat_le_iff zero_le_imp_eq_int order_less_imp_le)
      have "unat sent + k < 2 ^ 32"
        using k lt Suc.prems(2,3) by simp
      then have "unat (sent + of_int n) = unat sent + k"
        using k by (simp add: unat_word_ariths)
      with Suc.IH [of "sent + of_int n" "s\<lparr>os := w3\<rparr>"] Suc.prems k lt show ?thesis by simp
    qed
    show ?thesis
      using True e lf n fit rec by (auto simp: has_expired_def left_ms_def Let_def)
  qed simp
qed simp

end

text \<open>
  Receiving a packet always returns, with a drained socket for a packet that is too large; on
  success the read buffer holds a framed packet whose type is reported.
\<close>

definition rx_result :: "'w sys \<Rightarrow> (int \<times> u8 option) \<times> 'w sys \<Rightarrow> bool" where
  "rx_result s x \<longleftrightarrow> rx_frame s (snd x)
     \<and> (fst (fst x) = SUCCESS_RET \<longrightarrow>
         framed (read_buf (snd x)) 0 \<and> snd (fst x) = Some (header_type (read_buf (snd x) ! 0)))
     \<and> (fst (fst x) \<noteq> SUCCESS_RET \<longrightarrow> snd (fst x) = None)"

lemma rem_len_in_buffer:
  assumes "mqtt_write_packet_rem_len n (buf, 1) = Some (b, k)" and "unat n < 2048"
  shows "\<And>c. take k c = take k b \<Longrightarrow> mqtt_read_packet_rem_len_form_buf c 1 = Some (Inr (n, of_nat (k - 1)))"
    and "1 < k" and "k \<le> 5" and "length b = length buf" and "k \<le> length buf"
proof -
  let ?e = "rem_len_bytes (unat n)"
  from assms(1) have le: "1 + length ?e \<le> length buf" and k: "k = 1 + length ?e"
    and b: "b = take 1 buf @ ?e @ drop k buf"
    by (auto simp: mem_simps write_bytes_eq_Some_iff)
  have l4: "length ?e \<le> 4" using rem_len_bytes_le_4 [of "unat n"] assms(2) by simp
  then show "1 < k" "k \<le> 5" "length b = length buf" "k \<le> length buf"
    using le k b by (auto simp: length_rem_len_bytes [of "unat n"])
  fix c :: bytes assume "take k c = take k b"
  moreover have "take k b = take 1 buf @ ?e" using le k by (simp add: b)
  ultimately have c: "c = take 1 buf @ ?e @ drop k c" by (metis append_assoc append_take_drop_id)
  have "length (take 1 buf) = 1" using le by simp
  with decode_rem_len_bytes [of 0 "unat n" 1 0 0 "take 1 buf" "drop k c"] l4 c k
  show "mqtt_read_packet_rem_len_form_buf c 1 = Some (Inr (n, of_nat (k - 1)))"
    by (simp add: mqtt_read_packet_rem_len_form_buf_def)
qed

context network
begin

lemma read_into_returns:
  assumes "p + unat n \<le> length (read_buf s)"
  shows "returns (read_into hal p n t s) (\<lambda>x. rx_frame s (snd x) \<and> fst x \<le> int (unat n)
    \<and> take p (read_buf (snd x)) = take p (read_buf s))"
proof -
  obtain r d w where nr: "net_read hal n (of_int t) (os s) = ((r, d), w)" by (metis prod.collapse)
  note d = readD [OF nr]
  have "r \<le> int (unat n)"
  proof (cases "r \<ge> 0")
    case True
    from d(2) [OF True] d(1) show ?thesis by linarith
  next
    case False
    then show ?thesis by linarith
  qed
  with assms d(1) show ?thesis by (simp add: read_into_def nr poke_bytes_def)
qed

lemma decode_net_returns:
  "returns (decode_packet_rem_len_with_net_read hal k m v t s)
     (\<lambda>x. os_frame s (snd x) \<and> (\<forall>e. fst x = Inl e \<longrightarrow> e < 0))"
proof (induction "4 - k" arbitrary: k m v s)
  case 0
  then show ?case by (subst decode_packet_rem_len_with_net_read.simps) simp
next
  case (Suc j)
  obtain r d w where nr: "net_read hal 1 (of_int t) (os s) = ((r, d), w)" by (metis prod.collapse)
  show ?case
  proof (cases "r \<le> 0")
    case True
    then show ?thesis using Suc.hyps(2) by (subst decode_packet_rem_len_with_net_read.simps) (simp add: nr Let_def)
  next
    case False
    with readD [OF nr] have "length d = 1" by (cases d) auto
    then obtain i where "d = [i]" by (cases d) auto
    moreover have "j = 4 - Suc k" using Suc.hyps(2) by simp
    ultimately show ?thesis
      using Suc.hyps(1) [of "Suc k" "m * 128" "v + (ucast i AND 127) * m" "s\<lparr>os := w\<rparr>"] Suc.hyps(2) False
      by (subst decode_packet_rem_len_with_net_read.simps) (simp add: nr Let_def)
  qed
qed

lemma drain_loop_returns:
  assumes "unat rem_len - unat tot < fuel" and "unat tot \<le> unat rem_len" and "unat n \<le> unat rem_len - unat tot"
    and "unat n \<le> length (read_buf s)" and "unat (read_buf_size s) \<le> length (read_buf s)"
  shows "returns (drain_loop hal fuel rem_len tot n t s) (\<lambda>s'. rx_frame s s')"
  using assms
proof (induction fuel arbitrary: tot n s)
  case (Suc fuel)
  from read_into_returns [of 0 n s t] Suc.prems(4) obtain r s' where
    r: "read_into hal 0 n t s = Some (r, s')" "rx_frame s s'" "r \<le> int (unat n)"
    by (auto simp: returns_def)
  then obtain b w where s': "s' = s\<lparr>read_buf := b, os := w\<rparr>" "length b = length (read_buf s)"
    by (auto elim: rx_frameE)
  show ?case
  proof (cases "r > 0")
    case True
    then obtain k where k: "r = int k" "0 < k" "k \<le> unat n"
      using r(3) by (metis nat_int of_nat_0_less_iff of_nat_le_iff zero_less_imp_eq_int)
    have tk: "unat (tot + of_int r) = unat tot + k"
    proof -
      have "unat tot + k < 2 ^ 32"
        using k(3) Suc.prems(2,3) unsigned_less [of rem_len, where 'a = nat] by simp
      then show ?thesis using k(1) by (simp add: unat_word_ariths)
    qed
    let ?T = "tot + of_int r"
    let ?n = "if rem_len - ?T \<ge> read_buf_size s then read_buf_size s else rem_len - ?T"
    have "unat ?T \<le> unat rem_len" using tk k(3) Suc.prems(2,3) by simp
    then have sub: "unat (rem_len - ?T) = unat rem_len - unat ?T" by (simp add: unat_sub word_le_nat_alt)
    have n: "unat ?n \<le> unat rem_len - unat ?T" "unat ?n \<le> length b"
      using sub Suc.prems(5) s'(2) by (auto simp: word_le_nat_alt not_le word_less_nat_alt)
    have "returns (drain_loop hal fuel rem_len ?T ?n t s') (\<lambda>s''. rx_frame s' s'')"
      using Suc.prems tk k(2,3) n s' by (intro Suc.IH) simp_all
    then have "returns (drain_loop hal fuel rem_len ?T ?n t s') (\<lambda>s''. rx_frame s s'')"
      by (rule returns_mono) (rule rx_frame_trans [OF r(2)])
    with True r s' show ?thesis by (auto simp: Let_def split: if_splits)
  next
    case False
    with r show ?thesis by (simp add: Let_def)
  qed
qed simp

lemma wait_read_returns:
  assumes "p + unat n \<le> length (read_buf s)"
  shows "returns (case wait_ms hal timer s of (t, s) \<Rightarrow> read_into hal p n (t + UIOT_MQTT_MAX_REMAIN_WAIT_MS) s)
    (\<lambda>x. rx_frame s (snd x) \<and> take p (read_buf (snd x)) = take p (read_buf s))"
proof -
  obtain t s1 where w: "wait_ms hal timer s = (t, s1)" by fastforce
  from clock_frames(3) [OF w] obtain ww where s1: "s1 = s\<lparr>os := ww\<rparr>" by (rule os_frameE)
  from read_into_returns [of p n s1 "t + 2000"] assms s1 show ?thesis
    by (auto simp: w returns_def)
qed

lemma read_packet_too_large:
  assumes inv: "client_inv s" and fuel: "2 ^ 32 \<le> fuel" and large: "rem_len \<ge> read_buf_size s"
  shows "returns (read_packet_body hal fuel timer rem_len s) (rx_result s)"
proof -
  from inv have sz: "read_buf_size s = 2048" "length (read_buf s) = 2048" by (simp_all add: client_inv_def)
  obtain t s1 where w: "wait_ms hal timer s = (t, s1)" by fastforce
  from clock_frames(3) [OF w] obtain ww where s1: "s1 = s\<lparr>os := ww\<rparr>" by (rule os_frameE)
  have "unat rem_len < 2 ^ 32" using unsigned_less [of rem_len, where 'a = nat] by simp
  with drain_loop_returns [of rem_len 0 fuel 2048 s1 "t + 2000"] fuel large sz s1
  have "returns (drain_loop hal fuel rem_len 0 2048 (t + 2000) s1) (rx_frame s)"
    by (simp add: word_le_nat_alt)
  then show ?thesis
    using large sz s1 by (auto simp: read_packet_body_def w rx_result_def returns_def)
qed

lemma read_packet_framed:
  assumes wr: "mqtt_write_packet_rem_len rem_len (read_buf s, 1) = Some (b, k)" and small: "unat rem_len < 2048"
    and fr: "rx_frame (s\<lparr>read_buf := b\<rparr>) s'" and tk: "take k (read_buf s') = take k b"
    and fit: "k + unat rem_len \<le> length (read_buf s)"
  shows "rx_result s ((SUCCESS_RET, Some (header_type (read_buf s' ! 0))), s') \<and> 0 < length (read_buf s')"
proof -
  note rl = rem_len_in_buffer [OF wr small]
  have l: "length (read_buf s') = length (read_buf s)" using fr rl(4) by (auto elim: rx_frameE)
  have k1: "unat (of_nat (k - 1) :: u32) = k - 1" using rl(3) by (intro unat_of_nat_u32) simp
  have "framed (read_buf s') 0"
    unfolding framed_def rl(1) [OF tk] option.case sum.case prod.case k1 using rl(2) fit l by simp
  moreover have "rx_frame s s'" using rx_frame_trans [OF _ fr] rl(4) by simp
  moreover have "0 < length (read_buf s')" using l rl(2,5) by linarith
  ultimately show ?thesis by (simp add: rx_result_def)
qed

lemma read_packet_body_returns:
  assumes inv: "client_inv s" and fuel: "2 ^ 32 \<le> fuel"
  shows "returns (read_packet_body hal fuel timer rem_len s) (rx_result s)"
proof (cases "rem_len \<ge> read_buf_size s")
  case True
  then show ?thesis by (rule read_packet_too_large [OF assms])
next
  case False
  from inv have sz: "read_buf_size s = 2048" "length (read_buf s) = 2048" by (simp_all add: client_inv_def)
  with False have small: "unat rem_len < 2048" by (simp add: word_le_nat_alt)
  obtain b k where wr: "mqtt_write_packet_rem_len rem_len (read_buf s, 1) = Some (b, k)"
    using rem_len_codec.fits_iff [of rem_len "read_buf s" 1] rem_len_bytes_le_4 [of "unat rem_len"] small sz(2)
    by (auto simp: word_less_nat_alt)
  note rl = rem_len_in_buffer [OF wr small] and res = read_packet_framed [OF wr small, unfolded sz]
    and wr = wr [unfolded One_nat_def]
  let ?s = "s\<lparr>read_buf := b\<rparr>"
  have "unat (of_nat k + rem_len) = k + unat rem_len" using rl(3) small by (simp add: unat_word_ariths)
  then have guard: "2048 < of_nat k + rem_len \<longleftrightarrow> \<not> k + unat rem_len \<le> 2048"
    by (simp add: word_less_nat_alt not_le)
  consider (zero) "rem_len = 0" | (fit) "rem_len > 0" "k + unat rem_len \<le> 2048"
    | (big) "rem_len > 0" "\<not> k + unat rem_len \<le> 2048" by (auto simp: word_gt_0)
  then show ?thesis
  proof cases
    case zero
    with False res [of ?s] rl(3) wr show ?thesis by (simp add: read_packet_body_def Let_def)
  next
    case fit
    obtain r s' where rd: "(case wait_ms hal timer ?s of (t, s) \<Rightarrow> read_into hal k rem_len (t + 2000) s) = Some (r, s')"
      "rx_frame ?s s'" "take k (read_buf s') = take k b"
      using wait_read_returns [of k rem_len ?s timer] fit rl(4) sz(2) by (auto simp: returns_def)
    note rs = res [OF rd(2,3) fit(2)]
    have "read_packet_body hal fuel timer rem_len s =
      (if r < 0 then Some ((r, None), s') else if r = 0 then Some ((ERR_MQTT_NOTHING_TO_READ, None), s')
       else Some ((SUCCESS_RET, Some (header_type (read_buf s' ! 0))), s'))"
      using False fit rs rd(1) by (simp add: read_packet_body_def wr guard sz Let_def)
    with rs show ?thesis by (simp add: rx_result_def)
  next
    case big
    obtain r s' where rd: "(case wait_ms hal timer ?s of (t, s) \<Rightarrow> read_into hal 0 rem_len (t + 2000) s) = Some (r, s')"
      "rx_frame ?s s'"
      using wait_read_returns [of 0 rem_len ?s timer] small rl(4) sz(2) by (auto simp: returns_def)
    have "read_packet_body hal fuel timer rem_len s = Some ((ERR_MQTT_BUFFER_TOO_SHORT, None), s')"
      using False big rd(1)
      by (simp add: read_packet_body_def wr guard sz Let_def split: prod.splits)
    with rx_frame_trans [OF _ rd(2), of s] rl(4) show ?thesis by (simp add: rx_result_def)
  qed
qed

lemma read_mqtt_packet_returns:
  assumes inv: "client_inv s" and fuel: "2 ^ 32 \<le> fuel"
  shows "returns (read_mqtt_packet hal fuel timer s) (rx_result s)"
proof -
  obtain t s1 where w1: "wait_ms hal timer s = (t, s1)" by fastforce
  from clock_frames(3) [OF w1] obtain o1 where s1: "s1 = s\<lparr>os := o1\<rparr>" by (rule os_frameE)
  have "length (read_buf s) = 2048" using inv by (simp add: client_inv_def)
  then obtain r s2 where rd: "read_into hal 0 1 t s1 = Some (r, s2)" "rx_frame s s2"
    using read_into_returns [of 0 1 s1 t] by (auto simp: s1 returns_def)
  obtain t2 s3 where w2: "wait_ms hal timer s2 = (t2, s3)" by fastforce
  from clock_frames(3) [OF w2] obtain o2 where s3: "s3 = s2\<lparr>os := o2\<rparr>" by (rule os_frameE)
  obtain d s4 where dec: "decode_packet_rem_len_with_net_read hal 0 1 0 (t2 + 2000) s3 = Some (d, s4)"
    "os_frame s2 s4" "\<And>e. d = Inl e \<Longrightarrow> e < 0"
    using decode_net_returns [of 0 1 0 "t2 + 2000" s3] by (auto simp: s3 returns_def)
  have f4: "rx_frame s s4" using rx_frame_trans [OF rd(2) os_rx_frame [OF dec(2)]] .
  have i4: "client_inv s4" using rx_frame_keeps [OF f4] inv by (simp add: keeps_def)
  have body: "returns (read_packet_body hal fuel timer n s4) (rx_result s)" for n
    using read_packet_body_returns [OF i4 fuel, of timer n] rx_frame_trans [OF f4]
    by (auto simp: returns_def rx_result_def)
  show ?thesis
    using rd(2) dec(3) f4 body
    by (cases d) (auto simp: read_mqtt_packet_def w1 rd(1) w2 dec(1) rx_result_def)
qed

end

end
