(* ===== verification/Hal_Tcp.thy ===== *)
theory Hal_Tcp
  imports Mqtt_Transport
begin

text \<open>
  The TCP port of \<^verbatim>\<open>HAL_TCP_rtthread.c\<close>: the read and the write loop over the socket calls
  \<open>recv\<close> and \<open>send\<close>.  The socket layer is a parameter; by construction it stores and accepts at
  most as many bytes as it is given, as POSIX prescribes.  The loops take fuel, since they poll.  The
  interpretation of the locale \<open>network\<close> shows that the port keeps the contract the MQTT transport
  relies on.
\<close>

section \<open>Definitions\<close>

text \<open>
  \<open>sk_recv n\<close> and \<open>sk_send\<close> give the bytes received or the number of bytes accepted, or failure
  with the information whether \<open>errno\<close> is \<open>EINTR\<close> or \<open>EAGAIN\<close>; \<open>sk_hz\<close> is \<open>RT_TICK_PER_SECOND\<close>.
\<close>

record 'w sock =
  sk_tick :: "'w \<Rightarrow> u32 \<times> 'w"
  sk_hz :: u32
  sk_send :: "bytes \<Rightarrow> 'w \<Rightarrow> (bool + nat) \<times> 'w"
  sk_recv :: "nat \<Rightarrow> 'w \<Rightarrow> (bool + bytes) \<times> 'w"

definition rtthread_get_time_ms :: "'w sock \<Rightarrow> 'w \<Rightarrow> 64 word \<times> 'w" where
  "rtthread_get_time_ms sock w =
     (let (tick, w) = sk_tick sock w
      in if sk_hz sock = 1000 then (ucast tick, w)
         else (ucast ((tick * 1000 + sk_hz sock - 1) div sk_hz sock), w))"

definition rtthread_time_left :: "64 word \<Rightarrow> 64 word \<Rightarrow> 64 word" where
  "rtthread_time_left t_end t_now = (if t_end > t_now then t_end - t_now else 0)"

text \<open>
  The \<open>do \<dots> while\<close> loop of \<open>HAL_TCP_Write\<close>; the result is \<open>len_sent\<close>.  A \<open>continue\<close> goes to the
  loop condition.
\<close>

primrec tcp_write_loop ::
  "'w sock \<Rightarrow> nat \<Rightarrow> bytes \<Rightarrow> 64 word \<Rightarrow> nat \<Rightarrow> 'w \<Rightarrow> (nat \<times> 'w) option" where
  "tcp_write_loop sock 0 buf t_end len_sent w = None"
| "tcp_write_loop sock (Suc fuel) buf t_end len_sent w = do {
     let (t, w) = rtthread_get_time_ms sock w;
     let (r, w) = sk_send sock (drop len_sent buf) w;
     let (go_on, len_sent) =
       (case r of
          Inr n \<Rightarrow> (if n > 0 then (True, len_sent + min n (length buf - len_sent)) else (False, len_sent))
        | Inl retry \<Rightarrow> (retry, len_sent));
     if \<not> go_on then Some (len_sent, w)
     else if \<not> len_sent < length buf then Some (len_sent, w)
     else do {
       let (now, w) = rtthread_get_time_ms sock w;
       if rtthread_time_left t_end now > 0 then tcp_write_loop sock fuel buf t_end len_sent w
       else Some (len_sent, w) } }"

definition HAL_TCP_Write :: "'w sock \<Rightarrow> nat \<Rightarrow> bytes \<Rightarrow> u32 \<Rightarrow> 'w \<Rightarrow> (int \<times> 'w) option" where
  "HAL_TCP_Write sock fuel buf timeout_ms w = do {
     let (now, w) = rtthread_get_time_ms sock w;
     (len_sent, w) \<leftarrow> tcp_write_loop sock fuel buf (now + ucast timeout_ms) 0 w;
     Some (if len_sent > 0 then sint (of_nat len_sent :: u32) else ERR_TCP_WRITE_FAILED, w) }"

text \<open>
  The loop of \<open>HAL_TCP_Read\<close>: the bytes stored so far and \<open>err_code\<close>.  A \<open>recv\<close> that returns 0,
  which means that the peer has closed the connection, is retried until the time is over.
\<close>

primrec tcp_read_loop ::
  "'w sock \<Rightarrow> nat \<Rightarrow> nat \<Rightarrow> 64 word \<Rightarrow> bytes \<Rightarrow> 'w \<Rightarrow> ((bytes \<times> int) \<times> 'w) option" where
  "tcp_read_loop sock 0 n t_end data w = None"
| "tcp_read_loop sock (Suc fuel) n t_end data w = do {
     let (now, w) = rtthread_get_time_ms sock w;
     if rtthread_time_left t_end now = 0 then Some ((data, SUCCESS_RET), w)
     else do {
       let (r, w) = sk_recv sock (n - length data) w;
       case r of
         Inr bs \<Rightarrow>
           let data = data @ take (n - length data) bs
           in if length data < n then tcp_read_loop sock fuel n t_end data w
              else Some ((data, SUCCESS_RET), w)
       | Inl retry \<Rightarrow>
           if retry then (if length data < n then tcp_read_loop sock fuel n t_end data w
                          else Some ((data, SUCCESS_RET), w))
           else Some ((data, ERR_TCP_READ_FAILED), w) } }"

definition HAL_TCP_Read :: "'w sock \<Rightarrow> nat \<Rightarrow> u32 \<Rightarrow> u32 \<Rightarrow> 'w \<Rightarrow> ((int \<times> bytes) \<times> 'w) option" where
  "HAL_TCP_Read sock fuel n timeout_ms w = do {
     let (now, w) = rtthread_get_time_ms sock w;
     ((data, err_code), w) \<leftarrow> tcp_read_loop sock fuel (unat n) (now + ucast timeout_ms) [] w;
     Some ((if length data \<noteq> 0 then sint (of_nat (length data) :: u32) else err_code, data), w) }"

section \<open>The port keeps the contract of the transport\<close>

lemma tcp_write_loop_bounds:
  "tcp_write_loop sock fuel buf t k w = Some (m, w') \<Longrightarrow> k \<le> length buf \<Longrightarrow> k \<le> m \<and> m \<le> length buf"
proof (induction fuel arbitrary: k w)
  case (Suc fuel)
  obtain t1 w1 where 1: "rtthread_get_time_ms sock w = (t1, w1)" by fastforce
  obtain r w2 where 2: "sk_send sock (drop k buf) w1 = (r, w2)" by fastforce
  obtain t2 w3 where 3: "rtthread_get_time_ms sock w2 = (t2, w3)" by fastforce
  show ?case
  proof (cases r)
    case (Inl retry)
    with Suc.prems 1 2 3 Suc.IH [of k w3] show ?thesis by (auto simp: Let_def split: if_splits)
  next
    case (Inr n)
    let ?k = "k + min n (length buf - k)"
    from Inr Suc.prems 1 2 3 Suc.IH [of ?k w3] show ?thesis
      by (fastforce simp: Let_def split: if_splits)
  qed
qed simp

lemma tcp_read_loop_bounds:
  "tcp_read_loop sock fuel n t data w = Some ((data', e), w') \<Longrightarrow> length data \<le> n \<Longrightarrow>
   length data' \<le> n \<and> e \<le> 0"
proof (induction fuel arbitrary: data w)
  case (Suc fuel)
  obtain now w1 where 1: "rtthread_get_time_ms sock w = (now, w1)" by fastforce
  obtain r w2 where 2: "sk_recv sock (n - length data) w1 = (r, w2)" by fastforce
  show ?case
  proof (cases r)
    case (Inl retry)
    with Suc.prems 1 2 Suc.IH [of data w2] show ?thesis by (auto split: if_splits)
  next
    case (Inr bs)
    define d where "d = data @ take (n - length data) bs"
    have "length d \<le> n" using Suc.prems(2) by (simp add: d_def)
    with Suc.prems 1 2 Inr Suc.IH [of d w2] show ?thesis
      by (auto simp: Let_def d_def [symmetric] split: if_splits)
  qed
qed simp

lemma uint_of_nat_u32: "k < 2 ^ 32 \<Longrightarrow> uint (of_nat k :: u32) = int k"
  using unat_of_nat_u32 [of k] by (simp only: uint_nat)

lemma sint_small: "k < 2 ^ 31 \<Longrightarrow> sint (of_nat k :: u32) = int k"
  using sint_diff_small [of "of_nat k" 0] uint_of_nat_u32 [of k] by simp

lemma sint_nonneg:
  assumes "k < 2 ^ 32" and "0 \<le> sint (of_nat k :: u32)"
  shows "sint (of_nat k :: u32) = int k"
proof (cases "k < 2 ^ 31")
  case True
  then show ?thesis by (rule sint_small)
next
  case False
  have "(of_nat k :: u32) = of_int (int k - 2 ^ 32)" by simp
  moreover have "sint (of_int (int k - 2 ^ 32) :: u32) = signed_take_bit 31 (int k - 2 ^ 32)"
    by (simp only: signed_of_int) simp
  moreover have "signed_take_bit 31 (int k - 2 ^ 32) = int k - 2 ^ 32"
    using False assms(1) by (intro signed_take_bit_int_eq_self) auto
  ultimately have "sint (of_nat k :: u32) = int k - 2 ^ 32" by (simp only:)
  with assms show ?thesis by simp
qed

text \<open>A platform whose network is the TCP port; a port that never returns never gets here.\<close>

definition tcp_hal :: "'w sock \<Rightarrow> nat \<Rightarrow> 'w hal \<Rightarrow> 'w hal" where
  "tcp_hal sock fuel hal = hal\<lparr>
     net_read := (\<lambda>n t w. case HAL_TCP_Read sock fuel n t w of Some r \<Rightarrow> r | None \<Rightarrow> ((ERR_TCP_READ_FAILED, []), w)),
     net_write := (\<lambda>d t w. case HAL_TCP_Write sock fuel d t w of Some r \<Rightarrow> r | None \<Rightarrow> (ERR_TCP_WRITE_FAILED, w))\<rparr>"

lemma tcp_read_contract: "read_contract (tcp_hal sock fuel hal)"
  unfolding read_contract_def
proof (intro allI impI)
  fix n t w ret data w'
  assume r: "net_read (tcp_hal sock fuel hal) n t w = ((ret, data), w')"
  show "length data \<le> unat n \<and> (0 \<le> ret \<longrightarrow> ret = int (length data))"
  proof (cases "HAL_TCP_Read sock fuel n t w")
    case (Some x)
    with r obtain e u where l: "tcp_read_loop sock fuel (unat n) (fst (rtthread_get_time_ms sock w) + ucast t) []
        (snd (rtthread_get_time_ms sock w)) = Some ((data, e), u)"
      and ret: "ret = (if length data \<noteq> 0 then sint (of_nat (length data) :: u32) else e)"
      by (auto simp: tcp_hal_def HAL_TCP_Read_def bind_Some_iff split: prod.splits)
    from tcp_read_loop_bounds [OF l] have b: "length data \<le> unat n" "e \<le> 0" by auto
    moreover have "unat n < 2 ^ 32" using unsigned_less [of n, where 'a = nat] by simp
    ultimately show ?thesis using ret sint_nonneg [of "length data"] by auto
  qed (use r in \<open>auto simp: tcp_hal_def\<close>)
qed

lemma tcp_write_contract: "write_contract (tcp_hal sock fuel hal)"
  unfolding write_contract_def
proof (intro allI impI)
  fix d :: bytes and t w ret w'
  assume r: "net_write (tcp_hal sock fuel hal) d t w = (ret, w')" and d: "length d < 2 ^ 31"
  show "ret < 0 \<or> 0 < ret \<and> ret \<le> int (length d)"
  proof (cases "HAL_TCP_Write sock fuel d t w")
    case (Some x)
    with r obtain m u where l: "tcp_write_loop sock fuel d (fst (rtthread_get_time_ms sock w) + ucast t) 0
        (snd (rtthread_get_time_ms sock w)) = Some (m, u)"
      and ret: "ret = (if m > 0 then sint (of_nat m :: u32) else ERR_TCP_WRITE_FAILED)"
      by (auto simp: tcp_hal_def HAL_TCP_Write_def bind_Some_iff split: prod.splits)
    from tcp_write_loop_bounds [OF l] have "m \<le> length d" by auto
    with d ret sint_small [of m] show ?thesis by auto
  qed (use r in \<open>auto simp: tcp_hal_def\<close>)
qed

interpretation tcp: network "tcp_hal sock fuel hal"
  by unfold_locales (rule tcp_read_contract tcp_write_contract)+

section \<open>Properties\<close>


text \<open>A socket layer for concrete runs: the world is a tick count and the bytes to receive.\<close>

definition demo_sock :: "(u32 \<times> bytes) sock" where
  "demo_sock = \<lparr> sk_tick = (\<lambda>(t, bs). (t, (t + 1, bs))), sk_hz = 1000,
     sk_send = (\<lambda>d w. (Inr (length d), w)),
     sk_recv = (\<lambda>n (t, bs). (Inr (take n bs), (t, drop n bs))) \<rparr>"

definition demo_hal :: "(u32 \<times> bytes) hal" where
  "demo_hal = tcp_hal demo_sock 100
     \<lparr> rt_tick_get = (\<lambda>(t, bs). (t, (t + 1, bs))), rt_tick_from_millisecond = (\<lambda>ms. ms),
       net_read = (\<lambda>n t w. ((0, []), w)), net_write = (\<lambda>d t w. (0, w)), net_connect = (\<lambda>w. (0, w)),
       net_disconnect = (\<lambda>w. w), HAL_Malloc = (\<lambda>n w. (True, w)), HAL_SleepMs = (\<lambda>ms w. w), HAL_MutexCreate = (\<lambda>w. (True, w)) \<rparr>"

definition demo_sys :: "bytes \<Rightarrow> (u32 \<times> bytes) sys" where
  "demo_sys bs = \<lparr> is_connected = 1, was_manually_disconnected = 0, is_ping_outstanding = 0, next_packet_id = 1,
     command_timeout_ms = 2000, current_reconnect_wait_interval = 1000, counter_network_disconnected = 0,
     write_buf_size = 2048, read_buf_size = 2048, write_buf = replicate 2048 0, read_buf = replicate 2048 0,
     list_pub_wait_ack = [], list_sub_wait_ack = [], event_handler = Some 1,
     options = \<lparr> client_id = Some [97], username = None, password = None, mqtt_version = 4,
       keep_alive_interval = 60, clean_session = 1, auto_connect_enable = 1 \<rparr>,
     ping_timer = init_timer, reconnect_delay_timer = init_timer, sub_handles = replicate 10 empty_handle,
     sg_repeat_packet_id_buf = replicate 50 0, current_packet_id_cnt = 0, os = (0, bs), held = (\<lambda>_. 0), calls = [],
     next_node = 0 \<rparr>"

lemma demo_sys_inv [simp]: "client_inv (demo_sys bs)"
  by (simp add: client_inv_def demo_sys_def nodes_ok_def)


text \<open>
  Sending over the TCP port.  A packet of at most half the write buffer is sent without
  touching memory behind the buffer, whatever part of it each write accepts: \<open>send_mqtt_packet\<close> returns success or
  failure after at most \<open>length + 1\<close> iterations and changes nothing but the world.
\<close>
theorem send_returns:
  assumes "client_inv s" and "unat l \<le> 1024" and "unat l < fuel"
  shows "\<exists>ret s'. send_mqtt_packet (tcp_hal sock k hal) fuel l timer s = Some (ret, s')
    \<and> ret \<in> {SUCCESS_RET, FAILURE_RET} \<and> s' = s\<lparr>os := os s'\<rparr>"
proof -
  from assms(1) have sz: "length (write_buf s) = 2048" "write_buf_size s = 2048" by (simp_all add: client_inv_def)
  from tcp.send_loop_returns [of l 0 fuel s sock k hal timer] assms(2,3) sz obtain n s' where
    "send_loop (tcp_hal sock k hal) fuel l timer 0 s = Some (n, s')" "os_frame s s'" by (auto simp: returns_def)
  with assms(2) sz show ?thesis by (auto simp: send_mqtt_packet_def word_le_nat_alt os_frame_def)
qed

theorem send_returns_witness:
  "\<exists>ret s'. send_mqtt_packet (tcp_hal demo_sock 100 demo_hal) 5 4 \<lparr> end_time = 100 \<rparr> (demo_sys []) = Some (ret, s')
    \<and> ret \<in> {SUCCESS_RET, FAILURE_RET} \<and> s' = (demo_sys [])\<lparr>os := os s'\<rparr>"
  using send_returns [OF demo_sys_inv, of 4 5 demo_sock 100 demo_hal "\<lparr> end_time = 100 \<rparr>" "[]"] by simp

text \<open>A network that accepts the listed numbers of bytes and then everything.\<close>

definition choppy_hal :: "nat list hal" where
  "choppy_hal = \<lparr> rt_tick_get = (\<lambda>w. (0, w)), rt_tick_from_millisecond = (\<lambda>ms. ms),
     net_read = (\<lambda>n t w. ((0, []), w)),
     net_write = (\<lambda>d t w. case w of [] \<Rightarrow> (int (length d), []) | n # ns \<Rightarrow> (int (min n (length d)), ns)),
     net_connect = (\<lambda>w. (0, w)), net_disconnect = (\<lambda>w. w), HAL_Malloc = (\<lambda>n w. (True, w)), HAL_SleepMs = (\<lambda>ms w. w), HAL_MutexCreate = (\<lambda>w. (True, w)) \<rparr>"

lemma choppy_hal_sel [simp]:
  "rt_tick_get choppy_hal w = (0, w)"
  "net_write choppy_hal d t w = (case w of [] \<Rightarrow> (int (length d), []) | n # ns \<Rightarrow> (int (min n (length d)), ns))"
  by (simp_all add: choppy_hal_def)

lemma choppy_step:
  assumes "sent < l" and "unat sent + unat l \<le> length (write_buf s)"
  shows "send_loop choppy_hal (Suc fuel) l timer sent s =
    (case os s of
       [] \<Rightarrow> send_loop choppy_hal fuel l timer (sent + l) (s\<lparr>os := []\<rparr>)
     | n # ns \<Rightarrow> send_loop choppy_hal fuel l timer (sent + of_nat (min n (unat l))) (s\<lparr>os := ns\<rparr>))"
  using assms
  by (simp add: has_expired_def left_ms_def timer_defs Let_def split: list.splits)

text \<open>
  After a partial write the packet is reported as failed although the peer has accepted
  every byte: the second call passes the whole length again instead of what is left, so the count of
  sent bytes overshoots.  Here the first write accepts \<open>k\<close> bytes, fewer than the packet has, and
  the next one accepts everything it is given.
\<close>
theorem send_partial_write_fails:
  assumes "client_inv s" and "os s = [k]" and "0 < k" and "k < unat l" and "unat l \<le> 1024"
  shows "send_mqtt_packet choppy_hal 3 l timer s = Some (FAILURE_RET, s\<lparr>os := []\<rparr>)"
proof -
  have sz: "length (write_buf s) = 2048" "write_buf_size s = 2048" using assms(1) by (simp_all add: client_inv_def)
  have k: "unat (of_nat k :: u32) = k" using assms(4,5) by (intro unat_of_nat_u32) simp
  have kl: "unat (of_nat k + l) = k + unat l" using assms(4,5) k by (simp add: unat_word_ariths)
  have 1: "send_loop choppy_hal 3 l timer 0 s = send_loop choppy_hal 2 l timer (of_nat k) (s\<lparr>os := []\<rparr>)"
    using assms sz choppy_step [of 0 l s 2 timer] by (simp add: word_less_nat_alt numeral_3_eq_3 numeral_2_eq_2)
  have 2: "send_loop choppy_hal 2 l timer (of_nat k) (s\<lparr>os := []\<rparr>) =
      send_loop choppy_hal 1 l timer (of_nat k + l) (s\<lparr>os := []\<rparr>)"
    using assms sz k choppy_step [of "of_nat k" l "s\<lparr>os := []\<rparr>" 1 timer]
    by (simp add: word_less_nat_alt numeral_2_eq_2)
  have 3: "send_loop choppy_hal 1 l timer (of_nat k + l) (s\<lparr>os := []\<rparr>) = Some (of_nat k + l, s\<lparr>os := []\<rparr>)"
    using kl by (simp add: word_less_nat_alt)
  have "of_nat k + l \<noteq> l" using kl assms(3) by (metis add_cancel_left_left less_irrefl)
  with 1 2 3 assms(5) sz show ?thesis by (simp add: send_mqtt_packet_def word_le_nat_alt)
qed

definition choppy_sys :: "nat list sys" where
  "choppy_sys = \<lparr> is_connected = 1, was_manually_disconnected = 0, is_ping_outstanding = 0, next_packet_id = 1,
     command_timeout_ms = 2000, current_reconnect_wait_interval = 1000, counter_network_disconnected = 0,
     write_buf_size = 2048, read_buf_size = 2048, write_buf = replicate 2048 0, read_buf = replicate 2048 0,
     list_pub_wait_ack = [], list_sub_wait_ack = [], event_handler = None,
     options = options (demo_sys []), ping_timer = init_timer, reconnect_delay_timer = init_timer,
     sub_handles = replicate 10 empty_handle,
     sg_repeat_packet_id_buf = replicate 50 0, current_packet_id_cnt = 0, os = [5], held = (\<lambda>_. 0), calls = [],
     next_node = 0 \<rparr>"

theorem send_partial_write_fails_witness:
  "send_mqtt_packet choppy_hal 3 10 \<lparr> end_time = 100 \<rparr> choppy_sys = Some (FAILURE_RET, choppy_sys\<lparr>os := []\<rparr>)"
proof -
  have "client_inv choppy_sys" by (simp add: client_inv_def choppy_sys_def nodes_ok_def)
  moreover have "os choppy_sys = [5]" by (simp add: choppy_sys_def)
  ultimately show ?thesis by (rule send_partial_write_fails) simp_all
qed

end
