(* ===== verification/Mqtt_Handlers.thy ===== *)
theory Mqtt_Handlers
  imports Hal_Tcp
begin

text \<open>
  What the client does with the packets it receives (\<^verbatim>\<open>mqtt_client_common.c\<close>): delivery of a message to
  the subscriptions, the handlers of PUBACK, SUBACK, UNSUBACK, PUBLISH, PUBREC and PINGRESP,
  the dispatch in \<open>cycle_for_read\<close> and the wait for one packet type in \<open>wait_for_read\<close>.
\<close>

section \<open>Delivery\<close>

text \<open>
  The loop of \<open>_deliver_message\<close> over \<open>n\<close> handles from index \<open>i\<close>; \<open>True\<close> after a message handler
  was called.  The lock is released for the call and taken again when the handle has no handler.
\<close>

primrec deliver_loop ::
  "nat \<Rightarrow> nat \<Rightarrow> bytes \<Rightarrow> u16 \<Rightarrow> MQTTMessage \<Rightarrow> 'w sys \<Rightarrow> (bool \<times> 'w sys) option" where
  "deliver_loop 0 i topicName topicNameLen message s = Some (False, s)"
| "deliver_loop (Suc n) i topicName topicNameLen message s =
     (if i \<ge> length (sub_handles s) then None
      else case topic_filter (sub_handles s ! i) of
        None \<Rightarrow> deliver_loop n (Suc i) topicName topicNameLen message s
      | Some f \<Rightarrow> do {
          equal \<leftarrow> is_topic_equals topicName f;
          matched \<leftarrow> (if equal then Some True else is_topic_matched f topicName topicNameLen);
          if matched then do {
            s \<leftarrow> HAL_MutexUnlock lock_generic s;
            case message_handler (sub_handles s ! i) of
              Some h \<Rightarrow>
                Some (True, s\<lparr>calls := calls s @ [Message h message (message_handler_data (sub_handles s ! i))]\<rparr>)
            | None \<Rightarrow> deliver_loop n (Suc i) topicName topicNameLen message (HAL_MutexLock lock_generic s) }
          else deliver_loop n (Suc i) topicName topicNameLen message s })"

definition deliver_message :: "bytes \<Rightarrow> u16 \<Rightarrow> MQTTMessage \<Rightarrow> 'w sys \<Rightarrow> (int \<times> 'w sys) option" where
  "deliver_message topicName topicNameLen message s = do {
     let message = message\<lparr>topic := topicName, topic_len := ucast topicNameLen\<rparr>;
     let s = HAL_MutexLock lock_generic s;
     (done, s) \<leftarrow> deliver_loop MAX_SUB_TOPICS 0 topicName topicNameLen message s;
     if done then Some (SUCCESS_RET, s)
     else do {
       s \<leftarrow> HAL_MutexUnlock lock_generic s;
       Some (SUCCESS_RET, notify (EventMsg MQTT_EVENT_PUBLISH_RECEIVED message) s) } }"

section \<open>Handlers\<close>

definition handle_puback_packet :: "'w hal \<Rightarrow> 'w sys \<Rightarrow> (int \<times> 'w sys) option" where
  "handle_puback_packet hal s = do {
     r \<leftarrow> deserialize_ack_packet (read_buf s) (read_buf_size s);
     case r of
       Inl ret \<Rightarrow> Some (ret, s)
     | Inr (_, _, packet_id) \<Rightarrow> do {
         (_, s) \<leftarrow> mask_pubInfo_from hal packet_id s;
         Some (SUCCESS_RET, notify (EventId MQTT_EVENT_PUBLISH_SUCCESS packet_id) s) } }"

text \<open>
  The search of \<open>_handle_suback_packet\<close> through the handles: whether an identical one is stored, and
  the first free index seen until then.
\<close>

fun scan_sub_handles ::
  "SubTopicHandle \<Rightarrow> SubTopicHandle list \<Rightarrow> nat \<Rightarrow> nat option \<Rightarrow> bool \<times> nat option" where
  "scan_sub_handles sub_handle [] i i_free = (False, i_free)"
| "scan_sub_handles sub_handle (h # hs) i i_free =
     (if topic_filter h \<noteq> None
      then if check_handle_is_identical h sub_handle = 0 then (True, i_free)
           else scan_sub_handles sub_handle hs (Suc i) i_free
      else scan_sub_handles sub_handle hs (Suc i) (if i_free = None then Some i else i_free))"

definition handle_suback_packet :: "'w hal \<Rightarrow> 'w sys \<Rightarrow> (int \<times> 'w sys) option" where
  "handle_suback_packet hal s = do {
     r \<leftarrow> deserialize_suback_packet 1 [QOS0, QOS0, QOS0] (read_buf s) (read_buf_size s);
     case r of
       Inl ret \<Rightarrow> Some (ret, s)
     | Inr (packet_id, count, grantedQoS) \<Rightarrow>
         if unat count > length grantedQoS \<or> length (sub_handles s) < MAX_SUB_TOPICS then None
         else do {
           let sub_nack = (\<exists>q \<in> set (take (unat count) grantedQoS). u8_of_qos q = 0x80);
           let s = HAL_MutexLock lock_generic s;
           ((_, h), s) \<leftarrow> mask_sub_info_from hal packet_id (Some empty_handle) s;
           sub_handle \<leftarrow> h;
           if topic_filter sub_handle = None then do {
             s \<leftarrow> HAL_MutexUnlock lock_generic s;
             Some (ERR_MQTT_SUB_FAILED, s) }
           else if sub_nack then do {
             let s = notify (EventId MQTT_EVENT_SUBSCRIBE_NACK packet_id) s;
             s \<leftarrow> HAL_MutexUnlock lock_generic s;
             Some (ERR_MQTT_SUB_FAILED, s) }
           else do {
             let (flag_dup, i_free) = scan_sub_handles sub_handle (take MAX_SUB_TOPICS (sub_handles s)) 0 None;
             if \<not> flag_dup \<and> i_free = None then do {
               s \<leftarrow> HAL_MutexUnlock lock_generic s;
               Some (FAILURE_RET, s) }
             else do {
               let s = (if flag_dup then s else s\<lparr>sub_handles := (sub_handles s)[the i_free := sub_handle]\<rparr>);
               s \<leftarrow> HAL_MutexUnlock lock_generic s;
               Some (SUCCESS_RET, notify (EventId MQTT_EVENT_SUBSCRIBE_SUCCESS packet_id) s) } } } }"

text \<open>
  \<open>messageHandler\<close> is never initialised: when no waiting request has the packet identifier, the code
  frees a pointer it never wrote.
\<close>

definition handle_unsuback_packet :: "'w hal \<Rightarrow> 'w sys \<Rightarrow> (int \<times> 'w sys) option" where
  "handle_unsuback_packet hal s = do {
     r \<leftarrow> deserialize_unsuback_packet (read_buf s) (read_buf_size s);
     case r of
       Inl ret \<Rightarrow> Some (ret, s)
     | Inr packet_id \<Rightarrow> do {
         ((_, messageHandler), s) \<leftarrow> mask_sub_info_from hal packet_id None s;
         let s = HAL_MutexLock lock_generic s;
         _ \<leftarrow> messageHandler;
         let s = notify (EventId MQTT_EVENT_UNSUBSCRIBE_SUCCESS packet_id) s;
         s \<leftarrow> HAL_MutexUnlock lock_generic s;
         Some (SUCCESS_RET, s) } }"

text \<open>The acknowledgement both PUBLISH and PUBREC are answered with, sent under the write buffer's lock.\<close>

definition send_pub_ack ::
  "'w hal \<Rightarrow> nat \<Rightarrow> MessageTypes \<Rightarrow> u16 \<Rightarrow> Timer \<Rightarrow> 'w sys \<Rightarrow> (int \<times> 'w sys) option" where
  "send_pub_ack hal fuel type packet_id timer s = do {
     let s = HAL_MutexLock lock_write_buf s;
     r \<leftarrow> serialize_pub_ack_packet (write_buf s) (write_buf_size s) type 0 packet_id;
     case r of
       Inl ret \<Rightarrow> do {
         s \<leftarrow> HAL_MutexUnlock lock_write_buf s;
         Some (ret, s) }
     | Inr (b, l) \<Rightarrow> do {
         let s = s\<lparr>write_buf := b\<rparr>;
         (ret, s) \<leftarrow> send_mqtt_packet hal fuel l timer s;
         s \<leftarrow> HAL_MutexUnlock lock_write_buf s;
         Some (ret, s) } }"

text \<open>
  \<open>_handle_publish_packet\<close>; \<open>check_repeat\<close> tells whether \<open>MQTT_CHECK_REPEAT_MSG\<close> is defined.  The
  payload pointer refers to the rest of the read buffer.
\<close>

definition handle_publish_packet ::
  "bool \<Rightarrow> 'w hal \<Rightarrow> nat \<Rightarrow> Timer \<Rightarrow> 'w sys \<Rightarrow> (int \<times> 'w sys) option" where
  "handle_publish_packet check_repeat hal fuel timer s = do {
     r \<leftarrow> deserialize_publish_packet (read_buf s) (read_buf_size s);
     case r of
       Inl ret \<Rightarrow> Some (ret, s)
     | Inr f \<Rightarrow> do {
         let l = (if unat (pub_topic_len f) > MAX_SIZE_OF_CLOUD_TOPIC then of_nat (MAX_SIZE_OF_CLOUD_TOPIC - 1)
                  else pub_topic_len f);
         if pub_topic f + unat l > length (read_buf s) then None
         else do {
           fix_topic \<leftarrow> poke_bytes (replicate MAX_SIZE_OF_CLOUD_TOPIC 0) 0 (slice (read_buf s) (pub_topic f) (unat l));
           let msg = \<lparr> qos = pub_qos f, retained = pub_retained f, dup = pub_dup f, msg_ident = pub_packet_id f,
                       topic = [], topic_len = 0,
                       payload = Some (drop (pub_payload f) (read_buf s)), payload_len = pub_payload_len f \<rparr>;
           if pub_qos f = QOS0 then deliver_message fix_topic l msg s
           else do {
             packet_id \<leftarrow> msg_ident msg;
             (ret, s) \<leftarrow> (if check_repeat \<and> \<not> get_packet_id_in_repeat_buf packet_id s < 0 then Some (SUCCESS_RET, s)
                          else deliver_message fix_topic l msg s);
             if ret \<noteq> SUCCESS_RET then Some (ret, s)
             else do {
               s \<leftarrow> (if check_repeat then add_packet_id_to_repeat_buf packet_id s else Some s);
               send_pub_ack hal fuel (if pub_qos f = QOS1 then PUBACK else PUBREC) packet_id timer s } } } } }"

definition handle_pubrec_packet :: "'w hal \<Rightarrow> nat \<Rightarrow> Timer \<Rightarrow> 'w sys \<Rightarrow> (int \<times> 'w sys) option" where
  "handle_pubrec_packet hal fuel timer s = do {
     r \<leftarrow> deserialize_ack_packet (read_buf s) (read_buf_size s);
     case r of
       Inl ret \<Rightarrow> Some (ret, s)
     | Inr (_, _, packet_id) \<Rightarrow> send_pub_ack hal fuel PUBREL packet_id timer s }"

definition handle_pingresp_packet :: "'w hal \<Rightarrow> 'w sys \<Rightarrow> 'w sys option" where
  "handle_pingresp_packet hal s = do {
     let s = HAL_MutexLock lock_generic s;
     let s = s\<lparr>is_ping_outstanding := 0\<rparr>;
     let (t, s) = countdown hal (ucast (keep_alive_interval (options s))) s;
     let s = s\<lparr>ping_timer := t\<rparr>;
     HAL_MutexUnlock lock_generic s }"

section \<open>Dispatch\<close>

text \<open>The first \<open>switch\<close> of \<open>cycle_for_read\<close>; \<open>None\<close> inside the result is its \<open>default\<close>.\<close>

definition dispatch_packet ::
  "bool \<Rightarrow> 'w hal \<Rightarrow> nat \<Rightarrow> Timer \<Rightarrow> u8 \<Rightarrow> 'w sys \<Rightarrow> (int option \<times> 'w sys) option" where
  "dispatch_packet check_repeat hal fuel timer packet_type s =
     (if packet_type = msg_code CONNACK then Some (Some SUCCESS_RET, s)
      else if packet_type = msg_code PUBACK then map_option (apfst Some) (handle_puback_packet hal s)
      else if packet_type = msg_code SUBACK then map_option (apfst Some) (handle_suback_packet hal s)
      else if packet_type = msg_code UNSUBACK then map_option (apfst Some) (handle_unsuback_packet hal s)
      else if packet_type = msg_code PUBLISH
      then map_option (apfst Some) (handle_publish_packet check_repeat hal fuel timer s)
      else if packet_type = msg_code PUBREC then map_option (apfst Some) (handle_pubrec_packet hal fuel timer s)
      else if packet_type \<in> {msg_code PUBREL, msg_code PUBCOMP, msg_code PINGRESP} then Some (Some SUCCESS_RET, s)
      else Some (None, s))"

text \<open>
  The second \<open>switch\<close>, on the link state: acknowledgements count as an answer to a ping.
\<close>

definition note_link_alive :: "'w hal \<Rightarrow> u8 \<Rightarrow> 'w sys \<Rightarrow> 'w sys option" where
  "note_link_alive hal packet_type s =
     (if packet_type \<in> {msg_code PUBACK, msg_code SUBACK, msg_code UNSUBACK, msg_code PINGRESP}
      then handle_pingresp_packet hal s
      else if packet_type = msg_code PUBLISH
      then HAL_MutexUnlock lock_generic ((HAL_MutexLock lock_generic s)\<lparr>is_ping_outstanding := 0\<rparr>)
      else Some s)"

text \<open>\<open>packet_type\<close> is what \<open>*packet_type\<close> holds before (\<open>None\<close>: never written) and after.\<close>

definition cycle_for_read ::
  "bool \<Rightarrow> 'w hal \<Rightarrow> nat \<Rightarrow> Timer \<Rightarrow> u8 option \<Rightarrow> 'w sys \<Rightarrow> ((int \<times> u8 option) \<times> 'w sys) option" where
  "cycle_for_read check_repeat hal fuel timer packet_type s = do {
     ((ret, type), s) \<leftarrow> read_mqtt_packet hal fuel timer s;
     let packet_type = (if type = None then packet_type else type);
     if ret = ERR_MQTT_NOTHING_TO_READ then Some ((SUCCESS_RET, packet_type), s)
     else if ret \<noteq> SUCCESS_RET then Some ((ret, packet_type), s)
     else do {
       t \<leftarrow> packet_type;
       (ret, s) \<leftarrow> dispatch_packet check_repeat hal fuel timer t s;
       case ret of
         None \<Rightarrow> Some ((ERR_MQTT_RX_MESSAGE_PACKET_TYPE_INVALID, packet_type), s)
       | Some ret \<Rightarrow> do {
           s \<leftarrow> note_link_alive hal t s;
           Some ((ret, packet_type), s) } } }"

primrec wait_for_read_loop ::
  "bool \<Rightarrow> 'w hal \<Rightarrow> nat \<Rightarrow> nat \<Rightarrow> u8 \<Rightarrow> Timer \<Rightarrow> u8 option \<Rightarrow> 'w sys \<Rightarrow> (int \<times> 'w sys) option" where
  "wait_for_read_loop check_repeat hal fuel 0 packet_type timer read_packet_type s = None"
| "wait_for_read_loop check_repeat hal fuel (Suc n) packet_type timer read_packet_type s = do {
     let (expired, s) = has_expired hal timer s;
     if expired then Some (ERR_MQTT_REQUEST_TIMEOUT, s)
     else do {
       ((ret, read_packet_type), s) \<leftarrow> cycle_for_read check_repeat hal fuel timer read_packet_type s;
       if ret = SUCCESS_RET \<and> read_packet_type \<noteq> Some packet_type
       then wait_for_read_loop check_repeat hal fuel n packet_type timer read_packet_type s
       else Some (ret, s) } }"

definition wait_for_read ::
  "bool \<Rightarrow> 'w hal \<Rightarrow> nat \<Rightarrow> u8 \<Rightarrow> Timer \<Rightarrow> 'w sys \<Rightarrow> (int \<times> 'w sys) option" where
  "wait_for_read check_repeat hal fuel packet_type timer s =
     wait_for_read_loop check_repeat hal fuel fuel packet_type timer (Some 0) s"

section \<open>What the operations keep\<close>

lemma keeps_upd [simp]:
  "keeps s (s'\<lparr>os := w\<rparr>) = keeps s s'"
  "keeps s (s'\<lparr>calls := c\<rparr>) = keeps s s'"
  "keeps s (s'\<lparr>is_connected := b\<rparr>) = keeps s s'"
  "keeps s (s'\<lparr>was_manually_disconnected := b\<rparr>) = keeps s s'"
  "keeps s (s'\<lparr>is_ping_outstanding := b\<rparr>) = keeps s s'"
  "keeps s (s'\<lparr>current_reconnect_wait_interval := n\<rparr>) = keeps s s'"
  "keeps s (s'\<lparr>counter_network_disconnected := n\<rparr>) = keeps s s'"
  "keeps s (s'\<lparr>ping_timer := t\<rparr>) = keeps s s'"
  "keeps s (s'\<lparr>reconnect_delay_timer := t\<rparr>) = keeps s s'"
  "keeps s (s'\<lparr>options := opt\<rparr>) = keeps s s'"
  "keeps s (notify e s') = keeps s s'"
  by (simp_all add: keeps_def notify_def)

text \<open>A section under a mutex keeps what its body keeps.\<close>

lemma keeps_locked:
  "keeps (HAL_MutexLock m s) s' \<Longrightarrow> HAL_MutexUnlock m s' = Some (s'\<lparr>held := held s\<rparr>)"
  by (simp add: keeps_def HAL_MutexLock_def HAL_MutexUnlock_def)

lemma keeps_unlocked: "keeps (HAL_MutexLock m s) s' \<Longrightarrow> keeps s (s'\<lparr>held := held s\<rparr>)"
  by (simp add: keeps_def HAL_MutexLock_def)

lemma keeps_write_buf: "keeps s s' \<Longrightarrow> length b = length (write_buf s') \<Longrightarrow> keeps s (s'\<lparr>write_buf := b\<rparr>)"
  by (simp add: keeps_def client_inv_def)

lemma keeps_sub_handles: "keeps s s' \<Longrightarrow> length hs = length (sub_handles s') \<Longrightarrow> keeps s (s'\<lparr>sub_handles := hs\<rparr>)"
  by (simp add: keeps_def client_inv_def)

lemma ensures_unlock:
  "keeps (HAL_MutexLock m s) s' \<Longrightarrow> (keeps s (s'\<lparr>held := held s\<rparr>) \<Longrightarrow> ensures (f (s'\<lparr>held := held s\<rparr>)) Q)
    \<Longrightarrow> ensures (HAL_MutexUnlock m s' \<bind> f) Q"
  by (simp add: keeps_locked keeps_unlocked)

lemma keeps_clock:
  "has_expired hal t s' = (b, s'') \<Longrightarrow> keeps s s' \<Longrightarrow> keeps s s''"
  "left_ms hal t s' = (n, s'') \<Longrightarrow> keeps s s' \<Longrightarrow> keeps s s''"
  "wait_ms hal t s' = (n, s'') \<Longrightarrow> keeps s s' \<Longrightarrow> keeps s s''"
  "countdown_ms hal ms s' = (tm, s'') \<Longrightarrow> keeps s s' \<Longrightarrow> keeps s s''"
  "countdown hal ms s' = (tm, s'') \<Longrightarrow> keeps s s' \<Longrightarrow> keeps s s''"
  "malloc hal k s' = (b, s'') \<Longrightarrow> keeps s s' \<Longrightarrow> keeps s s''"
  by (blast dest: clock_frames os_frame_keeps intro: keeps_trans)+

section \<open>Frames of the transport\<close>

lemma send_loop_frame: "ensures (send_loop hal fuel l timer sent s) (\<lambda>x. os_frame s (snd x))"
proof (induction fuel arbitrary: sent s)
  case (Suc fuel)
  have "ensures (send_loop hal fuel l timer sent' (s\<lparr>os := w\<rparr>)) (\<lambda>x. os_frame s (snd x))" for sent' w
    using Suc.IH [of sent' "s\<lparr>os := w\<rparr>"] by simp
  then show ?case
    by (auto simp: has_expired_def left_ms_def Let_def split: prod.splits)
qed simp

lemma send_mqtt_packet_frame: "ensures (send_mqtt_packet hal fuel l timer s) (\<lambda>x. os_frame s (snd x))"
  using send_loop_frame [of hal fuel l timer 0 s]
  by (auto simp: send_mqtt_packet_def ensures_def bind_Some_iff split: if_splits)

lemma read_into_frame: "ensures (read_into hal p n t s) (\<lambda>x. rx_frame s (snd x))"
  by (auto simp: read_into_def ensures_def bind_Some_iff Let_def length_poke_bytes split: prod.splits)

lemma decode_net_frame: "ensures (decode_packet_rem_len_with_net_read hal k m v t s) (\<lambda>x. os_frame s (snd x))"
proof (induction "4 - k" arbitrary: k m v s)
  case 0
  then show ?case by (subst decode_packet_rem_len_with_net_read.simps) simp
next
  case (Suc j)
  have "j = 4 - Suc k" using Suc.hyps(2) by simp
  have "ensures (decode_packet_rem_len_with_net_read hal (Suc k) m' v' t (s\<lparr>os := w\<rparr>)) (\<lambda>x. os_frame s (snd x))"
    for m' v' w
    using Suc.hyps(1) [OF \<open>j = 4 - Suc k\<close>, of m' v' "s\<lparr>os := w\<rparr>"] by simp
  then show ?case
    by (subst decode_packet_rem_len_with_net_read.simps)
      (auto simp: Let_def split: prod.splits list.splits)
qed

lemma drain_loop_frame: "ensures (drain_loop hal fuel rem_len tot n t s) (rx_frame s)"
proof (induction fuel arbitrary: tot n s)
  case (Suc fuel)
  show ?case
    unfolding drain_loop.simps
  proof (rule ensures_bindI [OF read_into_frame])
    fix x :: "int \<times> 'a sys" assume x: "rx_frame s (snd x)"
    have "ensures (drain_loop hal fuel rem_len tot' n' t (snd x)) (rx_frame s)" for tot' n'
      by (rule ensures_mono [OF Suc.IH]) (rule rx_frame_trans [OF x])
    with x show "ensures (case x of (read_len, s) \<Rightarrow> let (total_bytes_read, bytes_to_be_read) =
       (if read_len > 0 then
          let total_bytes_read = tot + of_int read_len
          in (total_bytes_read, if rem_len - total_bytes_read \<ge> read_buf_size s then read_buf_size s else rem_len - total_bytes_read)
        else (tot, n)) in
     if total_bytes_read < rem_len \<and> read_len > 0
     then drain_loop hal fuel rem_len total_bytes_read bytes_to_be_read t s
     else Some s) (rx_frame s)"
      by (cases x) (simp add: Let_def)
  qed
qed simp

lemma wait_read_frame:
  "ensures (case wait_ms hal timer s of (t, s) \<Rightarrow> read_into hal p n (t + k) s) (\<lambda>x. rx_frame s (snd x))"
  using read_into_frame clock_frames(3)
  by (fastforce split: prod.splits simp: ensures_def elim: os_frameE)

lemma read_packet_body_frame: "ensures (read_packet_body hal fuel timer rem_len s) (\<lambda>x. rx_frame s (snd x))"
proof (cases "rem_len \<ge> read_buf_size s")
  case True
  then show ?thesis
    using clock_frames(3) [of hal timer s] drain_loop_frame
    by (fastforce simp: read_packet_body_def ensures_def bind_Some_iff split: prod.splits elim: os_frameE)
next
  case False
  show ?thesis
  proof (cases "mqtt_write_packet_rem_len rem_len (read_buf s, 1)")
    case None
    with False show ?thesis by (simp add: read_packet_body_def)
  next
    case (Some bl)
    obtain b l where bl: "bl = (b, l)" by (cases bl)
    from Some have lb: "length b = length (read_buf s)"
      by (auto simp: bl mem_simps write_bytes_eq_Some_iff)
    let ?s = "s\<lparr>read_buf := b\<rparr>"
    have fr: "rx_frame s s'" if "rx_frame ?s s'" for s'
      using that lb rx_frame_trans [of s ?s s'] by simp
    have rd: "ensures (case wait_ms hal timer ?s of (t, s) \<Rightarrow> read_into hal p n (t + k) s) (\<lambda>x. rx_frame s (snd x))" for p n k
      by (rule ensures_mono [OF wait_read_frame]) (rule fr)
    show ?thesis
      using False Some bl rd [of 0 rem_len 2000] rd [of l rem_len 2000] fr [of ?s]
      by (auto simp: read_packet_body_def ensures_def bind_Some_iff Let_def split: prod.splits if_splits)
  qed
qed

lemma read_mqtt_packet_frame: "ensures (read_mqtt_packet hal fuel timer s) (\<lambda>x. rx_frame s (snd x))"
  unfolding read_mqtt_packet_def Let_def
proof (cases "wait_ms hal timer s")
  case (Pair t s1)
  from clock_frames(3) [OF Pair] obtain w1 where s1: "s1 = s\<lparr>os := w1\<rparr>" by (rule os_frameE)
  have body: "ensures (read_packet_body hal fuel timer n s') (\<lambda>x. rx_frame s (snd x))" if "rx_frame s s'" for n s'
    by (rule ensures_mono [OF read_packet_body_frame]) (rule rx_frame_trans [OF that])
  have dec: "ensures (decode_packet_rem_len_with_net_read hal 0 1 0 k s') (\<lambda>x. rx_frame s (snd x))" if "rx_frame s s'" for k s'
    by (rule ensures_mono [OF decode_net_frame]) (rule rx_frame_trans [OF that os_rx_frame])
  show "ensures (case wait_ms hal timer s of (t, s) \<Rightarrow> read_into hal 0 1 t s \<bind> (\<lambda>(read_len, s).
        if read_len < 0 then Some ((read_len, None), s)
        else if read_len = 0 then Some ((ERR_MQTT_NOTHING_TO_READ, None), s)
        else case wait_ms hal timer s of (t, s) \<Rightarrow>
          decode_packet_rem_len_with_net_read hal 0 1 0 (t + UIOT_MQTT_MAX_REMAIN_WAIT_MS) s \<bind> (\<lambda>(r, s).
          case r of Inl ret \<Rightarrow> Some ((ret, None), s) | Inr rem_len \<Rightarrow> read_packet_body hal fuel timer rem_len s)))
     (\<lambda>x. rx_frame s (snd x))"
    unfolding Pair prod.case
  proof (rule ensures_bindI [OF read_into_frame], clarsimp split del: if_split)
    fix r s2 assume "rx_frame s1 s2"
    then have f2: "rx_frame s s2" by (simp add: s1)
    obtain t2 s3 where w3: "wait_ms hal timer s2 = (t2, s3)" by fastforce
    from clock_frames(3) [OF w3] f2 have f3: "rx_frame s s3" by (blast intro: rx_frame_trans os_rx_frame)
    have "ensures (decode_packet_rem_len_with_net_read hal 0 1 0 (t2 + 2000) s3 \<bind> (\<lambda>(r, s).
          case r of Inl ret \<Rightarrow> Some ((ret, None), s) | Inr rem_len \<Rightarrow> read_packet_body hal fuel timer rem_len s))
        (\<lambda>x. rx_frame s (snd x))"
      by (rule ensures_bindI [OF dec [OF f3]]) (auto split: prod.splits sum.splits intro: body)
    with f2 w3 show "ensures (if r < 0 then Some ((r, None), s2)
        else if r = 0 then Some ((ERR_MQTT_NOTHING_TO_READ, None), s2)
        else case wait_ms hal timer s2 of (t, s) \<Rightarrow>
          decode_packet_rem_len_with_net_read hal 0 1 0 (t + UIOT_MQTT_MAX_REMAIN_WAIT_MS) s \<bind> (\<lambda>(r, s).
          case r of Inl ret \<Rightarrow> Some ((ret, None), s) | Inr rem_len \<Rightarrow> read_packet_body hal fuel timer rem_len s))
        (\<lambda>x. rx_frame s (snd x))" by simp
  qed
qed

section \<open>Delivery as a search\<close>

text \<open>Whether a handle takes the topic, and the first handle that takes it and has a message handler.\<close>

definition handle_takes :: "bytes \<Rightarrow> u16 \<Rightarrow> SubTopicHandle \<Rightarrow> bool option" where
  "handle_takes topicName topicNameLen h =
     (case topic_filter h of
        None \<Rightarrow> Some False
      | Some f \<Rightarrow> do {
          equal \<leftarrow> is_topic_equals topicName f;
          if equal then Some True else is_topic_matched f topicName topicNameLen })"

fun pick_handle :: "bytes \<Rightarrow> u16 \<Rightarrow> SubTopicHandle list \<Rightarrow> SubTopicHandle option option" where
  "pick_handle topicName l [] = Some None"
| "pick_handle topicName l (h # hs) = do {
     takes \<leftarrow> handle_takes topicName l h;
     if takes \<and> message_handler h \<noteq> None then Some (Some h) else pick_handle topicName l hs }"

definition deliver_to :: "MQTTMessage \<Rightarrow> SubTopicHandle option \<Rightarrow> 'w sys \<Rightarrow> 'w sys" where
  "deliver_to message r s = (case r of
      None \<Rightarrow> notify (EventMsg MQTT_EVENT_PUBLISH_RECEIVED message) s
    | Some h \<Rightarrow> s\<lparr>calls := calls s @ [Message (the (message_handler h)) message (message_handler_data h)]\<rparr>)"

lemma sub_handles_lock [simp]: "sub_handles (HAL_MutexLock m s) = sub_handles s"
  by (simp add: HAL_MutexLock_def)

lemma deliver_loop_eq:
  "i + n \<le> length (sub_handles s) \<Longrightarrow>
   deliver_loop n i topicName l message (HAL_MutexLock lock_generic s) =
     map_option (\<lambda>r. case r of None \<Rightarrow> (False, HAL_MutexLock lock_generic s) | Some _ \<Rightarrow> (True, deliver_to message r s))
       (pick_handle topicName l (take n (drop i (sub_handles s))))"
proof (induction n arbitrary: i)
  case (Suc n)
  then have i: "i < length (sub_handles s)" by simp
  then have "take (Suc n) (drop i (sub_handles s)) = sub_handles s ! i # take n (drop (Suc i) (sub_handles s))"
    by (simp add: Cons_nth_drop_Suc [symmetric])
  with Suc i show ?case
    by (cases "topic_filter (sub_handles s ! i)"; cases "message_handler (sub_handles s ! i)")
      (auto simp: handle_takes_def deliver_to_def map_option_bind comp_def intro!: Option.bind_cong [OF refl])
qed simp

lemma deliver_message_eq:
  assumes "MAX_SUB_TOPICS \<le> length (sub_handles s)"
  shows "deliver_message topicName l message s =
    map_option (\<lambda>r. (SUCCESS_RET, deliver_to (message\<lparr>topic := topicName, topic_len := ucast l\<rparr>) r s))
      (pick_handle topicName l (take MAX_SUB_TOPICS (sub_handles s)))"
  using deliver_loop_eq [of 0 MAX_SUB_TOPICS s topicName l "message\<lparr>topic := topicName, topic_len := ucast l\<rparr>"] assms
  by (cases "pick_handle topicName l (take MAX_SUB_TOPICS (sub_handles s))")
    (auto simp: deliver_message_def Let_def deliver_to_def split: option.splits)

section \<open>The handlers keep the invariant\<close>

text \<open>
  The collection \<open>keeps_dest\<close> holds, for every operation, that its result keeps the invariant and the
  mutexes; \<open>state_simps\<close> evaluates locks and updates under \<open>client_inv\<close> and \<open>held\<close>.
\<close>

named_theorems keeps_dest \<open>operations keep the invariant and the mutexes\<close>
named_theorems state_simps \<open>evaluation of locks and of the monad\<close>

lemmas [state_simps] = Let_def

lemma bind_SomeE: "(m \<bind> f) = Some r \<Longrightarrow> (\<And>x. m = Some x \<Longrightarrow> f x = Some r \<Longrightarrow> P) \<Longrightarrow> P"
  by (cases m) auto

lemma unlock_iff [state_simps]:
  "HAL_MutexUnlock m s = Some s' \<longleftrightarrow> held s m \<noteq> 0 \<and> s' = s\<lparr>held := (held s)(m := held s m - 1)\<rparr>"
  by (auto simp: HAL_MutexUnlock_def)

lemma lock_simps [simp]:
  "held (HAL_MutexLock m s) = (held s)(m := Suc (held s m))"
  "client_inv (HAL_MutexLock m s) = client_inv s"
  "write_buf (HAL_MutexLock m s) = write_buf s" "write_buf_size (HAL_MutexLock m s) = write_buf_size s"
  "command_timeout_ms (HAL_MutexLock m s) = command_timeout_ms s"
  by (simp_all add: HAL_MutexLock_def)

lemma client_inv_write_buf [simp]:
  "length b = length (write_buf s) \<Longrightarrow> client_inv (s\<lparr>write_buf := b\<rparr>) = client_inv s"
  by (simp add: client_inv_def)

lemma client_inv_sub_handles [simp]:
  "length hs = length (sub_handles s) \<Longrightarrow> client_inv (s\<lparr>sub_handles := hs\<rparr>) = client_inv s"
  by (simp add: client_inv_def)

lemma clock_keeps [keeps_dest]:
  "has_expired hal t s = (b, s') \<Longrightarrow> keeps s s'"
  "left_ms hal t s = (n, s') \<Longrightarrow> keeps s s'"
  "wait_ms hal t s = (n, s') \<Longrightarrow> keeps s s'"
  "countdown_ms hal ms s = (tm, s') \<Longrightarrow> keeps s s'"
  "countdown hal ms s = (tm, s') \<Longrightarrow> keeps s s'"
  "malloc hal k s = (b, s') \<Longrightarrow> keeps s s'"
  by (blast dest: clock_frames os_frame_keeps)+

lemma deliver_message_keeps [keeps_dest]:
  assumes "deliver_message topicName l message s = Some (r, s')"
  shows "client_inv s \<Longrightarrow> keeps s s'"
proof -
  assume "client_inv s"
  then have "10 \<le> length (sub_handles s)" by (simp add: client_inv_def)
  with assms show ?thesis by (auto simp: deliver_message_eq deliver_to_def split: option.splits)
qed

lemma send_keeps [keeps_dest]: "send_mqtt_packet hal fuel l timer s = Some (r, s') \<Longrightarrow> keeps s s'"
  using send_mqtt_packet_frame [of hal fuel l timer s] os_frame_keeps by (auto simp: ensures_def)

lemma read_keeps [keeps_dest]: "read_mqtt_packet hal fuel timer s = Some (r, s') \<Longrightarrow> keeps s s'"
  using read_mqtt_packet_frame [of hal fuel timer s] rx_frame_keeps by (auto simp: ensures_def)

lemma mask_pub_keeps [keeps_dest]: "mask_pubInfo_from hal i s = Some (r, s') \<Longrightarrow> keeps s s'"
  using mask_pubInfo_from_returns [of hal i s] by (auto simp: returns_def)

lemma mask_sub_keeps [keeps_dest]:
  "mask_sub_info_from hal i h s = Some (r, s') \<Longrightarrow> keeps s s' \<and> sub_handles s' = sub_handles s"
  using mask_sub_info_from_returns [of hal i h s] by (auto simp: returns_def)

lemma add_packet_id_keeps [keeps_dest]: "add_packet_id_to_repeat_buf i s = Some s' \<Longrightarrow> client_inv s \<Longrightarrow> keeps s s'"
  using add_packet_id_returns [of s i] by (auto simp: returns_def keeps_def)

lemma notify_sel [simp]: "sub_handles (notify c s) = sub_handles s"
  by (simp add: notify_def)

lemma handle_puback_keeps [keeps_dest]: "handle_puback_packet hal s = Some (r, s') \<Longrightarrow> keeps s s'"
  by (auto simp: handle_puback_packet_def state_simps split: sum.split_asm prod.split_asm elim!: bind_SomeE dest!: keeps_dest)

lemma handle_suback_keeps [keeps_dest]: "handle_suback_packet hal s = Some (r, s') \<Longrightarrow> keeps s s'"
  by (auto simp: handle_suback_packet_def state_simps keeps_def split: sum.split_asm prod.split_asm if_split_asm elim!: bind_SomeE dest!: keeps_dest)

lemma handle_unsuback_keeps [keeps_dest]: "handle_unsuback_packet hal s = Some (r, s') \<Longrightarrow> keeps s s'"
  by (auto simp: handle_unsuback_packet_def state_simps keeps_def split: sum.split_asm prod.split_asm elim!: bind_SomeE dest!: keeps_dest)

lemma pub_ack_length:
  "serialize_pub_ack_packet buf n t d i = Some (Inr (b, l)) \<Longrightarrow> length b = length buf"
  by (auto simp: serialize_pub_ack_packet_def Let_def bind_Some_iff mem_simps write_bytes_eq_Some_iff
      split: if_splits sum.splits)

lemma send_pub_ack_keeps [keeps_dest]: "send_pub_ack hal fuel t i timer s = Some (r, s') \<Longrightarrow> keeps s s'"
  by (auto simp: send_pub_ack_def state_simps keeps_def pub_ack_length split: sum.split_asm prod.split_asm elim!: bind_SomeE dest!: keeps_dest)


lemma handle_publish_keeps [keeps_dest]:
  "handle_publish_packet cr hal fuel timer s = Some (r, s') \<Longrightarrow> client_inv s \<Longrightarrow> keeps s s'"
  by (auto simp: handle_publish_packet_def state_simps keeps_def
      split: sum.split_asm prod.split_asm if_split_asm elim!: bind_SomeE dest!: keeps_dest)

lemma handle_pubrec_keeps [keeps_dest]: "handle_pubrec_packet hal fuel timer s = Some (r, s') \<Longrightarrow> keeps s s'"
  by (auto simp: handle_pubrec_packet_def state_simps split: sum.split_asm prod.split_asm elim!: bind_SomeE dest!: keeps_dest)

lemma handle_pingresp_keeps [keeps_dest]: "handle_pingresp_packet hal s = Some s' \<Longrightarrow> keeps s s'"
  by (auto simp: handle_pingresp_packet_def state_simps keeps_def split: prod.split_asm elim!: bind_SomeE dest!: keeps_dest)

lemma dispatch_keeps [keeps_dest]:
  "dispatch_packet cr hal fuel timer t s = Some (r, s') \<Longrightarrow> client_inv s \<Longrightarrow> keeps s s'"
  by (auto simp: dispatch_packet_def split: if_split_asm dest!: keeps_dest)

lemma note_link_alive_keeps [keeps_dest]: "note_link_alive hal t s = Some s' \<Longrightarrow> keeps s s'"
  by (auto simp: note_link_alive_def state_simps keeps_def split: if_split_asm dest!: keeps_dest)

lemma cycle_for_read_keeps [keeps_dest]:
  "cycle_for_read cr hal fuel timer pt s = Some (r, s') \<Longrightarrow> client_inv s \<Longrightarrow> keeps s s'"
  by (auto simp: cycle_for_read_def state_simps keeps_def
      split: prod.split_asm option.split_asm if_split_asm elim!: bind_SomeE dest!: keeps_dest)

lemma wait_for_read_loop_keeps:
  "wait_for_read_loop cr hal fuel n p timer t s = Some (r, s') \<Longrightarrow> client_inv s \<Longrightarrow> keeps s s'"
proof (induction n arbitrary: t s)
  case (Suc n)
  from Suc.prems show ?case
    by (auto simp: state_simps keeps_def split: prod.split_asm if_split_asm elim!: bind_SomeE
        dest!: keeps_dest Suc.IH)
qed simp

lemma wait_for_read_keeps [keeps_dest]:
  "wait_for_read cr hal fuel p timer s = Some (r, s') \<Longrightarrow> client_inv s \<Longrightarrow> keeps s s'"
  by (auto simp: wait_for_read_def intro: wait_for_read_loop_keeps)

section \<open>Which handle takes a topic\<close>

text \<open>The topic as \<open>_handle_publish_packet\<close> leaves it: the name, then zeros up to 128 bytes.\<close>

definition fixed_topic :: "cstr \<Rightarrow> bytes" where
  "fixed_topic name = name @ replicate (MAX_SIZE_OF_CLOUD_TOPIC - length name) 0"

lemma buf_strlen_append: "0 \<notin> set xs \<Longrightarrow> buf_strlen (xs @ 0 # ys) = Some (length xs)"
  by (induction xs) auto

lemma fixed_topic_ex: "length name < MAX_SIZE_OF_CLOUD_TOPIC \<Longrightarrow> \<exists>zs. fixed_topic name = name @ 0 # zs"
  by (cases "MAX_SIZE_OF_CLOUD_TOPIC - length name") (auto simp: fixed_topic_def)

lemma is_topic_equals_fixed:
  assumes "length name < MAX_SIZE_OF_CLOUD_TOPIC" and "0 \<notin> set name"
  shows "is_topic_equals (fixed_topic name) f = Some (f = name)"
  using fixed_topic_ex [OF assms(1)] buf_strlen_append [OF assms(2)] by (auto simp: is_topic_equals_def)

lemma levels_match_refl: "levels_match ls ls"
  by (induction ls) auto

text \<open>What the protocol says of a handle with a well-formed filter.\<close>

definition subscribed :: "cstr \<Rightarrow> SubTopicHandle \<Rightarrow> bool" where
  "subscribed name h = (case topic_filter h of None \<Rightarrow> False | Some f \<Rightarrow> topic_spec f name)"

definition plain_filters :: "SubTopicHandle list \<Rightarrow> bool" where
  "plain_filters hs = list_all (\<lambda>h. case topic_filter h of None \<Rightarrow> True | Some f \<Rightarrow> valid_filter f \<and> HASH \<notin> set f) hs"

lemma handle_takes_subscribed:
  assumes "length name < MAX_SIZE_OF_CLOUD_TOPIC" and "0 \<notin> set name" and "name \<noteq> []" and "last name \<noteq> SLASH"
    and "plain_filters [h]"
  shows "handle_takes (fixed_topic name) (of_nat (length name)) h = Some (subscribed name h)"
proof (cases "topic_filter h")
  case (Some f)
  with assms(5) have f: "valid_filter f" "HASH \<notin> set f" by (simp_all add: plain_filters_def)
  have n: "unat (of_nat (length name) :: u16) = length name" using assms(1) by simp
  have "agrees f name (topic_spec f name)" using match_rest_agrees [of f] f(1) assms(3,4) by blast
  then have "rest_ok (match_rest f name) = topic_spec f name" using f(2) by (auto simp: agrees_def hash_free_def)
  then have "is_topic_matched f (fixed_topic name) (of_nat (length name)) = Some (topic_spec f name)"
    using is_topic_matched_rest [of "of_nat (length name)" "fixed_topic name" name f] n assms(3,4)
    by (simp add: fixed_topic_def)
  moreover have "topic_spec name name" by (simp add: topic_spec_def levels_match_refl)
  ultimately show ?thesis
    using Some is_topic_equals_fixed [OF assms(1,2)] by (auto simp: handle_takes_def subscribed_def)
qed (simp add: handle_takes_def subscribed_def)

lemma pick_handle_subscribed:
  assumes "length name < MAX_SIZE_OF_CLOUD_TOPIC" and "0 \<notin> set name" and "name \<noteq> []" and "last name \<noteq> SLASH"
    and "plain_filters hs"
  shows "pick_handle (fixed_topic name) (of_nat (length name)) hs =
    Some (find (\<lambda>h. subscribed name h \<and> message_handler h \<noteq> None) hs)"
  using assms(5)
proof (induction hs)
  case (Cons h hs)
  then have "plain_filters [h]" "plain_filters hs" by (simp_all add: plain_filters_def)
  with Cons.IH handle_takes_subscribed [OF assms(1-4)] show ?case by auto
qed simp

section \<open>Properties\<close>



definition demo_handles :: "SubTopicHandle list" where
  "demo_handles =
     \<lparr> topic_filter = Some (str ''a/+''), message_handler = None, message_handler_data = 0, sub_qos = QOS0 \<rparr>
   # \<lparr> topic_filter = Some (str ''a/+/c''), message_handler = Some 5, message_handler_data = 9, sub_qos = QOS1 \<rparr>
   # replicate 8 empty_handle"

definition demo_message :: MQTTMessage where
  "demo_message = \<lparr> qos = QOS1, retained = 0, dup = 0, msg_ident = Some 7, topic = [], topic_len = 0,
     payload = Some [1, 2], payload_len = 2 \<rparr>"


text \<open>Access to the parts of a packet in the read buffer, for a four-byte acknowledgement and for SUBACK.\<close>

lemma client_inv_sizes:
  "client_inv s \<Longrightarrow> read_buf_size s = 2048" "client_inv s \<Longrightarrow> length (read_buf s) = 2048"
  "client_inv s \<Longrightarrow> write_buf_size s = 2048" "client_inv s \<Longrightarrow> length (write_buf s) = 2048"
  "client_inv s \<Longrightarrow> length (sub_handles s) = 10"
  by (simp_all add: client_inv_def)

section \<open>SUBACK\<close>

lemma u8_of_qos_of_u8 [simp]: "u8_of_qos (qos_of_u8 b) = b"
  by (simp add: qos_of_u8_def)

lemma deserialize_suback_of_packet:
  assumes "5 \<le> buf_len" and "header_type h = msg_code SUBACK"
  shows "deserialize_suback_packet 1 [QOS0, QOS0, QOS0] (mqtt_packet h (uint16_bytes i @ [q]) @ rest) buf_len =
    Some (Inr (i, 1, [qos_of_u8 q, QOS0, QOS0]))"
proof -
  let ?b = "mqtt_packet h (uint16_bytes i @ [q]) @ rest"
  have e: "rem_len_bytes 3 = [3]" "rem_len_bytes (Suc (Suc (Suc 0))) = [3]" by (simp_all add: rem_len_bytes.simps)
  have "?b = [h, 3] @ uint16_bytes i @ q # rest" by (simp add: mqtt_packet_def e)
  from read_uint16_at [OF this, of 2] have r: "mqtt_read_uint16_t ?b (Suc (Suc 0)) = Some (i, Suc (Suc (Suc (Suc 0))))"
    by (simp add: eval_nat_numeral)
  have c: "mqtt_read_char ?b (Suc (Suc (Suc (Suc 0)))) = Some (q, Suc (Suc (Suc (Suc (Suc 0)))))"
    by (simp add: mqtt_packet_def mqtt_read_char_def e uint16_bytes_def)
  show ?thesis
    using assms r c read_rem_len_of_packet [of "uint16_bytes i @ [q]" h rest]
    by (simp add: deserialize_suback_packet_def read_header_of_packet not_less Let_def e)
qed

text \<open>What the search through the handles finds.\<close>

definition identical_to :: "SubTopicHandle \<Rightarrow> SubTopicHandle \<Rightarrow> bool" where
  "identical_to h x \<longleftrightarrow> topic_filter x \<noteq> None \<and> topic_filter x = topic_filter h \<and> message_handler x = message_handler h"

lemma scan_sub_handles_dup:
  "fst (scan_sub_handles h hs i fr) \<longleftrightarrow> (\<exists>x\<in>set hs. identical_to h x)"
proof (induction hs arbitrary: i fr)
  case (Cons x hs)
  then show ?case by (cases "topic_filter x") (auto simp: identical_to_def check_handle_is_identical_def)
qed simp

lemma scan_sub_handles_free:
  assumes "\<not> fst (scan_sub_handles h hs i fr)"
  shows "snd (scan_sub_handles h hs i fr) =
    (if fr \<noteq> None then fr
     else if \<exists>x\<in>set hs. topic_filter x = None then Some (i + length (takeWhile (\<lambda>x. topic_filter x \<noteq> None) hs)) else None)"
  using assms
proof (induction hs arbitrary: i fr)
  case (Cons x hs)
  then show ?case by (cases "topic_filter x") (auto split: if_splits)
qed simp

lemma last_match_handler_unique:
  assumes "filter (\<lambda>x. sub_msg_id (snd x) = i) xs = [(a, info)]"
  shows "last_match_handler i (rev xs) h = Some (sub_handler info)"
proof -
  have "last_match_handler i ys h = (case filter (\<lambda>x. sub_msg_id (snd x) = i) ys of
      [] \<Rightarrow> h | zs \<Rightarrow> Some (sub_handler (snd (last zs))))" for ys h
    by (induction ys arbitrary: h) (auto split: list.splits)
  then show ?thesis using assms by (simp add: rev_filter [symmetric])
qed

lemma mask_sub_info_from_unique:
  assumes "filter (\<lambda>x. sub_msg_id (snd x) = i) (list_sub_wait_ack s) = [(a, info)]"
    and "\<And>n w. fst (HAL_Malloc hal n w)"
  shows "\<exists>w. mask_sub_info_from hal i h s = Some ((SUCCESS_RET, Some (sub_handler info)),
    s\<lparr>os := w, list_sub_wait_ack := map (mask_sub i) (list_sub_wait_ack s)\<rparr>)"
proof -
  have "list_sub_wait_ack s \<noteq> []" using assms(1) by auto
  moreover obtain w where "HAL_Malloc hal sizeof_ListIterator (os s) = (True, w)"
    using assms(2) [of sizeof_ListIterator "os s"] by (cases "HAL_Malloc hal sizeof_ListIterator (os s)") simp
  ultimately show ?thesis
    using last_match_handler_unique [OF assms(1), of h]
    by (auto simp: mask_sub_info_from_eq malloc_def)
qed

definition first_free :: "SubTopicHandle list \<Rightarrow> nat" where
  "first_free hs = length (takeWhile (\<lambda>h. topic_filter h \<noteq> None) hs)"

lemma first_free_less: "first_free hs < length hs \<longleftrightarrow> (\<exists>x\<in>set hs. topic_filter x = None)"
  by (induction hs) (auto simp: first_free_def)

text \<open>
  C17. A granted subscription becomes active.  When the SUBACK of the one waiting request with that packet
  identifier grants it, the request's handle is stored in the first free slot, unless an
  identical one is stored already, the event callback is told, and all other handles stay as
  they are; without a free slot the code reports failure and changes no handle.  In every case the request is
  marked as answered.
\<close>
theorem suback_activates_subscription:
  assumes "client_inv s" and "read_buf s = mqtt_packet h (uint16_bytes i @ [q]) @ rest"
    and "header_type h = msg_code SUBACK" and "q \<noteq> 0x80" and "\<And>n w. fst (HAL_Malloc hal n w)"
    and "filter (\<lambda>x. sub_msg_id (snd x) = i) (list_sub_wait_ack s) = [(a, info)]"
    and "topic_filter (sub_handler info) \<noteq> None"
  shows "\<exists>w. handle_suback_packet hal s = Some (
    let s' = s\<lparr>os := w, list_sub_wait_ack := map (mask_sub i) (list_sub_wait_ack s)\<rparr> in
    if \<exists>x\<in>set (sub_handles s). identical_to (sub_handler info) x
    then (SUCCESS_RET, notify (EventId MQTT_EVENT_SUBSCRIBE_SUCCESS i) s')
    else if first_free (sub_handles s) < MAX_SUB_TOPICS
    then (SUCCESS_RET, notify (EventId MQTT_EVENT_SUBSCRIBE_SUCCESS i)
           (s'\<lparr>sub_handles := (sub_handles s)[first_free (sub_handles s) := sub_handler info]\<rparr>))
    else (FAILURE_RET, s'))"
proof -
  note sz = client_inv_sizes [OF assms(1)]
  let ?s = "HAL_MutexLock lock_generic s" and ?H = "sub_handler info"
  have "list_sub_wait_ack ?s = list_sub_wait_ack s" by (simp add: HAL_MutexLock_def)
  with mask_sub_info_from_unique [of i ?s a info hal "Some empty_handle"] assms(5,6) obtain w where
    m: "mask_sub_info_from hal i (Some empty_handle) ?s = Some ((SUCCESS_RET, Some ?H),
      ?s\<lparr>os := w, list_sub_wait_ack := map (mask_sub i) (list_sub_wait_ack s)\<rparr>)" by auto
  have d: "deserialize_suback_packet 1 [QOS0, QOS0, QOS0] (read_buf s) (read_buf_size s) =
      Some (Inr (i, 1, [qos_of_u8 q, QOS0, QOS0]))"
    using deserialize_suback_of_packet [OF _ assms(3), of 2048 i q rest] assms(2) sz(1) by simp
  obtain b fr where sc: "scan_sub_handles ?H (sub_handles s) 0 None = (b, fr)" by fastforce
  have b: "b \<longleftrightarrow> (\<exists>x\<in>set (sub_handles s). identical_to ?H x)"
    using scan_sub_handles_dup [of ?H "sub_handles s" 0 None] sc by simp
  have ff: "(\<exists>x\<in>set (sub_handles s). topic_filter x = None) \<longleftrightarrow> first_free (sub_handles s) < 10"
    using first_free_less [of "sub_handles s"] sz(5) by simp
  have fr: "fr = (if first_free (sub_handles s) < 10 then Some (first_free (sub_handles s)) else None)" if "\<not> b"
    using scan_sub_handles_free [of ?H "sub_handles s" 0 None] sc that ff by (simp add: first_free_def)
  let ?t = "s\<lparr>os := w, list_sub_wait_ack := map (mask_sub i) (list_sub_wait_ack s)\<rparr>"
  have u: "HAL_MutexUnlock lock_generic (?s\<lparr>os := w, list_sub_wait_ack := map (mask_sub i) (list_sub_wait_ack s)\<rparr>) = Some ?t"
    "HAL_MutexUnlock lock_generic (?s\<lparr>os := w, list_sub_wait_ack := map (mask_sub i) (list_sub_wait_ack s), sub_handles := hs\<rparr>)
      = Some (?t\<lparr>sub_handles := hs\<rparr>)" for hs
    by (simp_all add: HAL_MutexLock_def HAL_MutexUnlock_def)
  have "handle_suback_packet hal s = Some (
      if b then (SUCCESS_RET, notify (EventId MQTT_EVENT_SUBSCRIBE_SUCCESS i) ?t)
      else if fr = None then (FAILURE_RET, ?t)
      else (SUCCESS_RET, notify (EventId MQTT_EVENT_SUBSCRIBE_SUCCESS i) (?t\<lparr>sub_handles := (sub_handles s)[the fr := ?H]\<rparr>)))"
    using assms(4,7) sz(5) sc by (auto simp: handle_suback_packet_def Let_def d m u)
  with b fr show ?thesis by (intro exI [of _ w]) (simp add: Let_def)
qed

definition demo_request :: UIoTSubInfo where
  "demo_request = \<lparr> sub_type = SUBSCRIBE, sub_msg_id = 7, sub_start_time = init_timer,
     sub_node_state = MQTT_NODE_STATE_NORMAL,
     sub_handler = \<lparr> topic_filter = Some (str ''a/b''), message_handler = Some 5, message_handler_data = 9, sub_qos = QOS1 \<rparr>,
     sub_len = 0, sub_buf = [] \<rparr>"

definition suback_sys :: "(u32 \<times> bytes) sys" where
  "suback_sys = (demo_sys [])\<lparr>read_buf := mqtt_packet 0x90 (uint16_bytes 7 @ [1]) @ replicate 2043 0,
     list_sub_wait_ack := [(0, demo_request)], next_node := 1\<rparr>"

lemma suback_sys_inv: "client_inv suback_sys"
  by (simp add: client_inv_def suback_sys_def demo_sys_def nodes_ok_def mqtt_packet_def uint16_bytes_def
      rem_len_bytes.simps)

theorem suback_activates_subscription_witness:
  "\<exists>s'. handle_suback_packet demo_hal suback_sys = Some (SUCCESS_RET, s')
     \<and> sub_handles s' = (replicate 10 empty_handle)[0 := sub_handler demo_request]"
proof -
  have h: "header_type 0x90 = msg_code SUBACK" by code_simp
  have m: "fst (HAL_Malloc demo_hal n w)" for n w by (simp add: demo_hal_def tcp_hal_def)
  have l: "filter (\<lambda>x. sub_msg_id (snd x) = 7) (list_sub_wait_ack suback_sys) = [(0, demo_request)]"
    by (simp add: suback_sys_def demo_request_def)
  have sh: "sub_handles suback_sys = replicate 10 empty_handle" by (simp add: suback_sys_def demo_sys_def)
  have rb: "read_buf suback_sys = mqtt_packet 0x90 (uint16_bytes 7 @ [1]) @ replicate 2043 0" by (simp add: suback_sys_def)
  have f: "topic_filter (sub_handler demo_request) \<noteq> None" by (simp add: demo_request_def)
  have "\<not> (\<exists>x\<in>set (replicate 10 empty_handle). identical_to (sub_handler demo_request) x)"
    "first_free (replicate 10 empty_handle) = 0"
    by (simp_all add: identical_to_def empty_handle_def first_free_def)
  with suback_activates_subscription [OF suback_sys_inv rb h _ m l f] show ?thesis by (auto simp: sh Let_def)
qed

section \<open>PUBLISH\<close>

context network
begin

lemma send_mqtt_packet_returns:
  assumes "client_inv s" and "unat l \<le> 1024" and "unat l < fuel"
  shows "returns (send_mqtt_packet hal fuel l timer s)
    (\<lambda>x. os_frame s (snd x) \<and> fst x \<in> {SUCCESS_RET, FAILURE_RET})"
proof -
  note sz = client_inv_sizes [OF assms(1)]
  from send_loop_returns [of l 0 fuel s timer] assms(2,3) sz obtain n s' where
    "send_loop hal fuel l timer 0 s = Some (n, s')" "os_frame s s'" by (auto simp: returns_def)
  with assms(2) sz show ?thesis by (auto simp: send_mqtt_packet_def word_le_nat_alt)
qed

lemma send_pub_ack_returns:
  assumes "client_inv s" and "4 < fuel" and "t \<noteq> RESERVED"
  shows "returns (send_pub_ack hal fuel t i timer s) (\<lambda>x. fst x \<in> {SUCCESS_RET, FAILURE_RET} \<and>
    (\<exists>w. snd x = s\<lparr>write_buf :=
       mqtt_packet (header_byte t (if t = PUBREL then QOS1 else QOS0) 0 0) (uint16_bytes i) @ drop 4 (write_buf s), os := w\<rparr>))"
proof -
  note sz = client_inv_sizes [OF assms(1)]
  let ?b = "mqtt_packet (header_byte t (if t = PUBREL then QOS1 else QOS0) 0 0) (uint16_bytes i) @ drop 4 (write_buf s)"
  let ?s = "(HAL_MutexLock lock_write_buf s)\<lparr>write_buf := ?b\<rparr>"
  have ser: "serialize_pub_ack_packet (write_buf s) (write_buf_size s) t 0 i = Some (Inr (?b, 4))"
    using pub_ack_written [of "write_buf_size s" "write_buf s" t 0 i] sz assms(3) by simp
  then have "client_inv ?s" using pub_ack_length [OF ser] assms(1) by simp
  from send_mqtt_packet_returns [OF this, of 4 fuel timer] assms(2) obtain r w where
    "send_mqtt_packet hal fuel 4 timer ?s = Some (r, ?s\<lparr>os := w\<rparr>)" "r \<in> {SUCCESS_RET, FAILURE_RET}"
    by (auto simp: returns_def elim!: os_frameE)
  then show ?thesis
    by (auto simp: send_pub_ack_def ser Let_def HAL_MutexLock_def HAL_MutexUnlock_def)
qed

end

lemma fixed_topic_of_slice:
  assumes "slice buf p (length name) = name" and "name \<noteq> []" and "length name \<le> MAX_SIZE_OF_CLOUD_TOPIC"
  shows "p + length name \<le> length buf"
    and "poke_bytes (replicate MAX_SIZE_OF_CLOUD_TOPIC 0) 0 name = Some (fixed_topic name)"
proof -
  have "length (slice buf p (length name)) = length name" using assms(1) by simp
  then have "length name \<le> length buf - p" by (simp add: slice_def)
  moreover have "0 < length name" using assms(2) by simp
  ultimately show "p + length name \<le> length buf" by linarith
qed (use assms(3) in \<open>simp add: poke_bytes_def fixed_topic_def\<close>)

text \<open>The message that a PUBLISH packet with these fields gives, apart from where its payload lies.\<close>

definition message_of :: "u8 \<Rightarrow> u16 \<Rightarrow> cstr \<Rightarrow> bytes \<Rightarrow> MQTTMessage \<Rightarrow> bool" where
  "message_of h i name data m \<longleftrightarrow> qos m = header_qos h \<and> retained m = header_retained h \<and> dup m = header_dup h
     \<and> msg_ident m = (if header_qos h = QOS0 then None else Some i)
     \<and> topic m = fixed_topic name \<and> unat (topic_len m) = length name
     \<and> unat (payload_len m) = length data \<and> (\<exists>b. payload m = Some b \<and> take (length data) b = data)"

definition delivered :: "cstr \<Rightarrow> MQTTMessage \<Rightarrow> 'w sys \<Rightarrow> callback list" where
  "delivered name m s =
     (case find (\<lambda>h. subscribed name h \<and> message_handler h \<noteq> None) (sub_handles s) of
        Some h \<Rightarrow> [Message (the (message_handler h)) m (message_handler_data h)]
      | None \<Rightarrow> if event_handler s = None then [] else [EventMsg MQTT_EVENT_PUBLISH_RECEIVED m])"

lemma deliver_message_calls:
  assumes "client_inv s" and "plain_filters (sub_handles s)"
    and "length name < MAX_SIZE_OF_CLOUD_TOPIC" and "0 \<notin> set name" and "name \<noteq> []" and "last name \<noteq> SLASH"
  shows "deliver_message (fixed_topic name) (of_nat (length name)) message s = Some (SUCCESS_RET,
    s\<lparr>calls := calls s @ delivered name (message\<lparr>topic := fixed_topic name, topic_len := ucast (of_nat (length name) :: u16)\<rparr>) s\<rparr>)"
  using deliver_message_eq [of s "fixed_topic name" "of_nat (length name)" message]
    pick_handle_subscribed [OF assms(3-6,2)] client_inv_sizes(5) [OF assms(1)]
  by (auto simp: deliver_to_def notify_def delivered_def split: option.splits)

lemma handle_publish_decoded:
  assumes "client_inv s" and "header_type h = msg_code PUBLISH"
    and rb: "read_buf s = mqtt_packet h (publish_body (header_qos h) i name data) @ rest"
    and "length name < MAX_SIZE_OF_CLOUD_TOPIC" and "name \<noteq> []"
  obtains m where "message_of h i name data (m\<lparr>topic := fixed_topic name, topic_len := ucast (of_nat (length name) :: u16)\<rparr>)"
    and "handle_publish_packet cr hal fuel timer s =
      (if header_qos h = QOS0 then deliver_message (fixed_topic name) (of_nat (length name)) m s
       else do {
         (ret, s) \<leftarrow> (if cr \<and> \<not> get_packet_id_in_repeat_buf i s < 0 then Some (SUCCESS_RET, s)
                      else deliver_message (fixed_topic name) (of_nat (length name)) m s);
         if ret \<noteq> SUCCESS_RET then Some (ret, s)
         else do {
           s \<leftarrow> (if cr then add_packet_id_to_repeat_buf i s else Some s);
           send_pub_ack hal fuel (if header_qos h = QOS1 then PUBACK else PUBREC) i timer s } })"
proof -
  note sz = client_inv_sizes [OF assms(1)]
  have "length (mqtt_packet h (publish_body (header_qos h) i name data)) \<le> 2048"
    using arg_cong [OF rb, of length] sz(2) by simp
  then have ld: "length data \<le> 2048" by (simp add: mqtt_packet_def publish_body_def)
  then have "length name + length data + 4 < 2 ^ 28" "length name \<le> 2048" using assms(4) by simp_all
  note fit = this
  have "4 \<le> read_buf_size s" by (simp add: sz(1))
  from deserialize_publish_of_packet [OF this assms(2) fit(2,1) rb] obtain f where
    f: "deserialize_publish_packet (read_buf s) (read_buf_size s) = Some (Inr f)"
    "pub_dup f = header_dup h" "pub_qos f = header_qos h" "pub_retained f = header_retained h"
    "pub_packet_id f = (if header_qos h = QOS0 then None else Some i)"
    "slice (read_buf s) (pub_topic f) (unat (pub_topic_len f)) = name"
    "slice (read_buf s) (pub_payload f) (unat (pub_payload_len f)) = data"
    "unat (pub_topic_len f) = length name" "unat (pub_payload_len f) = length data" by blast
  have tl: "pub_topic_len f = of_nat (length name)" using f(8) assms(4) by (simp add: word_unat_eq_iff)
  note fx = fixed_topic_of_slice [OF f(6) [unfolded f(8)] assms(5)]
  let ?m = "\<lparr> qos = header_qos h, retained = header_retained h, dup = header_dup h, msg_ident = pub_packet_id f,
      topic = [], topic_len = 0, payload = Some (drop (pub_payload f) (read_buf s)), payload_len = pub_payload_len f \<rparr>"
  have "message_of h i name data (?m\<lparr>topic := fixed_topic name, topic_len := ucast (of_nat (length name) :: u16)\<rparr>)"
    using f(5,7,9) assms(4) by (simp add: message_of_def slice_def unsigned_of_nat take_bit_nat_eq_self)
  moreover have "handle_publish_packet cr hal fuel timer s =
      (if header_qos h = QOS0 then deliver_message (fixed_topic name) (of_nat (length name)) ?m s
       else do {
         (ret, s) \<leftarrow> (if cr \<and> \<not> get_packet_id_in_repeat_buf i s < 0 then Some (SUCCESS_RET, s)
                      else deliver_message (fixed_topic name) (of_nat (length name)) ?m s);
         if ret \<noteq> SUCCESS_RET then Some (ret, s)
         else do {
           s \<leftarrow> (if cr then add_packet_id_to_repeat_buf i s else Some s);
           send_pub_ack hal fuel (if header_qos h = QOS1 then PUBACK else PUBREC) i timer s } })"
    using fx assms(4) f(6) [unfolded f(8)]
    by (simp add: handle_publish_packet_def f(1-5) f(8) tl Let_def)
  ultimately show ?thesis by (rule that)
qed


lemma add_packet_id_frame:
  assumes "client_inv s"
  shows "\<exists>b c. add_packet_id_to_repeat_buf i s = Some (s\<lparr>sg_repeat_packet_id_buf := b, current_packet_id_cnt := c\<rparr>)"
proof (cases "get_packet_id_in_repeat_buf i s > 0")
  case True
  then have "add_packet_id_to_repeat_buf i s = Some (s\<lparr>sg_repeat_packet_id_buf := sg_repeat_packet_id_buf s,
      current_packet_id_cnt := current_packet_id_cnt s\<rparr>)" by (simp add: add_packet_id_to_repeat_buf_def)
  then show ?thesis by blast
qed (use assms in \<open>auto simp: add_packet_id_to_repeat_buf_def client_inv_def Let_def\<close>)



definition publish_sys :: "(u32 \<times> bytes) sys" where
  "publish_sys = (demo_sys [])\<lparr>sub_handles := demo_handles,
     read_buf := mqtt_packet 0x32 (publish_body QOS1 7 (str ''a/b/c'') [1, 2]) @ replicate 2035 0\<rparr>"


text \<open>
  An UNSUBACK that answers no waiting request is undefined behaviour: the handler frees the topic
  filter of a handle it never wrote.  The server decides whether this happens.
\<close>
theorem unsuback_unknown_id:
  assumes "client_inv s" and "read_buf s = mqtt_packet h (uint16_bytes i) @ rest" and "header_type h = msg_code UNSUBACK"
    and "i \<notin> (sub_msg_id \<circ> snd) ` set (list_sub_wait_ack s)"
  shows "handle_unsuback_packet hal s = None"
proof -
  have d: "deserialize_ack_packet (read_buf s) (read_buf_size s) = Some (Inr (msg_code UNSUBACK, header_dup h, i))"
    using deserialize_ack_of_packet [of "read_buf_size s" h i rest] assms(1-3) by (simp add: client_inv_sizes)
  have "last_match_handler i xs None = None" if "i \<notin> (sub_msg_id \<circ> snd) ` set xs" for xs
    using that by (induction xs) auto
  from this [of "rev (list_sub_wait_ack s)"] assms(4) show ?thesis
    by (auto simp: handle_unsuback_packet_def deserialize_unsuback_packet_def d mask_sub_info_from_eq malloc_def
        split: prod.splits)
qed

theorem unsuback_unknown_id_witness:
  "handle_unsuback_packet demo_hal ((demo_sys [])\<lparr>read_buf := mqtt_packet 0xB0 (uint16_bytes 7) @ replicate 2044 0\<rparr>) = None"
proof -
  have h: "header_type 0xB0 = msg_code UNSUBACK" by code_simp
  show ?thesis
    by (rule unsuback_unknown_id [OF _ _ h, where i = 7 and rest = "replicate 2044 0"])
      (simp_all add: client_inv_def demo_sys_def nodes_ok_def mqtt_packet_def uint16_bytes_def)
qed

end
