(* ===== verification/Mqtt_Requests.thy ===== *)
theory Mqtt_Requests
  imports Mqtt_Handlers
begin

text \<open>
  The requests of the application (\<^verbatim>\<open>mqtt_client_publish.c\<close>, \<^verbatim>\<open>mqtt_client_subscribe.c\<close>,
  \<^verbatim>\<open>mqtt_client_unsubscribe.c\<close>): publish, subscribe, subscribe again after a reconnection, and
  unsubscribe.  A request puts its packet on a waiting list before it is sent and takes it off again when
  sending fails.  The client, parameter and string pointers are not NULL.
\<close>

section \<open>Publish\<close>

text \<open>
  The end of \<open>uiot_mqtt_publish\<close>, once the packet of \<open>l\<close> bytes is in the write buffer; \<open>waits\<close> is the
  test \<open>pParams->qos > QOS0\<close>.
\<close>

definition push_and_send_pub ::
  "'w hal \<Rightarrow> nat \<Rightarrow> bool \<Rightarrow> u32 \<Rightarrow> u16 \<Rightarrow> Timer \<Rightarrow> 'w sys \<Rightarrow> (int \<times> 'w sys) option" where
  "push_and_send_pub hal fuel waits l packet_id timer s = do {
     ((ret, node), s) \<leftarrow> (if waits then mask_push_pubInfo_to hal (sint l) packet_id s
                        else Some ((SUCCESS_RET, None), s));
     if ret \<noteq> SUCCESS_RET then do {
       s \<leftarrow> HAL_MutexUnlock lock_write_buf s;
       Some (ret, s) }
     else do {
       (ret, s) \<leftarrow> send_mqtt_packet hal fuel l timer s;
       if ret \<noteq> SUCCESS_RET then do {
         s \<leftarrow> (if waits then do {
             let s = HAL_MutexLock lock_list_pub s;
             a \<leftarrow> node;
             let s = s\<lparr>list_pub_wait_ack := nodes_remove a (list_pub_wait_ack s)\<rparr>;
             HAL_MutexUnlock lock_list_pub s }
           else Some s);
         s \<leftarrow> HAL_MutexUnlock lock_write_buf s;
         Some (ret, s) }
       else do {
         s \<leftarrow> HAL_MutexUnlock lock_write_buf s;
         Some (uint packet_id, s) } } }"

text \<open>
  \<open>uiot_mqtt_publish\<close>: the return value and the parameters the caller sees afterwards, in which a QoS 1 publish
  has stored the packet identifier.  The identifier of the parameters is read in every case.
\<close>

definition uiot_mqtt_publish ::
  "'w hal \<Rightarrow> nat \<Rightarrow> cstr \<Rightarrow> PublishParams \<Rightarrow> 'w sys \<Rightarrow> ((int \<times> PublishParams) \<times> 'w sys) option" where
  "uiot_mqtt_publish hal fuel topicName pParams s =
     (if topicName = [] then Some ((ERR_PARAM_INVALID, pParams), s)
      else if strlen topicName > of_nat MAX_SIZE_OF_CLOUD_TOPIC then Some ((ERR_MAX_TOPIC_LENGTH, pParams), s)
      else if qos pParams = QOS2 then Some ((ERR_MQTT_QOS_NOT_SUPPORT, pParams), s)
      else do {
        (connected, s) \<leftarrow> get_client_conn_state s;
        if connected = 0 then Some ((ERR_MQTT_NO_CONN, pParams), s)
        else do {
          let (timer, s) = countdown_ms hal (command_timeout_ms s) s;
          let s = HAL_MutexLock lock_write_buf s;
          (pParams, s) \<leftarrow> (if qos pParams = QOS1 then do {
              (i, s) \<leftarrow> get_next_packet_id s;
              Some (pParams\<lparr>msg_ident := Some i\<rparr>, s) }
            else Some (pParams, s));
          i \<leftarrow> msg_ident pParams;
          r \<leftarrow> serialize_publish_packet (write_buf s) (write_buf_size s) 0 (qos pParams) (retained pParams) i
                topicName (payload pParams) (payload_len pParams);
          case r of
            Inl ret \<Rightarrow> do {
              s \<leftarrow> HAL_MutexUnlock lock_write_buf s;
              Some ((ret, pParams), s) }
          | Inr (b, l) \<Rightarrow> do {
              (ret, s) \<leftarrow> push_and_send_pub hal fuel (u8_of_qos (qos pParams) > 0) l i timer (s\<lparr>write_buf := b\<rparr>);
              Some ((ret, pParams), s) } } })"

section \<open>Subscribe\<close>

text \<open>
  The common end of subscribe and unsubscribe, once the packet of \<open>l\<close> bytes is in the write buffer:
  the waiting list, the transmission, and the removal from the list when it fails.
\<close>

definition push_and_send_sub ::
  "'w hal \<Rightarrow> nat \<Rightarrow> u32 \<Rightarrow> u16 \<Rightarrow> MessageTypes \<Rightarrow> SubTopicHandle \<Rightarrow> Timer \<Rightarrow> 'w sys \<Rightarrow> (int \<times> 'w sys) option" where
  "push_and_send_sub hal fuel l packet_id type sub_handle timer s = do {
     ((ret, node), s) \<leftarrow> push_sub_info_to hal (sint l) packet_id type sub_handle s;
     if ret \<noteq> SUCCESS_RET then do {
       s \<leftarrow> HAL_MutexUnlock lock_write_buf s;
       Some (ret, s) }
     else do {
       (ret, s) \<leftarrow> send_mqtt_packet hal fuel l timer s;
       if ret \<noteq> SUCCESS_RET then do {
         let s = HAL_MutexLock lock_list_sub s;
         a \<leftarrow> node;
         let s = s\<lparr>list_sub_wait_ack := nodes_remove a (list_sub_wait_ack s)\<rparr>;
         s \<leftarrow> HAL_MutexUnlock lock_list_sub s;
         s \<leftarrow> HAL_MutexUnlock lock_write_buf s;
         Some (ret, s) }
       else do {
         s \<leftarrow> HAL_MutexUnlock lock_write_buf s;
         Some (uint packet_id, s) } } }"

definition uiot_mqtt_subscribe ::
  "'w hal \<Rightarrow> nat \<Rightarrow> cstr \<Rightarrow> SubscribeParams \<Rightarrow> 'w sys \<Rightarrow> (int \<times> 'w sys) option" where
  "uiot_mqtt_subscribe hal fuel topicFilter pParams s =
     (if topicFilter = [] then Some (ERR_PARAM_INVALID, s)
      else if strlen topicFilter > of_nat MAX_SIZE_OF_CLOUD_TOPIC then Some (ERR_MAX_TOPIC_LENGTH, s)
      else if sp_qos pParams = QOS2 then Some (ERR_MQTT_QOS_NOT_SUPPORT, s)
      else do {
        (connected, s) \<leftarrow> get_client_conn_state s;
        if connected = 0 then Some (ERR_MQTT_NO_CONN, s)
        else do {
          let (granted, s) = malloc hal (length topicFilter + 1) s;
          if \<not> granted then Some (FAILURE_RET, s)
          else do {
            let (timer, s) = countdown_ms hal (command_timeout_ms s) s;
            let s = HAL_MutexLock lock_write_buf s;
            (packet_id, s) \<leftarrow> get_next_packet_id s;
            r \<leftarrow> serialize_subscribe_packet (write_buf s) (write_buf_size s) 0 packet_id 1 topicFilter [sp_qos pParams];
            case r of
              Inl ret \<Rightarrow> do {
                s \<leftarrow> HAL_MutexUnlock lock_write_buf s;
                Some (ret, s) }
            | Inr (b, l) \<Rightarrow>
                push_and_send_sub hal fuel l packet_id SUBSCRIBE
                  \<lparr> topic_filter = Some topicFilter, message_handler = on_message_handler pParams,
                    message_handler_data = user_data pParams, sub_qos = sp_qos pParams \<rparr>
                  timer (s\<lparr>write_buf := b\<rparr>) } } })"

primrec resubscribe_loop :: "'w hal \<Rightarrow> nat \<Rightarrow> nat \<Rightarrow> nat \<Rightarrow> 'w sys \<Rightarrow> (int \<times> 'w sys) option" where
  "resubscribe_loop hal fuel 0 itr s = Some (SUCCESS_RET, s)"
| "resubscribe_loop hal fuel (Suc n) itr s =
     (if itr \<ge> length (sub_handles s) then None
      else let h = sub_handles s ! itr in
        case topic_filter h of
          None \<Rightarrow> resubscribe_loop hal fuel n (Suc itr) s
        | Some f \<Rightarrow> do {
            (ret, s) \<leftarrow> uiot_mqtt_subscribe hal fuel f
              \<lparr> sp_qos = sub_qos h, on_message_handler = message_handler h, user_data = message_handler_data h \<rparr> s;
            if ret < 0 then Some (ret, s) else resubscribe_loop hal fuel n (Suc itr) s })"

definition uiot_mqtt_resubscribe :: "'w hal \<Rightarrow> nat \<Rightarrow> 'w sys \<Rightarrow> (int \<times> 'w sys) option" where
  "uiot_mqtt_resubscribe hal fuel s = do {
     (connected, s) \<leftarrow> get_client_conn_state s;
     if connected = 0 then Some (ERR_MQTT_NO_CONN, s)
     else resubscribe_loop hal fuel MAX_SUB_TOPICS 0 s }"

section \<open>Unsubscribe\<close>

text \<open>\<open>strstr\<close> as a test.\<close>

fun strstr :: "cstr \<Rightarrow> cstr \<Rightarrow> bool" where
  "strstr [] p = (p = [])"
| "strstr (c # cs) p = (take (length p) (c # cs) = p \<or> strstr cs p)"

definition unsub_hit :: "cstr \<Rightarrow> SubTopicHandle \<Rightarrow> bool" where
  "unsub_hit topicFilter h \<longleftrightarrow>
     topic_filter h = Some topicFilter \<or> strstr topicFilter (str ''/#'') \<or> strstr topicFilter (str ''/+'')"

text \<open>
  \<open>uiot_mqtt_unsubscribe\<close>.  The code never sets \<open>sub_handle.qos\<close> here; \<open>junk\<close> is what the object
  happens to hold.
\<close>

definition uiot_mqtt_unsubscribe ::
  "'w hal \<Rightarrow> nat \<Rightarrow> QoS \<Rightarrow> cstr \<Rightarrow> 'w sys \<Rightarrow> (int \<times> 'w sys) option" where
  "uiot_mqtt_unsubscribe hal fuel junk topicFilter s =
     (if topicFilter = [] then Some (ERR_PARAM_INVALID, s)
      else if strlen topicFilter > of_nat MAX_SIZE_OF_CLOUD_TOPIC then Some (ERR_MAX_TOPIC_LENGTH, s)
      else if length (sub_handles s) \<noteq> MAX_SUB_TOPICS then None
      else do {
        let s = HAL_MutexLock lock_generic s;
        let suber_exists = list_ex (unsub_hit topicFilter) (sub_handles s);
        let s = s\<lparr>sub_handles :=
          map (\<lambda>h. if unsub_hit topicFilter h then h\<lparr>topic_filter := None\<rparr> else h) (sub_handles s)\<rparr>;
        s \<leftarrow> HAL_MutexUnlock lock_generic s;
        if \<not> suber_exists then Some (ERR_MQTT_UNSUB_FAILED, s)
        else do {
          (connected, s) \<leftarrow> get_client_conn_state s;
          if connected = 0 then Some (ERR_MQTT_NO_CONN, s)
          else do {
            let (granted, s) = malloc hal (length topicFilter + 1) s;
            if \<not> granted then Some (FAILURE_RET, s)
            else do {
              let (timer, s) = countdown_ms hal (command_timeout_ms s) s;
              let s = HAL_MutexLock lock_write_buf s;
              (packet_id, s) \<leftarrow> get_next_packet_id s;
              r \<leftarrow> serialize_unsubscribe_packet (write_buf s) (write_buf_size s) 0 packet_id 1 topicFilter;
              case r of
                Inl ret \<Rightarrow> do {
                  s \<leftarrow> HAL_MutexUnlock lock_write_buf s;
                  Some (ret, s) }
              | Inr (b, l) \<Rightarrow>
                  push_and_send_sub hal fuel l packet_id UNSUBSCRIBE
                    \<lparr> topic_filter = Some topicFilter, message_handler = None,
                      message_handler_data = 0, sub_qos = junk \<rparr>
                    timer (s\<lparr>write_buf := b\<rparr>) } } } })"

section \<open>The requests keep the invariant\<close>

lemma mask_push_keeps [keeps_dest]:
  assumes "mask_push_pubInfo_to hal (sint l) i s = Some ((r, node), s')" and "client_inv s"
  shows "keeps s s' \<and> (r = SUCCESS_RET \<longrightarrow> (\<exists>a. node = Some a))"
proof (cases "sint l < 0 \<or> sint l > 2048")
  case True
  with assms show ?thesis by (auto simp: mask_push_pubInfo_to_def client_inv_def)
next
  case False
  with mask_push_pubInfo_to_returns [OF assms(2), of "sint l" hal i] assms(1) show ?thesis
    by (auto simp: returns_def)
qed

lemma push_sub_keeps [keeps_dest]:
  assumes "push_sub_info_to hal (sint l) i t h s = Some ((r, node), s')" and "client_inv s"
  shows "keeps s s'"
proof (cases "0 \<le> sint l \<and> sint l \<le> 2048")
  case True
  with push_sub_info_to_returns [OF assms(2), of "sint l" hal i t h] assms(1) show ?thesis
    by (auto simp: returns_def)
next
  case False
  obtain g1 w1 where m1: "HAL_Malloc hal (sizeof_UIoTSubInfo + nat (sint l)) (os s) = (g1, w1)" by fastforce
  obtain tm w2 where cd: "countdown_ms_w hal (command_timeout_ms s) w1 = (tm, w2)" by fastforce
  have "sint l < 0 \<or> 2048 < nat (sint l)" using False by auto
  moreover have "length (write_buf s) = 2048" using assms(2) by (simp add: client_inv_def)
  ultimately show ?thesis
    using assms m1 cd
    by (cases "length (list_sub_wait_ack s) \<ge> MAX_SUB_TOPICS"; cases g1)
      (auto simp: push_sub_info_to_def HAL_MutexLock_def HAL_MutexUnlock_def malloc_def countdown_ms_def
        keeps_def Let_def)
qed

lemma publish_length:
  "serialize_publish_packet buf n d q r i t p pl = Some (Inr (b, l)) \<Longrightarrow> length b = length buf"
  by (auto simp: serialize_publish_packet_def Let_def bind_Some_iff mem_simps write_bytes_eq_Some_iff
      split: if_split_asm sum.split_asm option.split_asm elim!: bind_SomeE)

lemma push_and_send_pub_keeps [keeps_dest]:
  assumes "push_and_send_pub hal fuel waits l i timer s = Some (r, s')" and "client_inv s"
  shows "client_inv s' \<and> held s' = (held s)(lock_write_buf := held s lock_write_buf - 1)"
  using assms
  by (auto simp: push_and_send_pub_def state_simps keeps_def client_inv_remove
      split: prod.split_asm if_split_asm elim!: bind_SomeE dest!: keeps_dest)

lemma uiot_mqtt_publish_keeps [keeps_dest]:
  "uiot_mqtt_publish hal fuel t p s = Some (r, s') \<Longrightarrow> client_inv s \<Longrightarrow> keeps s s'"
  by (auto simp: uiot_mqtt_publish_def state_simps keeps_def publish_length client_inv_next_id
      split: sum.split_asm prod.split_asm if_split_asm elim!: bind_SomeE dest!: keeps_dest)


lemma push_and_send_keeps [keeps_dest]:
  assumes "push_and_send_sub hal fuel l i t h timer s = Some (r, s')" and "client_inv s"
  shows "client_inv s' \<and> held s' = (held s)(lock_write_buf := held s lock_write_buf - 1)"
  using assms
  by (auto simp: push_and_send_sub_def state_simps keeps_def client_inv_remove
      split: prod.split_asm if_split_asm elim!: bind_SomeE dest!: keeps_dest)

lemma sub_payload_length:
  "subscribe_payload_loop n i t qs (buf, p) = Some (b, p') \<Longrightarrow> length b = length buf"
  "unsubscribe_payload_loop n i t (buf, p) = Some (b, p') \<Longrightarrow> length b = length buf"
proof (induction n arbitrary: i buf p)
  case (Suc n)
  {
    case 1
    then show ?case
      by (auto simp: mem_simps write_bytes_eq_Some_iff split: if_split_asm elim!: bind_SomeE dest!: Suc.IH(1))
  next
    case 2
    then show ?case
      by (auto simp: mem_simps write_bytes_eq_Some_iff split: if_split_asm elim!: bind_SomeE dest!: Suc.IH(2))
  }
qed simp_all

lemma subscribe_length:
  "serialize_subscribe_packet buf n d i c t qs = Some (Inr (b, l)) \<Longrightarrow> length b = length buf"
  "serialize_unsubscribe_packet buf n d i c t = Some (Inr (b, l)) \<Longrightarrow> length b = length buf"
  by (auto simp: serialize_subscribe_packet_def serialize_unsubscribe_packet_def Let_def mem_simps write_bytes_eq_Some_iff
      split: if_split_asm sum.split_asm elim!: bind_SomeE dest!: sub_payload_length)

lemma uiot_mqtt_subscribe_keeps [keeps_dest]:
  "uiot_mqtt_subscribe hal fuel t p s = Some (r, s') \<Longrightarrow> client_inv s \<Longrightarrow> keeps s s'"
  by (auto simp: uiot_mqtt_subscribe_def state_simps keeps_def subscribe_length client_inv_next_id
      split: sum.split_asm prod.split_asm if_split_asm elim!: bind_SomeE dest!: keeps_dest)

lemma resubscribe_loop_keeps [keeps_dest]:
  "resubscribe_loop hal fuel n i s = Some (r, s') \<Longrightarrow> client_inv s \<Longrightarrow> keeps s s'"
proof (induction n arbitrary: i s)
  case (Suc n)
  from Suc.prems show ?case
    by (auto simp: state_simps keeps_def split: option.split_asm prod.split_asm if_split_asm elim!: bind_SomeE
        dest!: keeps_dest Suc.IH)
qed simp

lemma uiot_mqtt_resubscribe_keeps [keeps_dest]:
  "uiot_mqtt_resubscribe hal fuel s = Some (r, s') \<Longrightarrow> client_inv s \<Longrightarrow> keeps s s'"
  by (auto simp: uiot_mqtt_resubscribe_def split: if_split_asm dest!: keeps_dest)

lemma uiot_mqtt_unsubscribe_keeps [keeps_dest]:
  "uiot_mqtt_unsubscribe hal fuel j t s = Some (r, s') \<Longrightarrow> client_inv s \<Longrightarrow> keeps s s'"
  by (auto simp: uiot_mqtt_unsubscribe_def state_simps keeps_def subscribe_length client_inv_next_id
      split: sum.split_asm prod.split_asm if_split_asm elim!: bind_SomeE dest!: keeps_dest)

section \<open>Requests and their waiting lists\<close>

lemma nodes_remove_fresh:
  assumes "nodes_ok n xs"
  shows "nodes_remove n (xs @ [(n, v)]) = xs"
proof -
  have "\<forall>x\<in>set xs. fst x \<noteq> n" using assms by (auto simp: nodes_ok_def)
  then have "filter (\<lambda>x. fst x \<noteq> n) xs = xs" by (intro filter_True) blast
  then show ?thesis by (simp add: nodes_remove_def)
qed

text \<open>The node that a publish, or a subscribe or unsubscribe, puts on its waiting list.\<close>

definition pub_node :: "u16 \<Rightarrow> bytes \<Rightarrow> UIoTPubInfo \<Rightarrow> bool" where
  "pub_node i pkt info \<longleftrightarrow> pub_node_state info = MQTT_NODE_STATE_NORMAL \<and> pub_msg_id info = i
     \<and> pub_len info = of_nat (length pkt) \<and> pub_buf info = pkt"

definition sub_node :: "MessageTypes \<Rightarrow> u16 \<Rightarrow> bytes \<Rightarrow> SubTopicHandle \<Rightarrow> UIoTSubInfo \<Rightarrow> bool" where
  "sub_node t i pkt h info \<longleftrightarrow> sub_node_state info = MQTT_NODE_STATE_NORMAL \<and> sub_type info = t \<and> sub_msg_id info = i
     \<and> sub_handler info = h \<and> sub_buf info = pkt"

lemma sint_of_nat_small: "n \<le> 1024 \<Longrightarrow> sint (of_nat n :: u32) = int n"
  by (intro sint_small) simp

context network
begin

lemma push_and_send_pub_returns:
  assumes inv: "client_inv s" and l: "length pkt \<le> 1024" "1024 < fuel" and wb: "take (length pkt) (write_buf s) = pkt"
    and lk: "held s lock_write_buf \<noteq> 0"
  shows "returns (push_and_send_pub hal fuel True (of_nat (length pkt)) i timer s)
    (\<lambda>x. write_buf (snd x) = write_buf s
      \<and> (fst x = uint i \<and> (\<exists>a info. list_pub_wait_ack (snd x) = list_pub_wait_ack s @ [(a, info)] \<and> pub_node i pkt info)
       \<or> fst x = FAILURE_RET \<and> list_pub_wait_ack (snd x) = list_pub_wait_ack s))"
proof -
  have si: "sint (of_nat (length pkt) :: u32) = int (length pkt)" using l(1) by (rule sint_of_nat_small)
  have "returns (mask_push_pubInfo_to hal (int (length pkt)) i s) (\<lambda>((r, node), s').
    keeps s s' \<and> write_buf s' = write_buf s \<and> sub_handles s' = sub_handles s
    \<and> (r = SUCCESS_RET \<longrightarrow> length (list_pub_wait_ack s) < MAX_REPUB_NUM \<and> node = Some (next_node s) \<and>
        (\<exists>t. list_pub_wait_ack s' = list_pub_wait_ack s @ [(next_node s,
           \<lparr> pub_start_time = t, pub_node_state = MQTT_NODE_STATE_NORMAL, pub_msg_id = i,
             pub_len = of_int (int (length pkt)), pub_buf = take (nat (int (length pkt))) (write_buf s) \<rparr>)]))
    \<and> (r \<noteq> SUCCESS_RET \<longrightarrow> r = FAILURE_RET \<and> node = None \<and> list_pub_wait_ack s' = list_pub_wait_ack s))"
    by (rule mask_push_pubInfo_to_returns [OF inv]) (use l in simp_all)
  then obtain r node s1 where push: "mask_push_pubInfo_to hal (int (length pkt)) i s = Some ((r, node), s1)"
    and s1: "keeps s s1" "write_buf s1 = write_buf s"
    and ok: "r = SUCCESS_RET \<Longrightarrow> node = Some (next_node s) \<and> (\<exists>info.
        list_pub_wait_ack s1 = list_pub_wait_ack s @ [(next_node s, info)] \<and> pub_node i pkt info)"
    and bad: "r \<noteq> SUCCESS_RET \<Longrightarrow> r = FAILURE_RET \<and> list_pub_wait_ack s1 = list_pub_wait_ack s"
    by (auto simp: returns_def wb pub_node_def)
  have i1: "client_inv s1" and h1: "held s1 = held s" using s1(1) inv by (simp_all add: keeps_def)
  show ?thesis
  proof (cases "r = SUCCESS_RET")
    case False
    with bad push s1(2) h1 lk show ?thesis by (simp add: push_and_send_pub_def si HAL_MutexUnlock_def)
  next
    case True
    with ok obtain info where n: "node = Some (next_node s)"
      and app: "list_pub_wait_ack s1 = list_pub_wait_ack s @ [(next_node s, info)]" "pub_node i pkt info" by blast
    have "unat (of_nat (length pkt) :: u32) = length pkt" using l(1) by simp
    with send_mqtt_packet_returns [OF i1, of "of_nat (length pkt)" fuel timer] l obtain q w where
      send: "send_mqtt_packet hal fuel (of_nat (length pkt)) timer s1 = Some (q, s1\<lparr>os := w\<rparr>)" "q \<in> {SUCCESS_RET, FAILURE_RET}"
      by (auto simp: returns_def elim!: os_frameE)
    have rm: "nodes_remove (next_node s) (list_pub_wait_ack s1) = list_pub_wait_ack s"
      using nodes_remove_fresh inv by (auto simp: app client_inv_def)
    show ?thesis
      using True push send n app rm s1(2) h1 lk
      by (auto simp: push_and_send_pub_def si HAL_MutexLock_def HAL_MutexUnlock_def Let_def)
  qed
qed

lemma push_and_send_sub_returns:
  assumes inv: "client_inv s" and l: "length pkt \<le> 1024" "1024 < fuel" and wb: "take (length pkt) (write_buf s) = pkt"
    and lk: "held s lock_write_buf \<noteq> 0"
  shows "returns (push_and_send_sub hal fuel (of_nat (length pkt)) i t h timer s)
    (\<lambda>x. write_buf (snd x) = write_buf s \<and> sub_handles (snd x) = sub_handles s
      \<and> (fst x = uint i \<and> (\<exists>a info. list_sub_wait_ack (snd x) = list_sub_wait_ack s @ [(a, info)] \<and> sub_node t i pkt h info)
       \<or> fst x < 0 \<and> list_sub_wait_ack (snd x) = list_sub_wait_ack s))"
proof -
  have si: "sint (of_nat (length pkt) :: u32) = int (length pkt)" using l(1) by (rule sint_of_nat_small)
  have "returns (push_sub_info_to hal (int (length pkt)) i t h s) (\<lambda>((r, node), s').
    keeps s s' \<and> write_buf s' = write_buf s \<and> sub_handles s' = sub_handles s
    \<and> (r = SUCCESS_RET \<longrightarrow> length (list_sub_wait_ack s) < MAX_SUB_TOPICS \<and> node = Some (next_node s) \<and>
        (\<exists>tm. list_sub_wait_ack s' = list_sub_wait_ack s @ [(next_node s,
           \<lparr> sub_type = t, sub_msg_id = i, sub_start_time = tm,
             sub_node_state = MQTT_NODE_STATE_NORMAL, sub_handler = h,
             sub_len = of_int (int (length pkt)), sub_buf = take (nat (int (length pkt))) (write_buf s) \<rparr>)]))
    \<and> (r \<noteq> SUCCESS_RET \<longrightarrow> r < 0 \<and> node = None \<and> list_sub_wait_ack s' = list_sub_wait_ack s))"
    by (rule push_sub_info_to_returns [OF inv]) (use l in simp_all)
  then obtain r node s1 where push: "push_sub_info_to hal (int (length pkt)) i t h s = Some ((r, node), s1)"
    and s1: "keeps s s1" "write_buf s1 = write_buf s" "sub_handles s1 = sub_handles s"
    and ok: "r = SUCCESS_RET \<Longrightarrow> node = Some (next_node s) \<and> (\<exists>info.
        list_sub_wait_ack s1 = list_sub_wait_ack s @ [(next_node s, info)] \<and> sub_node t i pkt h info)"
    and bad: "r \<noteq> SUCCESS_RET \<Longrightarrow> r < 0 \<and> list_sub_wait_ack s1 = list_sub_wait_ack s"
    by (auto simp: returns_def wb sub_node_def)
  have i1: "client_inv s1" and h1: "held s1 = held s" using s1(1) inv by (simp_all add: keeps_def)
  show ?thesis
  proof (cases "r = SUCCESS_RET")
    case False
    with bad push s1 h1 lk show ?thesis by (simp add: push_and_send_sub_def si HAL_MutexUnlock_def)
  next
    case True
    with ok obtain info where n: "node = Some (next_node s)"
      and app: "list_sub_wait_ack s1 = list_sub_wait_ack s @ [(next_node s, info)]" "sub_node t i pkt h info" by blast
    have "unat (of_nat (length pkt) :: u32) = length pkt" using l(1) by simp
    with send_mqtt_packet_returns [OF i1, of "of_nat (length pkt)" fuel timer] l obtain q w where
      send: "send_mqtt_packet hal fuel (of_nat (length pkt)) timer s1 = Some (q, s1\<lparr>os := w\<rparr>)" "q \<in> {SUCCESS_RET, FAILURE_RET}"
      by (auto simp: returns_def elim!: os_frameE)
    have rm: "nodes_remove (next_node s) (list_sub_wait_ack s1) = list_sub_wait_ack s"
      using nodes_remove_fresh inv by (auto simp: app client_inv_def)
    show ?thesis
      using True push send n app rm s1 h1 lk
      by (auto simp: push_and_send_sub_def si HAL_MutexLock_def HAL_MutexUnlock_def Let_def)
  qed
qed

end

lemma strlen_le_iff: "length t \<le> 128 \<Longrightarrow> \<not> 128 < strlen t"
  by (simp add: strlen_def word_less_nat_alt)

lemma packet_le_1024:
  assumes "length body + 6 \<le> 1024"
  shows "length (mqtt_packet h body) \<le> 1024" and "packet_estimate (length body) \<le> 1024"
  using packet_estimate_ge [of body h] rem_len_bytes_le_4 [of "length body"] assms
  by (simp_all add: mqtt_packet_def)

section \<open>Properties\<close>




text \<open>
  A subscription request is tracked exactly when it was sent.  Over the TCP port \<open>uiot_mqtt_subscribe\<close>
  returns for every filter of legal length.  Either it returns the new packet identifier and the request, with its handler, waits for the
  SUBACK at the end of the list; or it returns an error and the list is as before.  The
  subscriptions in force do not change before the SUBACK.
\<close>
theorem subscribe_tracked:
  assumes "client_inv s" and "is_connected s \<noteq> 0" and "f \<noteq> []" and "length f \<le> MAX_SIZE_OF_CLOUD_TOPIC"
    and "sp_qos p \<noteq> QOS2" and "1024 < fuel" and "i = next_id (next_packet_id s)"
    and "pkt = mqtt_packet (header_byte SUBSCRIBE QOS1 0 0) (subscribe_body i f (sp_qos p))"
    and "h = \<lparr> topic_filter = Some f, message_handler = on_message_handler p, message_handler_data = user_data p, sub_qos = sp_qos p \<rparr>"
  shows "\<exists>ret s'. uiot_mqtt_subscribe (tcp_hal sock k hal) fuel f p s = Some (ret, s')
    \<and> client_inv s' \<and> held s' = held s \<and> sub_handles s' = sub_handles s
    \<and> (ret = uint i \<and> (\<exists>a info. list_sub_wait_ack s' = list_sub_wait_ack s @ [(a, info)] \<and> sub_node SUBSCRIBE i pkt h info)
     \<or> ret < 0 \<and> list_sub_wait_ack s' = list_sub_wait_ack s)"
proof -
  let ?hal = "tcp_hal sock k hal" and ?body = "subscribe_body i f (sp_qos p)"
  obtain g w1 where ma: "malloc ?hal (length f + 1) s = (g, s\<lparr>os := w1\<rparr>)"
    by (metis clock_frames(6) os_frameE surj_pair)
  obtain timer w where cd: "countdown_ms ?hal (command_timeout_ms s) (s\<lparr>os := w1\<rparr>) = (timer, s\<lparr>os := w\<rparr>)"
    by (metis clock_frames(4) os_frame_os_left os_frameE surj_pair)
  let ?s1 = "(HAL_MutexLock lock_write_buf (s\<lparr>os := w\<rparr>))\<lparr>next_packet_id := i\<rparr>"
  let ?b = "pkt @ drop (length pkt) (write_buf s)"
  note sz = client_inv_sizes [OF assms(1)]
  have "length ?body + 6 \<le> 1024" using assms(4) by (simp add: subscribe_body_def)
  note pl = packet_le_1024 [OF this]
  have lp: "length pkt \<le> 1024" using pl(1) assms(8) by simp
  have ser: "serialize_subscribe_packet (write_buf s) (write_buf_size s) 0 i 1 f [sp_qos p] =
      Some (Inr (?b, of_nat (length pkt)))"
    using subscribe_ser.exact [of "(0, i, f, sp_qos p)" "write_buf_size s" "write_buf s"] sz pl(2) assms(4,8)
    by simp
  have i2: "client_inv (?s1\<lparr>write_buf := ?b\<rparr>)"
    using client_inv_next_id [OF assms(1)] assms(7) lp sz(4) by (simp add: client_inv_def HAL_MutexLock_def)
  note tail = tcp.push_and_send_sub_returns [OF i2 lp assms(6), of sock k hal i SUBSCRIBE h timer]
  obtain ret s' where run: "uiot_mqtt_subscribe ?hal fuel f p s = Some (ret, s')"
    and res: "sub_handles s' = sub_handles s"
      "ret = uint i \<and> (\<exists>a info. list_sub_wait_ack s' = list_sub_wait_ack s @ [(a, info)] \<and> sub_node SUBSCRIBE i pkt h info)
       \<or> ret < 0 \<and> list_sub_wait_ack s' = list_sub_wait_ack s"
    using tail assms(2-5,7) strlen_le_iff [OF assms(4)] ser ma cd
    by (cases g) (auto simp: uiot_mqtt_subscribe_def Let_def HAL_MutexLock_def returns_def assms(9))
  show ?thesis
    using run res uiot_mqtt_subscribe_keeps [OF run assms(1)] assms(1) by (intro exI [of _ ret] exI [of _ s']) (auto simp: keeps_def)
qed

theorem subscribe_tracked_witness:
  "\<exists>ret s'. uiot_mqtt_subscribe (tcp_hal demo_sock 100 demo_hal) 1025 (str ''a/+'')
      \<lparr> sp_qos = QOS1, on_message_handler = Some 5, user_data = 9 \<rparr> (demo_sys []) = Some (ret, s')
    \<and> (ret = 2 \<and> length (list_sub_wait_ack s') = 1 \<or> ret < 0 \<and> list_sub_wait_ack s' = [])"
proof -
  let ?s = "demo_sys [] :: (u32 \<times> bytes) sys" and ?p = "\<lparr> sp_qos = QOS1, on_message_handler = Some 5, user_data = 9 \<rparr>"
  have e: "str ''a/+'' \<noteq> []" "length (str ''a/+'') \<le> MAX_SIZE_OF_CLOUD_TOPIC" by code_simp+
  have c: "is_connected ?s \<noteq> 0" "list_sub_wait_ack ?s = []" "next_id (next_packet_id ?s) = 2" "sp_qos ?p \<noteq> QOS2"
    by (simp_all add: demo_sys_def next_id_def)
  show ?thesis
    using subscribe_tracked [OF demo_sys_inv c(1) e c(4) _ c(3) [symmetric] refl refl, of 1025 demo_sock 100 demo_hal] c(2)
    by auto
qed


lemma push_and_send_sub_handles:
  assumes "push_and_send_sub hal fuel l i t h timer s = Some (r, s')"
  shows "sub_handles s' = sub_handles s"
proof -
  have send: "sub_handles v = sub_handles u" if "send_mqtt_packet hal fuel l timer u = Some (q, v)" for q u v
    using send_mqtt_packet_frame [of hal fuel l timer u] that by (auto simp: ensures_def elim!: os_frameE)
  have push: "sub_handles u = sub_handles s" if "push_sub_info_to hal (sint l) i t h s = Some (q, u)" for q u
    using that
    by (auto simp: push_sub_info_to_def state_simps split: prod.split_asm if_split_asm elim!: bind_SomeE
        dest!: timer_ops_frame)
  from assms show ?thesis
    by (auto simp: push_and_send_sub_def state_simps split: prod.split_asm if_split_asm elim!: bind_SomeE dest!: send push)
qed

text \<open>
  C22. What an unsubscribe forgets.  Whatever \<open>uiot_mqtt_unsubscribe\<close> returns for a filter of legal length,
  afterwards the handles that had exactly this filter are free and the others are unchanged, provided that the filter does
  not contain \<open>/#\<close> or \<open>/+\<close>; if it does, every handle is free, also those of
  other subscriptions.
\<close>
theorem unsubscribe_forgets:
  assumes "client_inv s" and "f \<noteq> []" and "length f \<le> MAX_SIZE_OF_CLOUD_TOPIC"
    and "uiot_mqtt_unsubscribe hal fuel junk f s = Some (ret, s')"
  shows "map topic_filter (sub_handles s') = map (\<lambda>h.
      if strstr f (str ''/#'') \<or> strstr f (str ''/+'') \<or> topic_filter h = Some f then None else topic_filter h) (sub_handles s)
    \<and> client_inv s' \<and> held s' = held s"
proof -
  let ?hs = "map (\<lambda>h. if unsub_hit f h then h\<lparr>topic_filter := None\<rparr> else h) (sub_handles s)"
  have "sub_handles s' = ?hs"
    using assms strlen_le_iff [OF assms(3)]
    by (auto simp: uiot_mqtt_unsubscribe_def state_simps HAL_MutexLock_def subscribe_length client_inv_next_id
        split: sum.split_asm prod.split_asm if_split_asm elim!: bind_SomeE dest!: timer_ops_frame push_and_send_sub_handles)
  moreover have "map topic_filter ?hs = map (\<lambda>h.
      if strstr f (str ''/#'') \<or> strstr f (str ''/+'') \<or> topic_filter h = Some f then None else topic_filter h) (sub_handles s)"
    by (auto simp: unsub_hit_def)
  ultimately show ?thesis
    using uiot_mqtt_unsubscribe_keeps [OF assms(4,1)] assms(1) by (simp add: keeps_def)
qed


definition offline_sys :: "(u32 \<times> bytes) sys" where
  "offline_sys = (demo_sys [])\<lparr>is_connected := 0, sub_handles := demo_handles\<rparr>"

theorem unsubscribe_forgets_witness:
  "\<exists>s'. uiot_mqtt_unsubscribe demo_hal 5 QOS0 (str ''x/#'') offline_sys = Some (ERR_MQTT_NO_CONN, s')
     \<and> map topic_filter (sub_handles s') = replicate 10 None"
proof -
  have i: "client_inv offline_sys"
    by (simp add: client_inv_def offline_sys_def demo_sys_def nodes_ok_def demo_handles_def)
  have e: "str ''x/#'' \<noteq> []" "length (str ''x/#'') \<le> MAX_SIZE_OF_CLOUD_TOPIC" "strstr (str ''x/#'') (str ''/#'')"
    by code_simp+
  have sh: "sub_handles offline_sys = demo_handles" "is_connected offline_sys = 0" by (simp_all add: offline_sys_def)
  have l: "length demo_handles = 10" by (simp add: demo_handles_def)
  have "list_ex (unsub_hit (str ''x/#'')) demo_handles" using e(3) by (simp add: demo_handles_def unsub_hit_def)
  then have "\<exists>s'. uiot_mqtt_unsubscribe demo_hal 5 QOS0 (str ''x/#'') offline_sys = Some (ERR_MQTT_NO_CONN, s')"
    using e(1) strlen_le_iff [OF e(2)] by (simp add: uiot_mqtt_unsubscribe_def sh l Let_def HAL_MutexLock_def HAL_MutexUnlock_def)
  then obtain s' where r: "uiot_mqtt_unsubscribe demo_hal 5 QOS0 (str ''x/#'') offline_sys = Some (ERR_MQTT_NO_CONN, s')" ..
  from unsubscribe_forgets [OF i e(1,2) r] e(3) show ?thesis
    by (intro exI [of _ s']) (simp add: r sh map_replicate_const l)
qed

end
