(* ===== verification/Mqtt_Session.thy ===== *)
theory Mqtt_Session
  imports Mqtt_Requests
begin

text \<open>
  The life of a connection (\<^verbatim>\<open>mqtt_client_connect.c\<close>, \<^verbatim>\<open>mqtt_client_yield.c\<close>,
  \<^verbatim>\<open>mqtt_client.c\<close>): connecting, disconnecting, reconnecting with a growing delay, keeping
  the connection alive, timing out requests that are not acknowledged, the main loop
  \<open>uiot_mqtt_yield\<close>, and the construction of a client.  The argument \<open>fuel\<close> bounds the iterations of each loop;
  the argument \<open>cr\<close> tells whether \<open>MQTT_CHECK_REPEAT_MSG\<close> is defined.
\<close>

section \<open>Connect and disconnect\<close>

definition copy_connect_params :: "MQTTConnectParams \<Rightarrow> MQTTConnectParams \<Rightarrow> MQTTConnectParams" where
  "copy_connect_params destination source =
     destination\<lparr> mqtt_version := mqtt_version source, client_id := client_id source, username := username source,
       keep_alive_interval := keep_alive_interval source, clean_session := clean_session source,
       auto_connect_enable := auto_connect_enable source, password := password source \<rparr>"

definition mqtt_connect ::
  "bool \<Rightarrow> 'w hal \<Rightarrow> nat \<Rightarrow> MQTTConnectParams option \<Rightarrow> 'w sys \<Rightarrow> (int \<times> 'w sys) option" where
  "mqtt_connect cr hal fuel params s = do {
     let (connect_timer, s) = countdown_ms hal (command_timeout_ms s) s;
     let s = (case params of Some p \<Rightarrow> s\<lparr>options := copy_connect_params (options s) p\<rparr> | None \<Rightarrow> s);
     let (ret, w) = net_connect hal (os s);
     let s = s\<lparr>os := w\<rparr>;
     if ret \<noteq> SUCCESS_RET then Some (ret, s)
     else do {
       let s = HAL_MutexLock lock_write_buf s;
       r \<leftarrow> serialize_connect_packet (write_buf s) (write_buf_size s) (options s);
       case r of
         Inl ret \<Rightarrow> do {
           s \<leftarrow> HAL_MutexUnlock lock_write_buf s;
           Some (ret, s) }
       | Inr (b, l) \<Rightarrow> do {
           let s = s\<lparr>write_buf := b\<rparr>;
           if l = 0 then do {
             s \<leftarrow> HAL_MutexUnlock lock_write_buf s;
             Some (SUCCESS_RET, s) }
           else do {
             (ret, s) \<leftarrow> send_mqtt_packet hal fuel l connect_timer s;
             s \<leftarrow> HAL_MutexUnlock lock_write_buf s;
             if ret \<noteq> SUCCESS_RET then Some (ret, s)
             else do {
               (ret, s) \<leftarrow> wait_for_read cr hal fuel (msg_code CONNACK) connect_timer s;
               if ret \<noteq> SUCCESS_RET then Some (ret, s)
               else do {
                 r \<leftarrow> deserialize_connack_packet (read_buf s) (read_buf_size s);
                 case r of
                   Inl ret \<Rightarrow> Some (ret, s)
                 | Inr (sessionPresent, connack_rc) \<Rightarrow>
                     if connack_rc \<noteq> MQTT_CONNECTION_ACCEPTED then Some (connack_rc, s)
                     else do {
                       s \<leftarrow> set_client_conn_state CONNECTED s;
                       let s = HAL_MutexLock lock_generic s;
                       let s = s\<lparr>was_manually_disconnected := 0, is_ping_outstanding := 0\<rparr>;
                       let (t, s) = countdown hal (ucast (keep_alive_interval (options s))) s;
                       let s = s\<lparr>ping_timer := t\<rparr>;
                       s \<leftarrow> HAL_MutexUnlock lock_generic s;
                       Some (SUCCESS_RET, s) } } } } } } }"

definition uiot_mqtt_connect ::
  "bool \<Rightarrow> 'w hal \<Rightarrow> nat \<Rightarrow> MQTTConnectParams \<Rightarrow> 'w sys \<Rightarrow> (int \<times> 'w sys) option" where
  "uiot_mqtt_connect cr hal fuel pParams s = do {
     (connected, s) \<leftarrow> get_client_conn_state s;
     if connected \<noteq> 0 then Some (MQTT_ALREADY_CONNECTED, s)
     else do {
       (ret, s) \<leftarrow> mqtt_connect cr hal fuel (Some pParams) s;
       Some (ret, if ret \<noteq> SUCCESS_RET then s\<lparr>os := net_disconnect hal (os s)\<rparr> else s) } }"

definition uiot_mqtt_attempt_reconnect :: "bool \<Rightarrow> 'w hal \<Rightarrow> nat \<Rightarrow> 'w sys \<Rightarrow> (int \<times> 'w sys) option" where
  "uiot_mqtt_attempt_reconnect cr hal fuel s = do {
     (connected, s) \<leftarrow> get_client_conn_state s;
     if connected \<noteq> 0 then Some (MQTT_ALREADY_CONNECTED, s)
     else do {
       (ret, s) \<leftarrow> uiot_mqtt_connect cr hal fuel (options s) s;
       (connected, s) \<leftarrow> get_client_conn_state s;
       if connected = 0 then Some (ret, s)
       else do {
         (ret, s) \<leftarrow> uiot_mqtt_resubscribe hal fuel s;
         if ret \<noteq> SUCCESS_RET then Some (ret, s) else Some (MQTT_RECONNECTED, s) } } }"

definition uiot_mqtt_disconnect :: "'w hal \<Rightarrow> nat \<Rightarrow> 'w sys \<Rightarrow> (int \<times> 'w sys) option" where
  "uiot_mqtt_disconnect hal fuel s = do {
     (connected, s) \<leftarrow> get_client_conn_state s;
     if connected = 0 then Some (ERR_MQTT_NO_CONN, s)
     else do {
       let s = HAL_MutexLock lock_write_buf s;
       r \<leftarrow> serialize_packet_with_zero_payload (write_buf s) (write_buf_size s) DISCONNECT;
       s \<leftarrow> (case r of
           Inl ret \<Rightarrow> Some s
         | Inr (b, serialized_len) \<Rightarrow> do {
             let s = s\<lparr>write_buf := b\<rparr>;
             let (timer, s) = countdown_ms hal (command_timeout_ms s) s;
             if serialized_len > 0 then do {
               (ret, s) \<leftarrow> send_mqtt_packet hal fuel serialized_len timer s;
               Some s }
             else Some s });
       s \<leftarrow> HAL_MutexUnlock lock_write_buf s;
       let s = s\<lparr>os := net_disconnect hal (os s)\<rparr>;
       s \<leftarrow> set_client_conn_state DISCONNECTED s;
       Some (SUCCESS_RET, s\<lparr>was_manually_disconnected := 1\<rparr>) } }"

section \<open>Keeping the connection\<close>

definition handle_disconnect :: "'w hal \<Rightarrow> nat \<Rightarrow> 'w sys \<Rightarrow> (int \<times> 'w sys) option" where
  "handle_disconnect hal fuel s = do {
     (connected, s) \<leftarrow> get_client_conn_state s;
     if connected = 0 then Some (ERR_MQTT_NO_CONN, s)
     else do {
       (ret, s) \<leftarrow> uiot_mqtt_disconnect hal fuel s;
       s \<leftarrow> (if ret \<noteq> SUCCESS_RET
              then set_client_conn_state DISCONNECTED (s\<lparr>os := net_disconnect hal (os s)\<rparr>)
              else Some s);
       let s = notify (Event MQTT_EVENT_DISCONNECT) s;
       Some (ERR_MQTT_NO_CONN, s\<lparr>was_manually_disconnected := 0\<rparr>) } }"

abbreviation (input) ENABLE_INFINITE_RECONNECT :: bool where "ENABLE_INFINITE_RECONNECT \<equiv> True"

definition handle_reconnect :: "bool \<Rightarrow> 'w hal \<Rightarrow> nat \<Rightarrow> 'w sys \<Rightarrow> (int \<times> 'w sys) option" where
  "handle_reconnect cr hal fuel s = do {
     let (expired, s) = has_expired hal (reconnect_delay_timer s) s;
     if \<not> expired then Some (ERR_MQTT_ATTEMPTING_RECONNECT, s)
     else do {
       (ret, s) \<leftarrow> uiot_mqtt_attempt_reconnect cr hal fuel s;
       if ret = MQTT_RECONNECTED then Some (ret, notify (Event MQTT_EVENT_RECONNECT) s)
       else do {
         let s = s\<lparr>current_reconnect_wait_interval := current_reconnect_wait_interval s * 2\<rparr>;
         if MAX_RECONNECT_WAIT_INTERVAL < current_reconnect_wait_interval s \<and> \<not> ENABLE_INFINITE_RECONNECT
         then Some (ERR_MQTT_RECONNECT_TIMEOUT, s)
         else do {
           let s = (if MAX_RECONNECT_WAIT_INTERVAL < current_reconnect_wait_interval s
                    then s\<lparr>current_reconnect_wait_interval := MAX_RECONNECT_WAIT_INTERVAL\<rparr> else s);
           let (t, s) = countdown_ms hal (current_reconnect_wait_interval s) s;
           Some (ERR_MQTT_ATTEMPTING_RECONNECT, s\<lparr>reconnect_delay_timer := t\<rparr>) } } } }"

text \<open>The ping is tried again up to \<open>n\<close> times.\<close>

primrec ping_loop :: "'w hal \<Rightarrow> nat \<Rightarrow> nat \<Rightarrow> u32 \<Rightarrow> 'w sys \<Rightarrow> (int \<times> 'w sys) option" where
  "ping_loop hal fuel 0 l s = do {
     let (timer, s) = countdown_ms hal (command_timeout_ms s) s;
     send_mqtt_packet hal fuel l timer s }"
| "ping_loop hal fuel (Suc n) l s = do {
     let (timer, s) = countdown_ms hal (command_timeout_ms s) s;
     (ret, s) \<leftarrow> send_mqtt_packet hal fuel l timer s;
     if ret \<noteq> SUCCESS_RET then ping_loop hal fuel n l s else Some (ret, s) }"

definition mqtt_keep_alive :: "'w hal \<Rightarrow> nat \<Rightarrow> 'w sys \<Rightarrow> (int \<times> 'w sys) option" where
  "mqtt_keep_alive hal fuel s =
     (if keep_alive_interval (options s) = 0 then Some (SUCCESS_RET, s)
      else do {
        let (expired, s) = has_expired hal (ping_timer s) s;
        if \<not> expired then Some (SUCCESS_RET, s)
        else if is_ping_outstanding s \<ge> MQTT_PING_RETRY_TIMES then handle_disconnect hal fuel s
        else do {
          let s = HAL_MutexLock lock_write_buf s;
          r \<leftarrow> serialize_packet_with_zero_payload (write_buf s) (write_buf_size s) PINGREQ;
          case r of
            Inl ret \<Rightarrow> do {
              s \<leftarrow> HAL_MutexUnlock lock_write_buf s;
              Some (ret, s) }
          | Inr (b, serialized_len) \<Rightarrow> do {
              (ret, s) \<leftarrow> ping_loop hal fuel 3 serialized_len (s\<lparr>write_buf := b\<rparr>);
              s \<leftarrow> HAL_MutexUnlock lock_write_buf s;
              if ret \<noteq> SUCCESS_RET then handle_disconnect hal fuel s
              else do {
                let s = HAL_MutexLock lock_generic s;
                let s = s\<lparr>is_ping_outstanding := is_ping_outstanding s + 1\<rparr>;
                let (t, s) = countdown hal (min 5 (ucast (keep_alive_interval (options s) div 2))) s;
                let s = s\<lparr>ping_timer := t\<rparr>;
                s \<leftarrow> HAL_MutexUnlock lock_generic s;
                Some (SUCCESS_RET, s) } } } })"

section \<open>Requests without an acknowledgement\<close>

text \<open>
  The loops walk the list from its tail with an iterator that has already moved on when a node is
  taken out; \<open>temp_node\<close> is taken out in the next round.  The nodes still to visit are an argument.
\<close>

definition drop_pub :: "addr option \<Rightarrow> 'w sys \<Rightarrow> 'w sys" where
  "drop_pub temp_node s =
     (case temp_node of None \<Rightarrow> s | Some a \<Rightarrow> s\<lparr>list_pub_wait_ack := nodes_remove a (list_pub_wait_ack s)\<rparr>)"

definition restart_pub :: "addr \<Rightarrow> Timer \<Rightarrow> 'w sys \<Rightarrow> 'w sys" where
  "restart_pub a t s = s\<lparr>list_pub_wait_ack :=
     map (\<lambda>x. if fst x = a then (fst x, (snd x)\<lparr>pub_start_time := t\<rparr>) else x) (list_pub_wait_ack s)\<rparr>"

fun pub_info_loop :: "'w hal \<Rightarrow> (addr \<times> UIoTPubInfo) list \<Rightarrow> addr option \<Rightarrow> 'w sys \<Rightarrow> 'w sys option" where
  "pub_info_loop hal [] temp_node s = Some (drop_pub temp_node s)"
| "pub_info_loop hal ((node, repubInfo) # iter) temp_node s = do {
     let s = drop_pub temp_node s;
     if pub_node_state repubInfo = MQTT_NODE_STATE_INVALID then pub_info_loop hal iter (Some node) s
     else if is_connected s = 0 then pub_info_loop hal iter None s
     else do {
       let (left, s) = left_ms hal (pub_start_time repubInfo) s;
       if left > 0 then pub_info_loop hal iter None s
       else do {
         s \<leftarrow> HAL_MutexUnlock lock_list_pub s;
         let (t, s) = countdown_ms hal (command_timeout_ms s) s;
         let s = restart_pub node t s;
         let s = HAL_MutexLock lock_list_pub s;
         let s = notify (EventId MQTT_EVENT_PUBLISH_TIMEOUT (pub_msg_id repubInfo)) s;
         pub_info_loop hal iter (Some node) s } } }"

definition uiot_mqtt_pub_info_proc :: "'w hal \<Rightarrow> 'w sys \<Rightarrow> (int \<times> 'w sys) option" where
  "uiot_mqtt_pub_info_proc hal s = do {
     let s = HAL_MutexLock lock_list_pub s;
     s \<leftarrow> (if list_pub_wait_ack s = [] then Some s
            else do {
              let (granted, s) = malloc hal sizeof_ListIterator s;
              if \<not> granted then Some s
              else pub_info_loop hal (rev (list_pub_wait_ack s)) None s });
     s \<leftarrow> HAL_MutexUnlock lock_list_pub s;
     Some (SUCCESS_RET, s) }"

definition drop_sub :: "addr option \<Rightarrow> 'w sys \<Rightarrow> 'w sys" where
  "drop_sub temp_node s =
     (case temp_node of None \<Rightarrow> s | Some a \<Rightarrow> s\<lparr>list_sub_wait_ack := nodes_remove a (list_sub_wait_ack s)\<rparr>)"

fun sub_info_loop :: "'w hal \<Rightarrow> (addr \<times> UIoTSubInfo) list \<Rightarrow> addr option \<Rightarrow> 'w sys \<Rightarrow> 'w sys option" where
  "sub_info_loop hal [] temp_node s = Some (drop_sub temp_node s)"
| "sub_info_loop hal ((node, sub_info) # iter) temp_node s = do {
     let s = drop_sub temp_node s;
     if sub_node_state sub_info = MQTT_NODE_STATE_INVALID then sub_info_loop hal iter (Some node) s
     else if is_connected s = 0 then sub_info_loop hal iter None s
     else do {
       let (left, s) = left_ms hal (sub_start_time sub_info) s;
       if left > 0 then sub_info_loop hal iter None s
       else do {
         let s = notify (EventId (if sub_type sub_info = SUBSCRIBE then MQTT_EVENT_SUBSCRIBE_TIMEOUT
                                  else MQTT_EVENT_UNSUBSCRIBE_TIMEOUT) (sub_msg_id sub_info)) s;
         sub_info_loop hal iter (Some node) s } } }"

definition uiot_mqtt_sub_info_proc :: "'w hal \<Rightarrow> 'w sys \<Rightarrow> (int \<times> 'w sys) option" where
  "uiot_mqtt_sub_info_proc hal s = do {
     let s = HAL_MutexLock lock_list_sub s;
     s \<leftarrow> (if list_sub_wait_ack s = [] then Some s
            else do {
              let (granted, s) = malloc hal sizeof_ListIterator s;
              if \<not> granted then Some s
              else sub_info_loop hal (rev (list_sub_wait_ack s)) None s });
     s \<leftarrow> HAL_MutexUnlock lock_list_sub s;
     Some (SUCCESS_RET, s) }"

section \<open>The main loop\<close>

text \<open>What one round of the loop does with the client connected: the new value of \<open>ret\<close>.\<close>

definition yield_round :: "bool \<Rightarrow> 'w hal \<Rightarrow> nat \<Rightarrow> Timer \<Rightarrow> 'w sys \<Rightarrow> (int \<times> 'w sys) option" where
  "yield_round cr hal fuel timer s = do {
     let s = s\<lparr>os := HAL_SleepMs hal 10 (os s)\<rparr>;
     ((ret, _), s) \<leftarrow> cycle_for_read cr hal fuel timer None s;
     if ret = SUCCESS_RET then do {
       (_, s) \<leftarrow> uiot_mqtt_pub_info_proc hal s;
       (_, s) \<leftarrow> uiot_mqtt_sub_info_proc hal s;
       mqtt_keep_alive hal fuel s }
     else if ret \<in> {ERR_SSL_READ_TIMEOUT, ERR_SSL_READ_FAILED, ERR_TCP_PEER_SHUTDOWN, ERR_TCP_READ_FAILED}
     then handle_disconnect hal fuel s
     else if ret = FAILURE_RET then Some (SUCCESS_RET, s)
     else Some (ret, s) }"

primrec yield_loop ::
  "bool \<Rightarrow> 'w hal \<Rightarrow> nat \<Rightarrow> nat \<Rightarrow> Timer \<Rightarrow> int \<Rightarrow> 'w sys \<Rightarrow> (int \<times> 'w sys) option" where
  "yield_loop cr hal fuel 0 timer ret s = None"
| "yield_loop cr hal fuel (Suc n) timer ret s = do {
     let (expired, s) = has_expired hal timer s;
     if expired then Some (ret, s)
     else do {
       (connected, s) \<leftarrow> get_client_conn_state s;
       if connected = 0 then
         if current_reconnect_wait_interval s > MAX_RECONNECT_WAIT_INTERVAL then Some (ERR_MQTT_RECONNECT_TIMEOUT, s)
         else do {
           (ret, s) \<leftarrow> handle_reconnect cr hal fuel s;
           yield_loop cr hal fuel n timer ret s }
       else do {
         (ret, s) \<leftarrow> yield_round cr hal fuel timer s;
         if ret = ERR_MQTT_NO_CONN then do {
           let s = s\<lparr>counter_network_disconnected := counter_network_disconnected s + 1\<rparr>;
           if auto_connect_enable (options s) = 1 then do {
             let s = s\<lparr>current_reconnect_wait_interval := MIN_RECONNECT_WAIT_INTERVAL\<rparr>;
             let (t, s) = countdown_ms hal (current_reconnect_wait_interval s) s;
             let s = s\<lparr>reconnect_delay_timer := t\<rparr>;
             yield_loop cr hal fuel n timer ERR_MQTT_ATTEMPTING_RECONNECT s }
           else Some (ret, s) }
         else if ret \<noteq> SUCCESS_RET then Some (ret, s)
         else yield_loop cr hal fuel n timer ret s } } }"

definition uiot_mqtt_yield :: "bool \<Rightarrow> 'w hal \<Rightarrow> nat \<Rightarrow> u32 \<Rightarrow> 'w sys \<Rightarrow> (int \<times> 'w sys) option" where
  "uiot_mqtt_yield cr hal fuel timeout_ms s =
     (if timeout_ms = 0 then Some (ERR_PARAM_INVALID, s)
      else do {
        (connected, s) \<leftarrow> get_client_conn_state s;
        if connected = 0 \<and> was_manually_disconnected s = 1 then Some (MQTT_MANUALLY_DISCONNECTED, s)
        else do {
          (connected, s) \<leftarrow> get_client_conn_state s;
          if connected = 0 \<and> auto_connect_enable (options s) = 0 then Some (ERR_MQTT_NO_CONN, s)
          else do {
            let (timer, s) = countdown_ms hal timeout_ms s;
            yield_loop cr hal fuel fuel timer SUCCESS_RET s } } })"

section \<open>The session keeps the invariant\<close>

lemma connect_length:
  "serialize_connect_packet buf n p = Some (Inr (b, l)) \<Longrightarrow> length b = length buf"
  by (auto simp: serialize_connect_packet_def Let_def mem_simps write_bytes_eq_Some_iff
      split: if_split_asm option.split_asm sum.split_asm elim!: bind_SomeE)

lemma zero_payload_length:
  "serialize_packet_with_zero_payload buf n t = Some (Inr (b, l)) \<Longrightarrow> length b = length buf"
  by (auto simp: serialize_packet_with_zero_payload_def mem_simps write_bytes_eq_Some_iff
      split: if_split_asm sum.split_asm elim!: bind_SomeE)

lemma mqtt_connect_keeps [keeps_dest]:
  "mqtt_connect cr hal fuel p s = Some (r, s') \<Longrightarrow> client_inv s \<Longrightarrow> keeps s s'"
  by (auto simp: mqtt_connect_def state_simps keeps_def connect_length
      split: sum.split_asm prod.split_asm if_split_asm option.split_asm elim!: bind_SomeE dest!: keeps_dest)

lemma uiot_mqtt_connect_keeps [keeps_dest]:
  "uiot_mqtt_connect cr hal fuel p s = Some (r, s') \<Longrightarrow> client_inv s \<Longrightarrow> keeps s s'"
  by (auto simp: uiot_mqtt_connect_def state_simps split: prod.split_asm if_split_asm elim!: bind_SomeE dest!: keeps_dest)

lemma attempt_reconnect_keeps [keeps_dest]:
  "uiot_mqtt_attempt_reconnect cr hal fuel s = Some (r, s') \<Longrightarrow> client_inv s \<Longrightarrow> keeps s s'"
  by (auto simp: uiot_mqtt_attempt_reconnect_def state_simps keeps_def
      split: prod.split_asm if_split_asm elim!: bind_SomeE dest!: keeps_dest)

lemma uiot_mqtt_disconnect_keeps [keeps_dest]:
  "uiot_mqtt_disconnect hal fuel s = Some (r, s') \<Longrightarrow> client_inv s \<Longrightarrow> keeps s s'"
  by (auto simp: uiot_mqtt_disconnect_def state_simps keeps_def zero_payload_length
      split: sum.split_asm prod.split_asm if_split_asm elim!: bind_SomeE dest!: keeps_dest)

lemma handle_disconnect_keeps [keeps_dest]:
  "handle_disconnect hal fuel s = Some (r, s') \<Longrightarrow> client_inv s \<Longrightarrow> keeps s s'"
  by (auto simp: handle_disconnect_def state_simps keeps_def
      split: prod.split_asm if_split_asm elim!: bind_SomeE dest!: keeps_dest)

lemma handle_reconnect_keeps [keeps_dest]:
  "handle_reconnect cr hal fuel s = Some (r, s') \<Longrightarrow> client_inv s \<Longrightarrow> keeps s s'"
  by (auto simp: handle_reconnect_def state_simps keeps_def
      split: prod.split_asm if_split_asm elim!: bind_SomeE dest!: keeps_dest)

lemma ping_loop_keeps [keeps_dest]: "ping_loop hal fuel n l s = Some (r, s') \<Longrightarrow> keeps s s'"
proof (induction n arbitrary: s)
  case 0
  then show ?case by (auto simp: state_simps keeps_def split: prod.split_asm dest!: keeps_dest)
next
  case (Suc n)
  from Suc.prems show ?case
    by (auto simp: state_simps keeps_def split: prod.split_asm if_split_asm elim!: bind_SomeE dest!: keeps_dest Suc.IH)
qed

lemma mqtt_keep_alive_keeps [keeps_dest]:
  "mqtt_keep_alive hal fuel s = Some (r, s') \<Longrightarrow> client_inv s \<Longrightarrow> keeps s s'"
  by (auto simp: mqtt_keep_alive_def state_simps keeps_def zero_payload_length
      split: sum.split_asm prod.split_asm if_split_asm elim!: bind_SomeE dest!: keeps_dest)

lemma drop_keeps: "keeps s (drop_pub a s)" "keeps s (drop_sub a s)"
  by (auto simp: drop_pub_def drop_sub_def keeps_def client_inv_remove split: option.splits)

lemma restart_pub_keeps: "keeps s (restart_pub a t s)"
  by (auto simp: restart_pub_def keeps_def client_inv_def nodes_ok_map)

lemma pub_info_loop_keeps [keeps_dest]: "pub_info_loop hal iter a s = Some s' \<Longrightarrow> keeps s s'"
proof (induction hal iter a s rule: pub_info_loop.induct)
  case (2 hal node info iter a s)
  have d: "client_inv s \<Longrightarrow> client_inv (drop_pub a s)" "held (drop_pub a s) = held s"
    using drop_keeps(1) [of s a] by (simp_all add: keeps_def)
  have r: "client_inv u \<Longrightarrow> client_inv (restart_pub b t u)" "held (restart_pub b t u) = held u" for b t and u :: "'a sys"
    using restart_pub_keeps [of u b t] by (simp_all add: keeps_def)
  show ?case
    using "2.prems" "2.IH"
    by (auto simp: state_simps keeps_def d r split: prod.split_asm if_split_asm elim!: bind_SomeE dest!: keeps_dest)
qed (use drop_keeps in auto)


lemma sub_info_loop_keeps [keeps_dest]: "sub_info_loop hal iter a s = Some s' \<Longrightarrow> keeps s s'"
proof (induction hal iter a s rule: sub_info_loop.induct)
  case (2 hal node info iter a s)
  have d: "client_inv s \<Longrightarrow> client_inv (drop_sub a s)" "held (drop_sub a s) = held s"
    using drop_keeps(2) [of s a] by (simp_all add: keeps_def)
  show ?case
    using "2.prems" "2.IH"
    by (auto simp: state_simps keeps_def d split: prod.split_asm if_split_asm dest!: keeps_dest)
qed (use drop_keeps in auto)

lemma info_proc_keeps [keeps_dest]:
  "uiot_mqtt_pub_info_proc hal s = Some (r, s') \<Longrightarrow> keeps s s'"
  "uiot_mqtt_sub_info_proc hal s = Some (r, s') \<Longrightarrow> keeps s s'"
  by (auto simp: uiot_mqtt_pub_info_proc_def uiot_mqtt_sub_info_proc_def state_simps keeps_def
      split: prod.split_asm if_split_asm elim!: bind_SomeE dest!: keeps_dest)

lemma yield_round_keeps [keeps_dest]:
  "yield_round cr hal fuel timer s = Some (r, s') \<Longrightarrow> client_inv s \<Longrightarrow> keeps s s'"
  by (auto simp: yield_round_def state_simps keeps_def
      split: prod.split_asm if_split_asm elim!: bind_SomeE dest!: keeps_dest)

lemma yield_loop_keeps [keeps_dest]:
  "yield_loop cr hal fuel n timer ret s = Some (r, s') \<Longrightarrow> client_inv s \<Longrightarrow> keeps s s'"
proof (induction n arbitrary: ret s)
  case (Suc n)
  from Suc.prems show ?case
    by (auto simp: state_simps keeps_def split: prod.split_asm if_split_asm elim!: bind_SomeE dest!: keeps_dest Suc.IH)
qed simp

lemma uiot_mqtt_yield_keeps [keeps_dest]:
  "uiot_mqtt_yield cr hal fuel ms s = Some (r, s') \<Longrightarrow> client_inv s \<Longrightarrow> keeps s s'"
  by (auto simp: uiot_mqtt_yield_def state_simps keeps_def split: prod.split_asm if_split_asm dest!: keeps_dest)

section \<open>What handling packets and requests leaves alone\<close>

text \<open>
  The part of the state that only connecting, disconnecting and reconnecting change, and the count of pings
  without an answer, which handling a packet can only reset.
\<close>

definition link_frame :: "'w sys \<Rightarrow> 'w sys \<Rightarrow> bool" where
  "link_frame s s' \<longleftrightarrow> is_connected s' = is_connected s
     \<and> current_reconnect_wait_interval s' = current_reconnect_wait_interval s
     \<and> options s' = options s \<and> event_handler s' = event_handler s
     \<and> (is_ping_outstanding s' = is_ping_outstanding s \<or> is_ping_outstanding s' = 0)"

named_theorems link_dest \<open>operations leave the connection state alone\<close>

lemma link_lock_simps [simp]:
  "is_connected (HAL_MutexLock m s) = is_connected s"
  "current_reconnect_wait_interval (HAL_MutexLock m s) = current_reconnect_wait_interval s"
  "options (HAL_MutexLock m s) = options s" "event_handler (HAL_MutexLock m s) = event_handler s"
  "is_ping_outstanding (HAL_MutexLock m s) = is_ping_outstanding s"
  by (simp_all add: HAL_MutexLock_def)

lemma link_notify_simps [simp]:
  "is_connected (notify c s) = is_connected s"
  "current_reconnect_wait_interval (notify c s) = current_reconnect_wait_interval s"
  "options (notify c s) = options s" "event_handler (notify c s) = event_handler s"
  "is_ping_outstanding (notify c s) = is_ping_outstanding s"
  by (simp_all add: notify_def)

lemma link_frame_frames:
  "os_frame s s' \<Longrightarrow> link_frame s s'" "rx_frame s s' \<Longrightarrow> link_frame s s'"
  by (auto simp: link_frame_def elim!: os_frameE rx_frameE)

lemma clock_link [link_dest]:
  "has_expired hal t s = (b, s') \<Longrightarrow> link_frame s s'"
  "left_ms hal t s = (n, s') \<Longrightarrow> link_frame s s'"
  "countdown_ms hal ms s = (tm, s') \<Longrightarrow> link_frame s s'"
  "countdown hal ms s = (tm, s') \<Longrightarrow> link_frame s s'"
  "malloc hal k s = (b, s') \<Longrightarrow> link_frame s s'"
  by (blast dest: clock_frames link_frame_frames)+

lemma transport_link [link_dest]:
  "send_mqtt_packet hal fuel l timer s = Some (r, s') \<Longrightarrow> link_frame s s'"
  "read_mqtt_packet hal fuel timer s = Some (q, s') \<Longrightarrow> link_frame s s'"
  using send_mqtt_packet_frame [of hal fuel l timer s] read_mqtt_packet_frame [of hal fuel timer s] link_frame_frames
  by (auto simp: ensures_def)

lemma state_ops_link [link_dest]:
  "mask_pubInfo_from hal i s = Some (r, s') \<Longrightarrow> link_frame s s'"
  "mask_sub_info_from hal i h s = Some (q, s') \<Longrightarrow> link_frame s s'"
  "add_packet_id_to_repeat_buf i s = Some s' \<Longrightarrow> link_frame s s'"
  "mask_push_pubInfo_to hal l i s = Some (p, s') \<Longrightarrow> link_frame s s'"
  "push_sub_info_to hal l i t h2 s = Some (p, s') \<Longrightarrow> link_frame s s'"
  by (auto simp: mask_pubInfo_from_def mask_sub_info_from_def add_packet_id_to_repeat_buf_def mask_push_pubInfo_to_def
      push_sub_info_to_def state_simps link_frame_def split: prod.split_asm if_split_asm elim!: bind_SomeE dest!: clock_link)

lemma deliver_link [link_dest]:
  "deliver_message t l m s = Some (r, s') \<Longrightarrow> link_frame s s'"
proof -
  have "deliver_loop n i t l m u = Some (b, u') \<Longrightarrow> link_frame u u'" for n i m b and u u' :: "'a sys"
  proof (induction n arbitrary: i u)
    case (Suc n)
    from Suc.prems show ?case
      by (auto simp: state_simps link_frame_def split: option.split_asm if_split_asm elim!: bind_SomeE dest!: Suc.IH)
  qed (simp add: link_frame_def)
  then show "deliver_message t l m s = Some (r, s') \<Longrightarrow> link_frame s s'"
    by (auto simp: deliver_message_def state_simps link_frame_def split: prod.split_asm if_split_asm elim!: bind_SomeE)
      (fastforce simp: link_frame_def)+
qed

lemma handlers_link [link_dest]:
  "handle_puback_packet hal s = Some (r, s') \<Longrightarrow> link_frame s s'"
  "handle_suback_packet hal s = Some (r, s') \<Longrightarrow> link_frame s s'"
  "handle_unsuback_packet hal s = Some (r, s') \<Longrightarrow> link_frame s s'"
  "send_pub_ack hal fuel t i timer s = Some (r, s') \<Longrightarrow> link_frame s s'"
  "handle_pingresp_packet hal s = Some s' \<Longrightarrow> link_frame s s'"
  by (auto simp: handle_puback_packet_def handle_suback_packet_def handle_unsuback_packet_def send_pub_ack_def
      handle_pingresp_packet_def state_simps link_frame_def
      split: sum.split_asm prod.split_asm if_split_asm elim!: bind_SomeE dest!: link_dest)

lemma publish_link [link_dest]:
  "handle_publish_packet cr hal fuel timer s = Some (r, s') \<Longrightarrow> link_frame s s'"
  "handle_pubrec_packet hal fuel timer s = Some (r, s') \<Longrightarrow> link_frame s s'"
  by (auto simp: handle_publish_packet_def handle_pubrec_packet_def state_simps link_frame_def
      split: sum.split_asm prod.split_asm if_split_asm elim!: bind_SomeE dest!: link_dest)

lemma dispatch_link [link_dest]:
  "dispatch_packet cr hal fuel timer t s = Some (q, s') \<Longrightarrow> link_frame s s'"
  "note_link_alive hal t s = Some s' \<Longrightarrow> link_frame s s'"
  by (auto simp: dispatch_packet_def note_link_alive_def state_simps split: if_split_asm dest!: link_dest)
    (auto simp: link_frame_def)

lemma cycle_link [link_dest]: "cycle_for_read cr hal fuel timer pt s = Some (r, s') \<Longrightarrow> link_frame s s'"
  by (auto simp: cycle_for_read_def state_simps link_frame_def
      split: prod.split_asm option.split_asm if_split_asm elim!: bind_SomeE dest!: link_dest)

lemma wait_link [link_dest]: "wait_for_read cr hal fuel p timer s = Some (r, s') \<Longrightarrow> link_frame s s'"
proof -
  have "wait_for_read_loop cr hal fuel n p timer t u = Some (r, s') \<Longrightarrow> link_frame u s'" for n t u
  proof (induction n arbitrary: t u)
    case (Suc n)
    from Suc.prems show ?case
      by (auto simp: state_simps link_frame_def split: prod.split_asm if_split_asm elim!: bind_SomeE dest!: link_dest Suc.IH)
  qed simp
  then show "wait_for_read cr hal fuel p timer s = Some (r, s') \<Longrightarrow> link_frame s s'" by (simp add: wait_for_read_def)
qed

lemma requests_link [link_dest]:
  "push_and_send_pub hal fuel waits l i timer s = Some (r, s') \<Longrightarrow> link_frame s s'"
  "push_and_send_sub hal fuel l i t h timer s = Some (r, s') \<Longrightarrow> link_frame s s'"
  by (auto simp: push_and_send_pub_def push_and_send_sub_def state_simps link_frame_def
      split: prod.split_asm if_split_asm elim!: bind_SomeE dest!: link_dest)

lemma api_requests_link [link_dest]:
  "uiot_mqtt_publish hal fuel f p s = Some (q, s') \<Longrightarrow> link_frame s s'"
  "uiot_mqtt_subscribe hal fuel f sp s = Some (r, s') \<Longrightarrow> link_frame s s'"
  "uiot_mqtt_unsubscribe hal fuel j f s = Some (r, s') \<Longrightarrow> link_frame s s'"
  by (auto simp: uiot_mqtt_publish_def uiot_mqtt_subscribe_def uiot_mqtt_unsubscribe_def state_simps link_frame_def
      split: sum.split_asm prod.split_asm if_split_asm elim!: bind_SomeE dest!: link_dest)

lemma resubscribe_link [link_dest]: "uiot_mqtt_resubscribe hal fuel s = Some (r, s') \<Longrightarrow> link_frame s s'"
proof -
  have "resubscribe_loop hal fuel n i u = Some (r, s') \<Longrightarrow> link_frame u s'" for n i u
  proof (induction n arbitrary: i u)
    case (Suc n)
    from Suc.prems show ?case
      by (auto simp: state_simps link_frame_def split: option.split_asm prod.split_asm if_split_asm elim!: bind_SomeE
          dest!: link_dest Suc.IH)
  qed (simp add: link_frame_def)
  then show "uiot_mqtt_resubscribe hal fuel s = Some (r, s') \<Longrightarrow> link_frame s s'"
    by (auto simp: uiot_mqtt_resubscribe_def link_frame_def split: if_split_asm)
qed

section \<open>Connecting and disconnecting\<close>

lemma connect_nonempty:
  assumes "serialize_connect_packet buf n p = Some (Inr (b, l))" and "length buf = 2048"
  shows "l \<noteq> 0"
proof -
  from assms(1) obtain k where k: "l = of_nat k" "0 < k" "k \<le> length buf"
    by (auto simp: serialize_connect_packet_def Let_def mem_simps write_bytes_eq_Some_iff
        simp del: of_nat_Suc of_nat_add
        split: if_split_asm option.split_asm sum.split_asm elim!: bind_SomeE)
  then have "unat l = k" using assms(2) by simp
  with k(2) show ?thesis by auto
qed

lemma serialize_connect_error [simp]: "serialize_connect_packet buf n p \<noteq> Some (Inl 0)"
  by (auto simp: serialize_connect_packet_def Let_def mqtt_init_packet_header_def
      split: if_split_asm option.split_asm elim!: bind_SomeE)

lemma rem_len_error [simp]: "mqtt_read_packet_rem_len_form_buf buf p \<noteq> Some (Inl 0)"
  by (auto simp: mqtt_read_packet_rem_len_form_buf_def dest!: decode_error)

lemma deserialize_connack_error [simp]:
  "deserialize_connack_packet buf n \<noteq> Some (Inl 0)" "deserialize_connack_packet buf n \<noteq> Some (Inr (sp, 0))"
  by (auto simp: deserialize_connack_packet_def connack_return_code_def Let_def
      split: if_split_asm sum.split_asm prod.split_asm elim!: bind_SomeE)

text \<open>What a completed connection attempt says.\<close>

definition connack_in :: "'w sys \<Rightarrow> bool" where
  "connack_in s \<longleftrightarrow> (\<exists>sp. deserialize_connack_packet (read_buf s) (read_buf_size s) = Some (Inr (sp, MQTT_CONNECTION_ACCEPTED)))"

lemma connack_in_upd [simp]:
  "connack_in (s\<lparr>is_connected := c, was_manually_disconnected := d, is_ping_outstanding := e, os := w, ping_timer := t\<rparr>) = connack_in s"
  by (simp add: connack_in_def)

lemma mqtt_connect_result:
  assumes "mqtt_connect cr hal fuel (Some p) s = Some (ret, s')" and "client_inv s"
  shows "options s' = copy_connect_params (options s) p \<and> event_handler s' = event_handler s
    \<and> current_reconnect_wait_interval s' = current_reconnect_wait_interval s
    \<and> (if ret = SUCCESS_RET then is_connected s' = CONNECTED \<and> is_ping_outstanding s' = 0 \<and> was_manually_disconnected s' = 0 \<and> connack_in s'
       else is_connected s' = is_connected s \<and> (is_ping_outstanding s' = is_ping_outstanding s \<or> is_ping_outstanding s' = 0))"
  using assms client_inv_sizes(4) [OF assms(2)]
  by (auto simp: mqtt_connect_def state_simps link_frame_def HAL_MutexLock_def connect_nonempty connack_in_def
      split: sum.split_asm prod.split_asm if_split_asm elim!: bind_SomeE dest!: link_dest timer_ops_frame)

section \<open>The connection state stays in range\<close>

text \<open>
  The connection flag is a truth value, at most \<open>MQTT_PING_RETRY_TIMES\<close> pings are outstanding, and the
  delay before a reconnection does not exceed its bound.
\<close>

definition session_ok :: "'w sys \<Rightarrow> bool" where
  "session_ok s \<longleftrightarrow> is_connected s \<in> {DISCONNECTED, CONNECTED} \<and> is_ping_outstanding s \<le> MQTT_PING_RETRY_TIMES
     \<and> current_reconnect_wait_interval s \<le> MAX_RECONNECT_WAIT_INTERVAL"

named_theorems session_dest \<open>operations keep the connection state in range\<close>

lemma session_ok_link: "link_frame s s' \<Longrightarrow> session_ok s \<Longrightarrow> session_ok s'"
  by (auto simp: link_frame_def session_ok_def)

lemmas link_session [session_dest] = link_dest [THEN session_ok_link]

lemma session_ok_upd [simp]:
  "session_ok (s\<lparr>os := w\<rparr>) = session_ok s" "session_ok (s\<lparr>held := h\<rparr>) = session_ok s"
  "session_ok (s\<lparr>write_buf := b\<rparr>) = session_ok s" "session_ok (s\<lparr>options := p\<rparr>) = session_ok s"
  "session_ok (s\<lparr>ping_timer := t\<rparr>) = session_ok s" "session_ok (s\<lparr>reconnect_delay_timer := t\<rparr>) = session_ok s"
  "session_ok (s\<lparr>was_manually_disconnected := v\<rparr>) = session_ok s"
  "session_ok (s\<lparr>counter_network_disconnected := n\<rparr>) = session_ok s"
  "session_ok (s\<lparr>list_pub_wait_ack := ps\<rparr>) = session_ok s" "session_ok (s\<lparr>list_sub_wait_ack := ss\<rparr>) = session_ok s"
  "session_ok (HAL_MutexLock m s) = session_ok s" "session_ok (notify c s) = session_ok s"
  by (simp_all add: session_ok_def)

lemma session_ok_connected [simp]: "session_ok s \<Longrightarrow> session_ok (s\<lparr>is_connected := 0\<rparr>)"
  "session_ok s \<Longrightarrow> session_ok (s\<lparr>is_connected := 1\<rparr>)" "session_ok s \<Longrightarrow> session_ok (s\<lparr>is_ping_outstanding := 0\<rparr>)"
  by (simp_all add: session_ok_def)

lemma session_ok_backoff [simp]:
  "session_ok s \<Longrightarrow> session_ok (s\<lparr>current_reconnect_wait_interval := MAX_RECONNECT_WAIT_INTERVAL\<rparr>)"
  "session_ok s \<Longrightarrow> session_ok (s\<lparr>current_reconnect_wait_interval := MIN_RECONNECT_WAIT_INTERVAL\<rparr>)"
  "session_ok s \<Longrightarrow> \<not> MAX_RECONNECT_WAIT_INTERVAL < current_reconnect_wait_interval s * 2 \<Longrightarrow>
   session_ok (s\<lparr>current_reconnect_wait_interval := current_reconnect_wait_interval s * 2\<rparr>)"
proof -
  let ?i = "current_reconnect_wait_interval s"
  assume "session_ok s" and "\<not> MAX_RECONNECT_WAIT_INTERVAL < ?i * 2"
  moreover from this have "unat (?i * 2) = unat ?i * 2"
    by (subst unat_mult_lem [THEN iffD1]) (auto simp: session_ok_def word_le_nat_alt)
  ultimately show "session_ok (s\<lparr>current_reconnect_wait_interval := ?i * 2\<rparr>)"
    by (auto simp: session_ok_def word_le_nat_alt word_less_nat_alt)
qed (simp_all add: session_ok_def)

lemma mqtt_connect_session [session_dest]:
  "mqtt_connect cr hal fuel p s = Some (r, s') \<Longrightarrow> session_ok s \<Longrightarrow> session_ok s'"
  by (auto simp: mqtt_connect_def state_simps
      split: sum.split_asm prod.split_asm if_split_asm option.split_asm elim!: bind_SomeE dest!: session_dest)

lemma uiot_mqtt_connect_session [session_dest]:
  "uiot_mqtt_connect cr hal fuel p s = Some (r, s') \<Longrightarrow> session_ok s \<Longrightarrow> session_ok s'"
  by (auto simp: uiot_mqtt_connect_def state_simps split: prod.split_asm if_split_asm elim!: bind_SomeE dest!: session_dest)

lemma attempt_reconnect_session [session_dest]:
  "uiot_mqtt_attempt_reconnect cr hal fuel s = Some (r, s') \<Longrightarrow> session_ok s \<Longrightarrow> session_ok s'"
  by (auto simp: uiot_mqtt_attempt_reconnect_def state_simps split: prod.split_asm if_split_asm elim!: bind_SomeE dest!: session_dest)

lemma disconnect_session [session_dest]:
  "uiot_mqtt_disconnect hal fuel s = Some (r, s') \<Longrightarrow> session_ok s \<Longrightarrow> session_ok s'"
  by (auto simp: uiot_mqtt_disconnect_def state_simps
      split: sum.split_asm prod.split_asm if_split_asm elim!: bind_SomeE dest!: session_dest)

lemma handle_disconnect_session [session_dest]:
  "handle_disconnect hal fuel s = Some (r, s') \<Longrightarrow> session_ok s \<Longrightarrow> session_ok s'"
  by (auto simp: handle_disconnect_def state_simps split: prod.split_asm if_split_asm elim!: bind_SomeE dest!: session_dest)

lemma handle_reconnect_session [session_dest]:
  "handle_reconnect cr hal fuel s = Some (r, s') \<Longrightarrow> session_ok s \<Longrightarrow> session_ok s'"
  by (auto simp: handle_reconnect_def state_simps split: prod.split_asm if_split_asm elim!: bind_SomeE
      dest!: session_dest)

lemma ping_loop_link [link_dest]: "ping_loop hal fuel n l s = Some (r, s') \<Longrightarrow> link_frame s s'"
proof (induction n arbitrary: s)
  case (Suc n)
  from Suc.prems show ?case
    by (auto simp: link_frame_def split: prod.split_asm if_split_asm elim!: bind_SomeE dest!: link_dest Suc.IH)
qed (auto simp: link_frame_def split: prod.split_asm dest!: link_dest)

lemma session_ok_ping [simp]: "session_ok s \<Longrightarrow> k \<le> MQTT_PING_RETRY_TIMES \<Longrightarrow> session_ok (s\<lparr>is_ping_outstanding := k\<rparr>)"
  by (simp add: session_ok_def)

lemma ping_count_step [simp]: "\<not> MQTT_PING_RETRY_TIMES \<le> k \<Longrightarrow> k + 1 \<le> MQTT_PING_RETRY_TIMES"
  using inc_le [of k 2] by simp

lemma ping_loop_session [session_dest]:
  "ping_loop hal fuel n l s = Some (r, s') \<Longrightarrow> session_ok s \<Longrightarrow>
   session_ok s' \<and> (\<not> MQTT_PING_RETRY_TIMES \<le> is_ping_outstanding s \<longrightarrow> \<not> MQTT_PING_RETRY_TIMES \<le> is_ping_outstanding s')"
  using session_ok_link [of s s'] by (auto simp: link_frame_def dest!: ping_loop_link)

lemma mqtt_keep_alive_session [session_dest]:
  assumes "mqtt_keep_alive hal fuel s = Some (r, s')" and "session_ok s"
  shows "session_ok s'"
  using assms
  by (auto simp: mqtt_keep_alive_def state_simps 
      split: sum.split_asm prod.split_asm if_split_asm elim!: bind_SomeE dest!: session_dest)

lemma drop_link [simp]: "link_frame (drop_pub a s) s' = link_frame s s'" "link_frame (drop_sub a s) s' = link_frame s s'"
  by (auto simp: drop_pub_def drop_sub_def link_frame_def split: option.splits)

lemma restart_pub_link [simp]: "link_frame (restart_pub a t s) s' = link_frame s s'"
  by (simp add: restart_pub_def link_frame_def)

lemma link_frame_trans: "link_frame s t \<Longrightarrow> link_frame t u \<Longrightarrow> link_frame s u"
  by (auto simp: link_frame_def)

lemma link_frame_upd [simp]:
  "link_frame (HAL_MutexLock m s) s' = link_frame s s'" "link_frame (notify c s) s' = link_frame s s'"
  "link_frame (s\<lparr>held := h\<rparr>) s' = link_frame s s'"
  by (simp_all add: link_frame_def)

lemma link_frame_refl [simp]: "link_frame s (drop_pub a s)" "link_frame s (drop_sub a s)"
  by (auto simp: drop_pub_def drop_sub_def link_frame_def split: option.splits)

lemma pub_info_loop_link [link_dest]: "pub_info_loop hal iter a s = Some s' \<Longrightarrow> link_frame s s'"
proof (induction iter arbitrary: a s)
  case (Cons x iter)
  from Cons.prems show ?case
    by (cases x) (auto 0 5 simp: state_simps split: prod.split_asm if_split_asm elim!: bind_SomeE
      dest!: link_dest Cons.IH dest: link_frame_trans)
qed auto

lemma sub_info_loop_link [link_dest]: "sub_info_loop hal iter a s = Some s' \<Longrightarrow> link_frame s s'"
proof (induction iter arbitrary: a s)
  case (Cons x iter)
  from Cons.prems show ?case
    by (cases x) (auto 0 5 simp: state_simps split: prod.split_asm if_split_asm elim!: bind_SomeE
      dest!: link_dest Cons.IH dest: link_frame_trans)
qed auto

lemma info_proc_link [link_dest]:
  "uiot_mqtt_pub_info_proc hal s = Some (r, s') \<Longrightarrow> link_frame s s'"
  "uiot_mqtt_sub_info_proc hal s = Some (r, s') \<Longrightarrow> link_frame s s'"
  by (auto simp: uiot_mqtt_pub_info_proc_def uiot_mqtt_sub_info_proc_def state_simps link_frame_def
      split: prod.split_asm if_split_asm elim!: bind_SomeE dest!: link_dest)

lemmas info_proc_session [session_dest] = info_proc_link [THEN session_ok_link]

lemma yield_round_session [session_dest]:
  "yield_round cr hal fuel timer s = Some (r, s') \<Longrightarrow> session_ok s \<Longrightarrow> session_ok s'"
  by (auto simp: yield_round_def state_simps split: prod.split_asm if_split_asm elim!: bind_SomeE dest!: session_dest)

lemma yield_loop_session [session_dest]:
  "yield_loop cr hal fuel n timer ret s = Some (r, s') \<Longrightarrow> session_ok s \<Longrightarrow> session_ok s'"
proof (induction n arbitrary: ret s)
  case (Suc n)
  from Suc.prems show ?case
    by (auto simp: state_simps split: prod.split_asm if_split_asm elim!: bind_SomeE dest!: session_dest Suc.IH)
qed simp

lemma uiot_mqtt_yield_session [session_dest]:
  "uiot_mqtt_yield cr hal fuel ms s = Some (r, s') \<Longrightarrow> session_ok s \<Longrightarrow> session_ok s'"
  by (auto simp: uiot_mqtt_yield_def state_simps split: prod.split_asm if_split_asm dest!: session_dest)

section \<open>Properties\<close>

lemma uiot_mqtt_connect_result:
  assumes "uiot_mqtt_connect cr hal fuel p s = Some (ret, s')" and "client_inv s"
  shows "client_inv s' \<and> held s' = held s
    \<and> (if is_connected s \<noteq> 0 then ret = MQTT_ALREADY_CONNECTED \<and> s' = s
       else options s' = p
         \<and> (ret = SUCCESS_RET \<longleftrightarrow> is_connected s' = CONNECTED)
         \<and> (ret = SUCCESS_RET \<longrightarrow> connack_in s' \<and> is_ping_outstanding s' = 0 \<and> was_manually_disconnected s' = 0)
         \<and> (ret \<noteq> SUCCESS_RET \<longrightarrow> is_connected s' = DISCONNECTED))"
proof -
  have k: "client_inv s' \<and> held s' = held s"
    using uiot_mqtt_connect_keeps [OF assms] assms(2) by (simp add: keeps_def)
  show ?thesis
  proof (cases "is_connected s = 0")
    case True
    with assms(1) obtain s1 where c: "mqtt_connect cr hal fuel (Some p) s = Some (ret, s1)"
      and s': "s' = (if ret \<noteq> SUCCESS_RET then s1\<lparr>os := net_disconnect hal (os s1)\<rparr> else s1)"
      by (auto simp: uiot_mqtt_connect_def get_client_conn_state_def state_simps HAL_MutexLock_def elim!: bind_SomeE split: prod.split_asm)
    from mqtt_connect_result [OF c assms(2)] True k s' show ?thesis
      by (auto simp: copy_connect_params_def connack_in_def split: if_split_asm)
  next
    case False
    with assms(1) k show ?thesis
      by (auto simp: uiot_mqtt_connect_def get_client_conn_state_def state_simps HAL_MutexLock_def elim!: bind_SomeE)
  qed
qed


definition bare_packet :: "MessageTypes \<Rightarrow> 'w sys \<Rightarrow> bytes" where
  "bare_packet t s = mqtt_packet (header_byte t QOS0 0 0) [] @ drop 2 (write_buf s)"

lemma bare_packet_simps [simp]:
  "bare_packet t (s\<lparr>os := w\<rparr>) = bare_packet t s" "bare_packet t (HAL_MutexLock m s) = bare_packet t s"
  by (simp_all add: bare_packet_def HAL_MutexLock_def)

lemma bare_packet_written:
  assumes "client_inv s" and "t \<noteq> RESERVED"
  shows "serialize_packet_with_zero_payload (write_buf s) (write_buf_size s) t = Some (Inr (bare_packet t s, 2))"
    and "length (bare_packet t s) = 2048"
  using zero_payload_written [of "write_buf_size s" "write_buf s" t] assms(2) client_inv_sizes [OF assms(1)]
  by (simp_all add: bare_packet_def mqtt_packet_def)

lemma pingreq_bytes [simp]: "take 2 (bare_packet PINGREQ s) = [0xC0, 0]"
proof -
  have "header_byte PINGREQ QOS0 0 0 = 0xC0" by code_simp
  then show ?thesis by (simp add: bare_packet_def mqtt_packet_def)
qed

text \<open>What the keep-alive check does when the ping timer has expired.\<close>

definition link_lost :: "'w sys \<Rightarrow> 'w sys \<Rightarrow> bool" where
  "link_lost s s' \<longleftrightarrow> is_connected s' = DISCONNECTED \<and> was_manually_disconnected s' = 0
     \<and> calls s' = calls s @ (if event_handler s = None then [] else [Event MQTT_EVENT_DISCONNECT])"

definition ping_sent :: "'w sys \<Rightarrow> 'w sys \<Rightarrow> bool" where
  "ping_sent s s' \<longleftrightarrow> is_connected s' = is_connected s \<and> is_ping_outstanding s' = is_ping_outstanding s + 1
     \<and> calls s' = calls s \<and> take 2 (write_buf s') = [0xC0, 0]"

context network
begin

lemma uiot_mqtt_disconnect_returns:
  assumes "client_inv s" and "is_connected s \<noteq> 0" and "2 < fuel"
  shows "\<exists>w. uiot_mqtt_disconnect hal fuel s = Some (SUCCESS_RET,
    s\<lparr>write_buf := bare_packet DISCONNECT s, os := w, is_connected := DISCONNECTED, was_manually_disconnected := 1\<rparr>)"
proof -
  obtain t w where t: "countdown_ms hal (command_timeout_ms s)
      ((HAL_MutexLock lock_write_buf s)\<lparr>write_buf := bare_packet DISCONNECT s\<rparr>)
    = (t, (HAL_MutexLock lock_write_buf s)\<lparr>write_buf := bare_packet DISCONNECT s, os := w\<rparr>)"
    by (fastforce simp: countdown_ms_def Let_def HAL_MutexLock_def split: prod.splits)
  let ?s = "(HAL_MutexLock lock_write_buf s)\<lparr>write_buf := bare_packet DISCONNECT s, os := w\<rparr>"
  have "client_inv ?s" using assms(1) bare_packet_written(2) [of s DISCONNECT] client_inv_sizes [OF assms(1)] by simp
  from send_mqtt_packet_returns [OF this, of 2 fuel t] assms(3) obtain r w' where
    "send_mqtt_packet hal fuel 2 t ?s = Some (r, ?s\<lparr>os := w'\<rparr>)"
    by (auto simp: returns_def elim!: os_frameE)
  with t bare_packet_written(1) [OF assms(1), of DISCONNECT] assms(2) show ?thesis
    by (auto simp: uiot_mqtt_disconnect_def Let_def HAL_MutexLock_def HAL_MutexUnlock_def)
qed

lemma handle_disconnect_returns:
  assumes "client_inv s" and "is_connected s \<noteq> 0" and "2 < fuel"
  shows "\<exists>w. handle_disconnect hal fuel s = Some (ERR_MQTT_NO_CONN, notify (Event MQTT_EVENT_DISCONNECT)
    (s\<lparr>write_buf := bare_packet DISCONNECT s, os := w, is_connected := DISCONNECTED, was_manually_disconnected := 0\<rparr>))"
proof -
  from uiot_mqtt_disconnect_returns [OF assms] obtain w where d: "uiot_mqtt_disconnect hal fuel s = Some (SUCCESS_RET,
    s\<lparr>write_buf := bare_packet DISCONNECT s, os := w, is_connected := DISCONNECTED, was_manually_disconnected := 1\<rparr>)" ..
  show ?thesis by (rule exI [of _ w]) (use assms(2) in \<open>simp add: d handle_disconnect_def notify_def Let_def\<close>)
qed

lemma ping_loop_returns:
  assumes "client_inv s" and "unat l \<le> 1024" and "unat l < fuel"
  shows "returns (ping_loop hal fuel n l s) (\<lambda>x. os_frame s (snd x) \<and> fst x \<in> {SUCCESS_RET, FAILURE_RET})"
  using assms(1)
proof (induction n arbitrary: s)
  case 0
  obtain t s1 where t: "countdown_ms hal (command_timeout_ms s) s = (t, s1)" by fastforce
  note f = clock_frames(4) [OF t]
  with 0 have "client_inv s1" by (auto elim!: os_frameE)
  from send_mqtt_packet_returns [OF this assms(2,3), of t] f t show ?case
    by (auto simp: returns_def intro: os_frame_trans)
next
  case (Suc n)
  obtain t s1 where t: "countdown_ms hal (command_timeout_ms s) s = (t, s1)" by fastforce
  note f = clock_frames(4) [OF t]
  with Suc.prems have "client_inv s1" by (auto elim!: os_frameE)
  from send_mqtt_packet_returns [OF this assms(2,3), of t] f obtain r s2 where
    s2: "send_mqtt_packet hal fuel l t s1 = Some (r, s2)" "os_frame s s2" "r \<in> {SUCCESS_RET, FAILURE_RET}"
    by (auto simp: returns_def intro: os_frame_trans)
  with Suc.prems have "client_inv s2" by (auto elim!: os_frameE)
  from Suc.IH [OF this] s2 t show ?case by (auto simp: returns_def intro: os_frame_trans)
qed

lemma handle_disconnect_lost:
  assumes "client_inv s" and "is_connected s \<noteq> 0" and "2 < fuel"
  shows "\<exists>s'. handle_disconnect hal fuel s = Some (ERR_MQTT_NO_CONN, s') \<and> link_lost s s'"
  using handle_disconnect_returns [OF assms] by (auto simp: link_lost_def notify_def)

lemma keep_alive_expired:
  assumes "client_inv s" and "is_connected s \<noteq> 0" and "2 < fuel" and "keep_alive_interval (options s) \<noteq> 0"
    and "has_expired hal (ping_timer s) s = (True, s1)"
  shows "\<exists>ret s'. mqtt_keep_alive hal fuel s = Some (ret, s')
    \<and> (ret = ERR_MQTT_NO_CONN \<and> link_lost s s' \<or>
       ret = SUCCESS_RET \<and> is_ping_outstanding s < MQTT_PING_RETRY_TIMES \<and> ping_sent s s')"
proof -
  from clock_frames(1) [OF assms(5)] obtain w where s1: "s1 = s\<lparr>os := w\<rparr>" by (erule os_frameE)
  show ?thesis
  proof (cases "is_ping_outstanding s \<ge> MQTT_PING_RETRY_TIMES")
    case True
    from handle_disconnect_lost [of s1 fuel] assms s1 True show ?thesis
      by (auto simp: mqtt_keep_alive_def link_lost_def)
  next
    case False
    let ?s = "(HAL_MutexLock lock_write_buf s1)\<lparr>write_buf := bare_packet PINGREQ s1\<rparr>"
    have i: "client_inv s1" "length (write_buf s) = 2048" using assms(1) s1 client_inv_sizes [OF assms(1)] by simp_all
    note b = bare_packet_written [OF i(1), of PINGREQ]
    have "client_inv ?s" using i b(2) s1 by simp
    from ping_loop_returns [OF this, of 2 fuel 3] assms(3) obtain r u where
      p: "ping_loop hal fuel 3 2 ?s = Some (r, ?s\<lparr>os := u\<rparr>)" "r \<in> {SUCCESS_RET, FAILURE_RET}"
      by (auto simp: returns_def elim!: os_frameE)
    let ?s2 = "s\<lparr>write_buf := bare_packet PINGREQ s, os := u\<rparr>"
    show ?thesis
    proof (cases "r = SUCCESS_RET")
      case True
      with p b False assms(4,5) s1 show ?thesis
        by (auto simp: mqtt_keep_alive_def Let_def HAL_MutexLock_def HAL_MutexUnlock_def ping_sent_def countdown_def
            not_le split: prod.splits)
    next
      case r: False
      have "client_inv ?s2" using i b(2) s1 assms(1) by simp
      from handle_disconnect_lost [of ?s2 fuel, OF this] assms(2,3) p b False r assms(4,5) s1 show ?thesis
        by (auto simp: mqtt_keep_alive_def Let_def HAL_MutexLock_def HAL_MutexUnlock_def link_lost_def)
    qed
  qed
qed

end



section \<open>Return codes of a failed connection attempt\<close>

named_theorems code_dest \<open>return codes are 0 or negative\<close>

lemma net_read_code [code_dest]:
  "decode_packet_rem_len_with_net_read hal l m v t s = Some (Inl r, s') \<Longrightarrow> r \<le> 0"
proof (induction "4 - l" arbitrary: l m v s)
  case 0
  then show ?case by (simp add: decode_packet_rem_len_with_net_read.simps [of hal l m v t s])
next
  case (Suc j)
  have "j = 4 - Suc l" using Suc.hyps(2) by simp
  note IH = Suc.hyps(1) [OF this]
  from Suc.prems show ?case
    unfolding decode_packet_rem_len_with_net_read.simps [of hal l m v t s]
    by (auto simp: Let_def split: if_split_asm prod.split_asm list.split_asm dest: IH)
qed

lemma read_code [code_dest]: "read_mqtt_packet hal fuel timer s = Some ((r, t), s') \<Longrightarrow> r \<le> 0"
  by (auto simp: read_mqtt_packet_def read_packet_body_def Let_def split: if_split_asm prod.split_asm sum.split_asm
      elim!: bind_SomeE dest!: code_dest)

lemma deserialize_code [code_dest]:
  "mqtt_read_packet_rem_len_form_buf buf p = Some (Inl r) \<Longrightarrow> r \<le> 0"
  "suback_loop k buf p mc c qs = Some (Inl r) \<Longrightarrow> r \<le> 0"
  by (auto simp: mqtt_read_packet_rem_len_form_buf_def dest!: decode_error)
    (induction k arbitrary: p c qs, auto split: if_split_asm prod.split_asm elim!: bind_SomeE)

lemma deserialize_ack_code [code_dest]:
  "deserialize_ack_packet buf n = Some (Inl r) \<Longrightarrow> r \<le> 0"
  "deserialize_suback_packet mc qs buf n = Some (Inl r) \<Longrightarrow> r \<le> 0"
  "deserialize_publish_packet buf n = Some (Inl r) \<Longrightarrow> r \<le> 0"
  "deserialize_connack_packet buf n = Some (Inl r) \<Longrightarrow> r \<le> 0"
  "deserialize_connack_packet buf n = Some (Inr (sp, rc)) \<Longrightarrow> rc \<noteq> MQTT_CONNECTION_ACCEPTED \<longrightarrow> rc \<le> 0"
  by (auto simp: deserialize_ack_packet_def deserialize_suback_packet_def deserialize_publish_packet_def
      deserialize_connack_packet_def connack_return_code_def Let_def
      split: if_split_asm sum.split_asm prod.split_asm option.split_asm elim!: bind_SomeE dest!: code_dest)

lemma serialize_code [code_dest]:
  "deserialize_unsuback_packet buf n = Some (Inl r) \<Longrightarrow> r \<le> 0"
  "serialize_pub_ack_packet buf n t d i = Some (Inl r) \<Longrightarrow> r \<le> 0"
  "serialize_connect_packet buf n p = Some (Inl r) \<Longrightarrow> r \<le> 0"
  by (auto simp: deserialize_unsuback_packet_def serialize_pub_ack_packet_def serialize_connect_packet_def
      mqtt_init_packet_header_def Let_def
      split: if_split_asm sum.split_asm prod.split_asm option.split_asm elim!: bind_SomeE dest!: code_dest)

lemma send_code [code_dest]: "send_mqtt_packet hal fuel l timer s = Some (r, s') \<Longrightarrow> r \<le> 0"
  by (auto simp: send_mqtt_packet_def split: if_split_asm elim!: bind_SomeE)

lemma handler_code [code_dest]:
  "handle_puback_packet hal s = Some (r, s') \<Longrightarrow> r \<le> 0"
  "handle_suback_packet hal s = Some (r, s') \<Longrightarrow> r \<le> 0"
  "handle_unsuback_packet hal s = Some (r, s') \<Longrightarrow> r \<le> 0"
  "send_pub_ack hal fuel t i timer s = Some (r, s') \<Longrightarrow> r \<le> 0"
  "deliver_message tn k m s = Some (r, s') \<Longrightarrow> r \<le> 0"
  by (auto simp: handle_puback_packet_def handle_suback_packet_def handle_unsuback_packet_def send_pub_ack_def
      deliver_message_def mask_pubInfo_from_def mask_sub_info_from_def Let_def
      split: if_split_asm sum.split_asm prod.split_asm elim!: bind_SomeE dest!: code_dest)

lemma publish_code [code_dest]:
  "handle_publish_packet cr hal fuel timer s = Some (r, s') \<Longrightarrow> r \<le> 0"
  "handle_pubrec_packet hal fuel timer s = Some (r, s') \<Longrightarrow> r \<le> 0"
  by (auto simp: handle_publish_packet_def handle_pubrec_packet_def Let_def
      split: if_split_asm sum.split_asm prod.split_asm elim!: bind_SomeE dest!: code_dest)

lemma cycle_code [code_dest]: "cycle_for_read cr hal fuel timer pt s = Some ((r, t), s') \<Longrightarrow> r \<le> 0"
  by (auto simp: cycle_for_read_def dispatch_packet_def Let_def
      split: if_split_asm option.split_asm prod.split_asm elim!: bind_SomeE dest!: code_dest)

lemma wait_code [code_dest]: "wait_for_read cr hal fuel p timer s = Some (r, s') \<Longrightarrow> r \<le> 0"
proof -
  have "wait_for_read_loop cr hal fuel n p timer t u = Some (r, s') \<Longrightarrow> r \<le> 0" for n t u
    by (induction n arbitrary: t u) (auto split: prod.split_asm if_split_asm elim!: bind_SomeE dest!: code_dest)
  then show "wait_for_read cr hal fuel p timer s = Some (r, s') \<Longrightarrow> r \<le> 0" by (simp add: wait_for_read_def)
qed

lemma mqtt_connect_code:
  assumes "mqtt_connect cr hal fuel p s = Some (r, s')" and "\<And>w. fst (net_connect hal w) \<le> 0"
  shows "r \<le> 0"
proof -
  have "net_connect hal w = (x, w') \<Longrightarrow> x \<le> 0" for w x w' using assms(2) [of w] by simp
  with assms(1) show ?thesis
    by (auto simp: mqtt_connect_def Let_def
        split: if_split_asm sum.split_asm prod.split_asm option.split_asm elim!: bind_SomeE dest!: code_dest)
qed


lemma attempt_reconnect_result:
  assumes "uiot_mqtt_attempt_reconnect cr hal fuel s = Some (ret, s')" and "client_inv s" and "is_connected s = 0"
    and "\<And>w. fst (net_connect hal w) \<le> 0"
  shows "current_reconnect_wait_interval s' = current_reconnect_wait_interval s \<and> event_handler s' = event_handler s
    \<and> options s' = options s \<and> (ret = MQTT_RECONNECTED \<longrightarrow> is_connected s' = CONNECTED)"
proof -
  from assms(1,3) obtain r1 s1 where c: "uiot_mqtt_connect cr hal fuel (options s) s = Some (r1, s1)"
    and rest: "if is_connected s1 = 0 then ret = r1 \<and> s' = s1
       else \<exists>r. uiot_mqtt_resubscribe hal fuel s1 = Some (r, s') \<and> ret = (if r \<noteq> SUCCESS_RET then r else MQTT_RECONNECTED)"
    by (auto simp: uiot_mqtt_attempt_reconnect_def split: prod.split_asm if_split_asm elim!: bind_SomeE)
  from c assms(3) obtain s2 where m: "mqtt_connect cr hal fuel (Some (options s)) s = Some (r1, s2)"
    and s1: "s1 = (if r1 \<noteq> SUCCESS_RET then s2\<lparr>os := net_disconnect hal (os s2)\<rparr> else s2)"
    by (auto simp: uiot_mqtt_connect_def elim!: bind_SomeE split: prod.split_asm)
  from mqtt_connect_code [OF m assms(4)] mqtt_connect_result [OF m assms(2)] s1 assms(3) rest show ?thesis
    by (auto simp: copy_connect_params_def link_frame_def split: if_split_asm dest!: resubscribe_link)
qed

text \<open>
  C18. Reconnecting with a growing delay.  While the delay timer runs, \<open>_handle_reconnect\<close> on a disconnected client does nothing;
  afterwards it makes one attempt.  If that succeeds the client is connected and the last call to the application is
  the RECONNECT event; otherwise the delay is doubled up to 60 seconds and the timer is armed
  with it, and the caller sees \<open>ERR_MQTT_ATTEMPTING_RECONNECT\<close>: with \<open>ENABLE_INFINITE_RECONNECT\<close> the client never gives up.
  A delay of 0, which \<open>uiot_mqtt_init\<close> leaves, stays 0.
  \<open>net_connect\<close> is assumed to return 0 or a negative error code.
\<close>
theorem reconnect_backoff:
  assumes "handle_reconnect cr hal fuel s = Some (ret, s')" and "client_inv s" and "session_ok s" and "is_connected s = 0"
    and "\<And>w. fst (net_connect hal w) \<le> 0"
  shows "client_inv s' \<and> session_ok s' \<and> held s' = held s
    \<and> (if \<not> fst (has_expired hal (reconnect_delay_timer s) s)
       then ret = ERR_MQTT_ATTEMPTING_RECONNECT \<and> s' = s\<lparr>os := os s'\<rparr>
       else if ret = MQTT_RECONNECTED
       then is_connected s' = CONNECTED \<and> (event_handler s \<noteq> None \<longrightarrow> (\<exists>cs. calls s' = cs @ [Event MQTT_EVENT_RECONNECT]))
       else ret = ERR_MQTT_ATTEMPTING_RECONNECT
         \<and> uint (current_reconnect_wait_interval s') = min 60000 (2 * uint (current_reconnect_wait_interval s))
         \<and> (\<exists>w. reconnect_delay_timer s' = fst (countdown_ms_w hal (current_reconnect_wait_interval s') w)))"
proof -
  obtain b s1 where e: "has_expired hal (reconnect_delay_timer s) s = (b, s1)" by fastforce
  from clock_frames(1) [OF e] obtain w where s1: "s1 = s\<lparr>os := w\<rparr>" by (erule os_frameE)
  have k: "client_inv s' \<and> session_ok s' \<and> held s' = held s"
    using handle_reconnect_keeps [OF assms(1,2)] handle_reconnect_session [OF assms(1,3)] assms(2) by (simp add: keeps_def)
  have i: "uint (current_reconnect_wait_interval s * 2) = 2 * uint (current_reconnect_wait_interval s)"
    using assms(3) by (simp add: session_ok_def word_le_def uint_word_ariths)
  show ?thesis
  proof (cases b)
    case False
    with assms(1) e s1 k show ?thesis by (auto simp: handle_reconnect_def)
  next
    case True
    with assms(1) e obtain r s2 where a: "uiot_mqtt_attempt_reconnect cr hal fuel s1 = Some (r, s2)"
      by (auto simp: handle_reconnect_def elim!: bind_SomeE)
    have "client_inv s1" "is_connected s1 = 0" using assms(2,4) s1 by simp_all
    note q = attempt_reconnect_result [OF a this assms(5)]
    show ?thesis
      using assms(1) e True a q s1 k i
      by (auto simp: handle_reconnect_def notify_def countdown_ms_def Let_def word_less_def split: prod.split_asm if_split_asm)
        (metis fst_conv)+
  qed
qed


text \<open>A platform on which connecting fails, and a disconnected client whose delay timer has run out.\<close>

definition refused_hal :: "(u32 \<times> bytes) hal" where
  "refused_hal = demo_hal\<lparr>net_connect := (\<lambda>w. (FAILURE_RET, w))\<rparr>"

definition waiting_sys :: "(u32 \<times> bytes) sys" where
  "waiting_sys = (demo_sys [0x20, 2, 0, 0])\<lparr>is_connected := 0, os := (9, [0x20, 2, 0, 0])\<rparr>"

lemma waiting_sys_ok [simp]: "client_inv waiting_sys" "session_ok waiting_sys" "is_connected waiting_sys = 0"
  using demo_sys_inv [of "[0x20, 2, 0, 0]"] by (simp_all add: waiting_sys_def client_inv_def session_ok_def demo_sys_def)

theorem reconnect_backoff_witness:
  "\<exists>s'. handle_reconnect True refused_hal 10 waiting_sys = Some (ERR_MQTT_ATTEMPTING_RECONNECT, s')
    \<and> uint (current_reconnect_wait_interval s') = 2000"
proof -
  have e: "fst (has_expired refused_hal (reconnect_delay_timer waiting_sys) waiting_sys)" by code_simp
  have "map_option fst (handle_reconnect True refused_hal 10 waiting_sys) = Some ERR_MQTT_ATTEMPTING_RECONNECT"
    by code_simp
  then obtain s' where r: "handle_reconnect True refused_hal 10 waiting_sys = Some (ERR_MQTT_ATTEMPTING_RECONNECT, s')"
    by auto
  have c: "fst (net_connect refused_hal w) \<le> 0" for w by (simp add: refused_hal_def)
  have "uint (current_reconnect_wait_interval waiting_sys) = 1000" by (simp add: waiting_sys_def demo_sys_def)
  with reconnect_backoff [OF r _ _ _ c] r e show ?thesis by simp
qed


text \<open>
  A client that was disconnected on purpose stays disconnected.  Over the TCP port \<open>uiot_mqtt_disconnect\<close> on a connected client
  returns success with the client disconnected, whether or not the DISCONNECT packet could be sent, and calls nothing of the
  application; every later \<open>uiot_mqtt_yield\<close> with a timeout changes nothing and returns
  \<open>MQTT_MANUALLY_DISCONNECTED\<close>, even with automatic reconnection; a second \<open>uiot_mqtt_disconnect\<close> is refused.
\<close>
theorem manual_disconnect_final:
  assumes "client_inv s" and "is_connected s \<noteq> 0" and "2 < fuel" and "ms \<noteq> 0"
  shows "\<exists>s'. uiot_mqtt_disconnect (tcp_hal sock k hal) fuel s = Some (SUCCESS_RET, s') \<and> client_inv s' \<and> held s' = held s
    \<and> is_connected s' = DISCONNECTED \<and> calls s' = calls s \<and> take 2 (write_buf s') = [0xE0, 0]
    \<and> uiot_mqtt_yield cr hal' fuel' ms s' = Some (MQTT_MANUALLY_DISCONNECTED, s')
    \<and> uiot_mqtt_disconnect hal' fuel' s' = Some (ERR_MQTT_NO_CONN, s')"
proof -
  have h: "header_byte DISCONNECT QOS0 0 0 = 0xE0" by code_simp
  from tcp.uiot_mqtt_disconnect_returns [OF assms(1-3), of sock k hal] obtain w where
    d: "uiot_mqtt_disconnect (tcp_hal sock k hal) fuel s = Some (SUCCESS_RET,
      s\<lparr>write_buf := bare_packet DISCONNECT s, os := w, is_connected := DISCONNECTED, was_manually_disconnected := 1\<rparr>)" ..
  from uiot_mqtt_disconnect_keeps [OF d assms(1)] assms(1,4) show ?thesis
    by (simp add: d keeps_def uiot_mqtt_yield_def) (simp add: uiot_mqtt_disconnect_def bare_packet_def mqtt_packet_def h)
qed

theorem manual_disconnect_final_witness:
  "\<exists>s'. uiot_mqtt_disconnect (tcp_hal demo_sock 100 demo_hal) 10 (demo_sys []) = Some (SUCCESS_RET, s')
    \<and> uiot_mqtt_yield True demo_hal 10 1000 s' = Some (MQTT_MANUALLY_DISCONNECTED, s')"
  using manual_disconnect_final [OF demo_sys_inv, of "[]" 10 1000 demo_sock 100 demo_hal True demo_hal 10]
  by (auto simp: demo_sys_def)

end
