(* ===== verification/Mqtt_Timeouts.thy ===== *)
theory Mqtt_Timeouts
  imports Mqtt_Session
begin

text \<open>
  Requests that are never acknowledged (\<^verbatim>\<open>mqtt_client_yield.c\<close>): what \<open>uiot_mqtt_pub_info_proc\<close> and
  \<open>uiot_mqtt_sub_info_proc\<close> do to the two waiting lists.  The two loops have the same shape; the locale \<open>expiry_scan\<close>
  states it and proves their effect once.
\<close>

section \<open>Reading the clock\<close>

definition tick_step :: "'w hal \<Rightarrow> 'w \<Rightarrow> 'w \<Rightarrow> bool" where
  "tick_step hal w w' \<longleftrightarrow> w' = snd (rt_tick_get hal w)"

abbreviation clock_run :: "'w hal \<Rightarrow> 'w \<Rightarrow> 'w \<Rightarrow> bool" where
  "clock_run hal \<equiv> (tick_step hal)\<^sup>*\<^sup>*"

lemma clock_run_left_ms:
  "left_ms hal t s = (n, s') \<Longrightarrow> n = fst (left_ms_w hal t (os s)) \<and> s' = s\<lparr>os := os s'\<rparr> \<and> clock_run hal (os s) (os s')"
  by (auto simp: left_ms_def left_ms_w_def HAL_Timer_Remain_ms_def tick_step_def Let_def split: prod.split_asm)

lemma clock_run_countdown_ms:
  "countdown_ms hal ms s = (t, s') \<Longrightarrow> s' = s\<lparr>os := os s'\<rparr> \<and> clock_run hal (os s) (os s')"
  by (auto simp: countdown_ms_def countdown_ms_w_def HAL_Timer_Countdown_ms_def tick_step_def Let_def split: prod.split_asm)

section \<open>Scanning a waiting list\<close>

text \<open>
  The state in which a node of the list is examined: only the clock has been read since \<open>s\<close>.
\<close>

definition timed_out :: "'w hal \<Rightarrow> 'w \<Rightarrow> Timer \<Rightarrow> bool \<Rightarrow> bool" where
  "timed_out hal w t b \<longleftrightarrow> (\<exists>w'. clock_run hal w w' \<and> (fst (left_ms_w hal t w') \<le> 0 \<longleftrightarrow> b))"

lemma timed_out_later: "timed_out hal w' t b \<Longrightarrow> clock_run hal w w' \<Longrightarrow> timed_out hal w t b"
  by (auto simp: timed_out_def intro: rtranclp_trans)

locale expiry_scan =
  fixes hal :: "'w hal"
    and loop :: "(addr \<times> 'n) list \<Rightarrow> addr option \<Rightarrow> 'w sys \<Rightarrow> 'w sys option"
    and nodes :: "'w sys \<Rightarrow> (addr \<times> 'n) list"
    and ready :: "'w sys \<Rightarrow> bool"
    and invalid :: "'n \<Rightarrow> bool" and start :: "'n \<Rightarrow> Timer" and event :: "'n \<Rightarrow> callback"
    and take_out :: "addr option \<Rightarrow> 'w sys \<Rightarrow> 'w sys"
    and expire :: "addr \<Rightarrow> 'n \<Rightarrow> 'w sys \<Rightarrow> 'w sys option"
  assumes loop_Nil: "loop [] t s = Some (take_out t s)"
    and loop_Cons: "loop ((a, n) # iter) t s =
      (let s = take_out t s in
       if invalid n then loop iter (Some a) s
       else if is_connected s = 0 then loop iter None s
       else let (left, s) = left_ms hal (start n) s in
         if left > 0 then loop iter None s else expire a n s \<bind> loop iter (Some a))"
    and take_out: "nodes (take_out t s) = filter (\<lambda>x. Some (fst x) \<noteq> t) (nodes s)"
      "ready (take_out t s) = ready s" "os (take_out t s) = os s" "calls (take_out t s) = calls s"
      "is_connected (take_out t s) = is_connected s" "event_handler (take_out t s) = event_handler s"
    and clock: "nodes (s\<lparr>os := w\<rparr>) = nodes s" "ready (s\<lparr>os := w\<rparr>) = ready s"
    and expire: "ready s \<Longrightarrow> \<exists>s'. expire a n s = Some s' \<and> ready s' \<and> clock_run hal (os s) (os s')
      \<and> filter (\<lambda>x. fst x \<noteq> a) (nodes s') = filter (\<lambda>x. fst x \<noteq> a) (nodes s)
      \<and> calls s' = calls (notify (event n) s) \<and> is_connected s' = is_connected s \<and> event_handler s' = event_handler s"
begin

text \<open>
  The nodes \<open>R\<close> that are taken out are those already marked invalid and, on a connected client, those whose time is
  over; each of the latter is reported once, in the order of the scan.
\<close>

definition settled :: "'w sys \<Rightarrow> addr set \<Rightarrow> addr \<times> 'n \<Rightarrow> bool" where
  "settled s R x \<longleftrightarrow>
     (if fst x \<in> R then invalid (snd x) \<or> is_connected s \<noteq> 0 \<and> timed_out hal (os s) (start (snd x)) True
      else \<not> invalid (snd x) \<and> (is_connected s = 0 \<or> timed_out hal (os s) (start (snd x)) False))"

definition scanned :: "'w sys \<Rightarrow> (addr \<times> 'n) list \<Rightarrow> addr set \<Rightarrow> 'w sys \<Rightarrow> bool" where
  "scanned s iter R s' \<longleftrightarrow> R \<subseteq> fst ` set iter \<and> (\<forall>x\<in>set iter. settled s R x)
     \<and> calls s' = calls s @ (if event_handler s = None then [] else map (event \<circ> snd) (filter (\<lambda>x. fst x \<in> R \<and> \<not> invalid (snd x)) iter))"

lemma scanned_Cons:
  assumes "scanned s1 iter R s'" and "a \<notin> fst ` set iter" and "clock_run hal (os s) (os s1)"
    and "is_connected s1 = is_connected s" and "event_handler s1 = event_handler s"
  shows "\<not> invalid n \<Longrightarrow> calls s1 = calls s \<Longrightarrow> is_connected s = 0 \<or> timed_out hal (os s) (start n) False \<Longrightarrow>
      scanned s ((a, n) # iter) R s'"
    and "invalid n \<Longrightarrow> calls s1 = calls s \<Longrightarrow> scanned s ((a, n) # iter) (insert a R) s'"
    and "\<not> invalid n \<Longrightarrow> calls s1 = calls (notify (event n) s) \<Longrightarrow> is_connected s \<noteq> 0 \<Longrightarrow> timed_out hal (os s) (start n) True \<Longrightarrow>
      scanned s ((a, n) # iter) (insert a R) s'"
proof -
  have R: "R \<subseteq> fst ` set iter" "a \<notin> R" using assms(1,2) by (auto simp: scanned_def)
  have f: "filter (\<lambda>x. fst x \<in> insert a R \<and> \<not> invalid (snd x)) iter = filter (\<lambda>x. fst x \<in> R \<and> \<not> invalid (snd x)) iter"
    using assms(2) by (intro filter_cong) auto
  have later: "timed_out hal (os s1) t b \<Longrightarrow> timed_out hal (os s) t b" for t b
    using assms(3) by (rule timed_out_later [rotated])
  have v: "settled s R x" "settled s (insert a R) x" if "x \<in> set iter" for x
  proof -
    have "settled s1 R x" "fst x \<noteq> a" using assms(1,2) that by (auto simp: scanned_def)
    then show "settled s R x" "settled s (insert a R) x" using assms(4) later by (auto simp: settled_def split: if_splits)
  qed
  have h: "\<not> invalid n \<Longrightarrow> is_connected s = 0 \<or> timed_out hal (os s) (start n) False \<Longrightarrow> settled s R (a, n)"
    "invalid n \<or> is_connected s \<noteq> 0 \<and> timed_out hal (os s) (start n) True \<Longrightarrow> settled s (insert a R) (a, n)"
    using R(2) by (auto simp: settled_def)
  have d: "calls s' = calls s1 @ (if event_handler s = None then []
    else map (event \<circ> snd) (filter (\<lambda>x. fst x \<in> R \<and> \<not> invalid (snd x)) iter))" using assms(1,5) by (simp add: scanned_def)
  show "\<not> invalid n \<Longrightarrow> calls s1 = calls s \<Longrightarrow> is_connected s = 0 \<or> timed_out hal (os s) (start n) False \<Longrightarrow>
      scanned s ((a, n) # iter) R s'"
    using d R v h by (auto simp: scanned_def)
  show "invalid n \<Longrightarrow> calls s1 = calls s \<Longrightarrow> scanned s ((a, n) # iter) (insert a R) s'"
    using d R v f h by (auto simp: scanned_def)
  show "\<not> invalid n \<Longrightarrow> calls s1 = calls (notify (event n) s) \<Longrightarrow> is_connected s \<noteq> 0 \<Longrightarrow> timed_out hal (os s) (start n) True \<Longrightarrow>
      scanned s ((a, n) # iter) (insert a R) s'"
    using d R v f h by (auto simp: scanned_def notify_def)
qed

lemma scan:
  assumes "ready s" and "distinct (map fst iter)"
  shows "\<exists>s' R. loop iter t s = Some s' \<and> ready s' \<and> scanned s iter R s'
    \<and> nodes s' = filter (\<lambda>x. fst x \<notin> R \<and> Some (fst x) \<noteq> t) (nodes s)"
  using assms
proof (induction iter arbitrary: t s)
  case Nil
  then show ?case by (simp add: loop_Nil take_out scanned_def)
next
  case (Cons x iter)
  obtain a n where x: "x = (a, n)" by (cases x)
  with Cons.prems(2) have d: "a \<notin> fst ` set iter" "distinct (map fst iter)" by simp_all
  let ?s = "take_out t s"
  have r: "ready ?s" using Cons.prems(1) by (simp add: take_out)
  note sc = scanned_Cons [OF _ d(1)]
  consider "invalid n" | "\<not> invalid n" "is_connected ?s = 0" | "\<not> invalid n" "is_connected ?s \<noteq> 0" by blast
  then show ?case
  proof cases
    case 1
    from Cons.IH [OF r d(2), of "Some a"] obtain s' R where
      s': "loop iter (Some a) ?s = Some s'" "ready s'" "scanned ?s iter R s'"
      "nodes s' = filter (\<lambda>x. fst x \<notin> R \<and> Some (fst x) \<noteq> Some a) (nodes ?s)" by blast
    from sc(2) [OF s'(3), of s n] 1 s' show ?thesis
      by (intro exI [of _ s'] exI [of _ "insert a R"]) (auto simp: x loop_Cons take_out intro!: filter_cong)
  next
    case 2
    from Cons.IH [OF r d(2), of None] obtain s' R where
      s': "loop iter None ?s = Some s'" "ready s'" "scanned ?s iter R s'"
      "nodes s' = filter (\<lambda>x. fst x \<notin> R \<and> Some (fst x) \<noteq> None) (nodes ?s)" by blast
    from sc(1) [OF s'(3), of s n] 2 s' show ?thesis
      by (intro exI [of _ s'] exI [of _ R]) (auto simp: x loop_Cons take_out intro!: filter_cong)
  next
    case 3
    obtain l s1 where l: "left_ms hal (start n) ?s = (l, s1)" by fastforce
    note c = clock_run_left_ms [OF l]
    define w where "w = os s1"
    with c have s1: "s1 = ?s\<lparr>os := w\<rparr>" "clock_run hal (os s) w" by (simp_all add: take_out)
    have r1: "ready s1" using r s1 by (simp add: clock)
    have tm: "timed_out hal (os s) (start n) (l \<le> 0)" using c by (auto simp: timed_out_def take_out)
    show ?thesis
    proof (cases "l > 0")
      case True
      from Cons.IH [OF r1 d(2), of None] obtain s' R where
        s': "loop iter None s1 = Some s'" "ready s'" "scanned s1 iter R s'"
        "nodes s' = filter (\<lambda>x. fst x \<notin> R \<and> Some (fst x) \<noteq> None) (nodes s1)" by blast
      from sc(1) [OF s'(3), of s n] 3 s' s1 l True tm show ?thesis
        by (intro exI [of _ s'] exI [of _ R]) (auto simp: x loop_Cons take_out clock intro!: filter_cong)
    next
      case False
      from expire [OF r1, of a n] obtain s2 where s2: "expire a n s1 = Some s2" "ready s2" "clock_run hal (os s1) (os s2)"
        "filter (\<lambda>x. fst x \<noteq> a) (nodes s2) = filter (\<lambda>x. fst x \<noteq> a) (nodes s1)"
        "calls s2 = calls (notify (event n) s1)" "is_connected s2 = is_connected s1" "event_handler s2 = event_handler s1"
        by blast
      from Cons.IH [OF s2(2) d(2), of "Some a"] obtain s' R where
        s': "loop iter (Some a) s2 = Some s'" "ready s'" "scanned s2 iter R s'"
        "nodes s' = filter (\<lambda>x. fst x \<notin> R \<and> Some (fst x) \<noteq> Some a) (nodes s2)" by blast
      have "nodes s' = filter (\<lambda>x. fst x \<notin> R) (filter (\<lambda>x. fst x \<noteq> a) (nodes s2))"
        using s'(4) by (auto intro: filter_cong)
      then have "nodes s' = filter (\<lambda>x. fst x \<notin> R) (filter (\<lambda>x. fst x \<noteq> a) (nodes s1))" using s2(4) by simp
      then have n: "nodes s' = filter (\<lambda>x. fst x \<notin> insert a R \<and> Some (fst x) \<noteq> t) (nodes s)"
        using s1 by (auto simp: clock take_out intro!: filter_cong)
      have "clock_run hal (os s) (os s2)" using s1 s2(3) by simp
      moreover have "calls s2 = calls (notify (event n) s)" using s2(5) s1 by (simp add: notify_def take_out)
      ultimately have "scanned s (x # iter) (insert a R) s'"
        using sc(3) [OF s'(3), of s n] 3 s1 s2(6,7) tm False x by (simp add: take_out)
      with n s' s2(1) l 3 False show ?thesis
        by (intro exI [of _ s'] exI [of _ "insert a R"]) (auto simp: x loop_Cons Let_def)
    qed
  qed
qed

end

section \<open>The two waiting lists\<close>

definition expire_pub :: "'w hal \<Rightarrow> addr \<Rightarrow> UIoTPubInfo \<Rightarrow> 'w sys \<Rightarrow> 'w sys option" where
  "expire_pub hal node repubInfo s = do {
     s \<leftarrow> HAL_MutexUnlock lock_list_pub s;
     let (t, s) = countdown_ms hal (command_timeout_ms s) s;
     let s = restart_pub node t s;
     let s = HAL_MutexLock lock_list_pub s;
     Some (notify (EventId MQTT_EVENT_PUBLISH_TIMEOUT (pub_msg_id repubInfo)) s) }"

definition sub_timeout_event :: "UIoTSubInfo \<Rightarrow> callback" where
  "sub_timeout_event i = EventId (if sub_type i = SUBSCRIBE then MQTT_EVENT_SUBSCRIBE_TIMEOUT
     else MQTT_EVENT_UNSUBSCRIBE_TIMEOUT) (sub_msg_id i)"

lemma drop_sel:
  "list_pub_wait_ack (drop_pub t s) = filter (\<lambda>x. Some (fst x) \<noteq> t) (list_pub_wait_ack s)"
  "list_sub_wait_ack (drop_sub t s) = filter (\<lambda>x. Some (fst x) \<noteq> t) (list_sub_wait_ack s)"
  "held (drop_pub t s) = held s" "os (drop_pub t s) = os s" "calls (drop_pub t s) = calls s"
  "is_connected (drop_pub t s) = is_connected s" "event_handler (drop_pub t s) = event_handler s"
  "held (drop_sub t s) = held s" "os (drop_sub t s) = os s" "calls (drop_sub t s) = calls s"
  "is_connected (drop_sub t s) = is_connected s" "event_handler (drop_sub t s) = event_handler s"
  by (auto simp: drop_pub_def drop_sub_def nodes_remove_def split: option.splits)

lemma filter_restart:
  "filter (\<lambda>x. fst x \<noteq> a) (map (\<lambda>x. if fst x = a then (fst x, f x) else x) xs) = filter (\<lambda>x. fst x \<noteq> a) xs"
  by (induction xs) auto

lemma expire_pub_effect:
  assumes "0 < held s lock_list_pub"
  shows "\<exists>s'. expire_pub hal a n s = Some s' \<and> 0 < held s' lock_list_pub \<and> clock_run hal (os s) (os s')
    \<and> filter (\<lambda>x. fst x \<noteq> a) (list_pub_wait_ack s') = filter (\<lambda>x. fst x \<noteq> a) (list_pub_wait_ack s)
    \<and> calls s' = calls (notify (EventId MQTT_EVENT_PUBLISH_TIMEOUT (pub_msg_id n)) s)
    \<and> is_connected s' = is_connected s \<and> event_handler s' = event_handler s"
proof -
  let ?s = "s\<lparr>held := (held s)(lock_list_pub := held s lock_list_pub - 1)\<rparr>"
  obtain t s1 where c: "countdown_ms hal (command_timeout_ms s) ?s = (t, s1)" by fastforce
  from clock_run_countdown_ms [OF c] have s1: "s1 = ?s\<lparr>os := os s1\<rparr>" "clock_run hal (os s) (os s1)" by simp_all
  define w where "w = os s1"
  with s1 have "s1 = ?s\<lparr>os := w\<rparr>" "clock_run hal (os s) w" by simp_all
  with assms c show ?thesis
    by (auto simp: expire_pub_def HAL_MutexUnlock_def HAL_MutexLock_def restart_pub_def notify_def filter_restart Let_def)
qed

lemma pub_info_loop_Cons:
  "pub_info_loop hal ((a, n) # iter) t s =
     (let s = drop_pub t s in
      if pub_node_state n = MQTT_NODE_STATE_INVALID then pub_info_loop hal iter (Some a) s
      else if is_connected s = 0 then pub_info_loop hal iter None s
      else let (left, s) = left_ms hal (pub_start_time n) s in
        if left > 0 then pub_info_loop hal iter None s else expire_pub hal a n s \<bind> pub_info_loop hal iter (Some a))"
  by (simp add: expire_pub_def case_prod_beta Let_def)

interpretation pub_scan: expiry_scan hal "pub_info_loop hal" list_pub_wait_ack "\<lambda>s. 0 < held s lock_list_pub"
  "\<lambda>n. pub_node_state n = MQTT_NODE_STATE_INVALID" pub_start_time
  "\<lambda>n. EventId MQTT_EVENT_PUBLISH_TIMEOUT (pub_msg_id n)" drop_pub "expire_pub hal"
  by unfold_locales (simp_all only: pub_info_loop_Cons, simp_all add: drop_sel expire_pub_effect)

interpretation sub_scan: expiry_scan hal "sub_info_loop hal" list_sub_wait_ack "\<lambda>s. True"
  "\<lambda>n. sub_node_state n = MQTT_NODE_STATE_INVALID" sub_start_time sub_timeout_event drop_sub
  "\<lambda>a n s. Some (notify (sub_timeout_event n) s)"
  by unfold_locales (auto simp: drop_sel sub_timeout_event_def notify_def Let_def split: prod.splits)

text \<open>What a scan does to a list of requests: the verdict on one request, and the whole result.\<close>

definition verdict :: "bool \<Rightarrow> bool \<Rightarrow> bool \<Rightarrow> 'w hal \<Rightarrow> 'w \<Rightarrow> Timer \<Rightarrow> bool" where
  "verdict removed invalid connected hal w start \<longleftrightarrow>
     (if removed then invalid \<or> connected \<and> timed_out hal w start True
      else \<not> invalid \<and> (\<not> connected \<or> timed_out hal w start False))"

lemma pub_info_proc_effect:
  assumes "client_inv s" and "HAL_Malloc hal sizeof_ListIterator (os s) = (True, w)"
  shows "\<exists>s' R. uiot_mqtt_pub_info_proc hal s = Some (SUCCESS_RET, s') \<and> client_inv s' \<and> held s' = held s
    \<and> list_pub_wait_ack s' = filter (\<lambda>x. fst x \<notin> R) (list_pub_wait_ack s)
    \<and> (\<forall>x\<in>set (list_pub_wait_ack s). verdict (fst x \<in> R) (pub_node_state (snd x) = MQTT_NODE_STATE_INVALID)
         (is_connected s \<noteq> 0) hal w (pub_start_time (snd x)))
    \<and> calls s' = calls s @ (if event_handler s = None then []
         else map (\<lambda>x. EventId MQTT_EVENT_PUBLISH_TIMEOUT (pub_msg_id (snd x)))
           (filter (\<lambda>x. fst x \<in> R \<and> pub_node_state (snd x) \<noteq> MQTT_NODE_STATE_INVALID) (rev (list_pub_wait_ack s))))"
proof -
  let ?s = "(HAL_MutexLock lock_list_pub s)\<lparr>os := w\<rparr>"
  have m: "malloc hal sizeof_ListIterator (HAL_MutexLock lock_list_pub s) = (True, ?s)"
    using assms(2) by (simp add: malloc_def HAL_MutexLock_def)
  have d: "distinct (map fst (rev (list_pub_wait_ack s)))"
    using assms(1) by (simp add: client_inv_def nodes_ok_def rev_map [symmetric])
  have "0 < held ?s lock_list_pub" by (simp add: HAL_MutexLock_def)
  from pub_scan.scan [OF this d, of hal None] obtain s1 R where
    s1: "pub_info_loop hal (rev (list_pub_wait_ack s)) None ?s = Some s1" "0 < held s1 lock_list_pub"
      "pub_scan.scanned hal ?s (rev (list_pub_wait_ack s)) R s1"
      "list_pub_wait_ack s1 = filter (\<lambda>x. fst x \<notin> R) (list_pub_wait_ack s)"
    by (auto simp: HAL_MutexLock_def)
  show ?thesis
  proof (cases "list_pub_wait_ack s = []")
    case True
    then show ?thesis using assms(1)
      by (intro exI [of _ s] exI [of _ "{}"]) (simp add: uiot_mqtt_pub_info_proc_def HAL_MutexLock_def HAL_MutexUnlock_def)
  next
    case False
    let ?s' = "s1\<lparr>held := (held s1)(lock_list_pub := held s1 lock_list_pub - 1)\<rparr>"
    have p: "uiot_mqtt_pub_info_proc hal s = Some (SUCCESS_RET, ?s')"
      using False s1(1,2) m by (simp add: uiot_mqtt_pub_info_proc_def HAL_MutexLock_def HAL_MutexUnlock_def Let_def)
    from info_proc_keeps(1) [OF p] assms(1) s1(3,4) show ?thesis
      by (intro exI [of _ ?s'] exI [of _ R])
        (auto simp: p keeps_def pub_scan.scanned_def pub_scan.settled_def verdict_def comp_def HAL_MutexLock_def)
  qed
qed

section \<open>Properties\<close>

text \<open>
  C5. Publish requests are settled.  \<open>uiot_mqtt_pub_info_proc\<close> returns and, when its iterator can be allocated, takes out of the
  list of unacknowledged PUBLISH packets exactly a set \<open>R\<close> of requests and leaves the others
  unchanged and in order.  A request in \<open>R\<close> had been acknowledged, or the client is connected and its time was over when the loop
  looked at the clock; a request that stays had not been acknowledged, and the client is offline or its time was
  not over.  The application gets one TIMEOUT event for every request in \<open>R\<close> that was not acknowledged, and no other event.
\<close>
theorem publish_requests_settled:
  assumes "client_inv s" and "HAL_Malloc hal sizeof_ListIterator (os s) = (True, w)"
  shows "\<exists>s' R. uiot_mqtt_pub_info_proc hal s = Some (SUCCESS_RET, s') \<and> client_inv s' \<and> held s' = held s
    \<and> list_pub_wait_ack s' = filter (\<lambda>x. fst x \<notin> R) (list_pub_wait_ack s)
    \<and> (\<forall>x\<in>set (list_pub_wait_ack s). verdict (fst x \<in> R) (pub_node_state (snd x) = MQTT_NODE_STATE_INVALID)
         (is_connected s \<noteq> 0) hal w (pub_start_time (snd x)))
    \<and> calls s' = calls s @ (if event_handler s = None then []
         else map (\<lambda>x. EventId MQTT_EVENT_PUBLISH_TIMEOUT (pub_msg_id (snd x)))
           (filter (\<lambda>x. fst x \<in> R \<and> pub_node_state (snd x) \<noteq> MQTT_NODE_STATE_INVALID) (rev (list_pub_wait_ack s))))"
  using assms by (rule pub_info_proc_effect)

text \<open>
  Subscribe and unsubscribe requests are settled, likewise: \<open>uiot_mqtt_sub_info_proc\<close> takes out exactly the acknowledged requests
  and, on a connected client, those whose time was over, reports each of the latter once with the event of its kind, and leaves the
  others unchanged and in order.
\<close>
theorem subscribe_requests_settled:
  assumes "client_inv s" and "HAL_Malloc hal sizeof_ListIterator (os s) = (True, w)"
  shows "\<exists>s' R. uiot_mqtt_sub_info_proc hal s = Some (SUCCESS_RET, s') \<and> client_inv s' \<and> held s' = held s
    \<and> list_sub_wait_ack s' = filter (\<lambda>x. fst x \<notin> R) (list_sub_wait_ack s)
    \<and> (\<forall>x\<in>set (list_sub_wait_ack s). verdict (fst x \<in> R) (sub_node_state (snd x) = MQTT_NODE_STATE_INVALID)
         (is_connected s \<noteq> 0) hal w (sub_start_time (snd x)))
    \<and> calls s' = calls s @ (if event_handler s = None then []
         else map (sub_timeout_event \<circ> snd)
           (filter (\<lambda>x. fst x \<in> R \<and> sub_node_state (snd x) \<noteq> MQTT_NODE_STATE_INVALID) (rev (list_sub_wait_ack s))))"
proof -
  let ?s = "(HAL_MutexLock lock_list_sub s)\<lparr>os := w\<rparr>"
  have m: "malloc hal sizeof_ListIterator (HAL_MutexLock lock_list_sub s) = (True, ?s)"
    using assms(2) by (simp add: malloc_def HAL_MutexLock_def)
  have d: "distinct (map fst (rev (list_sub_wait_ack s)))"
    using assms(1) by (simp add: client_inv_def nodes_ok_def rev_map [symmetric])
  from sub_scan.scan [OF TrueI d, of hal None ?s] obtain s1 R where
    s1: "sub_info_loop hal (rev (list_sub_wait_ack s)) None ?s = Some s1"
      "sub_scan.scanned hal ?s (rev (list_sub_wait_ack s)) R s1"
      "list_sub_wait_ack s1 = filter (\<lambda>x. fst x \<notin> R) (list_sub_wait_ack s)"
    by (auto simp: HAL_MutexLock_def)
  show ?thesis
  proof (cases "list_sub_wait_ack s = []")
    case True
    then show ?thesis using assms(1)
      by (intro exI [of _ s] exI [of _ "{}"]) (simp add: uiot_mqtt_sub_info_proc_def HAL_MutexLock_def HAL_MutexUnlock_def)
  next
    case False
    let ?s' = "s1\<lparr>held := (held s1)(lock_list_sub := held s1 lock_list_sub - 1)\<rparr>"
    have hl: "0 < held s1 lock_list_sub"
      using sub_info_loop_keeps [OF s1(1)] by (simp add: keeps_def HAL_MutexLock_def)
    have p: "uiot_mqtt_sub_info_proc hal s = Some (SUCCESS_RET, ?s')"
      using False s1(1) hl m by (simp add: uiot_mqtt_sub_info_proc_def HAL_MutexLock_def HAL_MutexUnlock_def Let_def)
    from info_proc_keeps(2) [OF p] assms(1) s1(2,3) show ?thesis
      by (intro exI [of _ ?s'] exI [of _ R])
        (auto simp: p keeps_def sub_scan.scanned_def sub_scan.settled_def verdict_def comp_def HAL_MutexLock_def)
  qed
qed


text \<open>A list with an acknowledged, a pending and an overdue request, with the clock standing at tick 1000.\<close>

definition pub_request :: "u16 \<Rightarrow> MQTTNodeState \<Rightarrow> u32 \<Rightarrow> UIoTPubInfo" where
  "pub_request i st e = \<lparr> pub_start_time = \<lparr> end_time = e \<rparr>, pub_node_state = st, pub_msg_id = i, pub_len = 0, pub_buf = [] \<rparr>"

definition still_sys :: "u32 sys" where
  "still_sys = demo_client\<lparr>is_connected := 1, os := 1000, list_pub_wait_ack :=
     [(0, pub_request 7 MQTT_NODE_STATE_INVALID 5000), (1, pub_request 8 MQTT_NODE_STATE_NORMAL 5000),
      (2, pub_request 9 MQTT_NODE_STATE_NORMAL 900)],
     list_sub_wait_ack := [(3, demo_request\<lparr>sub_start_time := \<lparr> end_time = 900 \<rparr>\<rparr>)], next_node := 4\<rparr>"

lemma still_sys_inv: "client_inv still_sys"
  using demo_client_inv by (simp add: client_inv_def still_sys_def nodes_ok_def)

lemma tick_hal_run: "clock_run tick_hal w w' \<Longrightarrow> w' = w"
  by (induction rule: rtranclp_induct) (simp_all add: tick_step_def tick_hal_def)

lemma still_clock: "timed_out tick_hal w t b \<longleftrightarrow> (sint (end_time t - w) \<le> 0 \<longleftrightarrow> b)"
  using tick_hal_run by (auto simp: timed_out_def left_ms_w_def HAL_Timer_Remain_ms_def tick_hal_def)

theorem publish_requests_settled_witness:
  "\<exists>s'. uiot_mqtt_pub_info_proc tick_hal still_sys = Some (SUCCESS_RET, s')
    \<and> map (pub_msg_id \<circ> snd) (list_pub_wait_ack s') = [8] \<and> calls s' = [EventId MQTT_EVENT_PUBLISH_TIMEOUT 9]"
proof -
  have "HAL_Malloc tick_hal sizeof_ListIterator (os still_sys) = (True, 1000)" by (simp add: tick_hal_def still_sys_def)
  from publish_requests_settled [OF still_sys_inv this] show ?thesis
    by (auto simp: still_sys_def demo_client_def pub_request_def verdict_def still_clock split: if_split_asm)
qed

theorem subscribe_requests_settled_witness:
  "\<exists>s'. uiot_mqtt_sub_info_proc tick_hal still_sys = Some (SUCCESS_RET, s')
    \<and> list_sub_wait_ack s' = [] \<and> calls s' = [EventId MQTT_EVENT_SUBSCRIBE_TIMEOUT (sub_msg_id demo_request)]"
proof -
  have "HAL_Malloc tick_hal sizeof_ListIterator (os still_sys) = (True, 1000)" by (simp add: tick_hal_def still_sys_def)
  from subscribe_requests_settled [OF still_sys_inv this] show ?thesis
    by (auto simp: still_sys_def demo_client_def demo_request_def verdict_def still_clock sub_timeout_event_def split: if_split_asm)
qed

text \<open>
  C12. An acknowledged PUBLISH is settled.  When a PUBACK with packet identifier \<open>i\<close> is in the read buffer,
  \<open>_handle_puback_packet\<close> reports \<open>i\<close> as published, and the next \<open>uiot_mqtt_pub_info_proc\<close> removes every
  request with this identifier from the waiting list without reporting a timeout for it, whatever the clock says.
  The allocation of the two list iterators is assumed to succeed.
\<close>
theorem puback_settles_publish:
  assumes "client_inv s" and "read_buf s = mqtt_packet h (uint16_bytes i) @ rest" and "\<And>n w. fst (HAL_Malloc hal n w)"
  shows "\<exists>s1 s2. handle_puback_packet hal s = Some (SUCCESS_RET, s1) \<and> uiot_mqtt_pub_info_proc hal s1 = Some (SUCCESS_RET, s2)
    \<and> calls s1 = calls s @ (if event_handler s = None then [] else [EventId MQTT_EVENT_PUBLISH_SUCCESS i])
    \<and> (\<forall>x\<in>set (list_pub_wait_ack s2). pub_msg_id (snd x) \<noteq> i)
    \<and> (\<exists>cs. calls s2 = calls s1 @ cs \<and> EventId MQTT_EVENT_PUBLISH_TIMEOUT i \<notin> set cs)"
proof -
  note sz = client_inv_sizes [OF assms(1)]
  have d: "deserialize_ack_packet (read_buf s) (read_buf_size s) = Some (Inr (header_type h, header_dup h, i))"
    using deserialize_ack_of_packet [of "read_buf_size s"] sz assms(2) by simp
  let ?r = "snd (HAL_Malloc hal sizeof_ListIterator (os s))"
  let ?m = "if list_pub_wait_ack s = [] then s
    else s\<lparr>os := ?r, list_pub_wait_ack := map (mask_pub i) (list_pub_wait_ack s)\<rparr>"
  have m: "mask_pubInfo_from hal i s = Some (SUCCESS_RET, ?m)"
    using assms(3) [of sizeof_ListIterator "os s"] by (auto simp: mask_pubInfo_from_eq malloc_def split: prod.splits)
  define s1 where "s1 = notify (EventId MQTT_EVENT_PUBLISH_SUCCESS i) ?m"
  have h: "handle_puback_packet hal s = Some (SUCCESS_RET, s1)" by (simp add: handle_puback_packet_def d m s1_def)
  have c1: "calls s1 = calls s @ (if event_handler s = None then [] else [EventId MQTT_EVENT_PUBLISH_SUCCESS i])"
    by (simp add: notify_def s1_def)
  have "list_pub_wait_ack s1 = map (mask_pub i) (list_pub_wait_ack s)" by (simp add: notify_def s1_def)
  then have masked: "pub_node_state (snd x) = MQTT_NODE_STATE_INVALID"
    if "x \<in> set (list_pub_wait_ack s1)" "pub_msg_id (snd x) = i" for x
    using that by (auto simp: mask_pub_def)
  have inv: "client_inv s1" using handle_puback_keeps [OF h] assms(1) by (simp add: keeps_def)
  obtain w where w: "HAL_Malloc hal sizeof_ListIterator (os s1) = (True, w)"
    using assms(3) [of sizeof_ListIterator "os s1"] by (cases "HAL_Malloc hal sizeof_ListIterator (os s1)") auto
  from pub_info_proc_effect [OF inv w] obtain s2 R where s2: "uiot_mqtt_pub_info_proc hal s1 = Some (SUCCESS_RET, s2)"
    "list_pub_wait_ack s2 = filter (\<lambda>x. fst x \<notin> R) (list_pub_wait_ack s1)"
    and v: "\<forall>x\<in>set (list_pub_wait_ack s1). verdict (fst x \<in> R) (pub_node_state (snd x) = MQTT_NODE_STATE_INVALID)
      (is_connected s1 \<noteq> 0) hal w (pub_start_time (snd x))"
    and c: "calls s2 = calls s1 @ (if event_handler s1 = None then []
      else map (\<lambda>x. EventId MQTT_EVENT_PUBLISH_TIMEOUT (pub_msg_id (snd x)))
        (filter (\<lambda>x. fst x \<in> R \<and> pub_node_state (snd x) \<noteq> MQTT_NODE_STATE_INVALID) (rev (list_pub_wait_ack s1))))"
    by blast
  have "pub_msg_id (snd x) \<noteq> i" if "x \<in> set (list_pub_wait_ack s2)" for x
    using that s2(2) v masked [of x] by (auto simp: verdict_def split: if_splits)
  moreover have "\<exists>cs. calls s2 = calls s1 @ cs \<and> EventId MQTT_EVENT_PUBLISH_TIMEOUT i \<notin> set cs"
    unfolding c using masked by auto
  ultimately show ?thesis using h s2(1) c1 by blast
qed

theorem puback_settles_publish_witness:
  "\<exists>s1 s2. handle_puback_packet tick_hal (still_sys\<lparr>read_buf := mqtt_packet 0x40 (uint16_bytes 9) @ replicate 2044 0\<rparr>) = Some (SUCCESS_RET, s1)
    \<and> uiot_mqtt_pub_info_proc tick_hal s1 = Some (SUCCESS_RET, s2) \<and> calls s1 = [EventId MQTT_EVENT_PUBLISH_SUCCESS 9]
    \<and> (\<forall>x\<in>set (list_pub_wait_ack s2). pub_msg_id (snd x) \<noteq> 9)"
proof -
  let ?b = "mqtt_packet 0x40 (uint16_bytes 9) @ replicate 2044 0"
  have "client_inv (still_sys\<lparr>read_buf := ?b\<rparr>)" using still_sys_inv by (simp add: client_inv_def mqtt_packet_def uint16_bytes_def rem_len_bytes.simps)
  moreover have "fst (HAL_Malloc tick_hal n w)" for n w by (simp add: tick_hal_def)
  moreover have "calls still_sys = []" "event_handler still_sys \<noteq> None" by (simp_all add: still_sys_def demo_client_def)
  moreover have "read_buf (still_sys\<lparr>read_buf := ?b\<rparr>) = ?b" by simp
  ultimately show ?thesis
    using puback_settles_publish [where hal = tick_hal and s = "still_sys\<lparr>read_buf := ?b\<rparr>" and i = 9] by fastforce
qed

end
