(* ===== verification/Mqtt_Client.thy ===== *)
theory Mqtt_Client
  imports Mqtt_Timeouts
begin

text \<open>
  The public interface of the MQTT client (\<^verbatim>\<open>mqtt_client.c\<close>): initialisation, construction and destruction of a
  client and the wrappers of \<^verbatim>\<open>uiot_export_mqtt.h\<close>; and the client as a transition system
  whose steps are the calls of the application.

  The allocator and \<open>HAL_MutexCreate\<close> may fail at every call.  \<open>HAL_Free\<close> and \<open>HAL_MutexDestroy\<close> have no
  effect the model sees, nor have the fields of \<open>network_stack\<close>: the functions behind it are the platform's.
\<close>

section \<open>Initialisation\<close>

record MQTTInitParams =
  product_sn :: "cstr option"
  device_sn :: "cstr option"
  product_secret :: "cstr option"
  device_secret :: "cstr option"
  command_timeout :: u32
  init_keep_alive_interval :: u32
  init_clean_session :: u8
  init_auto_connect_enable :: u8
  init_event_handler :: "fptr option"

abbreviation (input) HOST_STR_LENGTH :: nat where "HOST_STR_LENGTH \<equiv> 64"

definition UIOT_MQTT_DIRECT_DOMAIN :: cstr where
  "UIOT_MQTT_DIRECT_DOMAIN = str ''mqtt-cn-sh2.iot.ucloud.cn''"

text \<open>\<open>memset(pClient, 0, sizeof(UIoT_Client))\<close>: the fields of the client, not the rest of the system.\<close>

definition zero_client :: "'w sys \<Rightarrow> 'w sys" where
  "zero_client s = s\<lparr> is_connected := 0, was_manually_disconnected := 0, is_ping_outstanding := 0, next_packet_id := 0,
     command_timeout_ms := 0, current_reconnect_wait_interval := 0, counter_network_disconnected := 0,
     write_buf_size := 0, read_buf_size := 0, write_buf := replicate UIOT_MQTT_TX_BUF_LEN 0,
     read_buf := replicate UIOT_MQTT_RX_BUF_LEN 0, list_pub_wait_ack := [], list_sub_wait_ack := [], event_handler := None,
     options := \<lparr> client_id = None, username = None, password = None, mqtt_version = 0, keep_alive_interval = 0,
       clean_session = 0, auto_connect_enable = 0 \<rparr>,
     ping_timer := \<lparr> end_time = 0 \<rparr>, reconnect_delay_timer := \<lparr> end_time = 0 \<rparr>,
     sub_handles := replicate MAX_SUB_TOPICS empty_handle \<rparr>"

text \<open>A new mutex is not locked.\<close>

definition create_lock :: "'w hal \<Rightarrow> lock \<Rightarrow> 'w sys \<Rightarrow> bool \<times> 'w sys" where
  "create_lock hal m s =
     (let (ok, w) = HAL_MutexCreate hal (os s)
      in (ok, (if ok then s\<lparr>os := w, held := (held s)(m := 0)\<rparr> else s\<lparr>os := w\<rparr>)))"

definition sizeof_List :: nat where "sizeof_List = 16"
definition sizeof_UIoT_Client :: nat where "sizeof_UIoT_Client = 4384"

text \<open>The part of \<open>uiot_mqtt_init\<close> that acquires the mutexes and the lists.\<close>

definition init_resources :: "'w hal \<Rightarrow> 'w sys \<Rightarrow> (int \<times> 'w sys) option" where
  "init_resources hal s = do {
     let (ok, s) = create_lock hal lock_generic s;
     if \<not> ok then Some (FAILURE_RET, s)
     else do {
       s \<leftarrow> set_client_conn_state DISCONNECTED s;
       let (ok, s) = create_lock hal lock_write_buf s;
       if \<not> ok then Some (FAILURE_RET, s)
       else do {
         let (ok, s) = create_lock hal lock_list_sub s;
         if \<not> ok then Some (FAILURE_RET, s)
         else do {
           let (ok, s) = create_lock hal lock_list_pub s;
           if \<not> ok then Some (FAILURE_RET, s)
           else do {
             let (ok, s) = malloc hal sizeof_List s;
             if \<not> ok then Some (FAILURE_RET, s)
             else do {
               let (ok, s) = malloc hal sizeof_List s;
               if \<not> ok then Some (FAILURE_RET, s)
               else Some (SUCCESS_RET, s\<lparr>ping_timer := init_timer, reconnect_delay_timer := init_timer\<rparr>) } } } } } }"

text \<open>The result is the return code and the parameters, whose timeout is clamped in place.\<close>

definition uiot_mqtt_init ::
  "'w hal \<Rightarrow> MQTTInitParams \<Rightarrow> 'w sys \<Rightarrow> ((int \<times> MQTTInitParams) \<times> 'w sys) option" where
  "uiot_mqtt_init hal pParams s = do {
     let s = zero_client s;
     let (s_uiot_host, size) = HAL_Snprintf HOST_STR_LENGTH UIOT_MQTT_DIRECT_DOMAIN;
     if size < 0 \<or> size > int HOST_STR_LENGTH - 1 then Some ((FAILURE_RET, pParams), s)
     else do {
       let pParams = (if command_timeout pParams < MIN_COMMAND_TIMEOUT
                      then pParams\<lparr>command_timeout := MIN_COMMAND_TIMEOUT\<rparr> else pParams);
       let pParams = (if command_timeout pParams > MAX_COMMAND_TIMEOUT
                      then pParams\<lparr>command_timeout := MAX_COMMAND_TIMEOUT\<rparr> else pParams);
       let s = s\<lparr>command_timeout_ms := command_timeout pParams, next_packet_id := 1,
                 write_buf_size := of_nat UIOT_MQTT_TX_BUF_LEN, read_buf_size := of_nat UIOT_MQTT_RX_BUF_LEN,
                 event_handler := init_event_handler pParams\<rparr>;
       (ret, s) \<leftarrow> init_resources hal s;
       Some ((ret, pParams), s) } }"

section \<open>Construction\<close>

definition DEFAULT_MQTT_CONNECT_PARAMS :: MQTTConnectParams where
  "DEFAULT_MQTT_CONNECT_PARAMS = \<lparr> client_id = None, username = None, password = None, mqtt_version = 4,
     keep_alive_interval = 240, clean_session = 1, auto_connect_enable = 1 \<rparr>"

abbreviation (input) STATIC_AUTH :: nat where "STATIC_AUTH \<equiv> 1"
abbreviation (input) DYNAMIC_AUTH :: nat where "DYNAMIC_AUTH \<equiv> 2"

text \<open>\<open>%d\<close> of the authentication mode, which is 0, 1 or 2.\<close>

definition auth_digit :: "nat \<Rightarrow> u8" where
  "auth_digit m = 48 + of_nat m"

text \<open>
  The password block: \<open>None\<close> when the allocation fails, otherwise the authentication mode and the password.
\<close>

definition auth_password :: "'w hal \<Rightarrow> MQTTInitParams \<Rightarrow> 'w sys \<Rightarrow> (nat \<times> cstr option) option \<times> 'w sys" where
  "auth_password hal pParams s =
     (case (device_secret pParams, product_secret pParams) of
        (None, Some secret) \<Rightarrow>
          let (ok, s) = malloc hal (length secret + 1) s
          in (if ok then Some (DYNAMIC_AUTH, Some (fst (HAL_Snprintf (length secret + 1) secret))) else None, s)
      | (Some secret, _) \<Rightarrow>
          let (ok, s) = malloc hal (length secret + 1) s
          in (if ok then Some (STATIC_AUTH, Some (fst (HAL_Snprintf (length secret + 1) secret))) else None, s)
      | (None, None) \<Rightarrow> (Some (0, None), s))"

text \<open>
  \<open>IOT_MQTT_Construct\<close>: whether a client is returned (otherwise \<open>NULL\<close>), and the parameters afterwards.
\<close>

definition IOT_MQTT_Construct ::
  "bool \<Rightarrow> 'w hal \<Rightarrow> nat \<Rightarrow> MQTTInitParams \<Rightarrow> 'w sys \<Rightarrow> ((bool \<times> MQTTInitParams) \<times> 'w sys) option" where
  "IOT_MQTT_Construct cr hal fuel pParams s =
     (case (product_sn pParams, device_sn pParams) of
        (Some p, Some d) \<Rightarrow>
          if p = [] \<or> d = [] then Some ((False, pParams), s)
          else do {
            let (ok, s) = malloc hal sizeof_UIoT_Client s;
            if \<not> ok then Some ((False, pParams), s)
            else do {
              ((ret, pParams), s) \<leftarrow> uiot_mqtt_init hal pParams s;
              if ret \<noteq> SUCCESS_RET then Some ((False, pParams), s)
              else do {
                let client_id_len = length p + length d + 2;
                let (ok, s) = malloc hal client_id_len s;
                if \<not> ok then Some ((False, pParams), s)
                else do {
                  let username_len = length p + length d + 4;
                  let (ok, s) = malloc hal username_len s;
                  if \<not> ok then Some ((False, pParams), s)
                  else do {
                    let (auth, s) = auth_password hal pParams s;
                    case auth of
                      None \<Rightarrow> Some ((False, pParams), s)
                    | Some (auth_mode, pw) \<Rightarrow> do {
                        let connect_params = DEFAULT_MQTT_CONNECT_PARAMS\<lparr>
                          client_id := Some (fst (HAL_Snprintf client_id_len (p @ str ''.'' @ d))),
                          username := Some (fst (HAL_Snprintf username_len (p @ str ''|'' @ d @ str ''|'' @ [auth_digit auth_mode]))),
                          password := pw,
                          keep_alive_interval := ucast (init_keep_alive_interval pParams),
                          clean_session := init_clean_session pParams,
                          auto_connect_enable := init_auto_connect_enable pParams\<rparr>;
                        (ret, s) \<leftarrow> uiot_mqtt_connect cr hal fuel connect_params s;
                        Some ((ret = SUCCESS_RET, pParams), s) } } } } } }
      | _ \<Rightarrow> Some ((False, pParams), s))"

text \<open>
  \<open>IOT_MQTT_Destroy\<close>: the object is freed, what remains are the file-scope variables.
\<close>

definition IOT_MQTT_Destroy :: "bool \<Rightarrow> 'w hal \<Rightarrow> nat \<Rightarrow> 'w sys \<Rightarrow> (int \<times> 'w sys) option" where
  "IOT_MQTT_Destroy cr hal fuel s = do {
     (ret, s) \<leftarrow> uiot_mqtt_disconnect hal fuel s;
     let s = (if cr then reset_repeat_packet_id_buffer s else s);
     Some (ret, s\<lparr>list_pub_wait_ack := [], list_sub_wait_ack := []\<rparr>) }"

section \<open>Wrappers\<close>

text \<open>
  A \<open>NULL\<close> client is \<open>None\<close>.  \<open>IOT_MQTT_IsConnected\<close> and \<open>uiot_mqtt_is_autoreconnect_enabled\<close> return an
  error code from a function of type \<open>bool\<close>, which becomes true.
\<close>

definition IOT_MQTT_Yield :: "bool \<Rightarrow> 'w hal \<Rightarrow> nat \<Rightarrow> u32 \<Rightarrow> 'w sys \<Rightarrow> (int \<times> 'w sys) option" where
  "IOT_MQTT_Yield cr hal fuel timeout_ms s = uiot_mqtt_yield cr hal fuel timeout_ms s"

definition IOT_MQTT_Publish ::
  "'w hal \<Rightarrow> nat \<Rightarrow> cstr \<Rightarrow> PublishParams \<Rightarrow> 'w sys \<Rightarrow> ((int \<times> PublishParams) \<times> 'w sys) option" where
  "IOT_MQTT_Publish hal fuel topicName pParams s = uiot_mqtt_publish hal fuel topicName pParams s"

definition IOT_MQTT_Subscribe ::
  "'w hal \<Rightarrow> nat \<Rightarrow> cstr \<Rightarrow> SubscribeParams \<Rightarrow> 'w sys \<Rightarrow> (int \<times> 'w sys) option" where
  "IOT_MQTT_Subscribe hal fuel topicFilter pParams s = uiot_mqtt_subscribe hal fuel topicFilter pParams s"

definition IOT_MQTT_Unsubscribe :: "'w hal \<Rightarrow> nat \<Rightarrow> QoS \<Rightarrow> cstr \<Rightarrow> 'w sys \<Rightarrow> (int \<times> 'w sys) option" where
  "IOT_MQTT_Unsubscribe hal fuel junk topicFilter s = uiot_mqtt_unsubscribe hal fuel junk topicFilter s"

definition IOT_MQTT_IsConnected :: "'w sys option \<Rightarrow> bool option" where
  "IOT_MQTT_IsConnected pClient =
     (case pClient of None \<Rightarrow> Some True
      | Some s \<Rightarrow> do { (c, s) \<leftarrow> get_client_conn_state s; Some (c = 1) })"

definition uiot_mqtt_set_autoreconnect :: "bool \<Rightarrow> 'w sys option \<Rightarrow> int \<times> 'w sys option" where
  "uiot_mqtt_set_autoreconnect v pClient =
     (case pClient of None \<Rightarrow> (ERR_PARAM_INVALID, None)
      | Some s \<Rightarrow> (SUCCESS_RET, Some (s\<lparr>options := (options s)\<lparr>auto_connect_enable := (if v then 1 else 0)\<rparr>\<rparr>)))"

definition uiot_mqtt_is_autoreconnect_enabled :: "'w sys option \<Rightarrow> bool" where
  "uiot_mqtt_is_autoreconnect_enabled pClient =
     (case pClient of None \<Rightarrow> True | Some s \<Rightarrow> auto_connect_enable (options s) = 1)"

definition uiot_mqtt_get_network_disconnected_count :: "'w sys option \<Rightarrow> int" where
  "uiot_mqtt_get_network_disconnected_count pClient =
     (case pClient of None \<Rightarrow> ERR_PARAM_INVALID | Some s \<Rightarrow> sint (counter_network_disconnected s))"

definition uiot_mqtt_reset_network_disconnected_count :: "'w sys option \<Rightarrow> int \<times> 'w sys option" where
  "uiot_mqtt_reset_network_disconnected_count pClient =
     (case pClient of None \<Rightarrow> (ERR_PARAM_INVALID, None)
      | Some s \<Rightarrow> (SUCCESS_RET, Some (s\<lparr>counter_network_disconnected := 0\<rparr>)))"

section \<open>Dynamic registration\<close>

text \<open>
  The topics of the templates \<open>/$system/%s/%s/password\<close> and \<open>/$system/%s/%s/password_reply\<close>; the message callback
  \<open>on_message_callback_get_device_secret\<close> is the function pointer \<open>secret_cb\<close>, so that its
  calls appear in the trace.
\<close>

definition register_topic :: "cstr \<Rightarrow> cstr \<Rightarrow> string \<Rightarrow> cstr" where
  "register_topic p d suffix =
     fst (HAL_Snprintf MAX_SIZE_OF_CLOUD_TOPIC (str ''/$system/'' @ p @ str ''/'' @ d @ str suffix))"

definition auth_msg :: bytes where
  "auth_msg = str ''{'' @ [34] @ str ''RequestID'' @ [34] @ str '':'' @ [34] @ str ''1'' @ [34] @ str ''}''"

definition IOT_MQTT_Dynamic_Register ::
  "bool \<Rightarrow> 'w hal \<Rightarrow> nat \<Rightarrow> QoS \<Rightarrow> fptr \<Rightarrow> nat \<Rightarrow> MQTTInitParams \<Rightarrow> 'w sys \<Rightarrow> (int \<times> 'w sys) option" where
  "IOT_MQTT_Dynamic_Register cr hal fuel junk secret_cb udata pParams s = do {
     ((client, pParams), s) \<leftarrow> IOT_MQTT_Construct cr hal fuel pParams s;
     if \<not> client then Some (FAILURE_RET, s)
     else do {
       p \<leftarrow> product_sn pParams;
       d \<leftarrow> device_sn pParams;
       let (ok, s) = malloc hal MAX_SIZE_OF_CLOUD_TOPIC s;
       if \<not> ok then do { (_, s) \<leftarrow> IOT_MQTT_Destroy cr hal fuel s; Some (FAILURE_RET, s) }
       else do {
         let pub_name = register_topic p d ''/password'';
         let (ok, s) = malloc hal MAX_SIZE_OF_CLOUD_TOPIC s;
         if \<not> ok then do { (_, s) \<leftarrow> IOT_MQTT_Destroy cr hal fuel s; Some (FAILURE_RET, s) }
         else do {
           let sub_name = register_topic p d ''/password_reply'';
           (ret, s) \<leftarrow> IOT_MQTT_Subscribe hal fuel sub_name
             \<lparr> sp_qos = QOS1, on_message_handler = Some secret_cb, user_data = udata \<rparr> s;
           (ret, s) \<leftarrow> (if ret \<le> 0 then Some (ret, s)
             else do {
               (_, s) \<leftarrow> IOT_MQTT_Yield cr hal fuel 200 s;
               (_, s) \<leftarrow> IOT_MQTT_Publish hal fuel pub_name
                 \<lparr> qos = QOS1, retained = 0, dup = 0, msg_ident = Some 0, topic = [], topic_len = 0,
                   payload = Some auth_msg, payload_len = strlen auth_msg \<rparr> s;
               (ret, s) \<leftarrow> IOT_MQTT_Yield cr hal fuel 5000 s;
               if ret \<noteq> SUCCESS_RET then Some (ret, s)
               else do {
                 (_, s) \<leftarrow> IOT_MQTT_Unsubscribe hal fuel junk sub_name s;
                 IOT_MQTT_Yield cr hal fuel 200 s } });
           (_, s) \<leftarrow> IOT_MQTT_Destroy cr hal fuel s;
           Some (ret, s) } } } }"

section \<open>The client as a transition system\<close>

text \<open>One call of the application on an existing client, and what it returns.\<close>

datatype api_call =
    Api_Publish cstr PublishParams
  | Api_Subscribe cstr SubscribeParams
  | Api_Unsubscribe QoS cstr
  | Api_Yield u32
  | Api_Disconnect
  | Api_Connect MQTTConnectParams
  | Api_Set_autoreconnect bool
  | Api_Reset_count

fun api_step :: "bool \<Rightarrow> 'w hal \<Rightarrow> nat \<Rightarrow> api_call \<Rightarrow> 'w sys \<Rightarrow> (int \<times> 'w sys) option" where
  "api_step cr hal fuel (Api_Publish t p) s = map_option (\<lambda>((r, _), s). (r, s)) (IOT_MQTT_Publish hal fuel t p s)"
| "api_step cr hal fuel (Api_Subscribe f p) s = IOT_MQTT_Subscribe hal fuel f p s"
| "api_step cr hal fuel (Api_Unsubscribe j f) s = IOT_MQTT_Unsubscribe hal fuel j f s"
| "api_step cr hal fuel (Api_Yield ms) s = IOT_MQTT_Yield cr hal fuel ms s"
| "api_step cr hal fuel Api_Disconnect s = uiot_mqtt_disconnect hal fuel s"
| "api_step cr hal fuel (Api_Connect p) s = uiot_mqtt_connect cr hal fuel p s"
| "api_step cr hal fuel (Api_Set_autoreconnect v) s =
     (let (r, c) = uiot_mqtt_set_autoreconnect v (Some s) in map_option (Pair r) c)"
| "api_step cr hal fuel Api_Reset_count s =
     (let (r, c) = uiot_mqtt_reset_network_disconnected_count (Some s) in map_option (Pair r) c)"

text \<open>
  The states a client can be in: constructed successfully, then any calls in any order, with the world
  outside changing as it likes in between.  The file-scope variables have their initial sizes.
\<close>

definition globals_ok :: "'w sys \<Rightarrow> bool" where
  "globals_ok s \<longleftrightarrow> length (sg_repeat_packet_id_buf s) = MQTT_MAX_REPEAT_BUF_LEN \<and> current_packet_id_cnt s < MQTT_MAX_REPEAT_BUF_LEN"

inductive client_state :: "bool \<Rightarrow> 'w hal \<Rightarrow> 'w sys \<Rightarrow> bool" for cr hal where
  constructed: "globals_ok s0 \<Longrightarrow> IOT_MQTT_Construct cr hal fuel p s0 = Some ((True, p'), s) \<Longrightarrow> client_state cr hal s"
| called: "client_state cr hal s \<Longrightarrow> api_step cr hal fuel c s = Some (r, s') \<Longrightarrow> client_state cr hal s'"
| elsewhere: "client_state cr hal s \<Longrightarrow> client_state cr hal (s\<lparr>os := w\<rparr>)"

lemmas api_defs = IOT_MQTT_Publish_def IOT_MQTT_Subscribe_def IOT_MQTT_Unsubscribe_def IOT_MQTT_Yield_def
  uiot_mqtt_set_autoreconnect_def uiot_mqtt_reset_network_disconnected_count_def

section \<open>Construction establishes the invariant\<close>

text \<open>What holds of the client from the first part of \<open>uiot_mqtt_init\<close> on.\<close>

definition prepared :: "MQTTInitParams \<Rightarrow> 'w sys \<Rightarrow> 'w sys \<Rightarrow> bool" where
  "prepared p s s' \<longleftrightarrow> client_inv s' \<and> session_ok s' \<and> is_connected s' = DISCONNECTED
     \<and> command_timeout_ms s' = max 500 (min 5000 (command_timeout p)) \<and> event_handler s' = init_event_handler p
     \<and> calls s' = calls s \<and> sub_handles s' = replicate MAX_SUB_TOPICS empty_handle
     \<and> list_pub_wait_ack s' = [] \<and> list_sub_wait_ack s' = []"

lemma prepared_upd [simp]:
  "prepared p s (s'\<lparr>os := w\<rparr>) = prepared p s s'" "prepared p s (s'\<lparr>held := h\<rparr>) = prepared p s s'"
  "prepared p s (s'\<lparr>ping_timer := t\<rparr>) = prepared p s s'" "prepared p s (s'\<lparr>reconnect_delay_timer := t\<rparr>) = prepared p s s'"
  by (simp_all add: prepared_def)

lemma create_lock_prepared:
  "create_lock hal m s = (True, s') \<Longrightarrow> (prepared p u s' = prepared p u s) \<and> held s' = (held s)(m := 0)"
  by (auto simp: create_lock_def Let_def split: prod.split_asm if_split_asm)

lemma malloc_prepared: "malloc hal n s = (b, s') \<Longrightarrow> (prepared p u s' = prepared p u s) \<and> held s' = held s"
  by (auto simp: malloc_def Let_def split: prod.split_asm)

lemma set_conn_prepared: "prepared p u s \<Longrightarrow> prepared p u (s\<lparr>is_connected := DISCONNECTED\<rparr>)"
  by (simp add: prepared_def)

lemma init_resources_prepared:
  assumes "init_resources hal s = Some (SUCCESS_RET, s')" and "prepared p u s"
  shows "prepared p u s' \<and> held s' = (\<lambda>_. 0)"
proof -
  from assms(1) obtain s1 s2 s3 s4 s5 s6 where
    1: "create_lock hal lock_generic s = (True, s1)" and 2: "create_lock hal lock_write_buf (s1\<lparr>is_connected := 0\<rparr>) = (True, s2)"
    and 3: "create_lock hal lock_list_sub s2 = (True, s3)" and 4: "create_lock hal lock_list_pub s3 = (True, s4)"
    and 5: "malloc hal sizeof_List s4 = (True, s5)" and 6: "malloc hal sizeof_List s5 = (True, s6)"
    and s': "s' = s6\<lparr>ping_timer := init_timer, reconnect_delay_timer := init_timer\<rparr>"
    by (auto simp: init_resources_def split: prod.split_asm if_split_asm)
  note steps = 1 [THEN create_lock_prepared] 2 [THEN create_lock_prepared] 3 [THEN create_lock_prepared]
    4 [THEN create_lock_prepared] 5 [THEN malloc_prepared] 6 [THEN malloc_prepared]
  have "prepared p u s'" using steps [of p u] assms(2) by (simp add: s' set_conn_prepared)
  moreover have "held s' m = 0" for m using steps [of p u] by (cases m) (simp_all add: s')
  ultimately show ?thesis by auto
qed

lemma clamp_u32: "max 500 (min 5000 x) = (if x < 500 then 500 else if 5000 < x then 5000 else x)" for x :: u32
  unfolding max_def min_def word_le_nat_alt word_less_nat_alt by (auto simp: word_unat_eq_iff)

lemma uiot_mqtt_init_ok:
  assumes "uiot_mqtt_init hal p s = Some ((SUCCESS_RET, p'), s')" and "globals_ok s"
  shows "prepared p s s' \<and> held s' = (\<lambda>_. 0) \<and> p' = p\<lparr>command_timeout := max 500 (min 5000 (command_timeout p))\<rparr>"
proof -
  define q where "q = p\<lparr>command_timeout := max 500 (min 5000 (command_timeout p))\<rparr>"
  define u where "u = (zero_client s)\<lparr>command_timeout_ms := command_timeout q, next_packet_id := 1,
                 write_buf_size := of_nat UIOT_MQTT_TX_BUF_LEN, read_buf_size := of_nat UIOT_MQTT_RX_BUF_LEN,
                 event_handler := init_event_handler q\<rparr>"
  have u: "prepared p s u"
    using assms(2) by (simp add: prepared_def u_def q_def zero_client_def client_inv_def session_ok_def nodes_ok_def globals_ok_def)
  have q: "(let p' = (if command_timeout p < 500 then p\<lparr>command_timeout := 500\<rparr> else p)
     in if command_timeout p' > 5000 then p'\<lparr>command_timeout := 5000\<rparr> else p') = q"
    by (simp add: q_def clamp_u32 Let_def)
  have "uiot_mqtt_init hal p s = map_option (\<lambda>(r, s'). ((r, q), s')) (init_resources hal u)"
    unfolding uiot_mqtt_init_def HAL_Snprintf_def UIOT_MQTT_DIRECT_DOMAIN_def str_def
    using q by (simp add: u_def Let_def map_option_case split: option.splits if_splits)
  with assms(1) have "init_resources hal u = Some (SUCCESS_RET, s')" "p' = q" by auto
  with init_resources_prepared [OF this(1) u] show ?thesis by (simp add: q_def)
qed


text \<open>What the server is told: client identifier, user name and password.\<close>

definition credentials :: "MQTTInitParams \<Rightarrow> cstr \<Rightarrow> cstr \<Rightarrow> MQTTConnectParams \<Rightarrow> bool" where
  "credentials ip p d cp \<longleftrightarrow> client_id cp = Some (p @ str ''.'' @ d)
     \<and> (case (device_secret ip, product_secret ip) of
          (Some secret, _) \<Rightarrow> username cp = Some (p @ str ''|'' @ d @ str ''|1'') \<and> password cp = Some secret
        | (None, Some secret) \<Rightarrow> username cp = Some (p @ str ''|'' @ d @ str ''|2'') \<and> password cp = Some secret
        | (None, None) \<Rightarrow> username cp = Some (p @ str ''|'' @ d @ str ''|0'') \<and> password cp = None)"

lemma auth_password_result:
  "auth_password hal p s = (Some (m, pw), s') \<Longrightarrow>
   (m, pw) = (case (device_secret p, product_secret p) of (Some x, _) \<Rightarrow> (1, Some x) | (None, Some x) \<Rightarrow> (2, Some x) | (None, None) \<Rightarrow> (0, None))
   \<and> (\<exists>w. s' = s\<lparr>os := w\<rparr>)"
  by (auto simp: auth_password_def HAL_Snprintf_def malloc_def Let_def split: option.split_asm prod.split_asm if_split_asm)
    (rule exI [of _ "os s'"], simp)

lemma construct_steps:
  assumes "IOT_MQTT_Construct cr hal fuel ip s = Some ((True, ip'), s')"
  obtains p d s1 s2 cp w w' where "product_sn ip = Some p" "device_sn ip = Some d"
    "uiot_mqtt_init hal ip (s\<lparr>os := w\<rparr>) = Some ((SUCCESS_RET, ip'), s1)" "s2 = s1\<lparr>os := w'\<rparr>"
    "uiot_mqtt_connect cr hal fuel cp s2 = Some (SUCCESS_RET, s')" "credentials ip' p d cp"
    "keep_alive_interval cp = ucast (init_keep_alive_interval ip')" "auto_connect_enable cp = init_auto_connect_enable ip'"
    "mqtt_version cp = 4"
proof -
  have dig: "auth_digit 0 = of_char (CHR ''0'')" "auth_digit (Suc 0) = of_char (CHR ''1'')" "auth_digit 2 = of_char (CHR ''2'')"
    by code_simp+
  from assms show ?thesis
    by (auto simp: IOT_MQTT_Construct_def Let_def split: option.split_asm prod.split_asm if_split_asm elim!: bind_SomeE
        dest!: auth_password_result timer_ops_frame)
      (rule that, assumption+, rule refl, assumption,
        auto simp: credentials_def dig str_def HAL_Snprintf_def DEFAULT_MQTT_CONNECT_PARAMS_def split: option.splits)+
qed


lemma constructed_client:
  assumes "IOT_MQTT_Construct cr hal fuel ip s = Some ((True, ip'), s')" and "globals_ok s"
  shows "\<exists>p d. product_sn ip = Some p \<and> device_sn ip = Some d \<and> client_inv s' \<and> session_ok s' \<and> held s' = (\<lambda>_. 0)
    \<and> is_connected s' = CONNECTED \<and> connack_in s' \<and> is_ping_outstanding s' = 0 \<and> credentials ip p d (options s')
    \<and> uint (keep_alive_interval (options s')) = uint (init_keep_alive_interval ip) mod 65536
    \<and> ip' = ip\<lparr>command_timeout := max 500 (min 5000 (command_timeout ip))\<rparr>"
proof (rule construct_steps [OF assms(1)])
  fix p d cp s1 s2 w w'
  assume i: "uiot_mqtt_init hal ip (s\<lparr>os := w\<rparr>) = Some ((SUCCESS_RET, ip'), s1)" and s2: "s2 = s1\<lparr>os := w'\<rparr>"
    and c: "uiot_mqtt_connect cr hal fuel cp s2 = Some (SUCCESS_RET, s')"
    and cp: "credentials ip' p d cp" "keep_alive_interval cp = ucast (init_keep_alive_interval ip')"
    and pd: "product_sn ip = Some p" "device_sn ip = Some d"
  have g: "globals_ok (s\<lparr>os := w\<rparr>)" using assms(2) by (simp add: globals_ok_def)
  note pr = uiot_mqtt_init_ok [OF i g]
  then have s2': "client_inv s2" "session_ok s2" "is_connected s2 = 0" "held s2 = (\<lambda>_. 0)"
    by (simp_all add: s2 prepared_def)
  have u: "uint (ucast x :: u16) = uint x mod 65536" for x :: u32
    by (simp add: unsigned_ucast_eq take_bit_eq_mod)
  from uiot_mqtt_connect_result [OF c s2'(1)] s2' have r: "client_inv s' \<and> held s' = (\<lambda>_. 0) \<and> options s' = cp
    \<and> is_connected s' = CONNECTED \<and> connack_in s' \<and> is_ping_outstanding s' = 0" by simp
  have "session_ok s'" using uiot_mqtt_connect_session [OF c s2'(2)] .
  with r pr cp pd show ?thesis by (simp add: u credentials_def)
qed

section \<open>Properties\<close>


lemma api_step_keeps:
  "api_step cr hal fuel c s = Some (r, s') \<Longrightarrow> client_inv s \<Longrightarrow> session_ok s \<Longrightarrow>
   client_inv s' \<and> session_ok s' \<and> held s' = held s"
  by (cases c) (auto simp: api_defs keeps_def dest: keeps_dest session_dest)

lemma client_state_ok:
  assumes "client_state cr hal s"
  shows "client_inv s \<and> session_ok s \<and> held s = (\<lambda>_. 0)"
  using assms
proof (induction rule: client_state.induct)
  case (constructed s0 fuel p p' s)
  from constructed_client [OF constructed(2,1)] show ?case by auto
next
  case (called s fuel c r s')
  from api_step_keeps [OF called(2)] called.IH show ?case by auto
qed simp

text \<open>
  C1. Every reachable client is consistent.  In every state a client can get into, from its construction through any calls of
  publish, subscribe, unsubscribe, yield, connect, disconnect and the setters, with any network and any clock, the invariant holds:
  buffers and tables have their sizes, waiting lists hold at most 20 and 10 requests at distinct addresses, the next packet
  identifier is not 0, at most two pings are outstanding, the reconnect delay is at most 60 s, the connection flag is 0 or 1;
  and no mutex is left locked.
\<close>
theorem reachable_client_consistent:
  assumes "client_state cr hal s"
  shows "client_inv s \<and> session_ok s \<and> held s = (\<lambda>_. 0)"
  using assms by (rule client_state_ok)


definition demo_init :: MQTTInitParams where
  "demo_init = \<lparr> product_sn = Some (str ''p''), device_sn = Some (str ''d''), product_secret = None,
     device_secret = Some (str ''s''), command_timeout = 100, init_keep_alive_interval = 65537, init_clean_session = 1,
     init_auto_connect_enable = 1, init_event_handler = Some 1 \<rparr>"

text \<open>The same client and connection parameters, written out.\<close>

definition demo_params :: MQTTConnectParams where
  "demo_params = \<lparr> client_id = Some [112, 46, 100], username = Some [112, 124, 100, 124, 49], password = Some [115],
     mqtt_version = 4, keep_alive_interval = 1, clean_session = 1, auto_connect_enable = 1 \<rparr>"

definition demo_ready :: "(u32 \<times> bytes) sys" where
  "demo_ready = waiting_sys\<lparr>command_timeout_ms := 500, current_reconnect_wait_interval := 0,
     options := \<lparr> client_id = None, username = None, password = None, mqtt_version = 0, keep_alive_interval = 0,
       clean_session = 0, auto_connect_enable = 0 \<rparr>\<rparr>"

lemma demo_hal_simps [simp]:
  "HAL_Malloc demo_hal n w = (True, w)" "HAL_MutexCreate demo_hal w = (True, w)"
  by (simp_all add: demo_hal_def tcp_hal_def)

lemma demo_init_sel:
  "product_sn demo_init = Some [112]" "device_sn demo_init = Some [100]" "product_secret demo_init = None"
  "device_secret demo_init = Some [115]" "init_keep_alive_interval demo_init = 65537" "init_clean_session demo_init = 1"
  "init_auto_connect_enable demo_init = 1" "init_event_handler demo_init = Some 1" "command_timeout demo_init = 100"
  by (simp_all add: demo_init_def str_def)

lemma demo_init_resources:
  "init_resources demo_hal ((zero_client waiting_sys)\<lparr>command_timeout_ms := 500, next_packet_id := 1,
     write_buf_size := 2048, read_buf_size := 2048, event_handler := Some 1\<rparr>) = Some (SUCCESS_RET, demo_ready)"
  by (simp add: init_resources_def create_lock_def malloc_def demo_ready_def zero_client_def waiting_sys_def demo_sys_def
      init_timer_def HAL_Timer_Init_def fun_eq_iff)

lemma demo_construct:
  obtains ip s where "IOT_MQTT_Construct True demo_hal 10 demo_init waiting_sys = Some ((True, ip), s)"
proof -
  have k: "(65537 :: u16) = 1" by code_simp
  have m: "malloc demo_hal n u = (True, u)" for n u by (simp add: malloc_def)
  have i: "uiot_mqtt_init demo_hal demo_init waiting_sys = Some ((SUCCESS_RET, demo_init\<lparr>command_timeout := 500\<rparr>), demo_ready)"
    using demo_init_resources
    by (simp add: uiot_mqtt_init_def HAL_Snprintf_def UIOT_MQTT_DIRECT_DOMAIN_def str_def demo_init_sel Let_def)
  have "IOT_MQTT_Construct True demo_hal 10 demo_init waiting_sys =
    map_option (\<lambda>(ret, s). ((ret = SUCCESS_RET, demo_init\<lparr>command_timeout := 500\<rparr>), s)) (uiot_mqtt_connect True demo_hal 10 demo_params demo_ready)"
    by (simp add: k IOT_MQTT_Construct_def m i auth_password_def demo_init_sel HAL_Snprintf_def str_def demo_params_def
        auth_digit_def DEFAULT_MQTT_CONNECT_PARAMS_def Let_def map_option_case split: option.splits)
  moreover have "map_option fst (uiot_mqtt_connect True demo_hal 10 demo_params demo_ready) = Some SUCCESS_RET" by code_simp
  ultimately show ?thesis using that by auto
qed

lemma waiting_sys_globals: "globals_ok waiting_sys"
  by (simp add: globals_ok_def waiting_sys_def demo_sys_def)


theorem reachable_client_consistent_witness:
  "\<exists>s. client_state True demo_hal s \<and> client_inv s \<and> session_ok s \<and> held s = (\<lambda>_. 0)"
proof (rule demo_construct)
  fix ip s assume "IOT_MQTT_Construct True demo_hal 10 demo_init waiting_sys = Some ((True, ip), s)"
  from client_state.constructed [OF waiting_sys_globals this] reachable_client_consistent [of True demo_hal s] show ?thesis by blast
qed

end
