(* ===== verification/Utils_Json.thy ===== *)
theory Utils_Json
  imports Iot_Prelude "HOL-Library.Sublist"
begin

text \<open>
  The JSON reader of \<^verbatim>\<open>json_parser.c\<close> and \<^verbatim>\<open>json_token.c\<close>, on which the shadow, OTA and device-model
  clients rest.  It does not build a tree: it walks over the text with pointers.  The memory that holds the text is a
  byte list and a pointer is an index into it (\<open>None\<close> the null pointer); reading behind the list is undefined behaviour.
  Pointer differences, which C keeps in \<open>int\<close>, are natural numbers: the texts are shorter than \<open>2\<^sup>3\<^sup>1\<close> bytes.
\<close>

section \<open>C strings in memory\<close>

abbreviation (input) QUOTE :: u8 where "QUOTE \<equiv> 34"
abbreviation (input) MINUS :: u8 where "MINUS \<equiv> 45"
abbreviation (input) DOT :: u8 where "DOT \<equiv> 46"
abbreviation (input) COLON :: u8 where "COLON \<equiv> 58"
abbreviation (input) SPACE :: u8 where "SPACE \<equiv> 32"
abbreviation (input) LBRACE :: u8 where "LBRACE \<equiv> 123"
abbreviation (input) RBRACE :: u8 where "RBRACE \<equiv> 125"
abbreviation (input) LBRACKET :: u8 where "LBRACKET \<equiv> 91"
abbreviation (input) RBRACKET :: u8 where "RBRACKET \<equiv> 93"

text \<open>\<open>strchr\<close>, \<open>strlen\<close>, and whether \<open>strncmp\<close> with the length of a literal or name gives 0.\<close>

function strchr_at :: "bytes \<Rightarrow> pos \<Rightarrow> u8 \<Rightarrow> pos option option" where
  "strchr_at m p c = (case peek m p of None \<Rightarrow> None | Some x \<Rightarrow>
     if x = c then Some (Some p) else if x = 0 then Some None else strchr_at m (p + 1) c)"
  by pat_completeness auto
termination by (relation "measure (\<lambda>(m, p, c). length m - p)") (auto simp: peek_eq_Some_iff)

function strlen_at :: "bytes \<Rightarrow> pos \<Rightarrow> nat option" where
  "strlen_at m p = (case peek m p of None \<Rightarrow> None | Some x \<Rightarrow>
     if x = 0 then Some 0 else map_option Suc (strlen_at m (p + 1)))"
  by pat_completeness auto
termination by (relation "measure (\<lambda>(m, p). length m - p)") (auto simp: peek_eq_Some_iff)

primrec strncmp_at :: "cstr \<Rightarrow> bytes \<Rightarrow> pos \<Rightarrow> bool option" where
  "strncmp_at [] m p = Some True"
| "strncmp_at (c # cs) m p = do { x \<leftarrow> peek m p; if x = c then strncmp_at cs m (p + 1) else Some False }"

definition cstr_at :: "bytes \<Rightarrow> pos \<Rightarrow> cstr" where
  "cstr_at m p = takeWhile (\<lambda>x. x \<noteq> 0) (drop p m)"

declare strchr_at.simps [simp del] strlen_at.simps [simp del]

section \<open>Finding members\<close>

datatype JSONTYPE = JSNONE | JSSTRING | JSOBJECT | JSARRAY | JSNUMBER | JSBOOLEAN | JSNULL
datatype JSON_PARSE_CODE = JSON_PARSE_ERR | JSON_PARSE_OK | JSON_PARSE_FINISH
datatype JSON_PARSE_RESULT = JSON_RESULT_ERR | JSON_RESULT_OK

definition is_digit :: "u8 \<Rightarrow> bool" where "is_digit x \<longleftrightarrow> 48 \<le> x \<and> x \<le> 57"

function get_object_loop :: "u8 \<Rightarrow> bytes \<Rightarrow> pos \<Rightarrow> pos option option" where
  "get_object_loop ch m p = (case peek m p of None \<Rightarrow> None | Some x \<Rightarrow>
     if x = 0 then Some None
     else if x = SPACE then get_object_loop ch m (p + 1)
     else Some (if x = ch then Some p else None))"
  by pat_completeness auto
termination by (relation "measure (\<lambda>(ch, m, p). length m - p)") (auto simp: peek_eq_Some_iff)

definition json_get_object :: "JSONTYPE \<Rightarrow> bytes \<Rightarrow> pos option \<Rightarrow> pos option option" where
  "json_get_object type m ptr =
     (case ptr of None \<Rightarrow> Some None
      | Some p \<Rightarrow> get_object_loop (if type = JSOBJECT then LBRACE else LBRACKET) m p)"

text \<open>The first loop of \<open>json_get_next_object\<close>: the type of the value, \<open>p_cValue\<close> and \<open>p_cPos\<close>.\<close>

function find_value :: "bytes \<Rightarrow> pos \<Rightarrow> (JSONTYPE \<times> pos option \<times> pos) option" where
  "find_value m p = (case peek m p of None \<Rightarrow> None | Some x \<Rightarrow>
     if x = 0 then Some (JSNONE, None, p)
     else if x = QUOTE then Some (JSSTRING, Some (p + 1), p + 1)
     else if x = LBRACE then Some (JSOBJECT, Some p, p + 1)
     else if x = LBRACKET then Some (JSARRAY, Some p, p + 1)
     else if x = MINUS \<or> is_digit x then Some (JSNUMBER, Some p, p + 1)
     else if x \<in> {116, 84, 102, 70} then Some (JSBOOLEAN, Some p, p)
     else if x \<in> {110, 78} then Some (JSNULL, Some p, p)
     else find_value m (p + 1))"
  by pat_completeness auto
termination by (relation "measure (\<lambda>(m, p). length m - p)") (auto simp: peek_eq_Some_iff)

text \<open>The lengths of the literals at \<open>p_cValue\<close>, 0 if there is none.\<close>

definition bool_len :: "bytes \<Rightarrow> pos \<Rightarrow> nat option" where
  "bool_len m v = do {
     len \<leftarrow> strlen_at m v;
     c \<leftarrow> peek m v;
     t1 \<leftarrow> strncmp_at (str ''true'') m v;
     t2 \<leftarrow> strncmp_at (str ''TRUE'') m v;
     f1 \<leftarrow> strncmp_at (str ''false'') m v;
     f2 \<leftarrow> strncmp_at (str ''FALSE'') m v;
     Some (if c \<in> {116, 84} \<and> 4 \<le> len \<and> (t1 \<or> t2) then 4
           else if c \<in> {102, 70} \<and> 5 \<le> len \<and> (f1 \<or> f2) then 5 else 0) }"

definition null_len :: "bytes \<Rightarrow> pos \<Rightarrow> nat option" where
  "null_len m v = do {
     nlen \<leftarrow> strlen_at m v;
     c \<leftarrow> peek m v;
     n1 \<leftarrow> strncmp_at (str ''null'') m v;
     n2 \<leftarrow> strncmp_at (str ''NULL'') m v;
     Some (if c \<in> {110, 78} \<and> 4 \<le> nlen \<and> (n1 \<or> n2) then 4 else 0) }"

definition open_mark :: "JSONTYPE \<Rightarrow> u8" where
  "open_mark t = (case t of JSSTRING \<Rightarrow> QUOTE | JSOBJECT \<Rightarrow> LBRACE | JSARRAY \<Rightarrow> LBRACKET | JSNUMBER \<Rightarrow> 48 | _ \<Rightarrow> 0)"
definition close_mark :: "JSONTYPE \<Rightarrow> u8" where
  "close_mark t = (case t of JSSTRING \<Rightarrow> QUOTE | JSOBJECT \<Rightarrow> RBRACE | JSARRAY \<Rightarrow> RBRACKET | JSNUMBER \<Rightarrow> SPACE | _ \<Rightarrow> 0)"

text \<open>The second loop: \<open>iValueLen\<close>.\<close>

function scan_value :: "bytes \<Rightarrow> JSONTYPE \<Rightarrow> pos \<Rightarrow> pos \<Rightarrow> nat \<Rightarrow> nat option" where
  "scan_value m t v p depth = (case peek m p of None \<Rightarrow> None | Some x \<Rightarrow>
     if x = 0 then Some 0
     else if t = JSBOOLEAN then
       (case bool_len m v of None \<Rightarrow> None | Some n \<Rightarrow> if n > 0 then Some n else scan_value m t v (p + 1) depth)
     else if t = JSNULL then
       (case null_len m v of None \<Rightarrow> None | Some n \<Rightarrow> if n > 0 then Some n else scan_value m t v (p + 1) depth)
     else if t = JSNUMBER then
       (if \<not> is_digit x \<and> x \<noteq> DOT then Some (p - v) else scan_value m t v (p + 1) depth)
     else if x = close_mark t then
       (if depth = 0 then Some (p - v + (if t = JSSTRING then 0 else 1)) else scan_value m t v (p + 1) (depth - 1))
     else if x = open_mark t then scan_value m t v (p + 1) (depth + 1)
     else scan_value m t v (p + 1) depth)"
  by pat_completeness auto
termination by (relation "measure (\<lambda>(m, t, v, p, depth). length m - p)") (auto simp: peek_eq_Some_iff)

declare get_object_loop.simps [simp del] find_value.simps [simp del] scan_value.simps [simp del]

text \<open>What \<open>json_get_next_object\<close> stores through its pointer arguments, and its result: without a key it stores nothing.\<close>

record json_out =
  key :: pos
  key_len :: nat
  val :: "pos option"
  val_len :: nat
  val_type :: JSONTYPE

datatype json_next = No_Member | Member "pos option" json_out

definition json_value :: "bytes \<Rightarrow> pos option \<Rightarrow> (JSONTYPE \<times> pos option \<times> nat) option" where
  "json_value m p = (case p of None \<Rightarrow> Some (JSNONE, None, 0) | Some p \<Rightarrow> do {
     (t, v, q) \<leftarrow> find_value m p;
     case v of
       None \<Rightarrow> Some (t, None, 0)
     | Some v' \<Rightarrow> do { l \<leftarrow> scan_value m t v' q 0; Some (t, v, l) } })"

definition json_get_next_object :: "JSONTYPE \<Rightarrow> bytes \<Rightarrow> pos \<Rightarrow> json_next option" where
  "json_get_next_object type m ptr = do {
     let member = (\<lambda>name name_len pos. do {
       (t, v, l) \<leftarrow> json_value m pos;
       Some (Member (map_option (\<lambda>v. if t = JSSTRING then v + l + 1 else v + l) v)
         \<lparr> key = name, key_len = name_len, val = v, val_len = l, val_type = t \<rparr>) });
     if type = JSOBJECT then do {
       q \<leftarrow> strchr_at m ptr QUOTE;
       case q of
         None \<Rightarrow> Some No_Member
       | Some q \<Rightarrow> do {
           e \<leftarrow> strchr_at m (q + 1) QUOTE;
           case e of
             None \<Rightarrow> Some No_Member
           | Some e \<Rightarrow> do {
               c \<leftarrow> strchr_at m e COLON;
               member (q + 1) (e - (q + 1)) c } } }
     else member 0 0 (Some ptr) }"

section \<open>Iterating over the members\<close>

lemma strchr_at_ge: "strchr_at m p c = Some (Some q) \<Longrightarrow> p \<le> q"
  by (induction m p c rule: strchr_at.induct)
    (subst (asm) (2) strchr_at.simps, auto split: option.splits if_splits simp: Suc_le_eq le_Suc_eq)

lemma find_value_ge: "find_value m p = Some (t, Some v, q) \<Longrightarrow> p \<le> v"
  by (induction m p rule: find_value.induct)
    (subst (asm) (2) find_value.simps, auto split: option.splits if_splits)

lemma json_value_ge: "json_value m (Some p) = Some (t, Some v, l) \<Longrightarrow> p \<le> v"
  by (auto simp: json_value_def bind_Some_iff split: option.splits dest!: find_value_ge)

lemma next_object_progress:
  assumes "json_get_next_object JSOBJECT m p = Some (Member (Some q) out)"
  shows "p < q"
proof -
  from assms obtain a b c where abc: "strchr_at m p QUOTE = Some (Some a)" "strchr_at m (a + 1) QUOTE = Some (Some b)"
    "strchr_at m b COLON = Some c"
    by (auto simp: json_get_next_object_def bind_Some_iff split: option.splits)
  with assms obtain t v l where v: "json_value m c = Some (t, Some v, l)" and q: "v \<le> q"
    by (auto simp: json_get_next_object_def bind_Some_iff)
  then obtain c' where c': "c = Some c'" by (cases c) (auto simp: json_value_def)
  have "p \<le> a" "a < b" "b \<le> c'" "c' \<le> v"
    using strchr_at_ge [OF abc(1)] strchr_at_ge [OF abc(2)] strchr_at_ge [OF abc(3) [unfolded c']] json_value_ge v c' by auto
  with q show ?thesis by simp
qed

type_synonym 'd json_parse_cb = "bytes \<Rightarrow> pos \<Rightarrow> nat \<Rightarrow> pos \<Rightarrow> nat \<Rightarrow> JSONTYPE \<Rightarrow> 'd \<Rightarrow> (JSON_PARSE_CODE \<times> 'd) option"

text \<open>The body of \<open>json_object_for_each_kv\<close> in \<open>json_parse_name_value\<close>, from a cursor on.\<close>

function kv_loop :: "'d json_parse_cb \<Rightarrow> bytes \<Rightarrow> pos \<Rightarrow> JSON_PARSE_RESULT \<Rightarrow> 'd \<Rightarrow> (JSON_PARSE_RESULT \<times> 'd) option" where
  "kv_loop cb m p ret d = (case peek m p of None \<Rightarrow> None | Some x \<Rightarrow>
     if x = 0 then Some (ret, d)
     else case json_get_next_object JSOBJECT m p of None \<Rightarrow> None
       | Some No_Member \<Rightarrow> Some (ret, d)
       | Some (Member None _) \<Rightarrow> Some (ret, d)
       | Some (Member (Some q) out) \<Rightarrow>
           (case val out of None \<Rightarrow> kv_loop cb m q ret d
            | Some v \<Rightarrow>
                if key_len out \<noteq> 0 \<and> val_len out \<noteq> 0 then
                  (case cb m (key out) (key_len out) v (val_len out) (val_type out) d of None \<Rightarrow> None
                   | Some (c, d) \<Rightarrow> if c = JSON_PARSE_FINISH then Some (JSON_RESULT_OK, d) else kv_loop cb m q JSON_RESULT_OK d)
                else kv_loop cb m q ret d))"
  by pat_completeness auto
termination
  by (relation "measure (\<lambda>(cb, m, p, ret, d). length m - p)")
    (auto simp: peek_eq_Some_iff dest!: next_object_progress)

declare kv_loop.simps [simp del]

definition backup_json_str_last_char :: "bytes \<Rightarrow> pos \<Rightarrow> int \<Rightarrow> (bytes \<times> u8) option" where
  "backup_json_str_last_char m p str_len =
     (if int p + str_len < 0 then None
      else do {
        c \<leftarrow> peek m (nat (int p + str_len));
        m \<leftarrow> poke m (nat (int p + str_len)) 0;
        Some (m, c) })"

definition restore_json_str_last_char :: "bytes \<Rightarrow> pos \<Rightarrow> int \<Rightarrow> u8 \<Rightarrow> bytes option" where
  "restore_json_str_last_char m p str_len c =
     (if int p + str_len < 0 then None else poke m (nat (int p + str_len)) c)"

definition json_parse_name_value ::
  "bytes \<Rightarrow> pos option \<Rightarrow> int \<Rightarrow> 'd json_parse_cb option \<Rightarrow> 'd \<Rightarrow> (JSON_PARSE_RESULT \<times> 'd \<times> bytes) option" where
  "json_parse_name_value m p_cJsonStr iStrLen pfnCB d =
     (case (p_cJsonStr, pfnCB) of
        (Some p, Some cb) \<Rightarrow>
          if iStrLen = 0 then Some (JSON_RESULT_ERR, d, m)
          else do {
            l \<leftarrow> strlen_at m p;
            (m, last_char) \<leftarrow> (if iStrLen \<noteq> int l then backup_json_str_last_char m p iStrLen else Some (m, 0));
            pos \<leftarrow> json_get_object JSOBJECT m (Some p);
            (ret, d) \<leftarrow> (case pos of None \<Rightarrow> Some (JSON_RESULT_ERR, d) | Some q \<Rightarrow> kv_loop cb m q JSON_RESULT_ERR d);
            l \<leftarrow> strlen_at m p;
            m \<leftarrow> (if iStrLen \<noteq> int l then restore_json_str_last_char m p iStrLen last_char else Some m);
            Some (ret, d, m) }
      | _ \<Rightarrow> Some (JSON_RESULT_ERR, d, m))"

section \<open>Lookup by name\<close>

record JSON_NV =
  nLen :: nat
  vLen :: nat
  vType :: JSONTYPE
  pN :: cstr
  pV :: "pos option"

definition json_get_value_by_name_cb :: "JSON_NV json_parse_cb" where
  "json_get_value_by_name_cb m p_cName iNameLen p_cValue iValueLen iValueType nv = do {
     eq \<leftarrow> strncmp_at (take (nLen nv) (pN nv)) m p_cName;
     if eq then Some (JSON_PARSE_FINISH, nv\<lparr>pV := Some p_cValue, vLen := iValueLen, vType := iValueType\<rparr>)
     else Some (JSON_PARSE_OK, nv) }"

text \<open>
  The result and, where they are stored, the length and the type (the caller that passes no pointer for the type, \<open>want_type\<close>
  false, gets \<open>null\<close> values too); \<open>memset\<close> makes the type of an absent value \<open>JSSTRING\<close>.
\<close>

definition json_get_value_by_name ::
  "bytes \<Rightarrow> pos \<Rightarrow> int \<Rightarrow> cstr \<Rightarrow> bool \<Rightarrow> (pos option \<times> (nat \<times> JSONTYPE) option \<times> bytes) option" where
  "json_get_value_by_name m p_cJsonStr iStrLen p_cName want_type = do {
     let stNV = \<lparr> nLen = length p_cName, vLen = 0, vType = JSSTRING, pN = p_cName, pV = None \<rparr>;
     (ret, stNV, m) \<leftarrow> json_parse_name_value m (Some p_cJsonStr) iStrLen (Some json_get_value_by_name_cb) stNV;
     if ret = JSON_RESULT_OK
     then Some (if want_type \<and> vType stNV = JSNULL then None else pV stNV, Some (vLen stNV, vType stNV), m)
     else Some (pV stNV, None, m) }"

text \<open>
  \<open>LITE_json_value_of\<close> follows a path of names separated by dots; \<open>mal\<close> says whether an allocation of a size is granted.
\<close>

definition next_key :: "cstr \<Rightarrow> cstr" where "next_key k = takeWhile (\<lambda>c. c \<noteq> DOT) k"

function json_walk :: "(nat \<Rightarrow> bool) \<Rightarrow> bytes \<Rightarrow> cstr \<Rightarrow> pos \<Rightarrow> ((cstr \<times> pos) option \<times> bytes) option" where
  "json_walk mal m key_iter src_iter =
     (if DOT \<notin> set key_iter then Some (Some (key_iter, src_iter), m)
      else if \<not> mal (length (next_key key_iter) + 1) then None
      else do {
        l \<leftarrow> strlen_at m src_iter;
        (value, _, m) \<leftarrow> json_get_value_by_name m src_iter (int l) (next_key key_iter) False;
        case value of None \<Rightarrow> Some (None, m)
        | Some v \<Rightarrow> json_walk mal m (drop (length (next_key key_iter) + 1) key_iter) v })"
  by pat_completeness auto
termination by (relation "measure (\<lambda>(mal, m, k, p). length k)")
    (auto intro!: diff_less dest: length_pos_if_in_set)

declare json_walk.simps [simp del]

definition LITE_json_value_of :: "(nat \<Rightarrow> bool) \<Rightarrow> bytes \<Rightarrow> cstr \<Rightarrow> pos \<Rightarrow> (cstr option \<times> bytes) option" where
  "LITE_json_value_of mal m path src = do {
     (r, m) \<leftarrow> json_walk mal m path src;
     case r of None \<Rightarrow> Some (None, m)
     | Some (key_iter, src_iter) \<Rightarrow> do {
         l \<leftarrow> strlen_at m src_iter;
         (value, out, m) \<leftarrow> json_get_value_by_name m src_iter (int l) key_iter False;
         case (value, out) of
           (Some v, Some (value_len, _)) \<Rightarrow>
             if mal (value_len + 1) then do {
               n \<leftarrow> strlen_at m v;
               Some (Some (take value_len (cstr_at m v)), m) }
             else Some (None, m)
         | _ \<Rightarrow> Some (None, m) } }"

section \<open>Staying inside the text\<close>

text \<open>A C string from \<open>p\<close> on, with its terminator at \<open>e\<close>.\<close>

definition zstr :: "bytes \<Rightarrow> pos \<Rightarrow> pos \<Rightarrow> bool" where
  "zstr m p e \<longleftrightarrow> p \<le> e \<and> e < length m \<and> m ! e = 0 \<and> (\<forall>i. p \<le> i \<and> i < e \<longrightarrow> m ! i \<noteq> 0)"

lemma zstr_later: "zstr m p e \<Longrightarrow> p \<le> q \<Longrightarrow> q \<le> e \<Longrightarrow> zstr m q e"
  by (auto simp: zstr_def)

lemma zstr_peek: "zstr m p e \<Longrightarrow> peek m p = Some (m ! p)"
  by (simp add: zstr_def)

lemma zstr_end: "zstr m p e \<Longrightarrow> (m ! p = 0) = (p = e)"
  by (auto simp: zstr_def)

lemma zstr_Suc: "zstr m p e \<Longrightarrow> p \<noteq> e \<Longrightarrow> zstr m (Suc p) e"
  by (rule zstr_later) (auto simp: zstr_def)

text \<open>Induction from a position to the end of the string.\<close>

lemma zstr_induct [consumes 1, case_names at_end step]:
  assumes "zstr m p e" and "zstr m e e \<Longrightarrow> P e" and "\<And>p. zstr m p e \<Longrightarrow> p < e \<Longrightarrow> P (Suc p) \<Longrightarrow> P p"
  shows "P p"
proof -
  from assms(1) have "p \<le> e" by (simp add: zstr_def)
  then show ?thesis using assms(1)
  proof (induction rule: inc_induct)
    case base then show ?case by (rule assms(2))
  next
    case (step n)
    from step.prems step.hyps(2) have "zstr m (Suc n) e" by (intro zstr_Suc) simp_all
    show ?case by (rule assms(3) [OF step.prems step.hyps(2) step.IH [OF \<open>zstr m (Suc n) e\<close>]])
  qed
qed

lemma strchr_at_zstr:
  assumes "zstr m p e" and "c \<noteq> 0"
  shows "\<exists>r. strchr_at m p c = Some r \<and> (\<forall>q. r = Some q \<longrightarrow> p \<le> q \<and> q < e \<and> m ! q = c)"
  using assms(1)
proof (induction rule: zstr_induct)
  case at_end
  with assms show ?case by (subst strchr_at.simps) (auto simp: zstr_def)
next
  case (step p)
  then show ?case using zstr_end [OF step(1)]
    by (subst strchr_at.simps) (auto simp: zstr_peek)
qed

lemma strlen_at_zstr: "zstr m p e \<Longrightarrow> strlen_at m p = Some (e - p)"
proof (induction rule: zstr_induct)
  case at_end
  then show ?case by (subst strlen_at.simps) (auto simp: peek_def zstr_def split: option.splits)
next
  case (step p)
  then show ?case using zstr_end [OF step(1)]
    by (subst strlen_at.simps) (auto simp: zstr_peek Suc_diff_Suc)
qed

lemma strncmp_at_zstr: "zstr m p e \<Longrightarrow> 0 \<notin> set cs \<Longrightarrow>
  strncmp_at cs m p = Some (p + length cs \<le> e \<and> take (length cs) (drop p m) = cs)"
proof (induction cs arbitrary: p)
  case Nil then show ?case by (simp add: zstr_def)
next
  case (Cons c cs)
  show ?case
  proof (cases "m ! p = c")
    case True
    with Cons.prems have "p \<noteq> e" by (auto simp: zstr_def)
    with Cons.prems have l: "p < length m" "p < e" by (auto simp: zstr_def)
    from Cons.IH [OF zstr_Suc [OF Cons.prems(1) \<open>p \<noteq> e\<close>]] Cons.prems(2) True l show ?thesis
      by (simp add: zstr_peek [OF Cons.prems(1)] Cons_nth_drop_Suc [symmetric])
  next
    case False
    from Cons.prems have "p < length m" by (simp add: zstr_def)
    with False show ?thesis by (simp add: zstr_peek [OF Cons.prems(1)] Cons_nth_drop_Suc [symmetric])
  qed
qed

text \<open>
  What the value loops deliver: a value inside the string, and the cursor behind it; only an unterminated string value that
  starts at the end of the text moves the cursor behind the terminator.
\<close>

lemma find_value_zstr:
  "zstr m p e \<Longrightarrow> \<exists>t v q. find_value m p = Some (t, v, q) \<and> p \<le> q \<and> q \<le> e
     \<and> (v = None \<longleftrightarrow> t = JSNONE)
     \<and> (\<forall>v'. v = Some v' \<longrightarrow> p \<le> v' \<and> v' \<le> q \<and> (t \<noteq> JSSTRING \<longrightarrow> v' < e) \<and> (t = JSSTRING \<longrightarrow> v' = q \<and> p < q \<and> m ! (v' - 1) = QUOTE))"
proof (induction rule: zstr_induct)
  case at_end
  then show ?case by (subst find_value.simps) (simp add: zstr_peek zstr_end)
next
  case (step p)
  have "m ! p \<noteq> 0" using step(1,2) zstr_end by auto
  with step show ?case
    by (subst find_value.simps) (auto simp: zstr_peek)
qed

lemma literals_nonzero:
  "0 \<notin> set (str ''true'')" "0 \<notin> set (str ''TRUE'')" "0 \<notin> set (str ''false'')" "0 \<notin> set (str ''FALSE'')"
  "0 \<notin> set (str ''null'')" "0 \<notin> set (str ''NULL'')"
  by (simp_all add: str_def)

lemma bool_len_zstr:
  assumes "zstr m v e" shows "\<exists>n. bool_len m v = Some n \<and> v + n \<le> e"
proof -
  have "v \<le> e" using assms by (simp add: zstr_def)
  then show ?thesis
    by (auto simp: le_diff_conv2 bool_len_def strlen_at_zstr [OF assms] strncmp_at_zstr [OF assms] zstr_peek [OF assms] literals_nonzero)
qed

lemma null_len_zstr:
  assumes "zstr m v e" shows "\<exists>n. null_len m v = Some n \<and> v + n \<le> e"
proof -
  have "v \<le> e" using assms by (simp add: zstr_def)
  then show ?thesis
    by (auto simp: le_diff_conv2 null_len_def strlen_at_zstr [OF assms] strncmp_at_zstr [OF assms] zstr_peek [OF assms] literals_nonzero)
qed

lemma scan_value_zstr:
  assumes "zstr m v e" and "zstr m p e" and "v \<le> p"
  shows "\<exists>n. scan_value m t v p depth = Some n \<and> v + n \<le> e \<and> (t = JSSTRING \<longrightarrow> n \<noteq> 0 \<longrightarrow> v + n < e)"
  using assms(2,3)
proof (induction arbitrary: depth rule: zstr_induct)
  case at_end
  then show ?case by (subst scan_value.simps) (simp add: zstr_peek [OF at_end(1)] zstr_end [OF at_end(1)])
next
  case (step p)
  have nz: "m ! p \<noteq> 0" using step(1,2) zstr_end by auto
  from step(4) have "v \<le> Suc p" by simp
  note IH = step(3) [OF this]
  obtain b n where b: "bool_len m v = Some b" "v + b \<le> e" and n: "null_len m v = Some n" "v + n \<le> e"
    using bool_len_zstr [OF assms(1)] null_len_zstr [OF assms(1)] by auto
  show ?case
    using step(2,4) nz b n IH by (subst scan_value.simps) (auto simp: zstr_peek [OF step(1)])
qed

lemma json_value_zstr:
  assumes "zstr m p e"
  shows "\<exists>t v l. json_value m (Some p) = Some (t, v, l) \<and> (\<forall>v'. v = Some v' \<longrightarrow> p \<le> v' \<and> v' + l \<le> e
    \<and> (t = JSSTRING \<longrightarrow> v' + l < e \<or> m ! (e - 1) = QUOTE))"
proof -
  from find_value_zstr [OF assms] obtain t v q where fv: "find_value m p = Some (t, v, q)" "p \<le> q" "q \<le> e"
    "\<forall>v'. v = Some v' \<longrightarrow> p \<le> v' \<and> v' \<le> q \<and> (t \<noteq> JSSTRING \<longrightarrow> v' < e) \<and> (t = JSSTRING \<longrightarrow> v' = q \<and> p < q \<and> m ! (v' - 1) = QUOTE)"
    by auto
  show ?thesis
  proof (cases v)
    case None with fv(1) show ?thesis by (simp add: json_value_def)
  next
    case (Some v')
    with fv have v': "p \<le> v'" "v' \<le> q" "t = JSSTRING \<longrightarrow> m ! (v' - 1) = QUOTE" by auto
    with fv(3) have z: "zstr m v' e" "zstr m q e" using zstr_later [OF assms, of v'] zstr_later [OF assms, of q] by auto
    from scan_value_zstr [OF z v'(2), of t 0] obtain n where
      n: "scan_value m t v' q 0 = Some n" "v' + n \<le> e" "t = JSSTRING \<longrightarrow> n \<noteq> 0 \<longrightarrow> v' + n < e" by auto
    have "v' + n < e \<or> m ! (e - 1) = QUOTE" if "t = JSSTRING"
      using that n(2,3) v'(3) by (cases "v' = e") auto
    with n v'(1) fv(1) Some show ?thesis by (auto simp: json_value_def)
  qed
qed

lemma next_object_zstr:
  assumes "zstr m p e"
  shows "\<exists>r. json_get_next_object JSOBJECT m p = Some r \<and> (\<forall>q out. r = Member (Some q) out \<longrightarrow>
    (\<exists>v. val out = Some v \<and> p < v \<and> v + val_len out \<le> e) \<and> p < key out \<and> key out + key_len out < e \<and> p < q
    \<and> (q \<le> e \<or> m ! (e - 1) = QUOTE))"
proof -
  from strchr_at_zstr [OF assms, of QUOTE] obtain a where
    a: "strchr_at m p QUOTE = Some a" "\<forall>q. a = Some q \<longrightarrow> p \<le> q \<and> q < e" by auto
  show ?thesis
  proof (cases a)
    case None with a show ?thesis by (simp add: json_get_next_object_def)
  next
    case a': (Some a')
    with a(2) assms have "zstr m (a' + 1) e" by (auto intro: zstr_later)
    from strchr_at_zstr [OF this, of QUOTE] obtain b where
      b: "strchr_at m (a' + 1) QUOTE = Some b" "\<forall>q. b = Some q \<longrightarrow> a' + 1 \<le> q \<and> q < e" by auto
    show ?thesis
    proof (cases b)
      case None with a a' b show ?thesis by (simp add: json_get_next_object_def)
    next
      case b': (Some b')
      with a(2) a' b(2) assms have zb: "zstr m b' e" by (auto intro: zstr_later)
      from strchr_at_zstr [OF this, of COLON] obtain c where
        c: "strchr_at m b' COLON = Some c" "\<forall>q. c = Some q \<longrightarrow> b' \<le> q \<and> q < e" by auto
      show ?thesis
      proof (cases c)
        case None with a a' b b' c show ?thesis by (simp add: json_get_next_object_def json_value_def)
      next
        case c': (Some c')
        with c(2) zb have "zstr m c' e" by (auto intro: zstr_later)
        from json_value_zstr [OF this] obtain t v l where v: "json_value m (Some c') = Some (t, v, l)"
          "\<forall>v'. v = Some v' \<longrightarrow> c' \<le> v' \<and> v' + l \<le> e \<and> (t = JSSTRING \<longrightarrow> v' + l < e \<or> m ! (e - 1) = QUOTE)" by auto
        show ?thesis
          using a a' b b' c c' v by (auto simp: json_get_next_object_def split: if_splits)
      qed
    qed
  qed
qed

text \<open>Looking a name up in a text that does not end with a quotation mark.\<close>

lemma kv_loop_name:
  assumes "zstr m p e" and "m ! (e - 1) \<noteq> QUOTE" and "0 \<notin> set (pN nv)"
  shows "\<exists>r nv'. kv_loop json_get_value_by_name_cb m p ret nv = Some (r, nv')
    \<and> (nv' = nv \<or> r = JSON_RESULT_OK \<and> (\<exists>v n t. nv' = nv\<lparr>pV := Some v, vLen := n, vType := t\<rparr> \<and> p < v \<and> v + n \<le> e \<and> n \<noteq> 0))"
  using assms
proof (induction "e - p" arbitrary: p ret rule: less_induct)
  case less
  note z = \<open>zstr m p e\<close>
  show ?case
  proof (cases "p = e")
    case True
    with z show ?thesis by (subst kv_loop.simps) (simp add: zstr_peek zstr_end)
  next
    case False
    from next_object_zstr [OF z] obtain r where r: "json_get_next_object JSOBJECT m p = Some r"
      "\<forall>q out. r = Member (Some q) out \<longrightarrow> (\<exists>v. val out = Some v \<and> p < v \<and> v + val_len out \<le> e)
        \<and> p < key out \<and> key out + key_len out < e \<and> p < q \<and> (q \<le> e \<or> m ! (e - 1) = QUOTE)" by auto
    note start = zstr_peek [OF z] zstr_end [OF z] False r(1)
    show ?thesis
    proof (cases "\<exists>q out. r = Member (Some q) out")
      case none: False
      then show ?thesis by (subst kv_loop.simps) (auto simp: start split: json_next.splits option.splits)
    next
      case True
      then obtain q out where rq: "r = Member (Some q) out" by auto
      with r(2) less.prems(2) obtain v where v: "val out = Some v" "p < v" "v + val_len out \<le> e" "p < key out"
        "key out + key_len out < e" "p < q" "q \<le> e" by auto
      from z v have zq: "zstr m q e" and zk: "zstr m (key out) e"
        using zstr_later [OF z, of q] zstr_later [OF z, of "key out"] by auto
      have "p < e" using v by simp
      then have dec: "e - q < e - p" using v(6) by simp
      from less.hyps [OF dec zq less.prems(2,3)]
      have IH: "\<exists>r nv'. kv_loop json_get_value_by_name_cb m q ret' nv = Some (r, nv') \<and> (nv' = nv \<or> r = JSON_RESULT_OK
        \<and> (\<exists>v n t. nv' = nv\<lparr>pV := Some v, vLen := n, vType := t\<rparr> \<and> p < v \<and> v + n \<le> e \<and> n \<noteq> 0))" for ret'
        using v(6) by (meson less_trans)
      have "0 \<notin> set (take (nLen nv) (pN nv))" using less.prems(3) by (meson in_set_takeD)
      from strncmp_at_zstr [OF zk this] obtain b where b: "strncmp_at (take (nLen nv) (pN nv)) m (key out) = Some b" by blast
      show ?thesis
        using IH v(2,3) by (subst kv_loop.simps) (auto simp: start rq v(1) json_get_value_by_name_cb_def b)
    qed
  qed
qed

lemma get_object_zstr: "zstr m p e \<Longrightarrow> \<exists>r. get_object_loop ch m p = Some r \<and> (\<forall>q. r = Some q \<longrightarrow> p \<le> q \<and> q < e)"
proof (induction rule: zstr_induct)
  case at_end
  then show ?case by (subst get_object_loop.simps) (simp add: zstr_peek zstr_end)
next
  case (step p)
  then show ?case using zstr_end [OF step(1)] by (subst get_object_loop.simps) (auto simp: zstr_peek)
qed

abbreviation "name_nv name \<equiv> \<lparr> nLen = length name, vLen = 0, vType = JSSTRING, pN = name, pV = None \<rparr>"

lemma get_value_by_name_eq:
  assumes "zstr m p e"
  shows "json_get_value_by_name m p (int (e - p)) name want = do {
     pos \<leftarrow> get_object_loop LBRACE m p;
     (ret, nv) \<leftarrow> (case pos of None \<Rightarrow> Some (JSON_RESULT_ERR, name_nv name)
                    | Some q \<Rightarrow> kv_loop json_get_value_by_name_cb m q JSON_RESULT_ERR (name_nv name));
     Some (if ret = JSON_RESULT_OK \<and> want \<and> vType nv = JSNULL then None else pV nv,
           if ret = JSON_RESULT_OK then Some (vLen nv, vType nv) else None, m) }"
proof (cases "p = e")
  case True
  with assms have "get_object_loop LBRACE m p = Some None"
    by (subst get_object_loop.simps) (simp add: zstr_peek zstr_end)
  with True show ?thesis by (simp add: json_get_value_by_name_def json_parse_name_value_def)
next
  case False
  with assms have "\<not> e \<le> p" by (simp add: zstr_def)
  then show ?thesis
    by (cases "get_object_loop LBRACE m p")
      (auto simp: json_get_value_by_name_def json_parse_name_value_def Let_def strlen_at_zstr [OF assms] json_get_object_def
        split: option.splits Option.bind_split)
qed

lemma get_value_by_name_zstr:
  assumes "zstr m p e" and "m ! (e - 1) \<noteq> QUOTE" and "0 \<notin> set name"
  shows "\<exists>v out. json_get_value_by_name m p (int (e - p)) name want = Some (v, out, m)
    \<and> (\<forall>v'. v = Some v' \<longrightarrow> (\<exists>n t. out = Some (n, t) \<and> p < v' \<and> v' + n \<le> e \<and> n \<noteq> 0))"
proof -
  from get_object_zstr [OF assms(1), of LBRACE] obtain r where
    r: "get_object_loop LBRACE m p = Some r" "\<forall>q. r = Some q \<longrightarrow> p \<le> q \<and> q < e" by auto
  show ?thesis
  proof (cases r)
    case None
    then show ?thesis using r(1) by (simp add: get_value_by_name_eq [OF assms(1)])
  next
    case (Some q)
    with r(2) assms(1) have "zstr m q e" "p \<le> q" by (auto intro: zstr_later)
    from kv_loop_name [OF this(1) assms(2), of "name_nv name" JSON_RESULT_ERR] assms(3) this(2) obtain rr nv' where
      "kv_loop json_get_value_by_name_cb m q JSON_RESULT_ERR (name_nv name) = Some (rr, nv')"
      "nv' = name_nv name \<or> rr = JSON_RESULT_OK
        \<and> (\<exists>v n t. nv' = (name_nv name)\<lparr>pV := Some v, vLen := n, vType := t\<rparr> \<and> p < v \<and> v + n \<le> e \<and> n \<noteq> 0)"
      by fastforce
    then show ?thesis using r(1) Some by (auto simp: get_value_by_name_eq [OF assms(1)])
  qed
qed

lemma next_key_shorter: "DOT \<in> set path \<Longrightarrow> length (next_key path) < length path"
  by (induction path) (auto simp: next_key_def)

lemma json_walk_zstr:
  assumes "zstr m p e" and "m ! (e - 1) \<noteq> QUOTE" and "0 \<notin> set path" and "\<forall>n \<le> length path. mal n"
  shows "\<exists>r. json_walk mal m path p = Some (r, m) \<and> (\<forall>k q. r = Some (k, q) \<longrightarrow> zstr m q e \<and> p \<le> q \<and> 0 \<notin> set k)"
  using assms(1,3,4)
proof (induction "length path" arbitrary: path p rule: less_induct)
  case less
  note z = less.prems(1)
  show ?case
  proof (cases "DOT \<in> set path")
    case False then show ?thesis using less.prems by (subst json_walk.simps) simp
  next
    case True
    let ?k = "next_key path"
    have k: "length ?k < length path"
      using True by (rule next_key_shorter)
    have k0: "0 \<notin> set ?k" using less.prems(2) by (auto simp: next_key_def dest: set_takeWhileD)
    from get_value_by_name_zstr [OF z assms(2) k0, of False] obtain v out where
      v: "json_get_value_by_name m p (int (e - p)) ?k False = Some (v, out, m)"
      "\<forall>v'. v = Some v' \<longrightarrow> (\<exists>n t. out = Some (n, t) \<and> p < v' \<and> v' + n \<le> e \<and> n \<noteq> 0)" by blast
    have mal: "mal (length ?k + 1)" using less.prems(3) k by simp
    show ?thesis
    proof (cases v)
      case None
      then show ?thesis using True mal v(1) by (subst json_walk.simps) (simp add: strlen_at_zstr [OF z])
    next
      case (Some v')
      with v(2) have v': "p \<le> v'" "v' \<le> e" by auto
      have d: "length (drop (length ?k + 1) path) < length path" using k by simp
      have "0 \<notin> set (drop (length ?k + 1) path)" using less.prems(2) by (meson in_set_dropD)
      from less.hyps [OF d zstr_later [OF z v'] this] less.prems(3) v'(1)
      have "\<exists>r. json_walk mal m (drop (length ?k + 1) path) v' = Some (r, m)
        \<and> (\<forall>k q. r = Some (k, q) \<longrightarrow> zstr m q e \<and> p \<le> q \<and> 0 \<notin> set k)" by fastforce
      then show ?thesis using True mal v(1) Some by (subst json_walk.simps) (simp add: strlen_at_zstr [OF z])
    qed
  qed
qed

lemma cstr_at_zstr: "zstr m p e \<Longrightarrow> cstr_at m p = take (e - p) (drop p m)"
proof (induction rule: zstr_induct)
  case at_end
  then show ?case by (simp add: cstr_at_def zstr_def Cons_nth_drop_Suc [symmetric])
next
  case (step p)
  have "p < length m" "m ! p \<noteq> 0" using step(1,2) by (auto simp: zstr_def)
  with step show ?case by (simp add: cstr_at_def Cons_nth_drop_Suc [symmetric] Suc_diff_Suc [symmetric])
qed

lemma zstr_text: "0 \<notin> set text \<Longrightarrow> zstr (pre @ text @ 0 # post) (length pre) (length pre + length text)"
  by (auto simp: zstr_def nth_append dest: nth_mem)

lemma value_of_zstr:
  assumes "zstr m p e" and "m ! (e - 1) \<noteq> QUOTE" and "0 \<notin> set path" and "\<forall>n \<le> length path. mal n"
  shows "\<exists>r. LITE_json_value_of mal m path p = Some (r, m)
    \<and> (\<forall>s. r = Some s \<longrightarrow> s \<noteq> [] \<and> (\<exists>v. p < v \<and> v + length s \<le> e \<and> s = take (length s) (drop v m)))"
proof -
  from json_walk_zstr [OF assms] obtain r where
    r: "json_walk mal m path p = Some (r, m)" "\<forall>k q. r = Some (k, q) \<longrightarrow> zstr m q e \<and> p \<le> q \<and> 0 \<notin> set k" by blast
  show ?thesis
  proof (cases r)
    case None then show ?thesis using r(1) by (simp add: LITE_json_value_of_def)
  next
    case (Some kq)
    then obtain k q where kq: "r = Some (k, q)" by (cases kq) auto
    with r(2) have q: "zstr m q e" "p \<le> q" "0 \<notin> set k" by auto
    from get_value_by_name_zstr [OF q(1) assms(2) q(3), of False] obtain v out where
      v: "json_get_value_by_name m q (int (e - q)) k False = Some (v, out, m)"
      "\<forall>v'. v = Some v' \<longrightarrow> (\<exists>n t. out = Some (n, t) \<and> q < v' \<and> v' + n \<le> e \<and> n \<noteq> 0)" by blast
    show ?thesis
    proof (cases v)
      case None
      then show ?thesis using r(1) kq v(1) by (simp add: LITE_json_value_of_def strlen_at_zstr [OF q(1)])
    next
      case (Some v')
      with v(2) obtain n t where n: "out = Some (n, t)" "q < v'" "v' + n \<le> e" "n \<noteq> 0" by auto
      then have zv: "zstr m v' e" using zstr_later [OF q(1), of v'] by simp
      have "e < length m" using zv by (simp add: zstr_def)
      with n(3) have "length (take n (cstr_at m v')) = n" "take n (cstr_at m v') = take n (drop v' m)"
        by (simp_all add: cstr_at_zstr [OF zv])
      then show ?thesis using r(1) kq v(1) Some n q(2)
        by (auto simp: LITE_json_value_of_def strlen_at_zstr [OF q(1)] strlen_at_zstr [OF zv]
            simp del: length_take intro!: exI [of _ v'])
    qed
  qed
qed

section \<open>Members\<close>

text \<open>
  The texts the lookup is meant for: members with quoted keys, whose values are strings without quotation marks, numbers,
  the literals, and objects or arrays whose own brackets match.  Anything without a quotation mark may stand before a key.
\<close>

datatype json_val = J_String bytes | J_Number bytes | J_Bool bytes | J_Null bytes | J_Object bytes | J_Array bytes

primrec val_text :: "json_val \<Rightarrow> bytes" where
  "val_text (J_String s) = QUOTE # s @ [QUOTE]"
| "val_text (J_Number s) = s"
| "val_text (J_Bool s) = s"
| "val_text (J_Null s) = s"
| "val_text (J_Object s) = LBRACE # s @ [RBRACE]"
| "val_text (J_Array s) = LBRACKET # s @ [RBRACKET]"

primrec content :: "json_val \<Rightarrow> bytes" where
  "content (J_String s) = s"
| "content (J_Number s) = s"
| "content (J_Bool s) = s"
| "content (J_Null s) = s"
| "content (J_Object s) = LBRACE # s @ [RBRACE]"
| "content (J_Array s) = LBRACKET # s @ [RBRACKET]"

primrec val_kind :: "json_val \<Rightarrow> JSONTYPE" where
  "val_kind (J_String s) = JSSTRING"
| "val_kind (J_Number s) = JSNUMBER"
| "val_kind (J_Bool s) = JSBOOLEAN"
| "val_kind (J_Null s) = JSNULL"
| "val_kind (J_Object s) = JSOBJECT"
| "val_kind (J_Array s) = JSARRAY"

text \<open>The brackets of one kind match, counted from a depth.\<close>

fun nested :: "JSONTYPE \<Rightarrow> nat \<Rightarrow> bytes \<Rightarrow> bool" where
  "nested t d [] = (d = 0)"
| "nested t d (x # xs) =
     (if x = close_mark t then 0 < d \<and> nested t (d - 1) xs
      else if x = open_mark t then nested t (d + 1) xs
      else nested t d xs)"

definition number_text :: "bytes \<Rightarrow> bool" where
  "number_text s \<longleftrightarrow> s \<noteq> [] \<and> (hd s = MINUS \<or> is_digit (hd s)) \<and> (\<forall>x \<in> set (tl s). is_digit x \<or> x = DOT)"

primrec wf_val :: "json_val \<Rightarrow> bool" where
  "wf_val (J_String s) = (QUOTE \<notin> set s \<and> 0 \<notin> set s)"
| "wf_val (J_Number s) = number_text s"
| "wf_val (J_Bool s) = (s \<in> {str ''true'', str ''TRUE'', str ''false'', str ''FALSE''})"
| "wf_val (J_Null s) = (s \<in> {str ''null'', str ''NULL''})"
| "wf_val (J_Object s) = (0 \<notin> set s \<and> nested JSOBJECT 0 s)"
| "wf_val (J_Array s) = (0 \<notin> set s \<and> nested JSARRAY 0 s)"

text \<open>A number ends where something else begins.\<close>

definition ends_number :: "bytes \<Rightarrow> bool" where
  "ends_number xs \<longleftrightarrow> xs \<noteq> [] \<and> hd xs \<noteq> 0 \<and> \<not> is_digit (hd xs) \<and> hd xs \<noteq> DOT"

definition starts_value :: "u8 \<Rightarrow> bool" where
  "starts_value x \<longleftrightarrow> x \<in> {QUOTE, LBRACE, LBRACKET, MINUS, 116, 84, 102, 70, 110, 78} \<or> is_digit x"

record json_member =
  m_gap :: bytes
  m_key :: bytes
  m_gap2 :: bytes
  m_gap3 :: bytes
  m_val :: json_val

definition member_text :: "json_member \<Rightarrow> bytes" where
  "member_text x = m_gap x @ QUOTE # m_key x @ QUOTE # m_gap2 x @ COLON # m_gap3 x @ val_text (m_val x)"

definition wf_member :: "json_member \<Rightarrow> bool" where
  "wf_member x \<longleftrightarrow> QUOTE \<notin> set (m_gap x) \<and> 0 \<notin> set (m_gap x) \<and> QUOTE \<notin> set (m_key x) \<and> 0 \<notin> set (m_key x)
     \<and> COLON \<notin> set (m_gap2 x) \<and> 0 \<notin> set (m_gap2 x) \<and> (\<forall>c \<in> set (m_gap3 x). c \<noteq> 0 \<and> \<not> starts_value c) \<and> wf_val (m_val x)"

subsection \<open>The loops on such texts\<close>

lemma drop_cons: "drop p m = x # xs \<Longrightarrow> peek m p = Some x \<and> drop (Suc p) m = xs"
  by (metis drop_Suc drop_tl list.sel(3) nth_via_drop peek_Some drop_eq_Nil leI list.distinct(1))

lemma strchr_at_skip:
  "drop p m = g @ c # xs \<Longrightarrow> c \<notin> set g \<Longrightarrow> 0 \<notin> set g \<Longrightarrow> strchr_at m p c = Some (Some (p + length g))"
proof (induction g arbitrary: p)
  case Nil
  then show ?case using drop_cons [of p m c xs] by (subst strchr_at.simps) simp
next
  case (Cons x g)
  then show ?case using drop_cons [of p m x "g @ c # xs"] by (subst strchr_at.simps) auto
qed

lemma find_value_skip:
  "drop p m = g @ xs \<Longrightarrow> \<forall>c \<in> set g. c \<noteq> 0 \<and> \<not> starts_value c \<Longrightarrow> find_value m p = find_value m (p + length g)"
proof (induction g arbitrary: p)
  case (Cons x g)
  then show ?case using drop_cons [of p m x "g @ xs"] by (subst find_value.simps) (auto simp: starts_value_def)
qed simp

lemma scan_string:
  "drop p m = s @ QUOTE # xs \<Longrightarrow> QUOTE \<notin> set s \<Longrightarrow> 0 \<notin> set s \<Longrightarrow> v \<le> p \<Longrightarrow> scan_value m JSSTRING v p 0 = Some (p + length s - v)"
proof (induction s arbitrary: p)
  case Nil
  then show ?case using drop_cons [of p m QUOTE xs] by (subst scan_value.simps) (simp add: close_mark_def)
next
  case (Cons x s)
  then show ?case using drop_cons [of p m x "s @ QUOTE # xs"]
    by (subst scan_value.simps) (auto simp: close_mark_def open_mark_def)
qed

lemma scan_nested:
  assumes "t \<in> {JSOBJECT, JSARRAY}"
  shows "drop p m = s @ close_mark t # xs \<Longrightarrow> 0 \<notin> set s \<Longrightarrow> nested t d s \<Longrightarrow> v \<le> p \<Longrightarrow>
    scan_value m t v p d = Some (p + length s - v + 1)"
proof (induction s arbitrary: p d)
  case Nil
  then show ?case using drop_cons [of p m "close_mark t" xs] assms by (subst scan_value.simps) (auto simp: close_mark_def)
next
  case (Cons x s)
  have m: "open_mark t \<noteq> close_mark t" "t \<noteq> JSBOOLEAN" "t \<noteq> JSNULL" "t \<noteq> JSNUMBER" "t \<noteq> JSSTRING"
    using assms by (auto simp: open_mark_def close_mark_def)
  from drop_cons [of p m x "s @ close_mark t # xs"] Cons.prems(1) have d: "peek m p = Some x" "drop (Suc p) m = s @ close_mark t # xs"
    by auto
  show ?case
    using Cons.IH [OF d(2)] Cons.prems(2,3,4) m
    by (subst scan_value.simps) (auto simp: d(1) split: if_splits)
qed

lemma scan_number:
  "drop p m = s @ xs \<Longrightarrow> \<forall>x \<in> set s. is_digit x \<or> x = DOT \<Longrightarrow> ends_number xs \<Longrightarrow> v \<le> p \<Longrightarrow>
   scan_value m JSNUMBER v p d = Some (p + length s - v)"
proof (induction s arbitrary: p)
  case Nil
  then obtain y ys where y: "xs = y # ys" by (cases xs) (auto simp: ends_number_def)
  with Nil show ?case using drop_cons [of p m y ys] by (subst scan_value.simps) (auto simp: ends_number_def)
next
  case (Cons x s)
  then have "x \<noteq> 0" by (auto simp: is_digit_def)
  with Cons show ?case using drop_cons [of p m x "s @ xs"] by (subst scan_value.simps) auto
qed

lemma zstr_prefix: "zstr m p e \<Longrightarrow> drop p m = s @ xs \<Longrightarrow> 0 \<notin> set s \<Longrightarrow> p + length s \<le> e"
proof (induction s arbitrary: p)
  case (Cons x s)
  from drop_cons [of p m x "s @ xs"] Cons.prems have d: "peek m p = Some x" "drop (Suc p) m = s @ xs" "x \<noteq> 0" by auto
  then have "p \<noteq> e" using Cons.prems(1) by (auto simp: zstr_def)
  from Cons.IH [OF zstr_Suc [OF Cons.prems(1) this] d(2)] Cons.prems(3) show ?case by simp
qed (simp add: zstr_def)

lemma strncmp_literal:
  assumes "zstr m p e" and "drop p m = s @ xs" and "0 \<notin> set s" and "0 \<notin> set l" and "length l = length s"
  shows "strncmp_at l m p = Some (l = s)"
  using strncmp_at_zstr [OF assms(1,4)] zstr_prefix [OF assms(1-3)] assms(2,5) by auto

lemma bool_len_literal:
  assumes "zstr m p e" and "drop p m = s @ xs" and "s \<in> {str ''true'', str ''TRUE'', str ''false'', str ''FALSE''}"
  shows "bool_len m p = Some (length s)"
proof -
  have s0: "0 \<notin> set s" using assms(3) literals_nonzero by auto
  note le = zstr_prefix [OF assms(1,2) s0]
  have c: "m ! p = hd s" using drop_cons [of p m "hd s" "tl s @ xs"] zstr_peek [OF assms(1)] assms(2,3)
    by (auto simp: str_def)
  have "\<exists>b. strncmp_at (str x) m p = Some b" if "0 \<notin> set (str x)" for x using strncmp_at_zstr [OF assms(1) that] by blast
  then obtain b1 b2 b3 b4 where b: "strncmp_at (str ''true'') m p = Some b1" "strncmp_at (str ''TRUE'') m p = Some b2"
    "strncmp_at (str ''false'') m p = Some b3" "strncmp_at (str ''FALSE'') m p = Some b4" using literals_nonzero by metis
  note lit = strncmp_literal [OF assms(1,2) s0]
  have t: "length s = 4 \<Longrightarrow> b1 = (s = str ''true'') \<and> b2 = (s = str ''TRUE'')"
    using lit [of "str ''true''"] lit [of "str ''TRUE''"] b literals_nonzero by (auto simp: str_def)
  have f: "length s = 5 \<Longrightarrow> b3 = (s = str ''false'') \<and> b4 = (s = str ''FALSE'')"
    using lit [of "str ''false''"] lit [of "str ''FALSE''"] b literals_nonzero by (auto simp: str_def)
  show ?thesis
  proof -
    have eq: "bool_len m p = Some (if hd s \<in> {116, 84} \<and> 4 \<le> e - p \<and> (b1 \<or> b2) then 4
        else if hd s \<in> {102, 70} \<and> 5 \<le> e - p \<and> (b3 \<or> b4) then 5 else 0)"
      by (simp add: bool_len_def strlen_at_zstr [OF assms(1)] zstr_peek [OF assms(1)] c b)
    from assms(3) consider "s = str ''true''" | "s = str ''TRUE''" | "s = str ''false''" | "s = str ''FALSE''" by blast
    then show ?thesis
    proof cases
      case 1 then have "length s = 4" "hd s = 116" by (simp_all add: str_def)
      then show ?thesis using eq t le 1 by simp
    next
      case 2 then have "length s = 4" "hd s = 84" by (simp_all add: str_def)
      then show ?thesis using eq t le 2 by simp
    next
      case 3 then have "length s = 5" "hd s = 102" by (simp_all add: str_def)
      then show ?thesis using eq f le 3 by simp
    next
      case 4 then have "length s = 5" "hd s = 70" by (simp_all add: str_def)
      then show ?thesis using eq f le 4 by simp
    qed
  qed
qed

lemma null_len_literal:
  assumes "zstr m p e" and "drop p m = s @ xs" and "s \<in> {str ''null'', str ''NULL''}"
  shows "null_len m p = Some (length s)"
proof -
  have s0: "0 \<notin> set s" using assms(3) literals_nonzero by auto
  note le = zstr_prefix [OF assms(1,2) s0]
  have c: "m ! p = hd s" using drop_cons [of p m "hd s" "tl s @ xs"] zstr_peek [OF assms(1)] assms(2,3)
    by (auto simp: str_def)
  have l: "length s = 4" using assms(3) by (auto simp: str_def)
  note lit = strncmp_literal [OF assms(1,2) s0]
  have lits: "strncmp_at (str ''null'') m p = Some (str ''null'' = s)" "strncmp_at (str ''NULL'') m p = Some (str ''NULL'' = s)"
    using lit [of "str ''null''"] lit [of "str ''NULL''"] literals_nonzero l by (auto simp: str_def)
  show ?thesis
  proof -
    have "hd s \<in> {110, 78}" using assms(3) by (auto simp: str_def)
    with assms(3) le l lits show ?thesis by (auto simp: null_len_def strlen_at_zstr [OF assms(1)] zstr_peek [OF assms(1)] c)
  qed
qed

definition val_start :: "json_val \<Rightarrow> nat" where
  "val_start v = (if val_kind v = JSSTRING then 1 else 0)"

lemma drop_append: "drop p m = s @ xs \<Longrightarrow> drop (p + length s) m = xs"
  by (metis add.commute append_eq_conv_conj drop_drop)

lemma json_value_found:
  assumes z: "zstr m c e" and d: "drop c m = COLON # g @ val_text v @ xs" and wf: "wf_val v"
    and g: "\<forall>x \<in> set g. x \<noteq> 0 \<and> \<not> starts_value x" and num: "val_kind v = JSNUMBER \<Longrightarrow> ends_number xs"
  shows "json_value m (Some c) = Some (val_kind v, Some (c + 1 + length g + val_start v), length (content v))"
proof -
  let ?p = "c + 1 + length g"
  have "find_value m c = find_value m (c + length (COLON # g))"
    by (rule find_value_skip [of _ _ _ "val_text v @ xs"]) (use d g in \<open>auto simp: starts_value_def is_digit_def\<close>)
  then have f: "find_value m c = find_value m ?p" by simp
  have dp: "drop ?p m = val_text v @ xs" using drop_append [of c m "COLON # g" "val_text v @ xs"] d by simp
  have "0 \<notin> set (COLON # g)" using g by auto
  with zstr_prefix [OF z, of "COLON # g"] d have "?p \<le> e" by simp
  then have zp: "zstr m ?p e" by (intro zstr_later [OF z]) simp_all
  show ?thesis
  proof (cases v)
    case (J_String s)
    with dp have d: "peek m ?p = Some QUOTE" "drop (Suc ?p) m = s @ QUOTE # xs" using drop_cons [of ?p m QUOTE "s @ QUOTE # xs"] by auto
    from d have "find_value m ?p = Some (JSSTRING, Some (?p + 1), ?p + 1)" by (subst find_value.simps) simp
    with f scan_string [OF d(2), of "Suc ?p"] J_String wf show ?thesis by (simp add: json_value_def val_start_def)
  next
    case (J_Number s)
    with wf dp obtain y ys where y: "s = y # ys" "y = MINUS \<or> is_digit y" "\<forall>x \<in> set ys. is_digit x \<or> x = DOT"
      by (cases s) (auto simp: number_text_def)
    with dp J_Number have d: "peek m ?p = Some y" "drop (Suc ?p) m = ys @ xs" using drop_cons [of ?p m y "ys @ xs"] by auto
    from y(2) have "y \<noteq> 0 \<and> y \<noteq> QUOTE \<and> y \<noteq> LBRACE \<and> y \<noteq> LBRACKET"
      by (auto simp: is_digit_def)
    with d y(2) have "find_value m ?p = Some (JSNUMBER, Some ?p, ?p + 1)" by (subst find_value.simps) auto
    with f scan_number [OF d(2) y(3) num, of ?p 0] J_Number y(1) show ?thesis by (simp add: json_value_def val_start_def)
  next
    case (J_Bool s)
    with wf have s: "s \<in> {str ''true'', str ''TRUE'', str ''false'', str ''FALSE''}" by simp
    then have h: "s \<noteq> []" "hd s \<in> {116, 84, 102, 70}" by (auto simp: str_def)
    with dp J_Bool have d: "peek m ?p = Some (hd s)" using drop_cons [of ?p m "hd s" "tl s @ xs"] by auto
    with h(2) have "find_value m ?p = Some (JSBOOLEAN, Some ?p, ?p)" by (subst find_value.simps) (auto simp: is_digit_def)
    moreover have "scan_value m JSBOOLEAN ?p ?p 0 = Some (length s)"
      using bool_len_literal [OF zp, of s xs] dp J_Bool s d h by (subst scan_value.simps) auto
    ultimately show ?thesis using f J_Bool by (simp add: json_value_def val_start_def)
  next
    case (J_Null s)
    with wf have s: "s \<in> {str ''null'', str ''NULL''}" by simp
    then have h: "s \<noteq> []" "hd s \<in> {110, 78}" by (auto simp: str_def)
    with dp J_Null have d: "peek m ?p = Some (hd s)" using drop_cons [of ?p m "hd s" "tl s @ xs"] by auto
    with h(2) have "find_value m ?p = Some (JSNULL, Some ?p, ?p)" by (subst find_value.simps) (auto simp: is_digit_def)
    moreover have "scan_value m JSNULL ?p ?p 0 = Some (length s)"
      using null_len_literal [OF zp, of s xs] dp J_Null s d h by (subst scan_value.simps) auto
    ultimately show ?thesis using f J_Null by (simp add: json_value_def val_start_def)
  next
    case (J_Object s)
    with dp have d: "peek m ?p = Some LBRACE" "drop (Suc ?p) m = s @ close_mark JSOBJECT # xs"
      using drop_cons [of ?p m LBRACE "s @ RBRACE # xs"] by (auto simp: close_mark_def)
    from d have "find_value m ?p = Some (JSOBJECT, Some ?p, ?p + 1)" by (subst find_value.simps) simp
    with f scan_nested [OF _ d(2), of 0 ?p] J_Object wf show ?thesis by (simp add: json_value_def val_start_def)
  next
    case (J_Array s)
    with dp have d: "peek m ?p = Some LBRACKET" "drop (Suc ?p) m = s @ close_mark JSARRAY # xs"
      using drop_cons [of ?p m LBRACKET "s @ RBRACKET # xs"] by (auto simp: close_mark_def)
    from d have "find_value m ?p = Some (JSARRAY, Some ?p, ?p + 1)" by (subst find_value.simps) simp
    with f scan_nested [OF _ d(2), of 0 ?p] J_Array wf show ?thesis by (simp add: json_value_def val_start_def)
  qed
qed

definition key_pos :: "json_member \<Rightarrow> nat" where "key_pos x = length (m_gap x) + 1"
definition val_pos :: "json_member \<Rightarrow> nat" where
  "val_pos x = key_pos x + length (m_key x) + 1 + length (m_gap2 x) + 1 + length (m_gap3 x) + val_start (m_val x)"

lemma length_val_text: "length (val_text v) = length (content v) + 2 * val_start v"
  by (cases v) (auto simp: val_start_def)

lemma next_object_member:
  assumes z: "zstr m p e" and d: "drop p m = member_text x @ xs" and wf: "wf_member x"
    and num: "val_kind (m_val x) = JSNUMBER \<Longrightarrow> ends_number xs"
  shows "json_get_next_object JSOBJECT m p = Some (Member (Some (p + length (member_text x)))
    \<lparr> key = p + key_pos x, key_len = length (m_key x), val = Some (p + val_pos x), val_len = length (content (m_val x)),
      val_type = val_kind (m_val x) \<rparr>)"
proof -
  let ?rest3 = "COLON # m_gap3 x @ val_text (m_val x) @ xs"
  let ?rest2 = "m_key x @ QUOTE # m_gap2 x @ ?rest3"
  have 1: "drop p m = m_gap x @ QUOTE # ?rest2" using d by (simp add: member_text_def)
  let ?a = "p + length (m_gap x)"
  have s1: "strchr_at m p QUOTE = Some (Some ?a)" using strchr_at_skip [OF 1] wf by (simp add: wf_member_def)
  have 2: "drop (?a + 1) m = ?rest2" using drop_append [OF 1] drop_cons [of ?a m QUOTE ?rest2] by simp
  let ?b = "?a + 1 + length (m_key x)"
  have s2: "strchr_at m (?a + 1) QUOTE = Some (Some ?b)" using strchr_at_skip [OF 2] wf by (simp add: wf_member_def)
  have 3: "drop ?b m = (QUOTE # m_gap2 x) @ ?rest3" using drop_append [OF 2] by simp
  let ?c = "?b + 1 + length (m_gap2 x)"
  have s3: "strchr_at m ?b COLON = Some (Some ?c)" using strchr_at_skip [OF 3] wf by (simp add: wf_member_def)
  have 4: "drop ?c m = ?rest3" using drop_append [OF 3] by simp
  have "0 \<notin> set (m_gap x @ QUOTE # m_key x @ QUOTE # m_gap2 x)" using wf by (auto simp: wf_member_def)
  from zstr_prefix [OF z _ this, of ?rest3] 1 have "?c \<le> e" by simp
  then have zc: "zstr m ?c e" by (intro zstr_later [OF z]) simp_all
  have v: "json_value m (Some ?c) = Some (val_kind (m_val x), Some (?c + 1 + length (m_gap3 x) + val_start (m_val x)), length (content (m_val x)))"
    by (rule json_value_found [OF zc 4]) (use wf num in \<open>auto simp: wf_member_def\<close>)
  show ?thesis using s1 s2 s3 v
    by (simp add: json_get_next_object_def key_pos_def val_pos_def member_text_def length_val_text val_start_def ac_simps)
qed

text \<open>
  What a lookup finds among members: the first member with a non-empty key and value whose key starts with the name, because
  \<open>strncmp\<close> compares as many bytes as the name has.
\<close>

definition matches :: "cstr \<Rightarrow> json_member \<Rightarrow> bool" where
  "matches name x \<longleftrightarrow> m_key x \<noteq> [] \<and> content (m_val x) \<noteq> [] \<and> prefix name (m_key x)"

abbreviation members_text :: "json_member list \<Rightarrow> bytes" where
  "members_text ms \<equiv> concat (map member_text ms)"

fun wf_members :: "json_member list \<Rightarrow> bytes \<Rightarrow> bool" where
  "wf_members [] xs = True"
| "wf_members (x # ms) xs =
     (wf_member x \<and> (val_kind (m_val x) = JSNUMBER \<longrightarrow> ends_number (members_text ms @ xs)) \<and> wf_members ms xs)"

lemma take_until_quote: "QUOTE \<notin> set n \<Longrightarrow> take (length n) (k @ QUOTE # ys) = n \<longleftrightarrow> prefix n k"
proof (induction n arbitrary: k)
  case (Cons x n)
  then show ?case by (cases k) auto
qed simp

lemma strncmp_key:
  assumes "zstr m p e" and "drop p m = k @ QUOTE # ys" and "0 \<notin> set k" and "QUOTE \<notin> set n" and "0 \<notin> set n"
  shows "strncmp_at n m p = Some (prefix n k)"
proof -
  have "p + length k \<le> e" by (rule zstr_prefix [OF assms(1,2,3)])
  moreover have "length n \<le> length k" if "prefix n k" using that by (rule prefix_length_le)
  ultimately show ?thesis
    using strncmp_at_zstr [OF assms(1,5)] take_until_quote [OF assms(4), of k ys] assms(2) by auto
qed

lemma key_of_member:
  assumes "drop p m = member_text x @ xs"
  shows "drop (p + key_pos x) m = m_key x @ QUOTE # m_gap2 x @ COLON # m_gap3 x @ val_text (m_val x) @ xs"
  using drop_append [of p m "m_gap x @ [QUOTE]"] assms by (simp add: member_text_def key_pos_def)

lemma content_of_member:
  assumes "drop p m = member_text x @ xs"
  shows "\<exists>ys. drop (p + val_pos x) m = content (m_val x) @ ys \<and> (val_kind (m_val x) \<noteq> JSSTRING \<longrightarrow> ys = xs)"
proof (cases "m_val x")
  case (J_String s)
  then show ?thesis
    using drop_append [of p m "m_gap x @ QUOTE # m_key x @ QUOTE # m_gap2 x @ COLON # m_gap3 x @ [QUOTE]" "s @ QUOTE # xs"] assms
    by (simp add: member_text_def val_pos_def key_pos_def val_start_def ac_simps)
qed (use drop_append [of p m "m_gap x @ QUOTE # m_key x @ QUOTE # m_gap2 x @ COLON # m_gap3 x" "val_text (m_val x) @ xs"] assms
    in \<open>simp_all add: member_text_def val_pos_def key_pos_def val_start_def ac_simps\<close>)

lemma number_nonzero: "number_text s \<Longrightarrow> 0 \<notin> set s"
  by (cases s) (auto simp: number_text_def is_digit_def)

lemma val_nonzero: "wf_val v \<Longrightarrow> 0 \<notin> set (val_text v)"
  using literals_nonzero number_nonzero by (cases v) auto

lemma member_nonzero: "wf_member x \<Longrightarrow> 0 \<notin> set (member_text x)"
  using val_nonzero by (auto simp: wf_member_def member_text_def)

text \<open>One round of the loop at a member, then the loop up to the first match or past all members.\<close>

lemma kv_loop_member:
  assumes z: "zstr m p e" and d: "drop p m = member_text y @ xs" and wy: "wf_member y"
    and num: "val_kind (m_val y) = JSNUMBER \<Longrightarrow> ends_number xs" and name: "0 \<notin> set name" "QUOTE \<notin> set name"
  shows "zstr m (p + length (member_text y)) e"
    and "kv_loop json_get_value_by_name_cb m p ret (name_nv name) =
      (if matches name y then Some (JSON_RESULT_OK, (name_nv name)\<lparr>pV := Some (p + val_pos y),
           vLen := length (content (m_val y)), vType := val_kind (m_val y)\<rparr>)
       else kv_loop json_get_value_by_name_cb m (p + length (member_text y))
           (if m_key y = [] \<or> content (m_val y) = [] then ret else JSON_RESULT_OK) (name_nv name))"
proof -
  have le: "p + length (member_text y) \<le> e" by (rule zstr_prefix [OF z d member_nonzero [OF wy]])
  have pos: "member_text y \<noteq> []" by (simp add: member_text_def)
  then have "p \<noteq> e" using le by auto
  have key: "strncmp_at name m (p + key_pos y) = Some (prefix name (m_key y))"
  proof (rule strncmp_key [OF _ key_of_member [OF d]])
    show "zstr m (p + key_pos y) e"
      by (rule zstr_later [OF z]) (use le in \<open>auto simp: member_text_def key_pos_def\<close>)
  qed (use wy name in \<open>auto simp: wf_member_def\<close>)
  show "zstr m (p + length (member_text y)) e" by (rule zstr_later [OF z _ le]) simp
  show "kv_loop json_get_value_by_name_cb m p ret (name_nv name) =
      (if matches name y then Some (JSON_RESULT_OK, (name_nv name)\<lparr>pV := Some (p + val_pos y),
           vLen := length (content (m_val y)), vType := val_kind (m_val y)\<rparr>)
       else kv_loop json_get_value_by_name_cb m (p + length (member_text y))
           (if m_key y = [] \<or> content (m_val y) = [] then ret else JSON_RESULT_OK) (name_nv name))"
    by (subst kv_loop.simps)
      (auto simp: zstr_peek [OF z] zstr_end [OF z] \<open>p \<noteq> e\<close> next_object_member [OF z d wy num] json_get_value_by_name_cb_def key
        matches_def)
qed

lemma kv_loop_found:
  assumes "find (matches name) ms = Some x" and "zstr m p e" and "drop p m = members_text ms @ xs" and "wf_members ms xs"
    and "0 \<notin> set name" and "QUOTE \<notin> set name"
  shows "\<exists>q ys. kv_loop json_get_value_by_name_cb m p ret (name_nv name) = Some (JSON_RESULT_OK,
      (name_nv name)\<lparr>pV := Some q, vLen := length (content (m_val x)), vType := val_kind (m_val x)\<rparr>)
    \<and> drop q m = content (m_val x) @ ys \<and> p \<le> q \<and> q \<le> e
    \<and> (val_kind (m_val x) \<noteq> JSSTRING \<longrightarrow> ys = members_text (tl (dropWhile (\<lambda>y. \<not> matches name y) ms)) @ xs)"
  using assms(1-4)
proof (induction ms arbitrary: p ret)
  case (Cons y ms)
  from Cons.prems have d: "drop p m = member_text y @ members_text ms @ xs" and wy: "wf_member y"
    "val_kind (m_val y) = JSNUMBER \<Longrightarrow> ends_number (members_text ms @ xs)" and wms: "wf_members ms xs" by auto
  note step = kv_loop_member [OF Cons.prems(2) d wy assms(5,6)]
  show ?case
  proof (cases "matches name y")
    case True
    with Cons.prems(1) have x: "x = y" by simp
    from content_of_member [OF d] obtain ys where
      ys: "drop (p + val_pos y) m = content (m_val y) @ ys" "val_kind (m_val y) \<noteq> JSSTRING \<longrightarrow> ys = members_text ms @ xs" by blast
    have "p + length (member_text y) \<le> e" using step(1) by (simp add: zstr_def)
    then have "p + val_pos y \<le> e"
      by (simp add: member_text_def val_pos_def key_pos_def length_val_text val_start_def split: if_splits)
    with True ys x step(2) show ?thesis by auto
  next
    case False
    from Cons.IH [OF _ step(1) drop_append [OF d] wms, of "if m_key y = [] \<or> content (m_val y) = [] then ret else JSON_RESULT_OK"]
      Cons.prems(1) False step(2) show ?thesis by fastforce
  qed
qed simp

lemma strchr_at_none: "zstr m p e \<Longrightarrow> c \<notin> set (take (e - p) (drop p m)) \<Longrightarrow> c \<noteq> 0 \<Longrightarrow> strchr_at m p c = Some None"
proof (induction rule: zstr_induct)
  case at_end
  then show ?case by (subst strchr_at.simps) (auto simp: zstr_def)
next
  case (step p)
  have "p < length m" using step(1,2) by (auto simp: zstr_def)
  then have "take (e - p) (drop p m) = m ! p # take (e - Suc p) (drop (Suc p) m)"
    using step(2) by (simp add: Cons_nth_drop_Suc [symmetric] Suc_diff_Suc [symmetric])
  with step show ?case using zstr_end [OF step(1)] by (subst strchr_at.simps) (auto simp: zstr_peek)
qed

lemma kv_loop_absent:
  assumes "find (matches name) ms = None" and "zstr m p e" and "drop p m = members_text ms @ xs" and "wf_members ms xs"
    and "0 \<notin> set name" and "QUOTE \<notin> set name" and "QUOTE \<notin> set (take (e - (p + length (members_text ms))) xs)"
  shows "\<exists>r. kv_loop json_get_value_by_name_cb m p ret (name_nv name) = Some (r, name_nv name)"
  using assms(1-4,7)
proof (induction ms arbitrary: p ret)
  case Nil
  then have "strchr_at m p QUOTE = Some None" by (intro strchr_at_none [of m p e]) auto
  then show ?case using zstr_peek [OF Nil.prems(2)]
    by (subst kv_loop.simps) (auto simp: json_get_next_object_def)
next
  case (Cons y ms)
  from Cons.prems have d: "drop p m = member_text y @ members_text ms @ xs" and wy: "wf_member y"
    "val_kind (m_val y) = JSNUMBER \<Longrightarrow> ends_number (members_text ms @ xs)" and wms: "wf_members ms xs" by auto
  note step = kv_loop_member [OF Cons.prems(2) d wy assms(5,6)]
  have nm: "\<not> matches name y" and none: "find (matches name) ms = None" using Cons.prems(1) by (auto split: if_splits)
  from Cons.IH [OF none step(1) drop_append [OF d] wms] Cons.prems(5) step(2) nm show ?case by (simp add: ac_simps)
qed

section \<open>Looking up a path\<close>

text \<open>A document: an opening brace, members and what follows them.\<close>

definition json_doc :: "json_member list \<Rightarrow> bytes \<Rightarrow> bytes \<Rightarrow> bool" where
  "json_doc ms tail text \<longleftrightarrow> text = members_text ms @ tail \<and> text \<noteq> [] \<and> hd text = LBRACE
     \<and> wf_members ms tail \<and> QUOTE \<notin> set tail \<and> 0 \<notin> set tail"

definition plain_name :: "cstr \<Rightarrow> bool" where
  "plain_name n \<longleftrightarrow> 0 \<notin> set n \<and> QUOTE \<notin> set n \<and> DOT \<notin> set n"

lemma ends_number_append: "ends_number xs \<Longrightarrow> ends_number (xs @ ys)"
  by (simp add: ends_number_def)

lemma wf_members_append: "wf_members ms xs \<Longrightarrow> wf_members ms (xs @ ys)"
  by (induction ms) (auto dest: ends_number_append)

lemma members_nonzero: "wf_members ms xs \<Longrightarrow> 0 \<notin> set (members_text ms)"
  by (induction ms) (auto simp: member_nonzero)

lemma get_object_brace: "drop p m = LBRACE # xs \<Longrightarrow> get_object_loop LBRACE m p = Some (Some p)"
  using drop_cons [of p m LBRACE xs] by (subst get_object_loop.simps) simp

text \<open>The value of a name in the members at \<open>p\<close>, and of a path that starts with that name.\<close>

lemma value_of_key:
  assumes z: "zstr m p e" and d: "drop p m = members_text ms @ xs" "drop p m = LBRACE # rest" and wf: "wf_members ms xs"
    and n: "plain_name n" and mal: "\<forall>k. mal k"
  shows "find (matches n) ms = Some x \<Longrightarrow> LITE_json_value_of mal m n p = Some (Some (content (m_val x)), m)"
    and "find (matches n) ms = None \<Longrightarrow> QUOTE \<notin> set (take (e - (p + length (members_text ms))) xs) \<Longrightarrow>
      LITE_json_value_of mal m n p = Some (None, m)"
    and "find (matches n) ms = Some x \<Longrightarrow> val_kind (m_val x) \<noteq> JSSTRING \<Longrightarrow> \<exists>q. zstr m q e
      \<and> drop q m = content (m_val x) @ members_text (tl (dropWhile (\<lambda>y. \<not> matches n y) ms)) @ xs
      \<and> LITE_json_value_of mal m (n @ DOT # path) p = LITE_json_value_of mal m path q"
proof -
  from n have n': "0 \<notin> set n" "QUOTE \<notin> set n" "DOT \<notin> set n" by (auto simp: plain_name_def)
  note eq = get_value_by_name_eq [OF z] get_object_brace [OF d(2)]
  note walk = LITE_json_value_of_def json_walk.simps [of mal m n p] n'(3) strlen_at_zstr [OF z] mal
  show "LITE_json_value_of mal m n p = Some (None, m)"
    if "find (matches n) ms = None" "QUOTE \<notin> set (take (e - (p + length (members_text ms))) xs)"
    using kv_loop_absent [OF that(1) z d(1) wf n'(1,2) that(2), of JSON_RESULT_ERR] by (auto simp: walk eq)
  assume f: "find (matches n) ms = Some x"
  from kv_loop_found [OF f z d(1) wf n'(1,2), of JSON_RESULT_ERR] obtain q ys where
    q: "kv_loop json_get_value_by_name_cb m p JSON_RESULT_ERR (name_nv n) = Some (JSON_RESULT_OK,
      (name_nv n)\<lparr>pV := Some q, vLen := length (content (m_val x)), vType := val_kind (m_val x)\<rparr>)"
    "drop q m = content (m_val x) @ ys" "p \<le> q" "q \<le> e"
    "val_kind (m_val x) \<noteq> JSSTRING \<longrightarrow> ys = members_text (tl (dropWhile (\<lambda>y. \<not> matches n y) ms)) @ xs" by blast
  have zq: "zstr m q e" by (rule zstr_later [OF z q(3,4)])
  have "x \<in> set ms" using f by (auto simp: find_Some_iff)
  then have "0 \<notin> set (member_text x)" using wf by (induction ms) (auto simp: member_nonzero)
  then have "0 \<notin> set (content (m_val x))" by (cases "m_val x") (auto simp: member_text_def)
  from zstr_prefix [OF zq q(2) this] have "q + length (content (m_val x)) \<le> e" .
  then show "LITE_json_value_of mal m n p = Some (Some (content (m_val x)), m)"
    by (simp add: walk eq q(1,2) strlen_at_zstr [OF zq] cstr_at_zstr [OF zq])
  have "next_key (n @ DOT # path) = n" using n'(3) by (auto simp: next_key_def takeWhile_append takeWhile_eq_all_conv)
  then have "json_walk mal m (n @ DOT # path) p = json_walk mal m path q"
    by (subst json_walk.simps) (simp add: mal strlen_at_zstr [OF z] eq q(1))
  then have "LITE_json_value_of mal m (n @ DOT # path) p = LITE_json_value_of mal m path q"
    by (simp add: LITE_json_value_of_def)
  with zq q(2,5) show "val_kind (m_val x) \<noteq> JSSTRING \<Longrightarrow> \<exists>q. zstr m q e
      \<and> drop q m = content (m_val x) @ members_text (tl (dropWhile (\<lambda>y. \<not> matches n y) ms)) @ xs
      \<and> LITE_json_value_of mal m (n @ DOT # path) p = LITE_json_value_of mal m path q" by blast
qed

lemma find_append: "find P (xs @ ys) = (case find P xs of None \<Rightarrow> find P ys | Some x \<Rightarrow> Some x)"
  by (induction xs) auto

lemma wf_members_split: "wf_members (ms @ ns) xs \<longleftrightarrow> wf_members ms (members_text ns @ xs) \<and> wf_members ns xs"
  by (induction ms) auto

text \<open>Members with a text without quotation marks before them are members still.\<close>

lemma absorb_gap:
  assumes "wf_members ms xs" and "QUOTE \<notin> set g" and "0 \<notin> set g"
  shows "\<exists>ms' g'. g @ members_text ms = members_text ms' @ g' \<and> wf_members ms' xs \<and> set g' \<subseteq> set g
    \<and> (ms' = [] \<or> g' = []) \<and> map_option (content \<circ> m_val) (find (matches n) ms') = map_option (content \<circ> m_val) (find (matches n) ms)"
proof (cases ms)
  case Nil
  then show ?thesis by (intro exI [of _ "[]"] exI [of _ g]) simp
next
  case (Cons y ys)
  let ?y = "y\<lparr>m_gap := g @ m_gap y\<rparr>"
  have "matches n ?y = matches n y" by (simp add: matches_def)
  then show ?thesis using Cons assms
    by (intro exI [of _ "?y # ys"] exI [of _ "[]"]) (simp add: wf_member_def member_text_def)
qed

section \<open>Properties\<close>

text \<open>
  C27. Reading JSON is safe and returns.  For every text that does not end with a quotation mark, well-formed or not, and every
  path, \<open>LITE_json_value_of\<close> comes back without leaving the text, without changing it, and its result, if any, is a
  non-empty piece of it (the allocations of the names of the path, whose results are not checked, being granted).
\<close>
theorem json_value_safe:
  assumes "0 \<notin> set text" and "text = [] \<or> last text \<noteq> QUOTE" and "0 \<notin> set path" and "\<forall>n \<le> length path. mal n"
  shows "\<exists>r. LITE_json_value_of mal (text @ 0 # post) path 0 = Some (r, text @ 0 # post) \<and> (\<forall>s. r = Some s \<longrightarrow> s \<noteq> [] \<and> sublist s text)"
proof -
  let ?m = "text @ 0 # post"
  have z: "zstr ?m 0 (length text)" using zstr_text [OF assms(1), of "[]" post] by simp
  have "?m ! (length text - 1) \<noteq> QUOTE" using assms(2)
    by (cases "text = []") (auto simp: nth_append last_conv_nth)
  from value_of_zstr [OF z this assms(3,4)] obtain r where r: "LITE_json_value_of mal ?m path 0 = Some (r, ?m)"
    "\<forall>s. r = Some s \<longrightarrow> s \<noteq> [] \<and> (\<exists>v. 0 < v \<and> v + length s \<le> length text \<and> s = take (length s) (drop v ?m))" by blast
  have "sublist s text" if "v + length s \<le> length text" "s = take (length s) (drop v ?m)" for s v
  proof -
    from that have "s = take (length s) (drop v text)" by simp
    then show ?thesis by (metis sublist_drop sublist_order.order_trans sublist_take)
  qed
  with r show ?thesis by blast
qed

theorem json_value_safe_witness:
  "\<exists>r. LITE_json_value_of (\<lambda>n. n < 100) ([LBRACE, QUOTE, 97, QUOTE, COLON, LBRACE] @ 0 # [1, 2]) (str ''a.b'') 0
     = Some (r, [LBRACE, QUOTE, 97, QUOTE, COLON, LBRACE, 0, 1, 2])"
  using json_value_safe [of "[LBRACE, QUOTE, 97, QUOTE, COLON, LBRACE]" "str ''a.b''" "\<lambda>n. n < 100" "[1, 2]"]
  by (auto simp: str_def)

text \<open>The restriction is needed: an unterminated empty string value at the end makes the reader run over the terminator.\<close>

lemma json_unterminated_overread:
  "LITE_json_value_of (\<lambda>n. True) [LBRACE, QUOTE, 97, QUOTE, COLON, QUOTE, 0] (str ''b'') 0 = None"
  by code_simp

lemma value_of_name:
  assumes "json_doc ms tail text" and "plain_name n" and "\<forall>k. mal k"
  shows "LITE_json_value_of mal (text @ 0 # post) n 0 =
    Some (map_option (content \<circ> m_val) (find (matches n) ms), text @ 0 # post)"
proof -
  let ?m = "text @ 0 # post"
  from assms(1) have t: "text = members_text ms @ tail" "text \<noteq> []" "hd text = LBRACE" "wf_members ms tail" "QUOTE \<notin> set tail" "0 \<notin> set tail"
    by (auto simp: json_doc_def)
  have "0 \<notin> set text" using t(1,6) members_nonzero [OF t(4)] by auto
  from zstr_text [OF this, of "[]" post] have z: "zstr ?m 0 (length text)" by simp
  have d: "drop 0 ?m = members_text ms @ tail @ 0 # post" using t(1) by simp
  have b: "drop 0 ?m = LBRACE # tl text @ 0 # post" using t(2,3) by (cases "text") auto
  have "QUOTE \<notin> set (take (length text - (0 + length (members_text ms))) (tail @ 0 # post))" using t(1,5) by simp
  then show ?thesis
    using value_of_key(1,2) [OF z d b wf_members_append [OF t(4)] assms(2,3)] by (cases "find (matches n) ms") auto
qed

text \<open>
  C28. Looking up a name.  In an object whose members are well formed (keys and strings without quotation marks, numbers,
  literals, nested objects and arrays with matching brackets), \<open>LITE_json_value_of\<close> gives the value of the first member with a
  non-empty key and value whose key starts with the name, and nothing if there is none.
\<close>
theorem json_lookup_correct:
  assumes "json_doc ms tail text" and "plain_name n" and "\<forall>k. mal k"
  shows "LITE_json_value_of mal (text @ 0 # post) n 0 =
    Some (map_option (content \<circ> m_val) (find (matches n) ms), text @ 0 # post)"
  using assms by (rule value_of_name)

definition jmember :: "bytes \<Rightarrow> string \<Rightarrow> json_val \<Rightarrow> json_member" where
  "jmember g k v = \<lparr> m_gap = g, m_key = str k, m_gap2 = [], m_gap3 = [], m_val = v \<rparr>"

definition demo_members :: "json_member list" where
  "demo_members = [jmember [LBRACE] ''a'' (J_Object (member_text (jmember [] ''c'' (J_Number (str ''1''))))),
                   jmember [44] ''bcd'' (J_Number (str ''27''))]"

lemma demo_doc: "json_doc demo_members [RBRACE] (members_text demo_members @ [RBRACE])"
  by (simp add: demo_members_def jmember_def json_doc_def wf_member_def member_text_def str_def ends_number_def is_digit_def number_text_def
      open_mark_def close_mark_def)

theorem json_lookup_correct_witness:
  "LITE_json_value_of (\<lambda>n. True) ((members_text demo_members @ [RBRACE]) @ [0]) (str ''bc'') 0 =
     Some (Some (str ''27''), (members_text demo_members @ [RBRACE]) @ [0])"
  using json_lookup_correct [OF demo_doc, of "str ''bc''" "\<lambda>n. True" "[]"]
  by (simp add: plain_name_def str_def demo_members_def jmember_def matches_def)

lemma value_of_path:
  assumes "json_doc (ms1 @ x # ms2) tail text" and "find (matches a) ms1 = None" and "matches a x"
    and "m_val x = J_Object s" and "json_doc inner itail (content (m_val x))"
    and "plain_name a" and "plain_name b" and "\<forall>k. mal k"
  shows "LITE_json_value_of mal (text @ 0 # post) (a @ DOT # b) 0 =
    Some (map_option (content \<circ> m_val) (find (matches b) (inner @ ms2)), text @ 0 # post)"
proof -
  let ?m = "text @ 0 # post" and ?ms = "ms1 @ x # ms2"
  from assms(1) have t: "text = members_text ?ms @ tail" "text \<noteq> []" "hd text = LBRACE" "wf_members ?ms tail" "QUOTE \<notin> set tail" "0 \<notin> set tail"
    by (auto simp: json_doc_def)
  from assms(5) have i: "content (m_val x) = members_text inner @ itail" "hd (content (m_val x)) = LBRACE" "wf_members inner itail"
    "QUOTE \<notin> set itail" "0 \<notin> set itail" by (auto simp: json_doc_def)
  have t0: "0 \<notin> set text" using t(1,6) members_nonzero [OF t(4)] by auto
  from zstr_text [OF this, of "[]" post] have z: "zstr ?m 0 (length text)" by simp
  have d: "drop 0 ?m = members_text ?ms @ tail @ 0 # post" using t(1) by simp
  have b: "drop 0 ?m = LBRACE # tl text @ 0 # post" using t(2,3) by (cases "text") auto
  have f: "find (matches a) ?ms = Some x" using assms(2,3) by (simp add: find_append)
  have dw: "dropWhile (\<lambda>y. \<not> matches a y) ?ms = x # ms2" using assms(2,3)
    by (auto simp: find_None_iff dropWhile_append)
  from value_of_key(3) [OF z d b wf_members_append [OF t(4)] assms(6,8) f, of b] assms(4) dw obtain q where
    q: "zstr ?m q (length text)" "drop q ?m = content (m_val x) @ members_text ms2 @ tail @ 0 # post"
      "LITE_json_value_of mal ?m (a @ DOT # b) 0 = LITE_json_value_of mal ?m b q" by auto
  from t(4) have "wf_members ms2 tail" by (simp add: wf_members_split)
  from absorb_gap [OF this i(4,5), of b] obtain ms' g' where
    g: "itail @ members_text ms2 = members_text ms' @ g'" "wf_members ms' tail" "set g' \<subseteq> set itail" "ms' = [] \<or> g' = []"
      "map_option (content \<circ> m_val) (find (matches b) ms') = map_option (content \<circ> m_val) (find (matches b) ms2)" by blast
  let ?xs = "g' @ tail @ 0 # post"
  have dq: "drop q ?m = members_text (inner @ ms') @ ?xs"
    using q(2) i(1) arg_cong [OF g(1), of "\<lambda>w. w @ tail @ 0 # post"] by simp
  have bq: "drop q ?m = LBRACE # tl (content (m_val x)) @ members_text ms2 @ tail @ 0 # post"
    using q(2) i(2) assms(4) by simp
  have e: "itail @ members_text ms2 @ tail @ 0 # post = members_text ms' @ ?xs"
    using arg_cong [OF g(1), of "\<lambda>w. w @ tail @ 0 # post"] by simp
  have "wf_members ms' ?xs" using g(2,4) wf_members_append [OF g(2), of "0 # post"] by auto
  then have wf: "wf_members (inner @ ms') ?xs"
    using wf_members_append [OF i(3), of "members_text ms2 @ tail @ 0 # post", unfolded append_assoc e] by (simp add: wf_members_split)
  have "length (drop q ?m) = length (members_text (inner @ ms') @ ?xs)" by (simp only: dq)
  then have "length text - (q + length (members_text (inner @ ms'))) = length (g' @ tail)" by simp
  then have "take (length text - (q + length (members_text (inner @ ms')))) ?xs = g' @ tail" by simp
  moreover have "QUOTE \<notin> set (g' @ tail)" using g(3) i(4) t(5) by auto
  moreover have "map_option (content \<circ> m_val) (find (matches b) (inner @ ms')) = map_option (content \<circ> m_val) (find (matches b) (inner @ ms2))"
    using g(5) by (simp add: find_append split: option.splits)
  ultimately show ?thesis
    using value_of_key(1,2) [OF q(1) dq bq wf assms(7,8)] q(3)
    by (cases "find (matches b) (inner @ ms')") auto
qed

lemma value_of_absent_path:
  assumes "json_doc ms rest text" and "find (matches a) ms = None" and "plain_name a" and "\<forall>k. mal k"
  shows "LITE_json_value_of mal (text @ 0 # post) (a @ DOT # path) 0 = Some (None, text @ 0 # post)"
proof -
  let ?m = "text @ 0 # post"
  from assms(1) have t: "text = members_text ms @ rest" "text \<noteq> []" "hd text = LBRACE" "wf_members ms rest" "QUOTE \<notin> set rest" "0 \<notin> set rest"
    by (auto simp: json_doc_def)
  from assms(3) have n: "0 \<notin> set a" "QUOTE \<notin> set a" "DOT \<notin> set a" by (auto simp: plain_name_def)
  have "0 \<notin> set text" using t(1,6) members_nonzero [OF t(4)] by auto
  from zstr_text [OF this, of "[]" post] have z: "zstr ?m 0 (length text)" by simp
  have d: "drop 0 ?m = members_text ms @ rest @ 0 # post" using t(1) by simp
  have b: "drop 0 ?m = LBRACE # tl text @ 0 # post" using t(2,3) by (cases "text") auto
  have q: "QUOTE \<notin> set (take (length text - (0 + length (members_text ms))) (rest @ 0 # post))" using t(1,5) by simp
  note eq = get_value_by_name_eq [OF z, simplified] get_object_brace [OF b]
  have "next_key (a @ DOT # path) = a" using n(3) by (auto simp: next_key_def takeWhile_append takeWhile_eq_all_conv)
  then have "json_walk mal ?m (a @ DOT # path) 0 = Some (None, ?m)"
    using kv_loop_absent [OF assms(2) z d wf_members_append [OF t(4)] n(1,2) q, of JSON_RESULT_ERR]
    by (subst json_walk.simps) (auto simp: assms(4) strlen_at_zstr [OF z] eq)
  then show ?thesis by (simp add: LITE_json_value_of_def)
qed

text \<open>
  Following a path.  A path \<open>a.b\<close> gives the first match for \<open>b\<close> among the members of the object found for
  \<open>a\<close> \<^emph>\<open>and the members that follow that object\<close>: the second lookup runs to the end of the whole text, so a name that the
  object lacks is taken from outside it.
\<close>
theorem json_path_lookup:
  assumes "json_doc (ms1 @ x # ms2) tail text" and "find (matches a) ms1 = None" and "matches a x"
    and "m_val x = J_Object s" and "json_doc inner itail (content (m_val x))"
    and "plain_name a" and "plain_name b" and "\<forall>k. mal k"
  shows "LITE_json_value_of mal (text @ 0 # post) (a @ DOT # b) 0 =
    Some (map_option (content \<circ> m_val) (find (matches b) (inner @ ms2)), text @ 0 # post)"
  using assms by (rule value_of_path)

theorem json_path_lookup_witness:
  "LITE_json_value_of (\<lambda>n. True) ((members_text demo_members @ [RBRACE]) @ [0]) (str ''a'' @ DOT # str ''b'') 0 =
     Some (Some (str ''27''), (members_text demo_members @ [RBRACE]) @ [0])"
proof -
  let ?c = "jmember [LBRACE] ''c'' (J_Number (str ''1''))"
  have "json_doc [?c] [RBRACE] (content (m_val (hd demo_members)))"
    by (simp add: demo_members_def jmember_def json_doc_def wf_member_def member_text_def str_def ends_number_def is_digit_def number_text_def)
  moreover have "demo_members = [] @ hd demo_members # tl demo_members" by (simp add: demo_members_def)
  ultimately show ?thesis
    using json_path_lookup [of "[]" "hd demo_members" "tl demo_members" "[RBRACE]" "members_text demo_members @ [RBRACE]" "str ''a''" _ "[?c]"
        "[RBRACE]" "str ''b''" "\<lambda>n. True" "[]"] demo_doc
    by (simp add: plain_name_def str_def demo_members_def jmember_def matches_def)
qed

end
