(* ===== verification/Utils_Numbers.thy ===== *)
theory Utils_Numbers
  imports Utils_Json
begin

text \<open>
  Numbers in texts: what \<open>printf\<close> writes for an integer, what \<open>sscanf\<close> reads, and the conversion functions
  \<open>LITE_get_\<dots>\<close> of \<^verbatim>\<open>json_token.c\<close>.  A conversion result that the type cannot represent is undefined
  behaviour in C and \<open>None\<close> here; \<open>Some (ret, v)\<close> is the return code and what is stored, if anything.
\<close>

section \<open>Printing\<close>

fun dec_nat :: "nat \<Rightarrow> cstr" where
  "dec_nat n = (if n < 10 then [48 + of_nat n] else dec_nat (n div 10) @ [48 + of_nat (n mod 10)])"

declare dec_nat.simps [simp del]

definition dec_int :: "int \<Rightarrow> cstr" where
  "dec_int i = (if i < 0 then MINUS # dec_nat (nat (- i)) else dec_nat (nat i))"

section \<open>Reading\<close>

definition is_space :: "u8 \<Rightarrow> bool" where "is_space c \<longleftrightarrow> c = 32 \<or> 9 \<le> c \<and> c \<le> 13"

text \<open>The value of a character as a digit of a base.\<close>

definition digit_value :: "nat \<Rightarrow> u8 \<Rightarrow> nat option" where
  "digit_value base c =
     (let v = (if is_digit c then unat c - 48
               else if 97 \<le> c \<and> c \<le> 122 then unat c - 87
               else if 65 \<le> c \<and> c \<le> 90 then unat c - 55 else 36)
      in if v < base then Some v else None)"

fun scan_digits :: "nat \<Rightarrow> nat \<Rightarrow> cstr \<Rightarrow> nat" where
  "scan_digits base acc [] = acc"
| "scan_digits base acc (c # cs) = (case digit_value base c of None \<Rightarrow> acc | Some v \<Rightarrow> scan_digits base (acc * base + v) cs)"

definition starts_digits :: "nat \<Rightarrow> cstr \<Rightarrow> bool" where
  "starts_digits base s \<longleftrightarrow> s \<noteq> [] \<and> digit_value base (hd s) \<noteq> None"

text \<open>
  The magnitude after an optional sign: base 10, or, for the base 0 of \<open>%i\<close>, hexadecimal after \<open>0x\<close> and octal after \<open>0\<close>.
\<close>

definition scan_magnitude :: "nat \<Rightarrow> cstr \<Rightarrow> nat option" where
  "scan_magnitude base s =
     (if base = 0 \<and> 2 \<le> length s \<and> s ! 0 = 48 \<and> s ! 1 \<in> {120, 88} \<and> starts_digits 16 (drop 2 s) then Some (scan_digits 16 0 (drop 2 s))
      else let b = (if base \<noteq> 0 then base else if s \<noteq> [] \<and> hd s = 48 then 8 else 10)
           in if starts_digits b s then Some (scan_digits b 0 s) else None)"

definition scan_int :: "nat \<Rightarrow> cstr \<Rightarrow> int option" where
  "scan_int base s =
     (case dropWhile is_space s of
        [] \<Rightarrow> None
      | c # cs \<Rightarrow>
          if c = MINUS then map_option (\<lambda>n. - int n) (scan_magnitude base cs)
          else if c = 43 then map_option int (scan_magnitude base cs)
          else map_option int (scan_magnitude base (c # cs)))"

text \<open>\<open>sscanf\<close> with a signed \<open>%i\<close> or unsigned \<open>%u\<close> conversion of a width.\<close>

definition sscanf_i :: "nat \<Rightarrow> cstr \<Rightarrow> int option option" where
  "sscanf_i w s =
     (case scan_int 0 s of None \<Rightarrow> Some None
      | Some v \<Rightarrow> if - (2 ^ (w - 1)) \<le> v \<and> v < 2 ^ (w - 1) then Some (Some v) else None)"

definition sscanf_u :: "nat \<Rightarrow> cstr \<Rightarrow> int option option" where
  "sscanf_u w s =
     (case scan_int 10 s of None \<Rightarrow> Some None
      | Some v \<Rightarrow> if \<bar>v\<bar> < 2 ^ w then Some (Some (v mod 2 ^ w)) else None)"

definition LITE_get_int32 :: "cstr \<Rightarrow> (int \<times> 32 word option) option" where
  "LITE_get_int32 src = do { r \<leftarrow> sscanf_i 32 src; Some (case r of None \<Rightarrow> (FAILURE_RET, None) | Some v \<Rightarrow> (SUCCESS_RET, Some (of_int v))) }"

definition LITE_get_int16 :: "cstr \<Rightarrow> (int \<times> 16 word option) option" where
  "LITE_get_int16 src = do { r \<leftarrow> sscanf_i 16 src; Some (case r of None \<Rightarrow> (FAILURE_RET, None) | Some v \<Rightarrow> (SUCCESS_RET, Some (of_int v))) }"

definition LITE_get_int8 :: "cstr \<Rightarrow> (int \<times> 8 word option) option" where
  "LITE_get_int8 src = do {
     temp \<leftarrow> sscanf_i 16 src;
     Some (case temp of None \<Rightarrow> (FAILURE_RET, None) | Some v \<Rightarrow> (SUCCESS_RET, Some (ucast (of_int v :: 16 word)))) }"

definition LITE_get_uint32 :: "cstr \<Rightarrow> (int \<times> 32 word option) option" where
  "LITE_get_uint32 src = do { r \<leftarrow> sscanf_u 32 src; Some (case r of None \<Rightarrow> (FAILURE_RET, None) | Some v \<Rightarrow> (SUCCESS_RET, Some (of_int v))) }"

definition LITE_get_uint16 :: "cstr \<Rightarrow> (int \<times> 16 word option) option" where
  "LITE_get_uint16 src = do { r \<leftarrow> sscanf_u 16 src; Some (case r of None \<Rightarrow> (FAILURE_RET, None) | Some v \<Rightarrow> (SUCCESS_RET, Some (of_int v))) }"

definition LITE_get_uint8 :: "cstr \<Rightarrow> (int \<times> 8 word option) option" where
  "LITE_get_uint8 src = do {
     temp \<leftarrow> sscanf_u 16 src;
     Some (case temp of None \<Rightarrow> (FAILURE_RET, None) | Some v \<Rightarrow> (SUCCESS_RET, Some (ucast (of_int v :: 16 word)))) }"

definition LITE_get_boolean :: "cstr \<Rightarrow> int \<times> bool" where
  "LITE_get_boolean src = (SUCCESS_RET, src \<noteq> str ''0'')"

section \<open>Reading back what was printed\<close>

lemma digit_range: "n < 10 \<Longrightarrow> is_digit (48 + of_nat n) \<and> unat (48 + of_nat n :: u8) = 48 + n"
proof -
  assume "n < 10"
  then have "n \<in> {0, 1, 2, 3, 4, 5, 6, 7, 8, 9}" by auto
  then show ?thesis by (auto simp: is_digit_def)
qed

lemma digit_value_digit: "n < 10 \<Longrightarrow> 10 \<le> b \<Longrightarrow> digit_value b (48 + of_nat n) = Some n"
  using digit_range [of n] by (simp add: digit_value_def Let_def)

lemma dec_nat_digits: "dec_nat n \<noteq> [] \<and> (\<forall>c \<in> set (dec_nat n). is_digit c)"
proof (induction n rule: dec_nat.induct)
  case (1 n)
  then show ?case using digit_range [of n] digit_range [of "n mod 10"] by (subst (1 2) dec_nat.simps) auto
qed

lemma scan_digits_append: "\<forall>c \<in> set s. digit_value b c \<noteq> None \<Longrightarrow> scan_digits b a (s @ t) = scan_digits b (scan_digits b a s) t"
  by (induction s arbitrary: a) auto

lemma digit_value_dec: "is_digit c \<Longrightarrow> digit_value 10 c \<noteq> None"
proof -
  assume "is_digit c"
  then have "unat c - 48 < 10" by (auto simp: is_digit_def word_le_nat_alt)
  with \<open>is_digit c\<close> show ?thesis by (simp add: digit_value_def)
qed

lemma scan_dec_nat: "scan_digits 10 0 (dec_nat n) = n"
proof (induction n rule: dec_nat.induct)
  case (1 n)
  show ?case
  proof (cases "n < 10")
    case True
    then show ?thesis by (subst dec_nat.simps) (simp add: digit_value_digit)
  next
    case False
    have "\<forall>c \<in> set (dec_nat (n div 10)). digit_value 10 c \<noteq> None" using dec_nat_digits digit_value_dec by blast
    with 1 False show ?thesis by (subst dec_nat.simps) (simp add: scan_digits_append digit_value_digit)
  qed
qed

lemma dec_nat_head: "0 < n \<Longrightarrow> hd (dec_nat n) \<noteq> 48"
proof (induction n rule: dec_nat.induct)
  case (1 n)
  show ?case
  proof (cases "n < 10")
    case True
    with 1(2) digit_range [of n] have "unat (48 + of_nat n :: u8) \<noteq> unat (48 :: u8)" by simp
    then show ?thesis using True by (subst dec_nat.simps) auto
  next
    case False
    with 1 dec_nat_digits show ?thesis by (subst dec_nat.simps) (simp add: hd_append)
  qed
qed

lemma digit_not:
  "is_digit c \<Longrightarrow> c \<noteq> MINUS \<and> c \<noteq> 43 \<and> \<not> is_space c \<and> c \<noteq> 120 \<and> c \<noteq> 88 \<and> c \<noteq> 0 \<and> c \<noteq> DOT \<and> c \<noteq> QUOTE"
  by (auto simp: is_digit_def is_space_def word_le_nat_alt)

lemma starts_digits_dec: "starts_digits 10 (dec_nat n)"
  using dec_nat_digits [of n] digit_value_dec hd_in_set by (auto simp: starts_digits_def)

lemma scan_magnitude_dec:
  assumes "b = 0 \<or> b = 10"
  shows "scan_magnitude b (dec_nat n) = Some n"
proof (cases "n = 0")
  case True
  then have "dec_nat n = [48]" by (subst dec_nat.simps) simp
  then show ?thesis using assms True
    by (auto simp: scan_magnitude_def starts_digits_def digit_value_def is_digit_def Let_def)
next
  case False
  then have "hd (dec_nat n) \<noteq> 48" by (simp add: dec_nat_head)
  moreover from this have "dec_nat n ! 0 \<noteq> 48" using dec_nat_digits by (metis hd_conv_nth)
  ultimately show ?thesis using assms starts_digits_dec scan_dec_nat by (auto simp: scan_magnitude_def)
qed

lemma scan_int_dec:
  assumes "b = 0 \<or> b = 10"
  shows "scan_int b (dec_int i) = Some i"
proof (cases "i < 0")
  case True
  then show ?thesis using scan_magnitude_dec [OF assms] by (simp add: scan_int_def dec_int_def is_space_def)
next
  case False
  obtain c cs where c: "dec_nat (nat i) = c # cs" using dec_nat_digits by (metis list.exhaust)
  with dec_nat_digits have "is_digit c" by (metis list.set_intros(1))
  with digit_not False scan_magnitude_dec [OF assms, of "nat i"] c show ?thesis
    by (simp add: scan_int_def dec_int_def)
qed

lemma dec_int_number: "number_text (dec_int i)"
  using dec_nat_digits [of "nat i"] dec_nat_digits [of "nat (- i)"]
  by (cases "dec_nat (nat i)") (auto simp: number_text_def dec_int_def)

lemma sscanf_i_dec: "0 < w \<Longrightarrow> - (2 ^ (w - 1)) \<le> i \<Longrightarrow> i < 2 ^ (w - 1) \<Longrightarrow> sscanf_i w (dec_int i) = Some (Some i)"
  by (simp add: sscanf_i_def scan_int_dec)

lemma sscanf_u_dec: "\<bar>i\<bar> < 2 ^ w \<Longrightarrow> sscanf_u w (dec_int i) = Some (Some (i mod 2 ^ w))"
  by (simp add: sscanf_u_def scan_int_dec)

lemma narrow_of_int: "ucast (of_int k :: 16 word) = (of_int k :: 8 word)"
  by transfer (simp add: take_bit_take_bit)

section \<open>Properties\<close>


end
