(* ===== verification/Shadow_Json.thy ===== *)
theory Shadow_Json
  imports Utils_Numbers
begin

text \<open>
  The documents of the device shadow: \<^verbatim>\<open>shadow_client_json.c\<close> and the three functions of
  \<^verbatim>\<open>shadow_client_manager.c\<close> that build the text of a request.  The document is written into a buffer with
  \<open>HAL_Snprintf\<close>; a write behind the buffer is \<open>None\<close>.
\<close>

abbreviation (input) ERR_JSON_PARSE :: int where "ERR_JSON_PARSE \<equiv> - 132"
abbreviation (input) ERR_JSON_BUFFER_TRUNCATED :: int where "ERR_JSON_BUFFER_TRUNCATED \<equiv> - 133"
abbreviation (input) ERR_JSON_BUFFER_TOO_SMALL :: int where "ERR_JSON_BUFFER_TOO_SMALL \<equiv> - 134"
abbreviation (input) ERR_JSON :: int where "ERR_JSON \<equiv> - 135"

section \<open>Printing into a buffer\<close>

text \<open>C string literals, written with backquotes for the escaped quotation marks.\<close>

definition lit :: "string \<Rightarrow> cstr" where
  "lit s = map (\<lambda>c. if c = CHR ''`'' then QUOTE else of_char c) s"

text \<open>\<open>snprintf\<close> of a text at a position, with at most \<open>n\<close> bytes: the length of the text, and the buffer.\<close>

definition snprintf_at :: "bytes \<Rightarrow> pos \<Rightarrow> size_t \<Rightarrow> cstr \<Rightarrow> (int \<times> bytes) option" where
  "snprintf_at m p n t =
     (if n = 0 then Some (int (length t), m)
      else map_option (Pair (int (length t))) (poke_bytes m p (take (unat n - 1) t @ [0])))"

section \<open>Nodes\<close>

datatype JsonDataType = JINT32 | JINT16 | JINT8 | JUINT32 | JUINT16 | JUINT8 | JFLOAT | JDOUBLE | JBOOL | JSTRING | JOBJECT

text \<open>What the \<open>void *\<close> of a property points to; reading it at another type is undefined.\<close>

datatype json_data = D32 u32 | D16 u16 | D8 u8 | DFloat u32 | DDouble "64 word" | DBool bool | DStr cstr

record DeviceProperty =
  prop_key :: "cstr option"
  prop_data :: "json_data option"
  prop_type :: JsonDataType

definition check_snprintf_return :: "int \<Rightarrow> size_t \<Rightarrow> int" where
  "check_snprintf_return returnCode maxSizeOfWrite =
     (if of_int returnCode \<ge> maxSizeOfWrite then ERR_JSON_BUFFER_TRUNCATED
      else if returnCode < 0 then ERR_JSON
      else SUCCESS_RET)"

text \<open>The text of a value; \<open>fmt\<close> is what \<open>%f\<close> prints for a \<open>float\<close> or \<open>double\<close>.\<close>

definition node_value :: "(json_data \<Rightarrow> cstr) \<Rightarrow> json_data option \<Rightarrow> JsonDataType \<Rightarrow> cstr option" where
  "node_value fmt pData type =
     (case pData of
        None \<Rightarrow> Some (lit ''null,'')
      | Some d \<Rightarrow>
          (case (type, d) of
             (JINT32, D32 w) \<Rightarrow> Some (dec_int (sint w) @ lit '','')
           | (JINT16, D16 w) \<Rightarrow> Some (dec_int (sint w) @ lit '','')
           | (JINT8, D8 w) \<Rightarrow> Some (dec_int (sint w) @ lit '','')
           | (JUINT32, D32 w) \<Rightarrow> Some (dec_int (uint w) @ lit '','')
           | (JUINT16, D16 w) \<Rightarrow> Some (dec_int (uint w) @ lit '','')
           | (JUINT8, D8 w) \<Rightarrow> Some (dec_int (uint w) @ lit '','')
           | (JDOUBLE, DDouble w) \<Rightarrow> Some (fmt d @ lit '','')
           | (JFLOAT, DFloat w) \<Rightarrow> Some (fmt d @ lit '','')
           | (JBOOL, DBool b) \<Rightarrow> Some (dec_int (if b then 1 else 0) @ lit '','')
           | (JSTRING, DStr s) \<Rightarrow> Some (lit ''`'' @ s @ lit ''`,'')
           | (JOBJECT, DStr s) \<Rightarrow> Some (s @ lit '','')
           | _ \<Rightarrow> None))"

definition put_json_node ::
  "(json_data \<Rightarrow> cstr) \<Rightarrow> bytes \<Rightarrow> size_t \<Rightarrow> cstr option \<Rightarrow> json_data option \<Rightarrow> JsonDataType \<Rightarrow> (int \<times> bytes) option" where
  "put_json_node fmt jsonBuffer sizeOfBuffer pKey pData type =
     (case pKey of None \<Rightarrow> Some (ERR_PARAM_INVALID, jsonBuffer)
      | Some k \<Rightarrow> do {
          l \<leftarrow> strlen_at jsonBuffer 0;
          let remain_size = sizeOfBuffer - of_nat l;
          if remain_size \<le> 1 then Some (ERR_JSON_BUFFER_TOO_SMALL, jsonBuffer)
          else do {
            (n, jsonBuffer) \<leftarrow> snprintf_at jsonBuffer l remain_size (lit ''`'' @ k @ lit ''`:'');
            let ret = check_snprintf_return n remain_size;
            if ret \<noteq> SUCCESS_RET then Some (ret, jsonBuffer)
            else do {
              l \<leftarrow> strlen_at jsonBuffer 0;
              let remain_size = sizeOfBuffer - of_nat l;
              if remain_size \<le> 1 then Some (ERR_JSON_BUFFER_TOO_SMALL, jsonBuffer)
              else do {
                v \<leftarrow> node_value fmt pData type;
                (n, jsonBuffer) \<leftarrow> snprintf_at jsonBuffer l remain_size v;
                Some (check_snprintf_return n remain_size, jsonBuffer) } } } })"

section \<open>Fields of received documents\<close>

text \<open>
  Each function is \<open>LITE_json_value_of\<close> with the path of its field; the receive buffer \<open>doc\<close> holds the document.  The
  first component is the \<open>bool\<close> result, the second what is stored through the pointer (\<open>None\<close> the null pointer, or for the
  numbers nothing).
\<close>

definition json_field :: "(nat \<Rightarrow> bool) \<Rightarrow> bytes \<Rightarrow> cstr \<Rightarrow> (bool \<times> cstr option) option" where
  "json_field mal doc path = do { (r, _) \<leftarrow> LITE_json_value_of mal doc path 0; Some (r \<noteq> None, r) }"

definition json_number :: "(nat \<Rightarrow> bool) \<Rightarrow> bytes \<Rightarrow> cstr \<Rightarrow> (bool \<times> u32 option) option" where
  "json_number mal doc path = do {
     (r, _) \<leftarrow> LITE_json_value_of mal doc path 0;
     case r of None \<Rightarrow> Some (False, None)
     | Some s \<Rightarrow> do {
         v \<leftarrow> sscanf_u 32 s;
         Some (v \<noteq> None, map_option of_int v) } }"

definition parse_version_num :: "(nat \<Rightarrow> bool) \<Rightarrow> bytes \<Rightarrow> (bool \<times> u32 option) option" where
  "parse_version_num mal pJsonDoc = json_number mal pJsonDoc (lit ''Version'')"

definition parse_shadow_payload_retcode_type :: "(nat \<Rightarrow> bool) \<Rightarrow> bytes \<Rightarrow> (bool \<times> u32 option) option" where
  "parse_shadow_payload_retcode_type mal pJsonDoc = json_number mal pJsonDoc (lit ''Payload.RetCode'')"

definition parse_shadow_payload_state_reported_state :: "(nat \<Rightarrow> bool) \<Rightarrow> bytes \<Rightarrow> (bool \<times> cstr option) option" where
  "parse_shadow_payload_state_reported_state mal pJsonDoc = json_field mal pJsonDoc (lit ''Payload.State.Reported'')"

definition parse_shadow_payload_state_desired_state :: "(nat \<Rightarrow> bool) \<Rightarrow> bytes \<Rightarrow> (bool \<times> cstr option) option" where
  "parse_shadow_payload_state_desired_state mal pJsonDoc = json_field mal pJsonDoc (lit ''Payload.State.Desired'')"

definition parse_shadow_method_type :: "(nat \<Rightarrow> bool) \<Rightarrow> bytes \<Rightarrow> (bool \<times> cstr option) option" where
  "parse_shadow_method_type mal pJsonDoc = json_field mal pJsonDoc (lit ''Method'')"

definition parse_shadow_state_reported_type :: "(nat \<Rightarrow> bool) \<Rightarrow> bytes \<Rightarrow> (bool \<times> cstr option) option" where
  "parse_shadow_state_reported_type mal pJsonDoc = json_field mal pJsonDoc (lit ''State.Reported'')"

definition parse_shadow_state_desired_type :: "(nat \<Rightarrow> bool) \<Rightarrow> bytes \<Rightarrow> (bool \<times> cstr option) option" where
  "parse_shadow_state_desired_type mal pJsonDoc = json_field mal pJsonDoc (lit ''State.Desired'')"

definition parse_shadow_state_type :: "(nat \<Rightarrow> bool) \<Rightarrow> bytes \<Rightarrow> (bool \<times> cstr option) option" where
  "parse_shadow_state_type mal pJsonDoc = json_field mal pJsonDoc (lit ''State'')"

definition find_value_if_key_match :: "(nat \<Rightarrow> bool) \<Rightarrow> bytes \<Rightarrow> DeviceProperty \<Rightarrow> cstr option option" where
  "find_value_if_key_match mal pJsonDoc pProperty = do {
     k \<leftarrow> prop_key pProperty;
     (property_data, _) \<leftarrow> LITE_json_value_of mal pJsonDoc k 0;
     case property_data of None \<Rightarrow> Some None
     | Some v \<Rightarrow> Some (if take 4 v = str ''null'' \<or> take 4 v = str ''NULL'' then None else Some v) }"

section \<open>Request documents\<close>

datatype Method = GET | UPDATE | UPDATE_AND_RESET_VER | DELETE | DELETE_ALL | REPLY_CONTROL_UPDATE | REPLY_CONTROL_DELETE

text \<open>
  \<open>n\<close> is the length of the list of changed properties.  What the three functions print is at most a few bytes shorter than
  the buffers they are called with; as in C nothing is checked in the first.
\<close>

definition shadow_json_head :: "Method \<Rightarrow> nat \<Rightarrow> cstr" where
  "shadow_json_head meth n =
     (case meth of
        GET \<Rightarrow> lit ''{`Method`:`get`''
      | UPDATE \<Rightarrow> lit ''{`Method`:`update`,`State`:{`Reported`:{''
      | UPDATE_AND_RESET_VER \<Rightarrow> lit ''{`Method`:`update`,`State`:{`Reported`:{''
      | REPLY_CONTROL_UPDATE \<Rightarrow>
          if n \<noteq> 0 then lit ''{`Method`:`update`,`State`:{`Reported`:{'' else lit ''{`Method`:`update`,`State`:{''
      | DELETE \<Rightarrow> if n \<noteq> 0 then lit ''{`Method`:`delete`,`State`:{`Reported`:{'' else lit ''{`Method`:`delete`,`State`:{''
      | REPLY_CONTROL_DELETE \<Rightarrow>
          if n \<noteq> 0 then lit ''{`Method`:`delete`,`State`:{`Reported`:{'' else lit ''{`Method`:`delete`,`State`:{''
      | DELETE_ALL \<Rightarrow> lit ''{`Method`:`delete`,`State`:{`Reported`:'')"

definition shadow_json_init :: "bytes \<Rightarrow> size_t \<Rightarrow> Method \<Rightarrow> nat \<Rightarrow> (int \<times> bytes) option" where
  "shadow_json_init pJsonDoc sizeOfBuffer meth n = do {
     (_, pJsonDoc) \<leftarrow> snprintf_at pJsonDoc 0 sizeOfBuffer (shadow_json_head meth n);
     Some (SUCCESS_RET, pJsonDoc) }"

text \<open>The loop over the list of changed properties, from its tail; the result of \<open>put_json_node\<close> is not looked at.\<close>

fun set_content_loop :: "(json_data \<Rightarrow> cstr) \<Rightarrow> size_t \<Rightarrow> Method \<Rightarrow> DeviceProperty list \<Rightarrow> bytes \<Rightarrow> size_t \<Rightarrow> bytes option" where
  "set_content_loop fmt sizeOfBuffer meth [] pJsonDoc remain_size = Some pJsonDoc"
| "set_content_loop fmt sizeOfBuffer meth (p # ps) pJsonDoc remain_size = do {
     pJsonDoc \<leftarrow>
       (if prop_key p = None then Some pJsonDoc
        else if meth \<in> {UPDATE, UPDATE_AND_RESET_VER, REPLY_CONTROL_UPDATE}
        then map_option snd (put_json_node fmt pJsonDoc remain_size (prop_key p) (prop_data p) (prop_type p))
        else if meth \<in> {DELETE, REPLY_CONTROL_DELETE}
        then map_option snd (put_json_node fmt pJsonDoc remain_size (prop_key p) None JSTRING)
        else Some pJsonDoc);
     json_len \<leftarrow> strlen_at pJsonDoc 0;
     set_content_loop fmt sizeOfBuffer meth ps pJsonDoc (sizeOfBuffer - of_nat json_len) }"

text \<open>\<open>iter_ok\<close>: the allocation of the list iterator is granted.\<close>

definition shadow_json_set_content ::
  "(json_data \<Rightarrow> cstr) \<Rightarrow> bool \<Rightarrow> bytes \<Rightarrow> size_t \<Rightarrow> Method \<Rightarrow> DeviceProperty list \<Rightarrow> (int \<times> bytes) option" where
  "shadow_json_set_content fmt iter_ok pJsonDoc sizeOfBuffer meth ps = do {
     json_len \<leftarrow> strlen_at pJsonDoc 0;
     let remain_size = sizeOfBuffer - of_nat json_len;
     if meth = GET then Some (SUCCESS_RET, pJsonDoc)
     else if meth = DELETE_ALL then do {
       (n, pJsonDoc) \<leftarrow> snprintf_at pJsonDoc json_len remain_size (lit ''null'');
       Some (check_snprintf_return n remain_size, pJsonDoc) }
     else if ps = [] then Some (SUCCESS_RET, pJsonDoc)
     else if \<not> iter_ok then Some (ERR_PARAM_INVALID, pJsonDoc)
     else do {
       pJsonDoc \<leftarrow> set_content_loop fmt sizeOfBuffer meth (rev ps) pJsonDoc remain_size;
       Some (SUCCESS_RET, pJsonDoc) } }"

text \<open>
  The end of a document: how many of the last bytes it replaces, and its text.  The version is a \<open>uint32_t\<close> printed with
  \<open>%d\<close>.
\<close>

definition shadow_json_tail :: "Method \<Rightarrow> nat \<Rightarrow> u32 \<Rightarrow> nat \<times> cstr" where
  "shadow_json_tail meth n version =
     (let ver = dec_int (sint version) @ lit ''}'' in
      case meth of
        GET \<Rightarrow> (0, lit ''}'')
      | DELETE_ALL \<Rightarrow> (0, lit ''},`Version`:'' @ ver)
      | UPDATE_AND_RESET_VER \<Rightarrow> (1, lit ''}},`Version`:-1}'')
      | REPLY_CONTROL_UPDATE \<Rightarrow>
          if n \<noteq> 0 then (1, lit ''},`Desired`:null},`Version`:'' @ ver) else (0, lit ''`Desired`:null},`Version`:'' @ ver)
      | REPLY_CONTROL_DELETE \<Rightarrow>
          if n \<noteq> 0 then (1, lit ''},`Desired`:null},`Version`:'' @ ver) else (0, lit ''`Desired`:null},`Version`:'' @ ver)
      | UPDATE \<Rightarrow> (1, lit ''}},`Version`:'' @ ver)
      | DELETE \<Rightarrow> (1, lit ''}},`Version`:'' @ ver))"

definition shadow_json_finalize :: "bytes \<Rightarrow> size_t \<Rightarrow> Method \<Rightarrow> nat \<Rightarrow> u32 \<Rightarrow> (int \<times> bytes) option" where
  "shadow_json_finalize pJsonDoc sizeOfBuffer meth n version = do {
     l \<leftarrow> strlen_at pJsonDoc 0;
     let remain_size = sizeOfBuffer - of_nat l;
     if remain_size \<le> 1 then Some (ERR_JSON_BUFFER_TOO_SMALL, pJsonDoc)
     else do {
       let (back, t) = shadow_json_tail meth n version;
       if l < back then None
       else do {
         (r, pJsonDoc) \<leftarrow> snprintf_at pJsonDoc (l - back) remain_size t;
         Some (check_snprintf_return r remain_size, pJsonDoc) } } }"

text \<open>The three steps as \<open>uiot_shadow_make_request\<close> runs them.\<close>

definition shadow_document ::
  "(json_data \<Rightarrow> cstr) \<Rightarrow> bool \<Rightarrow> bytes \<Rightarrow> size_t \<Rightarrow> Method \<Rightarrow> DeviceProperty list \<Rightarrow> u32 \<Rightarrow> (int \<times> bytes) option" where
  "shadow_document fmt iter_ok pJsonDoc sizeOfBuffer meth ps version = do {
     (ret, pJsonDoc) \<leftarrow> shadow_json_init pJsonDoc sizeOfBuffer meth (length ps);
     if ret \<noteq> SUCCESS_RET then Some (ret, pJsonDoc)
     else do {
       (ret, pJsonDoc) \<leftarrow> shadow_json_set_content fmt iter_ok pJsonDoc sizeOfBuffer meth ps;
       if ret \<noteq> SUCCESS_RET then Some (ret, pJsonDoc)
       else shadow_json_finalize pJsonDoc sizeOfBuffer meth (length ps) version } }"

section \<open>What the buffer holds\<close>

lemma strlen_at_text [simp]: "0 \<notin> set t \<Longrightarrow> strlen_at (t @ 0 # post) 0 = Some (length t)"
  using strlen_at_zstr [OF zstr_text [of t "[]" post]] by simp

lemma snprintf_at_end:
  assumes "n \<noteq> 0" and "unat n \<le> Suc (length post)"
  shows "snprintf_at (t @ 0 # post) (length t) n s =
    Some (int (length s), (t @ take (unat n - 1) s) @ 0 # drop (length (take (unat n - 1) s)) post)"
  using assms by (simp add: snprintf_at_def poke_bytes_def)

lemma check_snprintf_fits:
  assumes "length s < 2 ^ 31"
  shows "check_snprintf_return (int (length s)) n = (if length s < unat n then SUCCESS_RET else ERR_JSON_BUFFER_TRUNCATED)"
  using assms by (simp add: check_snprintf_return_def word_le_nat_alt)

lemma unat_diff_of_nat: "l \<le> unat (S :: u32) \<Longrightarrow> unat (S - of_nat l) = unat S - l"
proof -
  assume l: "l \<le> unat S"
  moreover have "unat S < 2 ^ 32" using unsigned_less [where 'a = nat and w = S] by simp
  ultimately show ?thesis by (subst unat_sub) (simp_all add: word_le_nat_alt)
qed

text \<open>One bounded print at the end of the text, as \<open>put_json_node\<close> and \<open>shadow_json_finalize\<close> do it.\<close>

definition put_text :: "bytes \<Rightarrow> size_t \<Rightarrow> cstr \<Rightarrow> (int \<times> bytes) option" where
  "put_text m S s = do {
     l \<leftarrow> strlen_at m 0;
     let remain_size = S - of_nat l;
     if remain_size \<le> 1 then Some (ERR_JSON_BUFFER_TOO_SMALL, m)
     else do { (n, m) \<leftarrow> snprintf_at m l remain_size s; Some (check_snprintf_return n remain_size, m) } }"

lemma put_text_end:
  assumes t: "0 \<notin> set t" and l: "length t < unat S" "unat S \<le> Suc (length t + length post)" and n: "s \<noteq> []" "length s < 2 ^ 31"
  defines "k \<equiv> unat S - length t - 1"
  shows "put_text (t @ 0 # post) S s = Some
    (if length s \<le> k then SUCCESS_RET else if k = 0 then ERR_JSON_BUFFER_TOO_SMALL else ERR_JSON_BUFFER_TRUNCATED,
     (t @ take k s) @ 0 # drop (length (take k s)) post)"
proof -
  have r: "unat (S - of_nat (length t)) = Suc k" unfolding k_def using l(1) by (subst unat_diff_of_nat) simp_all
  then have ne: "S - of_nat (length t) \<noteq> 0" by (metis nat.distinct(1) unat_0)
  have "unat (S - of_nat (length t)) \<le> Suc (length post)" using r l by (simp add: k_def)
  note snprintf_at_end [OF ne this, of t s]
  moreover have "0 < length s" using n(1) by simp
  ultimately show ?thesis using r t
    by (auto simp: put_text_def check_snprintf_fits [OF n(2)] word_le_nat_alt less_Suc_eq_le)
qed

lemma put_json_node_eq:
  assumes "node_value fmt d ty = Some v"
  shows "put_json_node fmt m S (Some k) d ty = do {
    (ret, m) \<leftarrow> put_text m S (lit ''`'' @ k @ lit ''`:'');
    if ret \<noteq> SUCCESS_RET then Some (ret, m) else put_text m S v }"
  by (auto simp: put_json_node_def put_text_def assms Let_def bind_eq_None_conv split: option.splits intro!: Option.bind_cong)

text \<open>The text of a node, and what a call of \<open>put_json_node\<close> with a bound of \<open>S\<close> bytes leaves of it in the buffer.\<close>

definition node_text :: "cstr \<Rightarrow> cstr \<Rightarrow> cstr" where
  "node_text k v = lit ''`'' @ k @ lit ''`:'' @ v"

lemma node_value_length: "node_value fmt d ty = Some v \<Longrightarrow> v \<noteq> []"
  by (auto simp: node_value_def lit_def split: option.splits prod.splits JsonDataType.splits json_data.splits)

lemma put_json_node_text:
  assumes v: "node_value fmt d ty = Some v" and t: "0 \<notin> set t" and k: "0 \<notin> set k"
    and l: "length t < unat S" "unat S \<le> Suc (length t + length post)" and n: "length (node_text k v) < 2 ^ 31"
  defines "r \<equiv> unat S - length t - 1"
  shows "\<exists>ret. put_json_node fmt (t @ 0 # post) S (Some k) d ty =
      Some (ret, (t @ take r (node_text k v)) @ 0 # drop (length (take r (node_text k v))) post)
    \<and> (ret = SUCCESS_RET \<longleftrightarrow> length (node_text k v) \<le> r)
    \<and> ret \<in> {SUCCESS_RET, ERR_JSON_BUFFER_TOO_SMALL, ERR_JSON_BUFFER_TRUNCATED}"
proof -
  define K where "K = lit ''`'' @ k @ lit ''`:''"
  have K: "node_text k v = K @ v" "K \<noteq> []" "0 \<notin> set K" using k by (simp_all add: node_text_def K_def lit_def)
  note put = put_json_node_eq [OF v, where k = k, folded K_def] and p1 = put_text_end [OF t l K(2), folded r_def]
  have "length K < 2 ^ 31" using n K(1) by simp
  note p1 = p1 [OF this]
  show ?thesis
  proof (cases "length K \<le> r")
    case False
    then show ?thesis by (simp add: put p1 K(1))
  next
    case True
    have tK: "0 \<notin> set (t @ K)" using t K(3) by simp
    have l': "length (t @ K) < unat S" "unat S \<le> Suc (length (t @ K) + length (drop (length K) post))"
      "unat S - length (t @ K) - 1 = r - length K" using True l by (auto simp: r_def)
    have "length v < 2 ^ 31" using n by (simp add: node_text_def)
    note p2 = put_text_end [OF tK l'(1,2) node_value_length [OF v] this, unfolded l'(3)]
    have p1': "put_text (t @ 0 # post) S K = Some (SUCCESS_RET, (t @ K) @ 0 # drop (length K) post)"
      using True by (simp add: p1)
    have e: "take r (node_text k v) = K @ take (r - length K) v" using True by (simp add: K(1))
    have c: "length v \<le> r - length K \<longleftrightarrow> length (node_text k v) \<le> r" using True by (auto simp: K(1))
    show ?thesis unfolding put p1' e by (simp add: p2 c add.commute del: append_assoc)
  qed
qed

section \<open>The document of a request\<close>

text \<open>What the loop adds for a changed property.\<close>

definition changed_node :: "(json_data \<Rightarrow> cstr) \<Rightarrow> Method \<Rightarrow> DeviceProperty \<Rightarrow> cstr option" where
  "changed_node fmt meth p = (case prop_key p of None \<Rightarrow> Some []
     | Some k \<Rightarrow>
         if meth \<in> {UPDATE, UPDATE_AND_RESET_VER, REPLY_CONTROL_UPDATE}
         then map_option (node_text k) (node_value fmt (prop_data p) (prop_type p))
         else if meth \<in> {DELETE, REPLY_CONTROL_DELETE} then Some (node_text k (lit ''null,''))
         else Some [])"

definition printable :: "(json_data \<Rightarrow> cstr) \<Rightarrow> Method \<Rightarrow> DeviceProperty \<Rightarrow> bool" where
  "printable fmt meth p \<longleftrightarrow> (\<exists>w. changed_node fmt meth p = Some w \<and> 0 \<notin> set w \<and> length w < 2 ^ 31)"

abbreviation nodes_text :: "(json_data \<Rightarrow> cstr) \<Rightarrow> Method \<Rightarrow> DeviceProperty list \<Rightarrow> cstr" where
  "nodes_text fmt meth ps \<equiv> concat (map (\<lambda>p. the (changed_node fmt meth p)) ps)"

lemma node_text_nonzero: "0 \<notin> set (node_text k v) \<longleftrightarrow> 0 \<notin> set k \<and> 0 \<notin> set v"
  by (auto simp: node_text_def lit_def)

text \<open>One round of the loop, for a bound that leaves \<open>r\<close> bytes: \<open>put_json_node\<close> or nothing.\<close>

definition put_changed :: "(json_data \<Rightarrow> cstr) \<Rightarrow> Method \<Rightarrow> DeviceProperty \<Rightarrow> bytes \<Rightarrow> size_t \<Rightarrow> bytes option" where
  "put_changed fmt meth p m remain_size =
     (if prop_key p = None then Some m
      else if meth \<in> {UPDATE, UPDATE_AND_RESET_VER, REPLY_CONTROL_UPDATE}
      then map_option snd (put_json_node fmt m remain_size (prop_key p) (prop_data p) (prop_type p))
      else if meth \<in> {DELETE, REPLY_CONTROL_DELETE}
      then map_option snd (put_json_node fmt m remain_size (prop_key p) None JSTRING)
      else Some m)"

lemma set_content_loop_Cons:
  "set_content_loop fmt S meth (p # ps) m remain_size = do {
     m \<leftarrow> put_changed fmt meth p m remain_size;
     l \<leftarrow> strlen_at m 0;
     set_content_loop fmt S meth ps m (S - of_nat l) }"
  by (simp add: put_changed_def)

lemma put_changed_text:
  assumes "changed_node fmt meth p = Some w" "0 \<notin> set w" "length w < 2 ^ 31" and t: "0 \<notin> set t"
    and l: "length t < unat S" "unat S \<le> Suc (length t + length post)"
  defines "r \<equiv> unat S - length t - 1"
  shows "put_changed fmt meth p (t @ 0 # post) S = Some ((t @ take r w) @ 0 # drop (length (take r w)) post)"
proof (cases "prop_key p")
  case None
  with assms(1) show ?thesis by (simp add: put_changed_def changed_node_def)
next
  case (Some k)
  have "put_changed fmt meth p (t @ 0 # post) S = Some ((t @ take r w) @ 0 # drop (length (take r w)) post)"
    if "node_value fmt d ty = Some v" "w = node_text k v"
      "put_changed fmt meth p (t @ 0 # post) S = map_option snd (put_json_node fmt (t @ 0 # post) S (Some k) d ty)" for d ty v
    using put_json_node_text [OF that(1) t _ l, of k] assms(2,3) that(2,3) by (auto simp: node_text_nonzero r_def)
  from this [of "prop_data p" "prop_type p"] this [of None JSTRING] Some assms(1) show ?thesis
    by (auto simp: changed_node_def put_changed_def node_value_def [of fmt None] split: if_splits)
qed

declare set_content_loop.simps(2) [simp del]


lemma set_content_exact:
  assumes "\<forall>p \<in> set ps. printable fmt meth p" and "0 \<notin> set t"
    and "2 * (length t + length (nodes_text fmt meth ps)) < unat S" and "unat S \<le> Suc (length t + length post)"
  shows "set_content_loop fmt S meth ps (t @ 0 # post) (S - of_nat (length t)) =
    Some ((t @ nodes_text fmt meth ps) @ 0 # drop (length (nodes_text fmt meth ps)) post)"
  using assms
proof (induction ps arbitrary: t post)
  case Nil then show ?case by simp
next
  case (Cons p ps)
  then obtain w where w: "changed_node fmt meth p = Some w" "0 \<notin> set w" "length w < 2 ^ 31" by (auto simp: printable_def)
  from Cons.prems(3) w(1) have l: "2 * length t + 2 * length w < unat S" by simp
  then have r: "unat (S - of_nat (length t)) = unat S - length t" by (intro unat_diff_of_nat) simp
  have "put_changed fmt meth p (t @ 0 # post) (S - of_nat (length t)) = Some ((t @ w) @ 0 # drop (length w) post)"
    using put_changed_text [OF w Cons.prems(2), of "S - of_nat (length t)" post] l Cons.prems(4) by (simp add: r)
  moreover have "0 \<notin> set (t @ w)" using Cons.prems(2) w(2) by simp
  ultimately show ?case
    using Cons.IH [of "t @ w" "drop (length w) post"] Cons.prems w l strlen_at_text [of "t @ w"]
    by (simp add: set_content_loop_Cons ac_simps del: append_assoc)
qed

text \<open>
  Behind the middle of the buffer the bound that \<open>put_json_node\<close> is given is smaller than the text already there: the
  difference wraps around, and what is printed is bounded by nothing but the memory behind the text.
\<close>

lemma put_text_wrapped:
  assumes t: "0 \<notin> set t" and l: "unat S < length t" "length t < 2 ^ 31" and n: "s \<noteq> []" "length s < 2 ^ 31"
  shows "put_text (t @ 0 # post) S s =
    (if length s \<le> length post then Some (SUCCESS_RET, (t @ s) @ 0 # drop (length s) post) else None)"
proof -
  have "S - of_nat (length t) = of_nat (2 ^ 32 + unat S - length t)" using l by (subst of_nat_diff) simp_all
  moreover have "2 ^ 32 + unat S - length t < 2 ^ 32" using l by simp
  ultimately have r: "unat (S - of_nat (length t)) = 2 ^ 32 + unat S - length t" by (simp only: unat_of_nat_u32)
  then have "\<not> S - of_nat (length t) \<le> 1" "S - of_nat (length t) \<noteq> 0" using l
    by (auto simp: word_le_nat_alt dest: arg_cong [where f = unat])
  moreover have "take (unat (S - of_nat (length t)) - 1) s = s" using l n(2) by (simp add: r)
  moreover have "check_snprintf_return (int (length s)) (S - of_nat (length t)) = SUCCESS_RET"
    using l n(2) by (simp add: check_snprintf_fits [OF n(2)] r)
  ultimately show ?thesis using t by (auto simp: put_text_def snprintf_at_def poke_bytes_def)
qed

lemma put_json_node_wrapped:
  assumes v: "node_value fmt d ty = Some v" and t: "0 \<notin> set t" and l: "unat S < length t"
    and k: "0 \<notin> set k" and n: "length t + length (node_text k v) < 2 ^ 31" "length post < length (node_text k v)"
  shows "put_json_node fmt (t @ 0 # post) S (Some k) d ty = None"
proof -
  define K where "K = lit ''`'' @ k @ lit ''`:''"
  have K: "node_text k v = K @ v" "K \<noteq> []" "0 \<notin> set K" using k by (simp_all add: node_text_def K_def lit_def)
  note put = put_json_node_eq [OF v, where k = k, folded K_def]
  have "length K < 2 ^ 31" using n(1) by (simp add: K(1))
  note p1 = put_text_wrapped [OF t l _ K(2) this, of post]
  show ?thesis
  proof (cases "length K \<le> length post")
    case False
    then show ?thesis using p1 n(1) by (simp add: put)
  next
    case True
    have "0 \<notin> set (t @ K)" "unat S < length (t @ K)" "length (t @ K) < 2 ^ 31" "length v < 2 ^ 31"
      using t K(3) l n(1) by (simp_all add: K(1))
    from put_text_wrapped [OF this(1-3) node_value_length [OF v] this(4), of "drop (length K) post"] True p1 n
    show ?thesis by (simp add: put K(1) del: append_assoc)
  qed
qed

lemma put_changed_wrapped:
  assumes "changed_node fmt meth p = Some w" "0 \<notin> set w" and t: "0 \<notin> set t" and l: "unat S < length t"
    and n: "length t + length w < 2 ^ 31" "length post < length w"
  shows "put_changed fmt meth p (t @ 0 # post) S = None"
proof (cases "prop_key p")
  case None
  with assms(1) n show ?thesis by (simp add: changed_node_def)
next
  case (Some k)
  have "put_changed fmt meth p (t @ 0 # post) S = None"
    if "node_value fmt d ty = Some v" "w = node_text k v"
      "put_changed fmt meth p (t @ 0 # post) S = map_option snd (put_json_node fmt (t @ 0 # post) S (Some k) d ty)" for d ty v
    using put_json_node_wrapped [OF that(1) t l, of k] assms(2) n that(2,3) by (auto simp: node_text_nonzero)
  from this [of "prop_data p" "prop_type p"] this [of None JSTRING] Some assms(1) n show ?thesis
    by (auto simp: changed_node_def put_changed_def node_value_def [of fmt None] split: if_splits)
qed

text \<open>The three steps.\<close>

definition document_body :: "(json_data \<Rightarrow> cstr) \<Rightarrow> Method \<Rightarrow> DeviceProperty list \<Rightarrow> cstr" where
  "document_body fmt meth ps =
     (case meth of GET \<Rightarrow> [] | DELETE_ALL \<Rightarrow> lit ''null'' | _ \<Rightarrow> nodes_text fmt meth (rev ps))"

lemma of_char_u8_zero: "(of_char c :: u8) = 0 \<longleftrightarrow> c = CHR 0x00"
proof -
  have n: "of_char c < (256 :: nat)" using of_char_mod_256 [of c, where 'a = nat] by (metis mod_less_divisor zero_less_numeral)
  have e: "(of_char c :: u8) = of_nat (of_char c)" by (simp add: of_nat_of_char)
  have "(of_char c :: u8) = 0 \<longleftrightarrow> of_char c = (0 :: nat)"
    unfolding e by (subst word_eq_iff_unsigned) (use n in \<open>simp add: unsigned_of_nat take_bit_nat_eq_self\<close>)
  also have "\<dots> \<longleftrightarrow> c = CHR 0x00" using of_char_eq_iff [of c "CHR 0x00", where 'a = nat] by (simp del: of_char_eq_iff)
  finally show ?thesis .
qed

lemma lit_nonzero: "0 \<in> set (lit s) \<longleftrightarrow> CHR 0x00 \<in> set s"
  using of_char_u8_zero by (force simp: lit_def image_iff)

lemma head_nonzero: "0 \<notin> set (shadow_json_head meth n)"
  by (cases meth) (simp_all add: shadow_json_head_def lit_nonzero)

lemma head_short: "0 < length (shadow_json_head meth n)" "length (shadow_json_head meth n) < 50"
  by (cases meth; simp add: shadow_json_head_def lit_def)+

lemma snprintf_at_start:
  assumes "length s < unat S" and "unat S \<le> length m" and "length s < 2 ^ 31"
  shows "snprintf_at m 0 S s = Some (int (length s), s @ 0 # drop (Suc (length s)) m)"
proof -
  have "S \<noteq> 0" using assms(1) by auto
  with assms show ?thesis by (simp add: snprintf_at_def poke_bytes_def)
qed

lemma tail_nonempty: "snd (shadow_json_tail meth n version) \<noteq> []"
  by (cases meth) (simp_all add: shadow_json_tail_def Let_def lit_def)

lemma tail_back: "fst (shadow_json_tail meth n version) \<le> 1"
  by (cases meth) (simp_all add: shadow_json_tail_def Let_def)

lemma set_content_document:
  assumes ps: "\<forall>p \<in> set ps. printable fmt meth p" and t: "0 \<notin> set t"
    and l: "2 * length (t @ document_body fmt meth ps) < unat S" "unat S \<le> Suc (length t + length post)"
  shows "shadow_json_set_content fmt True (t @ 0 # post) S meth ps = Some (SUCCESS_RET,
    (t @ document_body fmt meth ps) @ 0 # drop (length (document_body fmt meth ps)) post)"
proof -
  have loop: "set_content_loop fmt S meth (rev ps) (t @ 0 # post) (S - of_nat (length t)) =
      Some ((t @ nodes_text fmt meth (rev ps)) @ 0 # drop (length (nodes_text fmt meth (rev ps))) post)"
    if "document_body fmt meth ps = nodes_text fmt meth (rev ps)"
    using set_content_exact [of "rev ps" fmt meth t S post] ps t l that by simp
  have r: "unat (S - of_nat (length t)) = unat S - length t" using l by (intro unat_diff_of_nat) simp
  consider "meth = GET" | "meth = DELETE_ALL"
    | "meth \<notin> {GET, DELETE_ALL}" "document_body fmt meth ps = nodes_text fmt meth (rev ps)"
    by (cases meth) (auto simp: document_body_def)
  then show ?thesis
  proof cases
    case 1
    then show ?thesis using t by (simp add: shadow_json_set_content_def document_body_def)
  next
    case 2
    have n: "length (lit ''null'') = 4" by (simp add: lit_def)
    from l 2 n have "length t + 4 < unat S" by (simp add: document_body_def)
    then have "4 < unat (S - of_nat (length t))" "unat (S - of_nat (length t)) \<le> Suc (length post)" using l(2) r by simp_all
    moreover from this have "S - of_nat (length t) \<noteq> 0" by (metis not_less_zero unat_0)
    ultimately show ?thesis using snprintf_at_end [of "S - of_nat (length t)" post t "lit ''null''"]
        check_snprintf_fits [of "lit ''null''"] 2 t n
      by (simp add: shadow_json_set_content_def document_body_def)
  next
    case 3
    with t loop show ?thesis by (auto simp: shadow_json_set_content_def)
  qed
qed

lemma finalize_document:
  assumes t: "0 \<notin> set t" "t \<noteq> []" and l: "length t + length (snd (shadow_json_tail meth n version)) < unat S"
    "unat S \<le> Suc (length t + length post)" and s: "length (snd (shadow_json_tail meth n version)) < 2 ^ 31"
  defines "doc \<equiv> take (length t - fst (shadow_json_tail meth n version)) t @ snd (shadow_json_tail meth n version)"
  shows "\<exists>post'. shadow_json_finalize (t @ 0 # post) S meth n version = Some (SUCCESS_RET, doc @ 0 # post')
    \<and> length (doc @ 0 # post') = length (t @ 0 # post)"
proof -
  obtain bk s where tl: "shadow_json_tail meth n version = (bk, s)" by fastforce
  have b: "bk \<le> 1" "s \<noteq> []" using tail_back [of meth n version] tail_nonempty [of meth n version] tl by simp_all
  have r: "unat (S - of_nat (length t)) = unat S - length t" using l by (intro unat_diff_of_nat) simp
  have s1: "1 \<le> length s" "length s < 2 ^ 31" using b(2) assms(5) tl by (simp_all add: Suc_le_eq)
  have l': "length t + length s < unat S" using l(1) tl by simp
  then have rem: "1 < unat (S - of_nat (length t))" "length s < unat (S - of_nat (length t))" using r s1 by simp_all
  then have ne: "S - of_nat (length t) \<noteq> 0" "\<not> S - of_nat (length t) \<le> 1" by (auto simp: word_le_nat_alt)
  have tb: "bk \<le> length t" using b(1) t(2) by (cases t) simp_all
  have "take (unat (S - of_nat (length t)) - 1) s = s" using rem by simp
  then have "snprintf_at (t @ 0 # post) (length t - bk) (S - of_nat (length t)) s =
      Some (int (length s), take (length t - bk) (t @ 0 # post) @ (s @ [0]) @ drop (length t - bk + length (s @ [0])) (t @ 0 # post))"
    using ne l' l(2) tb s1 by (simp add: snprintf_at_def poke_bytes_def)
  with tb have "shadow_json_finalize (t @ 0 # post) S meth n version =
      Some (SUCCESS_RET, doc @ 0 # drop (length t - bk + length (s @ [0])) (t @ 0 # post))"
    using t ne rem check_snprintf_fits [OF s1(2)] by (simp add: shadow_json_finalize_def tl doc_def)
  moreover have "length (doc @ 0 # drop (length t - bk + length (s @ [0])) (t @ 0 # post)) = length (t @ 0 # post)"
    using tb l' l(2) by (simp add: doc_def tl)
  ultimately show ?thesis by blast
qed

lemma document_written:
  assumes "\<forall>p \<in> set ps. printable fmt meth p" and "unat S \<le> length m"
    and "t = shadow_json_head meth (length ps) @ document_body fmt meth ps"
    and "shadow_json_tail meth (length ps) version = (back, s)" and "length s < 2 ^ 31"
    and "2 * length t < unat S" and "length t + length s < unat S"
  shows "\<exists>post. shadow_document fmt True m S meth ps version = Some (SUCCESS_RET, (take (length t - back) t @ s) @ 0 # post)
    \<and> length ((take (length t - back) t @ s) @ 0 # post) = length m"
proof -
  let ?h = "shadow_json_head meth (length ps)" and ?b = "document_body fmt meth ps"
  let ?post = "drop (Suc (length ?h)) m"
  have h: "length ?h < unat S" "length ?h < 2 ^ 31" using assms(3,6) head_short(2) [of meth "length ps"] by simp_all
  have "unat S \<le> Suc (length ?h + length ?post)" "2 * length (?h @ ?b) < unat S" using assms(2,3,6) h by simp_all
  note c = set_content_document [OF assms(1) head_nonzero this(2,1)]
  have b0: "0 \<notin> set ?b" using assms(1)
    by (cases meth) (auto simp: document_body_def lit_nonzero printable_def dest!: bspec)
  have t: "0 \<notin> set t" "t \<noteq> []" using b0 head_nonzero head_short(1) [of meth "length ps"] by (auto simp: assms(3))
  have l: "unat S \<le> Suc (length t + length (drop (length ?b) ?post))" "length m = length (t @ 0 # drop (length ?b) ?post)"
    using assms(2,6) by (simp_all add: assms(3))
  from finalize_document [OF t, of meth "length ps" version S "drop (length ?b) ?post"] assms(4,5,7) l(1)
  obtain post' where f: "shadow_json_finalize (t @ 0 # drop (length ?b) ?post) S meth (length ps) version =
      Some (SUCCESS_RET, (take (length t - back) t @ s) @ 0 # post')"
    "length ((take (length t - back) t @ s) @ 0 # post') = length (t @ 0 # drop (length ?b) ?post)" by auto
  have d: "shadow_document fmt True m S meth ps version =
      shadow_json_finalize (t @ 0 # drop (length ?b) ?post) S meth (length ps) version"
    by (simp add: shadow_document_def shadow_json_init_def snprintf_at_start [OF h(1) assms(2) h(2)] c assms(3) del: append_assoc drop_drop)
  show ?thesis unfolding d l(2) using f by (intro exI conjI)
qed

text \<open>
  C30. The document of a request.  If the buffer has twice the room of the head and the nodes together (and room for the
  rest), the three steps write, inside the buffer, the head of the request's method, the node of every changed property in
  the order of the list's iterator, and the tail with the version number; the tail overwrites the last comma.
\<close>
theorem shadow_document_exact:
  assumes "\<forall>p \<in> set ps. printable fmt meth p" and "unat S \<le> length m"
    and "t = shadow_json_head meth (length ps) @ document_body fmt meth ps"
    and "shadow_json_tail meth (length ps) version = (back, s)" and "length s < 2 ^ 31"
    and "2 * length t < unat S" and "length t + length s < unat S"
  shows "\<exists>post. shadow_document fmt True m S meth ps version = Some (SUCCESS_RET, (take (length t - back) t @ s) @ 0 # post)
    \<and> length ((take (length t - back) t @ s) @ 0 # post) = length m"
  using assms by (rule document_written)

definition demo_props :: "DeviceProperty list" where
  "demo_props = [\<lparr> prop_key = Some (str ''name''), prop_data = Some (DStr (str ''lamp'')), prop_type = JSTRING \<rparr>,
                 \<lparr> prop_key = Some (str ''level''), prop_data = Some (D32 (- 7)), prop_type = JINT32 \<rparr>]"

lemma demo_printable: "\<forall>p \<in> set demo_props. printable (\<lambda>d. []) UPDATE p"
  unfolding printable_def
proof
  fix p assume "p \<in> set demo_props"
  moreover have "list_all (\<lambda>p. case changed_node (\<lambda>d. []) UPDATE p of None \<Rightarrow> False | Some w \<Rightarrow> 0 \<notin> set w \<and> length w < 100) demo_props"
    by code_simp
  ultimately show "\<exists>w. changed_node (\<lambda>d. []) UPDATE p = Some w \<and> 0 \<notin> set w \<and> length w < 2 ^ 31"
    by (auto simp: list_all_iff split: option.splits)
qed

theorem shadow_document_exact_witness:
  "\<exists>post. shadow_document (\<lambda>d. []) True (replicate 200 7) 200 UPDATE demo_props 3 = Some (SUCCESS_RET,
     lit ''{`Method`:`update`,`State`:{`Reported`:{`level`:-7,`name`:`lamp`}},`Version`:3}'' @ 0 # post)"
proof -
  let ?t = "shadow_json_head UPDATE (length demo_props) @ document_body (\<lambda>d. []) UPDATE demo_props"
  have tl: "shadow_json_tail UPDATE (length demo_props) 3 = (1, lit ''}},`Version`:3}'')" by code_simp
  have b: "length ?t = 65" "length (lit ''}},`Version`:3}'') = 15" by code_simp+
  have e: "take (length ?t - 1) ?t @ lit ''}},`Version`:3}'' =
    lit ''{`Method`:`update`,`State`:{`Reported`:{`level`:-7,`name`:`lamp`}},`Version`:3}''" by code_simp
  have l: "2 * length ?t < unat (200 :: u32)" "length ?t + length (lit ''}},`Version`:3}'') < unat (200 :: u32)"
    "length (lit ''}},`Version`:3}'') < 2 ^ 31" "unat (200 :: u32) \<le> length (replicate 200 (7 :: u8))"
    unfolding b by simp_all
  show ?thesis using shadow_document_exact [OF demo_printable l(4) refl tl l(3,1,2)] unfolding e by blast
qed

text \<open>
  The bound is lost behind the middle of the buffer.  \<open>shadow_json_set_content\<close> passes \<open>put_json_node\<close> the room that is left
  where that subtracts the length of the text once more.  If the first property fills the buffer as far as this bound
  allows, the second one is printed without any bound: with more than as many bytes as the head of the document it is
  written behind the end of the buffer.
\<close>
theorem shadow_document_overflow:
  assumes "rev ps = p1 # p2 # rest" and "length (shadow_json_head meth (length ps)) = h"
    and "changed_node fmt meth p1 = Some w1" "0 \<notin> set w1" "length w1 < 2 ^ 30"
    and "changed_node fmt meth p2 = Some w2" "0 \<notin> set w2" "length w2 < 2 ^ 30"
    and "length m = unat S" "unat S < 2 ^ 30" and "2 * h + 2 < unat S" and "unat S \<le> 2 * h + 1 + length w1" and "h < length w2"
  shows "shadow_document fmt True m S meth ps version = None"
proof -
  let ?h = "shadow_json_head meth (length ps)" and ?S = "S - of_nat h" and ?r = "unat S - 2 * h - 1"
  let ?w = "take ?r w1" and ?post = "drop (Suc h) m"
  have w: "length ?w = ?r" "0 \<notin> set ?w" using assms(4,12) by (auto dest: in_set_takeD)
  have S: "unat ?S = unat S - h" using assms(11) by (intro unat_diff_of_nat) simp
  have t: "length (?h @ ?w) = unat S - h - 1" "0 \<notin> set (?h @ ?w)" using w assms(2,11) head_nonzero by auto
  have S2: "unat (S - of_nat (length (?h @ ?w))) = h + 1" using t(1) assms(11) by (subst unat_diff_of_nat) simp_all
  have p1: "put_changed fmt meth p1 (?h @ 0 # ?post) ?S = Some ((?h @ ?w) @ 0 # drop ?r ?post)"
    using put_changed_text [OF assms(3,4) _ head_nonzero, where S = ?S and post = ?post] assms(2,5,9,11) S w(1)
    by (simp add: diff_diff_left mult_2 del: append_assoc)
  have "put_changed fmt meth p2 ((?h @ ?w) @ 0 # drop ?r ?post) (S - of_nat (length (?h @ ?w))) = None"
    by (rule put_changed_wrapped [OF assms(6,7)]) (use t S2 assms(8-13) in \<open>simp_all del: length_append append_assoc\<close>)
  then have "set_content_loop fmt S meth (rev ps) (?h @ 0 # ?post) ?S = None"
    unfolding assms(1) set_content_loop_Cons p1 using strlen_at_text [OF t(2), of "drop ?r ?post"] by (simp del: append_assoc length_append)
  moreover have "meth \<noteq> GET" "meth \<noteq> DELETE_ALL" using assms(6,13) by (auto simp: changed_node_def split: option.splits)
  moreover have "ps \<noteq> []" using assms(1) by auto
  moreover have "shadow_json_init m S meth (length ps) = Some (SUCCESS_RET, ?h @ 0 # ?post)"
    using snprintf_at_start [of ?h S m] assms(2,9,10,11) by (simp add: shadow_json_init_def)
  ultimately show ?thesis
    using assms(2) strlen_at_text [OF head_nonzero, of meth "length ps" ?post]
    by (simp add: shadow_document_def shadow_json_set_content_def)
qed

theorem shadow_document_overflow_witness:
  "shadow_document (\<lambda>d. []) True (replicate 128 0) 128 UPDATE
     [\<lparr> prop_key = Some (str ''b''), prop_data = Some (DStr (replicate 40 120)), prop_type = JSTRING \<rparr>,
      \<lparr> prop_key = Some (str ''a''), prop_data = Some (DStr (replicate 50 120)), prop_type = JSTRING \<rparr>] 0 = None"
  (is "shadow_document _ _ _ _ _ [?p2, ?p1] _ = None")
proof (rule shadow_document_overflow)
  show "rev [?p2, ?p1] = ?p1 # ?p2 # []" by simp
  show "changed_node (\<lambda>d. []) UPDATE ?p1 = Some (node_text (str ''a'') (QUOTE # replicate 50 120 @ [QUOTE, 44]))"
    "changed_node (\<lambda>d. []) UPDATE ?p2 = Some (node_text (str ''b'') (QUOTE # replicate 40 120 @ [QUOTE, 44]))"
    by (simp_all add: changed_node_def node_value_def lit_def)
  show "length (shadow_json_head UPDATE (length [?p2, ?p1])) = 40" by code_simp
qed (simp_all add: node_text_def lit_def str_def)

section \<open>Reading the document back\<close>

text \<open>The members that a list of keys and values makes after a separator.\<close>

fun node_members :: "u8 \<Rightarrow> (cstr \<times> json_val) list \<Rightarrow> json_member list" where
  "node_members g [] = []"
| "node_members g ((k, v) # kvs) = \<lparr> m_gap = [g], m_key = k, m_gap2 = [], m_gap3 = [], m_val = v \<rparr> # node_members 44 kvs"

abbreviation pair_text :: "cstr \<times> json_val \<Rightarrow> cstr" where
  "pair_text kv \<equiv> node_text (fst kv) (val_text (snd kv) @ [44])"

lemma node_members_text: "kvs \<noteq> [] \<Longrightarrow> g # concat (map pair_text kvs) = members_text (node_members g kvs) @ [44]"
proof (induction g kvs rule: node_members.induct)
  case (2 g k v kvs)
  then show ?case by (cases "kvs = []") (auto simp: member_text_def node_text_def lit_def)
qed simp

definition wf_pair :: "cstr \<times> json_val \<Rightarrow> bool" where
  "wf_pair kv \<longleftrightarrow> fst kv \<noteq> [] \<and> 0 \<notin> set (fst kv) \<and> set (fst kv) \<inter> {QUOTE, LBRACE, RBRACE} = {}
     \<and> wf_val (snd kv) \<and> set (val_text (snd kv)) \<inter> {LBRACE, RBRACE} = {}"

lemma node_members_wf:
  "\<forall>kv \<in> set kvs. wf_pair kv \<Longrightarrow> g \<noteq> QUOTE \<Longrightarrow> g \<noteq> 0 \<Longrightarrow> ends_number xs \<Longrightarrow> wf_members (node_members g kvs) xs"
proof (induction g kvs rule: node_members.induct)
  case (2 g k v kvs)
  then have "wf_members (node_members 44 kvs) xs" by simp
  moreover have "ends_number (members_text (node_members 44 kvs) @ xs)"
    using 2(5) by (cases kvs) (auto simp: ends_number_def member_text_def is_digit_def)
  ultimately show ?case using 2(2-4) by (simp add: wf_pair_def wf_member_def)
qed simp

lemma nested_skip: "set s \<inter> {LBRACE, RBRACE} = {} \<Longrightarrow> nested JSOBJECT d (s @ t) = nested JSOBJECT d t"
  by (induction s) (simp_all add: close_mark_def open_mark_def)

lemma node_members_flat:
  "\<forall>kv \<in> set kvs. wf_pair kv \<Longrightarrow> g \<notin> {LBRACE, RBRACE} \<Longrightarrow> set (members_text (node_members g kvs)) \<inter> {LBRACE, RBRACE} = {}"
  by (induction g kvs rule: node_members.induct) (auto simp: wf_pair_def member_text_def)

lemma node_members_nonzero: "\<forall>kv \<in> set kvs. wf_pair kv \<Longrightarrow> g \<noteq> 0 \<Longrightarrow> 0 \<notin> set (members_text (node_members g kvs))"
  by (induction g kvs rule: node_members.induct) (auto simp: wf_pair_def member_text_def val_nonzero)

text \<open>The document of an \<open>UPDATE\<close> request as members.\<close>

definition reported_text :: "(cstr \<times> json_val) list \<Rightarrow> cstr" where
  "reported_text kvs = butlast (concat (map pair_text kvs))"

definition update_members :: "(cstr \<times> json_val) list \<Rightarrow> u32 \<Rightarrow> json_member list" where
  "update_members kvs version =
     [jmember [LBRACE] ''Method'' (J_String (str ''update'')),
      jmember [44] ''State'' (J_Object (member_text (jmember [] ''Reported'' (J_Object (reported_text kvs))))),
      jmember [44] ''Version'' (J_Number (dec_int (sint version)))]"

lemma reported_members: "kvs \<noteq> [] \<Longrightarrow> g # reported_text kvs = members_text (node_members g kvs)"
proof -
  assume ne: "kvs \<noteq> []"
  then have "concat (map pair_text kvs) \<noteq> []" by (cases kvs) (simp_all add: node_text_def lit_def)
  then show ?thesis using arg_cong [OF node_members_text [OF ne, of g], of butlast] by (simp add: reported_text_def del: concat_eq_Nil_conv)
qed

lemma reported_doc:
  assumes "kvs \<noteq> []" and "\<forall>kv \<in> set kvs. wf_pair kv"
  shows "json_doc (node_members LBRACE kvs) [RBRACE] (LBRACE # reported_text kvs @ [RBRACE])"
  using node_members_wf [OF assms(2), of LBRACE "[RBRACE]"] arg_cong [OF reported_members [OF assms(1), of LBRACE], of "\<lambda>w. w @ [RBRACE]"]
  by (simp add: json_doc_def ends_number_def is_digit_def)

lemma reported_flat:
  assumes "kvs \<noteq> []" and "\<forall>kv \<in> set kvs. wf_pair kv"
  shows "set (reported_text kvs) \<inter> {LBRACE, RBRACE} = {}" "0 \<notin> set (reported_text kvs)"
  using node_members_flat [OF assms(2), of 44] node_members_nonzero [OF assms(2), of 44]
  unfolding reported_members [OF assms(1), symmetric] by simp_all

lemma update_doc:
  assumes "kvs \<noteq> []" and "\<forall>kv \<in> set kvs. wf_pair kv"
  shows "json_doc (update_members kvs version) [RBRACE] (members_text (update_members kvs version) @ [RBRACE])"
proof -
  note flat = reported_flat [OF assms]
  have n: "nested JSOBJECT 0 (member_text (jmember [] ''Reported'' (J_Object (reported_text kvs))))"
    using nested_skip [OF flat(1), of "Suc 0" "[RBRACE]"]
    by (simp add: member_text_def jmember_def str_def close_mark_def open_mark_def)
  moreover have "0 \<notin> set (member_text (jmember [] ''Reported'' (J_Object (reported_text kvs))))"
    using flat(2) by (simp add: member_text_def jmember_def str_def)
  ultimately show ?thesis using dec_int_number [of "sint version"]
    by (simp add: json_doc_def update_members_def wf_member_def jmember_def str_def ends_number_def is_digit_def)
      (simp add: member_text_def)
qed

lemma state_doc:
  assumes "kvs \<noteq> []" and "\<forall>kv \<in> set kvs. wf_pair kv"
  shows "json_doc [jmember [LBRACE] ''Reported'' (J_Object (reported_text kvs))] [RBRACE]
    (content (m_val (jmember g ''State'' (J_Object (member_text (jmember [] ''Reported'' (J_Object (reported_text kvs))))))))"
  using reported_flat [OF assms] nested_skip [OF reported_flat(1) [OF assms], of 0 "[]"]
  by (simp add: json_doc_def jmember_def wf_member_def member_text_def str_def)

definition printed_as :: "(json_data \<Rightarrow> cstr) \<Rightarrow> DeviceProperty \<Rightarrow> cstr \<times> json_val \<Rightarrow> bool" where
  "printed_as fmt p kv \<longleftrightarrow> prop_key p = Some (fst kv)
     \<and> node_value fmt (prop_data p) (prop_type p) = Some (val_text (snd kv) @ [44])"

lemma printed_nodes:
  "list_all2 (printed_as fmt) ps kvs \<Longrightarrow> \<forall>kv \<in> set kvs. wf_pair kv \<Longrightarrow> length (concat (map pair_text kvs)) < 2 ^ 31 \<Longrightarrow>
    nodes_text fmt UPDATE ps = concat (map pair_text kvs) \<and> (\<forall>p \<in> set ps. printable fmt UPDATE p)"
  by (induction rule: list_all2_induct)
    (auto simp: printed_as_def changed_node_def printable_def wf_pair_def node_text_nonzero val_nonzero)

lemma update_text:
  assumes "kvs \<noteq> []"
  shows "take (length (lit ''{`Method`:`update`,`State`:{`Reported`:{'' @ concat (map pair_text kvs)) - 1)
      (lit ''{`Method`:`update`,`State`:{`Reported`:{'' @ concat (map pair_text kvs))
    @ lit ''}},`Version`:'' @ dec_int (sint version) @ lit ''}'' = members_text (update_members kvs version) @ [RBRACE]"
proof -
  have "concat (map pair_text kvs) \<noteq> []" using assms by (cases kvs) (simp_all add: node_text_def lit_def)
  then have "take (length (h @ concat (map pair_text kvs)) - 1) (h @ concat (map pair_text kvs)) = h @ reported_text kvs" for h
    unfolding butlast_conv_take [symmetric] reported_text_def by (simp add: butlast_append del: concat_eq_Nil_conv)
  note e = this
  show ?thesis unfolding e by (simp add: update_members_def jmember_def member_text_def lit_def str_def)
qed

text \<open>
  C31. The document of an update is read back.  For at least one changed property, with keys and values that the reader can
  take apart, the functions that read received documents find in the document what was put into it: the method, the version
  number, and the object of the reported properties; and looking up the key of a property in that object gives the value
  printed for it, if no other key starts with it.
\<close>
theorem shadow_update_readback:
  assumes "list_all2 (printed_as fmt) (rev ps) kvs" and "kvs \<noteq> []" and "\<forall>kv \<in> set kvs. wf_pair kv"
    and "n = length (lit ''{`Method`:`update`,`State`:{`Reported`:{'' @ concat (map pair_text kvs))"
    and "2 * n < unat S" and "n + length (lit ''}},`Version`:'' @ dec_int (sint version) @ lit ''}'') < unat S"
    and "unat S \<le> length m" and "unat S < 2 ^ 31" and "\<forall>k. mal k"
    and "(k, v) \<in> set kvs" and "\<forall>(k', v') \<in> set kvs. prefix k k' \<longrightarrow> k' = k \<and> v' = v"
    and "content v \<noteq> []" and "DOT \<notin> set k"
  shows "\<exists>doc post. shadow_document fmt True m S UPDATE ps version = Some (SUCCESS_RET, doc @ 0 # post)
    \<and> parse_shadow_method_type mal (doc @ 0 # post) = Some (True, Some (str ''update''))
    \<and> parse_version_num mal (doc @ 0 # post) = Some (True, Some version)
    \<and> parse_shadow_state_reported_type mal (doc @ 0 # post) = Some (True, Some (LBRACE # reported_text kvs @ [RBRACE]))
    \<and> LITE_json_value_of mal ((LBRACE # reported_text kvs @ [RBRACE]) @ 0 # post) k 0 =
        Some (Some (content v), (LBRACE # reported_text kvs @ [RBRACE]) @ 0 # post)"
proof -
  let ?c = "concat (map pair_text kvs)" and ?h = "lit ''{`Method`:`update`,`State`:{`Reported`:{''" and ?ms = "update_members kvs version"
  let ?doc = "members_text ?ms @ [RBRACE]"
  have "length ?c < 2 ^ 31" using assms(4,5,8) by simp
  note pr = printed_nodes [OF assms(1,3) this]
  have hd: "shadow_json_head UPDATE (length ps) @ document_body fmt UPDATE ps = ?h @ ?c"
    using pr by (simp add: shadow_json_head_def document_body_def)
  have tl: "shadow_json_tail UPDATE (length ps) version = (1, lit ''}},`Version`:'' @ dec_int (sint version) @ lit ''}'')"
    by (simp add: shadow_json_tail_def)
  have pr': "\<forall>p \<in> set ps. printable fmt UPDATE p" using pr by simp
  have s31: "length (lit ''}},`Version`:'' @ dec_int (sint version) @ lit ''}'') < 2 ^ 31" using assms(6,8) by linarith
  from document_written [OF pr' assms(7) hd [symmetric] tl s31 assms(5,6) [unfolded assms(4)]] obtain post
    where d: "shadow_document fmt True m S UPDATE ps version = Some (SUCCESS_RET, ?doc @ 0 # post)"
    unfolding update_text [OF assms(2)] by auto
  note look = value_of_name [OF update_doc [OF assms(2,3)] _ assms(9), of _ version post]
  have "parse_shadow_method_type mal (?doc @ 0 # post) = Some (True, Some (str ''update''))"
    using look [of "lit ''Method''"]
    by (simp add: parse_shadow_method_type_def json_field_def plain_name_def lit_def update_members_def jmember_def matches_def str_def)
  moreover have "parse_version_num mal (?doc @ 0 # post) = Some (True, Some version)"
  proof -
    have "dec_int (sint version) \<noteq> []" using dec_nat_digits by (auto simp: dec_int_def)
    moreover have "\<bar>sint version\<bar> < 2 ^ 32" using sint_ge [of version] sint_lt [of version] by simp
    moreover have "sint version mod 2 ^ 32 = uint version" by (simp add: uint_sint take_bit_eq_mod)
    ultimately show ?thesis using look [of "lit ''Version''"]
      by (simp add: parse_version_num_def json_number_def plain_name_def lit_def update_members_def jmember_def matches_def str_def
          sscanf_u_dec)
  qed
  moreover have "parse_shadow_state_reported_type mal (?doc @ 0 # post) = Some (True, Some (LBRACE # reported_text kvs @ [RBRACE]))"
  proof -
    let ?st = "member_text (jmember [] ''Reported'' (J_Object (reported_text kvs)))"
    let ?m1 = "jmember [LBRACE] ''Method'' (J_String (str ''update''))" and ?m2 = "jmember [44] ''State'' (J_Object ?st)"
      and ?m3 = "jmember [44] ''Version'' (J_Number (dec_int (sint version)))"
    have "?ms = [?m1] @ ?m2 # [?m3]" by (simp add: update_members_def)
    from value_of_path [OF update_doc [OF assms(2,3), of version, unfolded this] _ _ _ state_doc [OF assms(2,3), of "[44]"] _ _ assms(9),
        of "str ''State''" ?st "str ''Reported''" post]
    show ?thesis
      by (simp add: parse_shadow_state_reported_type_def json_field_def plain_name_def lit_def update_members_def jmember_def matches_def str_def)
  qed
  moreover have "LITE_json_value_of mal ((LBRACE # reported_text kvs @ [RBRACE]) @ 0 # post) k 0 =
        Some (Some (content v), (LBRACE # reported_text kvs @ [RBRACE]) @ 0 # post)"
  proof -
    have "k \<noteq> []" using assms(3,10) by (auto simp: wf_pair_def)
    with assms(10,11,12)
    have f: "\<exists>x. find (matches k) (node_members g kvs) = Some x \<and> m_val x = v" for g
    proof (induction g kvs rule: node_members.induct)
      case (2 g k' v' kvs)
      show ?case
      proof (cases "prefix k k'")
        case True
        with 2(3) have "k' = k \<and> v' = v" by simp
        with 2(4,5) show ?thesis by (simp add: matches_def del: val_text.simps content.simps)
      next
        case False
        have "k \<noteq> k'" using False by blast
        with 2(2) have "(k, v) \<in> set kvs" by simp
        moreover have "\<forall>(k', v') \<in> set kvs. prefix k k' \<longrightarrow> k' = k \<and> v' = v" using 2(3) by simp
        ultimately have kv: "(k, v) \<in> set kvs" "\<forall>(k', v') \<in> set kvs. prefix k k' \<longrightarrow> k' = k \<and> v' = v" .
        have "\<not> matches k \<lparr> m_gap = [g], m_key = k', m_gap2 = [], m_gap3 = [], m_val = v' \<rparr>" using False by (simp add: matches_def)
        with 2(1) [OF kv 2(4,5)] show ?thesis by simp
      qed
    qed simp
    have "plain_name k" using assms(3,10,13) by (auto simp: plain_name_def wf_pair_def)
    from value_of_name [OF reported_doc [OF assms(2,3)] this assms(9), of post] f [of LBRACE] show ?thesis by auto
  qed
  ultimately show ?thesis using d by blast
qed

theorem shadow_update_readback_witness:
  "\<exists>doc post. shadow_document (\<lambda>d. []) True (replicate 200 0) 200 UPDATE demo_props 3 = Some (SUCCESS_RET, doc @ 0 # post)
    \<and> parse_version_num (\<lambda>n. True) (doc @ 0 # post) = Some (True, Some 3)"
proof -
  let ?kvs = "[(str ''level'', J_Number (str ''-7'')), (str ''name'', J_String (str ''lamp''))]"
  let ?n = "length (lit ''{`Method`:`update`,`State`:{`Reported`:{'' @ concat (map pair_text ?kvs))"
  have p: "list_all2 (printed_as (\<lambda>d. [])) (rev demo_props) ?kvs" by code_simp
  have w: "list_all wf_pair ?kvs" by code_simp
  have n: "?n = 65" "length (lit ''}},`Version`:'' @ dec_int (sint (3 :: u32)) @ lit ''}'') = 15" by code_simp+
  have "2 * ?n < unat (200 :: u32)" "?n + length (lit ''}},`Version`:'' @ dec_int (sint (3 :: u32)) @ lit ''}'') < unat (200 :: u32)"
    unfolding n by simp_all
  from shadow_update_readback [OF p _ _ refl this, of "replicate 200 0" "\<lambda>n. True" "str ''name''" "J_String (str ''lamp'')"] w
  show ?thesis by (auto simp: list_all_iff str_def)
qed

text \<open>
  Without changed properties the comma that the tail overwrites is not there: the document of an \<open>UPDATE\<close> lacks a brace.
\<close>

lemma shadow_update_no_property:
  "shadow_document (\<lambda>d. []) True (replicate 100 0) 100 UPDATE [] 0 =
    Some (SUCCESS_RET, lit ''{`Method`:`update`,`State`:{`Reported`:}},`Version`:0}'' @ replicate 46 0)"
  by code_simp

end
