(* ===== verification/Shadow_Client.thy ===== *)
theory Shadow_Client
  imports Mqtt_Client Shadow_Json
begin

text \<open>
  The device shadow client: \<^verbatim>\<open>shadow_client.c\<close>, \<^verbatim>\<open>shadow_client_common.c\<close> and \<^verbatim>\<open>shadow_client_manager.c\<close> on
  top of the MQTT client.  Its state is the struct \<open>UIoT_Shadow\<close> with the MQTT client it uses, the two file-scope variables,
  the number of times its mutexes are held, the trace of the calls into the application, and the next address of a list node.

  Properties are objects of the application; the lists hold their addresses and \<open>props\<close> is the memory they lie in.  The
  application is a parameter: what it does when it is told a new value of a property, and what \<open>printf\<close> and \<open>scanf\<close> make
  of floating-point numbers.  Within one lookup in a document the allocator gives the same answer for the same size.
  A \<open>Request\<close> also keeps the pointer to the list of properties, which is freed at the end of \<open>uiot_shadow_make_request\<close>
  and never read again.
\<close>

abbreviation (input) MAX_APPENDING_REQUEST_AT_ANY_GIVEN_TIME :: nat where "MAX_APPENDING_REQUEST_AT_ANY_GIVEN_TIME \<equiv> 10"
abbreviation (input) CLOUD_IOT_JSON_RX_BUF_LEN :: nat where "CLOUD_IOT_JSON_RX_BUF_LEN \<equiv> 2049"
abbreviation (input) ERR_MAX_APPENDING_REQUEST :: int where "ERR_MAX_APPENDING_REQUEST \<equiv> - 137"
abbreviation (input) ERR_SHADOW_PROPERTY_EXIST :: int where "ERR_SHADOW_PROPERTY_EXIST \<equiv> - 201"
abbreviation (input) ERR_SHADOW_NOT_PROPERTY_EXIST :: int where "ERR_SHADOW_NOT_PROPERTY_EXIST \<equiv> - 202"

section \<open>State\<close>

datatype RequestAck = ACK_NONE | ACK_TIMEOUT | ACK_REJECTED | ACK_ACCEPTED

record Request =
  rq_meth :: Method
  rq_user_context :: nat
  rq_timer :: Timer
  rq_callback :: "fptr option"

record RequestParams =
  rp_meth :: Method
  property_delta_list :: "addr list"
  timeout_sec :: u32
  request_callback :: "fptr option"
  rp_user_context :: nat

record PropertyHandler =
  ph_property :: addr
  ph_callback :: "fptr option"

datatype shadow_mutex = request_mutex | property_mutex

datatype shadow_call =
    Request_Ack fptr Method RequestAck bytes nat
  | Property_Set fptr cstr addr

record 'w shadow =
  mqtt :: "'w sys"
  sh_product_sn :: cstr
  sh_device_sn :: cstr
  version :: u32
  request_list :: "Request nodes"
  property_list :: "PropertyHandler nodes"
  props :: "addr \<Rightarrow> DeviceProperty"
  cloud_rcv_buf :: bytes
  cloud_send_method :: Method
  shadow_held :: "shadow_mutex \<Rightarrow> nat"
  shadow_calls :: "shadow_call list"
  shadow_next :: addr

text \<open>
  What the application does with a new value for a property: it may change the properties, and add properties to the
  reply it is passed.
\<close>

record shadow_app =
  print_float :: "json_data \<Rightarrow> cstr"
  scan_float :: "JsonDataType \<Rightarrow> cstr \<Rightarrow> json_data option"
  on_property :: "fptr \<Rightarrow> cstr \<Rightarrow> addr \<Rightarrow> (addr \<Rightarrow> DeviceProperty) \<Rightarrow> (addr \<Rightarrow> DeviceProperty) \<times> addr list"

definition shadow_lock :: "shadow_mutex \<Rightarrow> 'w shadow \<Rightarrow> 'w shadow" where
  "shadow_lock m s = s\<lparr>shadow_held := (shadow_held s)(m := shadow_held s m + 1)\<rparr>"

definition shadow_unlock :: "shadow_mutex \<Rightarrow> 'w shadow \<Rightarrow> 'w shadow option" where
  "shadow_unlock m s =
     (if shadow_held s m = 0 then None else Some (s\<lparr>shadow_held := (shadow_held s)(m := shadow_held s m - 1)\<rparr>))"

definition shadow_malloc :: "'w hal \<Rightarrow> nat \<Rightarrow> 'w shadow \<Rightarrow> bool \<times> 'w shadow" where
  "shadow_malloc hal n s = (let (b, q) = malloc hal n (mqtt s) in (b, s\<lparr>mqtt := q\<rparr>))"

definition json_mal :: "'w hal \<Rightarrow> 'w shadow \<Rightarrow> nat \<Rightarrow> bool" where
  "json_mal hal s n = fst (HAL_Malloc hal n (os (mqtt s)))"

text \<open>The address of a new node for one of the two lists.\<close>

definition fresh_node :: "'w shadow \<Rightarrow> addr \<times> 'w shadow" where
  "fresh_node s = (shadow_next s, s\<lparr>shadow_next := shadow_next s + 1\<rparr>)"

section \<open>Properties of the device\<close>

definition shadow_common_check_property_match :: "DeviceProperty \<Rightarrow> DeviceProperty \<Rightarrow> bool option" where
  "shadow_common_check_property_match pProperty in_handle = do {
     a \<leftarrow> prop_key in_handle;
     b \<leftarrow> prop_key pProperty;
     Some (a = b) }"

fun find_property_loop :: "(addr \<Rightarrow> DeviceProperty) \<Rightarrow> DeviceProperty \<Rightarrow> PropertyHandler nodes \<Rightarrow> (addr \<times> PropertyHandler) option option" where
  "find_property_loop ps p [] = Some None"
| "find_property_loop ps p ((a, h) # it) = do {
     m \<leftarrow> shadow_common_check_property_match p (ps (ph_property h));
     if m then Some (Some (a, h)) else find_property_loop ps p it }"

text \<open>\<open>list_find\<close> on the list of properties.\<close>

definition find_property :: "'w hal \<Rightarrow> DeviceProperty \<Rightarrow> 'w shadow \<Rightarrow> ((addr \<times> PropertyHandler) option \<times> 'w shadow) option" where
  "find_property hal pProperty s = do {
     let (granted, s) = shadow_malloc hal sizeof_ListIterator s;
     if \<not> granted then Some (None, s)
     else do { r \<leftarrow> find_property_loop (props s) pProperty (property_list s); Some (r, s) } }"

definition shadow_common_check_property_existence :: "'w hal \<Rightarrow> addr \<Rightarrow> 'w shadow \<Rightarrow> (bool \<times> 'w shadow) option" where
  "shadow_common_check_property_existence hal pProperty s = do {
     let s = shadow_lock property_mutex s;
     (node, s) \<leftarrow> find_property hal (props s pProperty) s;
     s \<leftarrow> shadow_unlock property_mutex s;
     Some (node \<noteq> None, s) }"

definition shadow_common_update_property :: "'w hal \<Rightarrow> addr \<Rightarrow> Method \<Rightarrow> 'w shadow \<Rightarrow> (int \<times> 'w shadow) option" where
  "shadow_common_update_property hal pProperty meth s = do {
     let s = shadow_lock property_mutex s;
     (node, s) \<leftarrow> find_property hal (props s pProperty) s;
     let (ret, s) =
       (case node of None \<Rightarrow> (ERR_SHADOW_NOT_PROPERTY_EXIST, s)
        | Some (_, h) \<Rightarrow>
            let q = ph_property h in
            if meth \<in> {UPDATE, REPLY_CONTROL_UPDATE, UPDATE_AND_RESET_VER}
            then (SUCCESS_RET, s\<lparr>props := (props s)(q := (props s q)\<lparr>prop_data := prop_data (props s pProperty)\<rparr>)\<rparr>)
            else if meth \<in> {DELETE, REPLY_CONTROL_DELETE}
            then (SUCCESS_RET, s\<lparr>props := (props s)(q := (props s q)\<lparr>prop_data := None\<rparr>)\<rparr>)
            else (ERR_PARAM_INVALID, s));
     s \<leftarrow> shadow_unlock property_mutex s;
     Some (ret, s) }"

definition shadow_common_remove_property :: "'w hal \<Rightarrow> addr \<Rightarrow> 'w shadow \<Rightarrow> (int \<times> 'w shadow) option" where
  "shadow_common_remove_property hal pProperty s = do {
     let s = shadow_lock property_mutex s;
     (node, s) \<leftarrow> find_property hal (props s pProperty) s;
     let (ret, s) =
       (case node of None \<Rightarrow> (ERR_SHADOW_NOT_PROPERTY_EXIST, s)
        | Some (a, _) \<Rightarrow> (SUCCESS_RET, s\<lparr>property_list := nodes_remove a (property_list s)\<rparr>));
     s \<leftarrow> shadow_unlock property_mutex s;
     Some (ret, s) }"

definition sizeof_PropertyHandler :: nat where "sizeof_PropertyHandler = 8"
definition sizeof_Request :: nat where "sizeof_Request = 20"
definition sizeof_RequestParams :: nat where "sizeof_RequestParams = 20"
definition sizeof_UIoT_Shadow :: nat where "sizeof_UIoT_Shadow = 32"

definition add_property_handle_to_list :: "'w hal \<Rightarrow> addr \<Rightarrow> fptr option \<Rightarrow> 'w shadow \<Rightarrow> int \<times> 'w shadow" where
  "add_property_handle_to_list hal pProperty callback s =
     (let (granted, s) = shadow_malloc hal sizeof_PropertyHandler s
      in if \<not> granted then (FAILURE_RET, s)
         else let (granted, s) = shadow_malloc hal sizeof_ListNode s
         in if \<not> granted then (FAILURE_RET, s)
            else let (a, s) = fresh_node s
            in (SUCCESS_RET, s\<lparr>property_list := property_list s @ [(a, \<lparr> ph_property = pProperty, ph_callback = callback \<rparr>)]\<rparr>))"

definition shadow_common_register_property_on_delta ::
  "'w hal \<Rightarrow> addr \<Rightarrow> fptr option \<Rightarrow> 'w shadow \<Rightarrow> (int \<times> 'w shadow) option" where
  "shadow_common_register_property_on_delta hal pProperty callback s =
     (if callback = None \<or> prop_key (props s pProperty) = None \<or> prop_data (props s pProperty) = None
      then Some (ERR_PARAM_INVALID, s)
      else do {
        let s = shadow_lock property_mutex s;
        let (ret, s) = add_property_handle_to_list hal pProperty callback s;
        s \<leftarrow> shadow_unlock property_mutex s;
        Some (ret, s) })"

section \<open>Requests\<close>

definition uiot_shadow_request_init ::
  "'w hal \<Rightarrow> Method \<Rightarrow> fptr option \<Rightarrow> u32 \<Rightarrow> nat \<Rightarrow> 'w shadow \<Rightarrow> RequestParams option \<times> 'w shadow" where
  "uiot_shadow_request_init hal meth callback timeout user_context s =
     (let (granted, s) = shadow_malloc hal sizeof_RequestParams s
      in if \<not> granted then (None, s)
         else let (granted, s) = shadow_malloc hal sizeof_List s
         in if \<not> granted then (None, s)
            else (Some \<lparr> rp_meth = meth, property_delta_list = [], timeout_sec = timeout,
                         request_callback = callback, rp_user_context = user_context \<rparr>, s))"

definition request_common_add_delta_property ::
  "'w hal \<Rightarrow> RequestParams option \<Rightarrow> addr option \<Rightarrow> 'w shadow \<Rightarrow> (int \<times> RequestParams option) \<times> 'w shadow" where
  "request_common_add_delta_property hal pParams pProperty s =
     (case (pParams, pProperty) of
        (Some r, Some p) \<Rightarrow>
          if prop_key (props s p) = None then ((ERR_PARAM_INVALID, pParams), s)
          else let (granted, s) = shadow_malloc hal sizeof_ListNode s
            in if \<not> granted then ((FAILURE_RET, pParams), s)
               else ((SUCCESS_RET, Some (r\<lparr>property_delta_list := property_delta_list r @ [p]\<rparr>)), s)
      | _ \<Rightarrow> ((ERR_PARAM_INVALID, pParams), s))"

definition IOT_Shadow_Request_Add_Delta_Property ::
  "'w hal \<Rightarrow> RequestParams option \<Rightarrow> addr option \<Rightarrow> 'w shadow \<Rightarrow> (int \<times> RequestParams option) \<times> 'w shadow" where
  "IOT_Shadow_Request_Add_Delta_Property hal pParams pProperty s =
     (case (pParams, pProperty) of
        (Some r, Some p) \<Rightarrow>
          if prop_key (props s p) = None then ((ERR_PARAM_INVALID, pParams), s)
          else request_common_add_delta_property hal pParams pProperty s
      | _ \<Rightarrow> ((ERR_PARAM_INVALID, pParams), s))"

definition shadow_add_request_to_list :: "'w hal \<Rightarrow> RequestParams \<Rightarrow> 'w shadow \<Rightarrow> (int \<times> 'w shadow) option" where
  "shadow_add_request_to_list hal pParams s = do {
     let s = shadow_lock request_mutex s;
     if length (request_list s) \<ge> MAX_APPENDING_REQUEST_AT_ANY_GIVEN_TIME then do {
       s \<leftarrow> shadow_unlock request_mutex s;
       Some (ERR_MAX_APPENDING_REQUEST, s) }
     else do {
       let (granted, s) = shadow_malloc hal sizeof_Request s;
       if \<not> granted then do { s \<leftarrow> shadow_unlock request_mutex s; Some (FAILURE_RET, s) }
       else do {
         let (t, q) = countdown hal (timeout_sec pParams) (mqtt s);
         let s = s\<lparr>mqtt := q\<rparr>;
         let request = \<lparr> rq_meth = rp_meth pParams, rq_user_context = rp_user_context pParams, rq_timer = t,
                         rq_callback = request_callback pParams \<rparr>;
         let (granted, s) = shadow_malloc hal sizeof_ListNode s;
         if \<not> granted then do { s \<leftarrow> shadow_unlock request_mutex s; Some (FAILURE_RET, s) }
         else do {
           let (a, s) = fresh_node s;
           let s = s\<lparr>request_list := request_list s @ [(a, request)]\<rparr>;
           s \<leftarrow> shadow_unlock request_mutex s;
           Some (SUCCESS_RET, s) } } } }"

definition shadow_topic :: "'w shadow \<Rightarrow> string \<Rightarrow> cstr \<times> int" where
  "shadow_topic s path =
     HAL_Snprintf MAX_SIZE_OF_CLOUD_TOPIC (str ''/$system/'' @ sh_product_sn s @ str ''/'' @ sh_device_sn s @ str path)"

definition uiot_shadow_publish_operation_to_cloud ::
  "'w hal \<Rightarrow> nat \<Rightarrow> Method \<Rightarrow> bytes \<Rightarrow> 'w shadow \<Rightarrow> (int \<times> 'w shadow) option" where
  "uiot_shadow_publish_operation_to_cloud hal fuel meth pJsonDoc s = do {
     let (topic, size) = shadow_topic s (if meth = GET then ''/shadow/get'' else ''/shadow/upstream'');
     if size < 0 \<or> size > int MAX_SIZE_OF_CLOUD_TOPIC - 1 then Some (FAILURE_RET, s)
     else do {
       let s = s\<lparr>cloud_send_method := meth\<rparr>;
       l \<leftarrow> strlen_at pJsonDoc 0;
       ((ret, _), q) \<leftarrow> IOT_MQTT_Publish hal fuel topic
         \<lparr> qos = QOS1, retained = 0, dup = 0, msg_ident = Some 0, topic = [], topic_len = 0,
           payload = Some (take l pJsonDoc), payload_len = of_nat l \<rparr> (mqtt s);
       let s = s\<lparr>mqtt := q\<rparr>;
       Some (if ret \<ge> 0 then SUCCESS_RET else FAILURE_RET, s) } }"

fun update_property_loop :: "'w hal \<Rightarrow> Method \<Rightarrow> addr list \<Rightarrow> 'w shadow \<Rightarrow> 'w shadow option" where
  "update_property_loop hal meth [] s = Some s"
| "update_property_loop hal meth (p # it) s = do {
     (_, s) \<leftarrow> shadow_common_update_property hal p meth s;
     update_property_loop hal meth it s }"

text \<open>The loop over the registered properties that empties them.\<close>

fun clear_properties :: "PropertyHandler nodes \<Rightarrow> 'w shadow \<Rightarrow> 'w shadow" where
  "clear_properties [] s = s"
| "clear_properties ((_, h) # it) s =
     clear_properties it (s\<lparr>props := (props s)(ph_property h := (props s (ph_property h))\<lparr>prop_data := None\<rparr>)\<rparr>)"

definition uiot_shadow_update_property :: "'w hal \<Rightarrow> RequestParams \<Rightarrow> 'w shadow \<Rightarrow> (int \<times> 'w shadow) option" where
  "uiot_shadow_update_property hal pParams s = do {
     (ret, s) \<leftarrow>
       (if property_delta_list pParams \<noteq> [] \<and> rp_meth pParams \<noteq> DELETE_ALL then do {
          let (granted, s) = shadow_malloc hal sizeof_ListIterator s;
          if \<not> granted then Some (ERR_PARAM_INVALID, s)
          else do {
            s \<leftarrow> update_property_loop hal (rp_meth pParams) (rev (property_delta_list pParams)) s;
            Some (SUCCESS_RET, s) } }
        else Some (SUCCESS_RET, s));
     if ret \<noteq> SUCCESS_RET then Some (ret, s)
     else if rp_meth pParams = DELETE_ALL then do {
       let s = shadow_lock property_mutex s;
       if property_list s \<noteq> [] then do {
         let (granted, s) = shadow_malloc hal sizeof_ListIterator s;
         if \<not> granted then Some (ERR_PARAM_INVALID, s)
         else do {
           s \<leftarrow> shadow_unlock property_mutex (clear_properties (rev (property_list s)) s);
           Some (SUCCESS_RET, s) } }
       else do { s \<leftarrow> shadow_unlock property_mutex s; Some (SUCCESS_RET, s) } }
     else Some (SUCCESS_RET, s) }"

text \<open>The iterator of \<open>shadow_json_set_content\<close> is allocated only where its loop is reached.\<close>

definition uiot_shadow_make_request ::
  "shadow_app \<Rightarrow> 'w hal \<Rightarrow> nat \<Rightarrow> bytes \<Rightarrow> size_t \<Rightarrow> RequestParams option \<Rightarrow> 'w shadow \<Rightarrow> (int \<times> 'w shadow) option" where
  "uiot_shadow_make_request app hal fuel pJsonDoc sizeOfBuffer pParams s =
     (case pParams of None \<Rightarrow> Some (ERR_PARAM_INVALID, s)
      | Some r \<Rightarrow> do {
          (_, s) \<leftarrow> shadow_add_request_to_list hal r s;
          let (iter_ok, s) =
            (if rp_meth r \<notin> {GET, DELETE_ALL} \<and> property_delta_list r \<noteq> [] then shadow_malloc hal sizeof_ListIterator s else (True, s));
          (ret, pJsonDoc) \<leftarrow> shadow_document (print_float app) iter_ok pJsonDoc sizeOfBuffer (rp_meth r)
            (map (props s) (property_delta_list r)) (version s);
          if ret \<noteq> SUCCESS_RET then Some (ret, s)
          else do {
            (ret, s) \<leftarrow> uiot_shadow_publish_operation_to_cloud hal fuel (rp_meth r) pJsonDoc s;
            if ret \<noteq> SUCCESS_RET then Some (ret, s)
            else uiot_shadow_update_property hal r s } })"

section \<open>Topics, construction\<close>

definition uiot_shadow_subscribe_topic :: "'w hal \<Rightarrow> nat \<Rightarrow> string \<Rightarrow> fptr \<Rightarrow> 'w shadow \<Rightarrow> (int \<times> 'w shadow) option" where
  "uiot_shadow_subscribe_topic hal fuel path on_message s = do {
     let (granted, s) = shadow_malloc hal MAX_SIZE_OF_CLOUD_TOPIC s;
     if \<not> granted then Some (FAILURE_RET, s)
     else do {
       (ret, q) \<leftarrow> IOT_MQTT_Subscribe hal fuel (fst (shadow_topic s path))
         \<lparr> sp_qos = QOS1, on_message_handler = Some on_message, user_data = 0 \<rparr> (mqtt s);
       Some (ret, s\<lparr>mqtt := q\<rparr>) } }"

definition uiot_shadow_unsubscribe_topic :: "'w hal \<Rightarrow> nat \<Rightarrow> QoS \<Rightarrow> string \<Rightarrow> 'w shadow \<Rightarrow> (int \<times> 'w shadow) option" where
  "uiot_shadow_unsubscribe_topic hal fuel junk path s = do {
     let (granted, s) = shadow_malloc hal MAX_SIZE_OF_CLOUD_TOPIC s;
     if \<not> granted then Some (FAILURE_RET, s)
     else do {
       (ret, q) \<leftarrow> IOT_MQTT_Unsubscribe hal fuel junk (fst (shadow_topic s path)) (mqtt s);
       Some (ret, s\<lparr>mqtt := q\<rparr>) } }"

text \<open>A new mutex is not locked, a new list is empty.\<close>

definition create_shadow_lock :: "'w hal \<Rightarrow> shadow_mutex \<Rightarrow> 'w shadow \<Rightarrow> bool \<times> 'w shadow" where
  "create_shadow_lock hal m s =
     (let (ok, w) = HAL_MutexCreate hal (os (mqtt s));
          s = s\<lparr>mqtt := (mqtt s)\<lparr>os := w\<rparr>\<rparr>
      in (ok, if ok then s\<lparr>shadow_held := (shadow_held s)(m := 0)\<rparr> else s))"

definition uiot_shadow_init :: "'w hal \<Rightarrow> 'w shadow \<Rightarrow> int \<times> 'w shadow" where
  "uiot_shadow_init hal s =
     (let s = s\<lparr>version := 0\<rparr>;
          (ok, s) = create_shadow_lock hal request_mutex s
      in if \<not> ok then (FAILURE_RET, s)
         else let (ok, s) = create_shadow_lock hal property_mutex s
         in if \<not> ok then (FAILURE_RET, s)
            else let (ok, s) = shadow_malloc hal sizeof_List s
            in if \<not> ok then (FAILURE_RET, s)
               else let s = s\<lparr>property_list := []\<rparr>; (ok, s) = shadow_malloc hal sizeof_List s
               in if \<not> ok then (FAILURE_RET, s) else (SUCCESS_RET, s\<lparr>request_list := []\<rparr>))"

text \<open>
  The message callbacks of the two subscriptions are the function pointers \<open>sync_fp\<close> and \<open>result_fp\<close>, under which
  their calls appear in the trace of the MQTT client.
\<close>

definition IOT_Shadow_Construct ::
  "'w hal \<Rightarrow> nat \<Rightarrow> fptr \<Rightarrow> fptr \<Rightarrow> cstr option \<Rightarrow> cstr option \<Rightarrow> 'w shadow \<Rightarrow> (bool \<times> 'w shadow) option" where
  "IOT_Shadow_Construct hal fuel sync_fp result_fp product device s =
     (case (product, device) of
        (Some p, Some d) \<Rightarrow> do {
          let (ok, s) = shadow_malloc hal sizeof_UIoT_Shadow s;
          if \<not> ok then Some (False, s)
          else do {
            let (ret, s) = uiot_shadow_init hal (s\<lparr>sh_product_sn := p, sh_device_sn := d, version := 0\<rparr>);
            if ret \<noteq> SUCCESS_RET then Some (False, s)
            else do {
              (ret, s) \<leftarrow> uiot_shadow_subscribe_topic hal fuel ''/shadow/get_reply'' sync_fp s;
              if ret < 0 then Some (False, s)
              else do {
                (ret, s) \<leftarrow> uiot_shadow_subscribe_topic hal fuel ''/shadow/downstream'' result_fp s;
                Some (\<not> ret < 0, s) } } } }
      | _ \<Rightarrow> Some (False, s))"

definition uiot_shadow_reset :: "bool \<Rightarrow> 'w hal \<Rightarrow> nat \<Rightarrow> QoS \<Rightarrow> 'w shadow \<Rightarrow> 'w shadow option" where
  "uiot_shadow_reset cr hal fuel junk s = do {
     let s = s\<lparr>property_list := []\<rparr>;
     (_, s) \<leftarrow> uiot_shadow_unsubscribe_topic hal fuel junk ''/shadow/downstream'' s;
     (_, s) \<leftarrow> uiot_shadow_unsubscribe_topic hal fuel junk ''/shadow/get_reply'' s;
     (_, q) \<leftarrow> IOT_MQTT_Yield cr hal fuel 200 (mqtt s);
     Some (s\<lparr>mqtt := q, request_list := []\<rparr>) }"

definition IOT_Shadow_Destroy :: "bool \<Rightarrow> 'w hal \<Rightarrow> nat \<Rightarrow> QoS \<Rightarrow> 'w shadow \<Rightarrow> (int \<times> 'w shadow) option" where
  "IOT_Shadow_Destroy cr hal fuel junk s = do { s \<leftarrow> uiot_shadow_reset cr hal fuel junk s; Some (SUCCESS_RET, s) }"

section \<open>Answers from the server\<close>

text \<open>The part of \<open>_handle_delta\<close> that looks for each registered property in the document.\<close>

fun add_deltas :: "'w hal \<Rightarrow> addr list \<Rightarrow> RequestParams option \<Rightarrow> 'w shadow \<Rightarrow> RequestParams option \<times> 'w shadow" where
  "add_deltas hal [] r s = (r, s)"
| "add_deltas hal (p # ps) r s =
     (let ((_, r), s) = IOT_Shadow_Request_Add_Delta_Property hal r (Some p) s in add_deltas hal ps r s)"

fun delta_loop ::
  "shadow_app \<Rightarrow> 'w hal \<Rightarrow> bytes \<Rightarrow> PropertyHandler nodes \<Rightarrow> RequestParams option \<Rightarrow> 'w shadow \<Rightarrow> (RequestParams option \<times> 'w shadow) option" where
  "delta_loop app hal delta_str [] r s = Some (r, s)"
| "delta_loop app hal delta_str ((_, h) # it) r s = do {
     property_value \<leftarrow> find_value_if_key_match (json_mal hal s) delta_str (props s (ph_property h));
     case (property_value, ph_callback h) of
       (Some v, Some f) \<Rightarrow>
         let (ps, added) = on_property app f v (ph_property h) (props s);
             s = s\<lparr>props := ps, shadow_calls := shadow_calls s @ [Property_Set f v (ph_property h)]\<rparr>;
             (r, s) = add_deltas hal added r s
         in delta_loop app hal delta_str it r s
     | _ \<Rightarrow> delta_loop app hal delta_str it r s }"

text \<open>
  The buffer of the reply is an array on the stack; its former contents do not matter.  When the iterator cannot be
  allocated the function returns with the mutex locked.
\<close>

definition handle_delta :: "shadow_app \<Rightarrow> 'w hal \<Rightarrow> nat \<Rightarrow> cstr \<Rightarrow> 'w shadow \<Rightarrow> 'w shadow option" where
  "handle_delta app hal fuel delta_str s = do {
     let (r, s) = uiot_shadow_request_init hal
       (if cloud_send_method s \<in> {UPDATE, GET, UPDATE_AND_RESET_VER, REPLY_CONTROL_UPDATE} then REPLY_CONTROL_UPDATE else REPLY_CONTROL_DELETE)
       None 1 0 s;
     let s = shadow_lock property_mutex s;
     (go_on, r, s) \<leftarrow>
       (if property_list s = [] then Some (True, r, s)
        else do {
          let (granted, s) = shadow_malloc hal sizeof_ListIterator s;
          if \<not> granted then Some (False, r, s)
          else do {
            (r, s) \<leftarrow> delta_loop app hal (delta_str @ [0]) (rev (property_list s)) r s;
            Some (True, r, s) } });
     if \<not> go_on then Some s
     else do {
       s \<leftarrow> shadow_unlock property_mutex s;
       (_, s) \<leftarrow> uiot_shadow_make_request app hal fuel (replicate CLOUD_IOT_JSON_RX_BUF_LEN 0) (of_nat CLOUD_IOT_JSON_RX_BUF_LEN) r s;
       Some s } }"

fun traverse_loop :: "(addr \<Rightarrow> Request \<Rightarrow> 'w shadow \<Rightarrow> 'w shadow option) \<Rightarrow> Request nodes \<Rightarrow> 'w shadow \<Rightarrow> 'w shadow option" where
  "traverse_loop handle [] s = Some s"
| "traverse_loop handle ((a, rq) # it) s = do { s \<leftarrow> handle a rq s; traverse_loop handle it s }"

definition traverse_list ::
  "'w hal \<Rightarrow> (addr \<Rightarrow> Request \<Rightarrow> 'w shadow \<Rightarrow> 'w shadow option) \<Rightarrow> 'w shadow \<Rightarrow> 'w shadow option" where
  "traverse_list hal handle s = do {
     let s = shadow_lock request_mutex s;
     if request_list s \<noteq> [] then do {
       let (granted, s) = shadow_malloc hal sizeof_ListIterator s;
       if \<not> granted then shadow_unlock request_mutex s
       else do {
         s \<leftarrow> traverse_loop handle (rev (request_list s)) s;
         shadow_unlock request_mutex s } }
     else shadow_unlock request_mutex s }"

definition request_ack :: "Request \<Rightarrow> RequestAck \<Rightarrow> 'w shadow \<Rightarrow> 'w shadow" where
  "request_ack rq status s =
     (case rq_callback rq of None \<Rightarrow> s
      | Some f \<Rightarrow> s\<lparr>shadow_calls := shadow_calls s @ [Request_Ack f (rq_meth rq) status (cloud_rcv_buf s) (rq_user_context rq)]\<rparr>)"

definition reply_status :: "'w hal \<Rightarrow> cstr \<Rightarrow> 'w shadow \<Rightarrow> RequestAck option" where
  "reply_status hal pType s =
     (if pType = str ''get_reply'' then Some ACK_ACCEPTED
      else if pType = str ''reply'' \<or> pType = str ''control'' then do {
        (parse_success, result_code) \<leftarrow> parse_shadow_payload_retcode_type (json_mal hal s) (cloud_rcv_buf s);
        Some (if parse_success \<and> result_code = Some 0 then ACK_ACCEPTED else ACK_REJECTED) }
      else Some ACK_NONE)"

definition handle_request_callback :: "'w hal \<Rightarrow> cstr \<Rightarrow> addr \<Rightarrow> Request \<Rightarrow> 'w shadow \<Rightarrow> 'w shadow option" where
  "handle_request_callback hal pType a request s = do {
     status \<leftarrow> reply_status hal pType s;
     let s = request_ack request status s;
     Some (s\<lparr>request_list := nodes_remove a (request_list s)\<rparr>) }"

definition handle_expired_request_callback :: "'w hal \<Rightarrow> addr \<Rightarrow> Request \<Rightarrow> 'w shadow \<Rightarrow> 'w shadow option" where
  "handle_expired_request_callback hal a request s =
     (let (expired, q) = has_expired hal (rq_timer request) (mqtt s);
          s = s\<lparr>mqtt := q\<rparr>
      in Some (if expired
               then let s = request_ack request ACK_TIMEOUT s in s\<lparr>request_list := nodes_remove a (request_list s)\<rparr>
               else s))"

definition handle_expired_request :: "'w hal \<Rightarrow> 'w shadow \<Rightarrow> 'w shadow option" where
  "handle_expired_request hal s = traverse_list hal (handle_expired_request_callback hal) s"

text \<open>
  The document of a message in \<open>cloud_rcv_buf\<close>; \<open>memcpy\<close> also copies the byte behind the payload, which is overwritten at
  once.
\<close>

definition store_document :: "MQTTMessage \<Rightarrow> 'w shadow \<Rightarrow> 'w shadow option" where
  "store_document message s = do {
     data \<leftarrow> payload message;
     let cloud_rcv_len = min (CLOUD_IOT_JSON_RX_BUF_LEN - 1) (unat (payload_len message));
     if cloud_rcv_len > length data \<or> cloud_rcv_len \<ge> length (cloud_rcv_buf s) then None
     else Some (s\<lparr>cloud_rcv_buf := take cloud_rcv_len data @ 0 # drop (cloud_rcv_len + 1) (cloud_rcv_buf s)\<rparr>) }"

definition topic_request_result_handler ::
  "shadow_app \<Rightarrow> 'w hal \<Rightarrow> nat \<Rightarrow> MQTTMessage \<Rightarrow> 'w shadow \<Rightarrow> 'w shadow option" where
  "topic_request_result_handler app hal fuel message s =
     (if topic_len message = 0 then Some s
      else if payload_len message > of_nat CLOUD_IOT_JSON_RX_BUF_LEN then Some s
      else do {
        s \<leftarrow> store_document message s;
        (found, method_str) \<leftarrow> parse_shadow_method_type (json_mal hal s) (cloud_rcv_buf s);
        case method_str of None \<Rightarrow> Some s
        | Some m \<Rightarrow> do {
            (ok, version_num) \<leftarrow> parse_version_num (json_mal hal s) (cloud_rcv_buf s);
            case version_num of None \<Rightarrow> Some s
            | Some v \<Rightarrow> do {
                let s = s\<lparr>version := v\<rparr>;
                if m = str ''reply'' then do {
                  (ok, ret_code) \<leftarrow> parse_shadow_payload_retcode_type (json_mal hal s) (cloud_rcv_buf s);
                  if \<not> ok \<or> ret_code \<noteq> Some 0 then Some s
                  else traverse_list hal (handle_request_callback hal m) s }
                else if m = str ''control'' then do {
                  (found, desired_str) \<leftarrow> parse_shadow_payload_state_desired_state (json_mal hal s) (cloud_rcv_buf s);
                  s \<leftarrow> (case desired_str of None \<Rightarrow> Some s
                        | Some d \<Rightarrow> if length d > 2 then handle_delta app hal fuel d s else Some s);
                  traverse_list hal (handle_request_callback hal m) s }
                else Some s } } })"

definition topic_sync_handler ::
  "shadow_app \<Rightarrow> 'w hal \<Rightarrow> nat \<Rightarrow> MQTTMessage \<Rightarrow> 'w shadow \<Rightarrow> 'w shadow option" where
  "topic_sync_handler app hal fuel message s =
     (if topic_len message = 0 then Some s
      else if payload_len message > of_nat CLOUD_IOT_JSON_RX_BUF_LEN then Some s
      else do {
        s \<leftarrow> store_document message s;
        (ok, version_num) \<leftarrow> parse_version_num (json_mal hal s) (cloud_rcv_buf s);
        case version_num of None \<Rightarrow> Some s
        | Some v \<Rightarrow> do {
            let s = s\<lparr>version := v\<rparr>;
            (found, desired_str) \<leftarrow> parse_shadow_state_desired_type (json_mal hal s) (cloud_rcv_buf s);
            s \<leftarrow> (case desired_str of None \<Rightarrow> Some s
                  | Some d \<Rightarrow> if length d > 2 then handle_delta app hal fuel d s else Some s);
            traverse_list hal (handle_request_callback hal (str ''get_reply'')) s } })"

section \<open>The interface\<close>

definition IOT_Shadow_Yield :: "bool \<Rightarrow> 'w hal \<Rightarrow> nat \<Rightarrow> u32 \<Rightarrow> 'w shadow \<Rightarrow> (int \<times> 'w shadow) option" where
  "IOT_Shadow_Yield cr hal fuel timeout_ms s =
     (if timeout_ms = 0 then Some (ERR_PARAM_INVALID, s)
      else do {
        s \<leftarrow> handle_expired_request hal s;
        (ret, q) \<leftarrow> IOT_MQTT_Yield cr hal fuel timeout_ms (mqtt s);
        Some (ret, s\<lparr>mqtt := q\<rparr>) })"

definition IOT_Shadow_Register_Property :: "'w hal \<Rightarrow> addr option \<Rightarrow> fptr option \<Rightarrow> 'w shadow \<Rightarrow> (int \<times> 'w shadow) option" where
  "IOT_Shadow_Register_Property hal pProperty callback s =
     (case pProperty of None \<Rightarrow> Some (ERR_PARAM_INVALID, s)
      | Some p \<Rightarrow> do {
          connected \<leftarrow> IOT_MQTT_IsConnected (Some (mqtt s));
          if \<not> connected then Some (ERR_MQTT_NO_CONN, s)
          else do {
            (exists, s) \<leftarrow> (if property_list s \<noteq> [] then shadow_common_check_property_existence hal p s else Some (False, s));
            if exists then Some (ERR_SHADOW_PROPERTY_EXIST, s)
            else shadow_common_register_property_on_delta hal p callback s } })"

definition IOT_Shadow_UnRegister_Property :: "'w hal \<Rightarrow> addr option \<Rightarrow> 'w shadow \<Rightarrow> (int \<times> 'w shadow) option" where
  "IOT_Shadow_UnRegister_Property hal pProperty s =
     (case pProperty of None \<Rightarrow> Some (ERR_PARAM_INVALID, s)
      | Some p \<Rightarrow> do {
          connected \<leftarrow> IOT_MQTT_IsConnected (Some (mqtt s));
          if \<not> connected then Some (ERR_MQTT_NO_CONN, s)
          else do {
            (exists, s) \<leftarrow> shadow_common_check_property_existence hal p s;
            if \<not> exists then Some (ERR_SHADOW_NOT_PROPERTY_EXIST, s)
            else shadow_common_remove_property hal p s } })"

text \<open>
  The loop over the variable arguments: a null pointer is skipped, a property that cannot be added ends the function.
\<close>

fun add_arguments :: "'w hal \<Rightarrow> addr option list \<Rightarrow> RequestParams option \<Rightarrow> 'w shadow \<Rightarrow> (bool \<times> RequestParams option) \<times> 'w shadow" where
  "add_arguments hal [] r s = ((True, r), s)"
| "add_arguments hal (None # as) r s = add_arguments hal as r s"
| "add_arguments hal (Some p # as) r s =
     (let ((ret, r), s) = IOT_Shadow_Request_Add_Delta_Property hal r (Some p) s
      in if ret \<noteq> SUCCESS_RET then ((False, r), s) else add_arguments hal as r s)"

text \<open>
  What the five request functions have in common, with the method and the arguments; the buffer is an array on the
  stack.
\<close>

definition shadow_request ::
  "shadow_app \<Rightarrow> 'w hal \<Rightarrow> nat \<Rightarrow> Method \<Rightarrow> fptr option \<Rightarrow> u32 \<Rightarrow> nat \<Rightarrow> addr option list \<Rightarrow> 'w shadow \<Rightarrow> (int \<times> 'w shadow) option" where
  "shadow_request app hal fuel meth callback timeout user_context args s =
     (if timeout = 0 then Some (ERR_PARAM_INVALID, s)
      else do {
        let (r, s) = uiot_shadow_request_init hal meth callback timeout user_context s;
        let ((added, r), s) = add_arguments hal args r s;
        if \<not> added then Some (FAILURE_RET, s)
        else do {
          connected \<leftarrow> IOT_MQTT_IsConnected (Some (mqtt s));
          if \<not> connected then Some (ERR_MQTT_NO_CONN, s)
          else uiot_shadow_make_request app hal fuel (replicate UIOT_MQTT_TX_BUF_LEN 0) (of_nat UIOT_MQTT_TX_BUF_LEN) r s } })"

definition IOT_Shadow_Get_Sync ::
  "shadow_app \<Rightarrow> 'w hal \<Rightarrow> nat \<Rightarrow> fptr option \<Rightarrow> u32 \<Rightarrow> nat \<Rightarrow> 'w shadow \<Rightarrow> (int \<times> 'w shadow) option" where
  "IOT_Shadow_Get_Sync app hal fuel callback timeout user_context s =
     shadow_request app hal fuel GET callback timeout user_context [] s"

definition IOT_Shadow_Update ::
  "shadow_app \<Rightarrow> 'w hal \<Rightarrow> nat \<Rightarrow> fptr option \<Rightarrow> u32 \<Rightarrow> nat \<Rightarrow> addr option list \<Rightarrow> 'w shadow \<Rightarrow> (int \<times> 'w shadow) option" where
  "IOT_Shadow_Update app hal fuel callback timeout user_context args s =
     shadow_request app hal fuel UPDATE callback timeout user_context args s"

definition IOT_Shadow_Update_And_Reset_Version ::
  "shadow_app \<Rightarrow> 'w hal \<Rightarrow> nat \<Rightarrow> fptr option \<Rightarrow> u32 \<Rightarrow> nat \<Rightarrow> addr option list \<Rightarrow> 'w shadow \<Rightarrow> (int \<times> 'w shadow) option" where
  "IOT_Shadow_Update_And_Reset_Version app hal fuel callback timeout user_context args s =
     shadow_request app hal fuel UPDATE_AND_RESET_VER callback timeout user_context args s"

definition IOT_Shadow_Delete ::
  "shadow_app \<Rightarrow> 'w hal \<Rightarrow> nat \<Rightarrow> fptr option \<Rightarrow> u32 \<Rightarrow> nat \<Rightarrow> addr option list \<Rightarrow> 'w shadow \<Rightarrow> (int \<times> 'w shadow) option" where
  "IOT_Shadow_Delete app hal fuel callback timeout user_context args s =
     shadow_request app hal fuel DELETE callback timeout user_context args s"

definition IOT_Shadow_Delete_All ::
  "shadow_app \<Rightarrow> 'w hal \<Rightarrow> nat \<Rightarrow> fptr option \<Rightarrow> u32 \<Rightarrow> nat \<Rightarrow> 'w shadow \<Rightarrow> (int \<times> 'w shadow) option" where
  "IOT_Shadow_Delete_All app hal fuel callback timeout user_context s =
     shadow_request app hal fuel DELETE_ALL callback timeout user_context [] s"

text \<open>\<open>*data\<close> is written at the type of the property.\<close>

definition stored :: "(int \<times> 'a option) \<Rightarrow> ('a \<Rightarrow> json_data) \<Rightarrow> DeviceProperty \<Rightarrow> int \<times> DeviceProperty" where
  "stored r C p = (fst r, case snd r of None \<Rightarrow> p | Some v \<Rightarrow> p\<lparr>prop_data := Some (C v)\<rparr>)"

definition IOT_Shadow_Direct_Update_Value :: "shadow_app \<Rightarrow> cstr \<Rightarrow> DeviceProperty \<Rightarrow> (int \<times> DeviceProperty) option" where
  "IOT_Shadow_Direct_Update_Value app v p =
     (if prop_type p \<in> {JSTRING, JOBJECT} then Some (SUCCESS_RET, p)
      else if prop_data p = None then None
      else case prop_type p of
        JBOOL \<Rightarrow> Some (let (ret, b) = LITE_get_boolean v in stored (ret, Some b) DBool p)
      | JINT32 \<Rightarrow> do { r \<leftarrow> LITE_get_int32 v; Some (stored r D32 p) }
      | JINT16 \<Rightarrow> do { r \<leftarrow> LITE_get_int16 v; Some (stored r D16 p) }
      | JINT8 \<Rightarrow> do { r \<leftarrow> LITE_get_int8 v; Some (stored r D8 p) }
      | JUINT32 \<Rightarrow> do { r \<leftarrow> LITE_get_uint32 v; Some (stored r D32 p) }
      | JUINT16 \<Rightarrow> do { r \<leftarrow> LITE_get_uint16 v; Some (stored r D16 p) }
      | JUINT8 \<Rightarrow> do { r \<leftarrow> LITE_get_uint8 v; Some (stored r D8 p) }
      | t \<Rightarrow> Some (case scan_float app t v of None \<Rightarrow> (FAILURE_RET, p) | Some d \<Rightarrow> (SUCCESS_RET, p\<lparr>prop_data := Some d\<rparr>)))"

end
