(* ===== verification/Mqtt_Api.thy ===== *)
theory Mqtt_Api
  imports Mqtt_Client
begin

text \<open>
  The MQTT client as its users see it: the shadow client and the device model rest on what its calls keep.  The second part is a
  platform on which every call succeeds, for examples.
\<close>

section \<open>What the calls keep\<close>

definition mqtt_ok :: "'w sys \<Rightarrow> bool" where
  "mqtt_ok q \<longleftrightarrow> client_inv q \<and> session_ok q \<and> held q = (\<lambda>_. 0)"

text \<open>The allocator never refuses.\<close>

definition granting :: "'w hal \<Rightarrow> bool" where
  "granting hal \<longleftrightarrow> (\<forall>n w. fst (HAL_Malloc hal n w))"

lemma mqtt_ok_frame [simp]: "mqtt_ok (q\<lparr>os := w\<rparr>) = mqtt_ok q"
  by (simp add: mqtt_ok_def)

text \<open>The calls of the MQTT client.\<close>

lemma mqtt_calls_ok:
  "IOT_MQTT_Publish hal fuel t p q = Some ((r, p'), q') \<Longrightarrow> mqtt_ok q \<Longrightarrow> mqtt_ok q'"
  "IOT_MQTT_Subscribe hal fuel f sp q = Some (r, q') \<Longrightarrow> mqtt_ok q \<Longrightarrow> mqtt_ok q'"
  "IOT_MQTT_Unsubscribe hal fuel j f q = Some (r, q') \<Longrightarrow> mqtt_ok q \<Longrightarrow> mqtt_ok q'"
  "IOT_MQTT_Yield cr hal fuel ms q = Some (r, q') \<Longrightarrow> mqtt_ok q \<Longrightarrow> mqtt_ok q'"
  using api_step_keeps [of undefined hal fuel "Api_Publish t p" q r q'] api_step_keeps [of undefined hal fuel "Api_Subscribe f sp" q r q']
    api_step_keeps [of undefined hal fuel "Api_Unsubscribe j f" q r q'] api_step_keeps [of cr hal fuel "Api_Yield ms" q r q']
  by (auto simp: mqtt_ok_def)

section \<open>A platform on which everything succeeds\<close>

text \<open>The clock stands still, writes are complete, and the network delivers the bytes of the world.\<close>

definition smooth_hal :: "bytes hal" where
  "smooth_hal = \<lparr> rt_tick_get = (\<lambda>w. (0, w)), rt_tick_from_millisecond = (\<lambda>ms. ms),
     net_read = (\<lambda>n t w. ((int (length (take (unat n) w)), take (unat n) w), drop (unat n) w)),
     net_write = (\<lambda>d t w. (int (length d), w)), net_connect = (\<lambda>w. (0, w)), net_disconnect = (\<lambda>w. w),
     HAL_Malloc = (\<lambda>n w. (True, w)), HAL_SleepMs = (\<lambda>ms w. w), HAL_MutexCreate = (\<lambda>w. (True, w)) \<rparr>"

lemma smooth_simps [simp]:
  "malloc smooth_hal n s = (True, s)" "has_expired smooth_hal t s = (False, s)" "fst (left_ms smooth_hal t s) = sint (end_time t)"
  "snd (left_ms smooth_hal t s) = s"
  "countdown_ms smooth_hal ms s = (\<lparr> end_time = ms \<rparr>, s)" "net_write smooth_hal d ms w = (int (length d), w)"
  by (simp_all add: smooth_hal_def malloc_def has_expired_def left_ms_def countdown_ms_def timer_defs Let_def)

lemma smooth_send:
  assumes "0 < l" and "l < write_buf_size s" and "2 * unat l \<le> length (write_buf s)"
  shows "send_mqtt_packet smooth_hal (Suc (Suc n)) l timer s = Some (SUCCESS_RET, s)"
proof -
  obtain x where x: "left_ms smooth_hal timer s = (x, s)" by (metis smooth_simps(4) prod.collapse)
  have "of_int (int (unat l)) = l" by simp
  moreover have "length (slice (write_buf s) (unat 0) (unat l)) = unat l" using assms(3) by simp
  ultimately have "send_loop smooth_hal (Suc (Suc n)) l timer 0 s = Some (l, s)"
    using assms(1,3) by (simp add: x)
  then show ?thesis using assms(2) by (simp add: send_mqtt_packet_def)
qed

lemma smooth_subscribe:
  assumes "client_inv s" and "is_connected s \<noteq> 0" and "f \<noteq> []" and "length f \<le> MAX_SIZE_OF_CLOUD_TOPIC"
    and "sp_qos p = QOS1" and "length (list_sub_wait_ack s) < MAX_SUB_TOPICS"
  shows "\<exists>s'. uiot_mqtt_subscribe smooth_hal (Suc (Suc n)) f p s = Some (uint (next_id (next_packet_id s)), s')
    \<and> is_connected s' = is_connected s \<and> length (list_sub_wait_ack s') = Suc (length (list_sub_wait_ack s))"
proof -
  define i where "i = next_id (next_packet_id s)"
  define pkt where "pkt = mqtt_packet (header_byte SUBSCRIBE QOS1 0 0) (subscribe_body i f QOS1)"
  let ?s1 = "(HAL_MutexLock lock_write_buf s)\<lparr>next_packet_id := i\<rparr>" and ?b = "pkt @ drop (length pkt) (write_buf s)"
  note sz = client_inv_sizes [OF assms(1)]
  have "length (subscribe_body i f QOS1) + 6 \<le> 1024" using assms(4) by (simp add: subscribe_body_def)
  note pl = packet_le_1024 [OF this]
  have lp: "length pkt \<le> 1024" "0 < length pkt" using pl(1) by (simp_all add: pkt_def mqtt_packet_def)
  have ser: "serialize_subscribe_packet (write_buf s) (write_buf_size s) 0 i 1 f [QOS1] = Some (Inr (?b, of_nat (length pkt)))"
    using subscribe_ser.exact [of "(0, i, f, QOS1)" "write_buf_size s" "write_buf s"] sz pl(2) assms(4)
    by (simp add: pkt_def)
  have l: "0 < (of_nat (length pkt) :: u32)" "(of_nat (length pkt) :: u32) < 2048" "sint (of_nat (length pkt) :: u32) = int (length pkt)"
    "unat (of_nat (length pkt) :: u32) = length pkt"
    using lp by (simp_all add: word_less_nat_alt sint_of_nat_small)
  show ?thesis
    using assms(2-6) ser strlen_le_iff [OF assms(4)] l lp sz
    by (auto simp: uiot_mqtt_subscribe_def get_client_conn_state_def push_and_send_sub_def push_sub_info_to_def HAL_MutexLock_def HAL_MutexUnlock_def
        Let_def i_def [symmetric] smooth_send)
qed

definition smooth_start :: "bytes sys" where
  "smooth_start = \<lparr> is_connected = 0, was_manually_disconnected = 0, is_ping_outstanding = 0, next_packet_id = 1,
     command_timeout_ms = 500, current_reconnect_wait_interval = 0, counter_network_disconnected = 0,
     write_buf_size = 2048, read_buf_size = 2048, write_buf = replicate 2048 0, read_buf = replicate 2048 0,
     list_pub_wait_ack = [], list_sub_wait_ack = [], event_handler = Some 1,
     options = \<lparr> client_id = None, username = None, password = None, mqtt_version = 0, keep_alive_interval = 0,
       clean_session = 0, auto_connect_enable = 0 \<rparr>,
     ping_timer = init_timer, reconnect_delay_timer = init_timer, sub_handles = replicate 10 empty_handle,
     sg_repeat_packet_id_buf = replicate 50 0, current_packet_id_cnt = 0, os = [0x20, 2, 0, 0], held = (\<lambda>_. 0), calls = [],
     next_node = 0 \<rparr>"

lemma smooth_construct:
  obtains ip q where "IOT_MQTT_Construct False smooth_hal 10 demo_init smooth_start = Some ((True, ip), q)" "list_sub_wait_ack q = []"
proof -
  have k: "(65537 :: u16) = 1" by code_simp
  have m [simp]: "HAL_MutexCreate smooth_hal w = (True, w)" for w by (simp add: smooth_hal_def)
  have r: "init_resources smooth_hal ((zero_client smooth_start)\<lparr>command_timeout_ms := 500, next_packet_id := 1,
     write_buf_size := 2048, read_buf_size := 2048, event_handler := Some 1\<rparr>) = Some (SUCCESS_RET, smooth_start)"
    by (simp add: init_resources_def create_lock_def zero_client_def smooth_start_def init_timer_def HAL_Timer_Init_def fun_eq_iff)
  have i: "uiot_mqtt_init smooth_hal demo_init smooth_start = Some ((SUCCESS_RET, demo_init\<lparr>command_timeout := 500\<rparr>), smooth_start)"
    using r by (simp add: uiot_mqtt_init_def HAL_Snprintf_def UIOT_MQTT_DIRECT_DOMAIN_def str_def demo_init_sel Let_def)
  have "IOT_MQTT_Construct False smooth_hal 10 demo_init smooth_start =
    map_option (\<lambda>(ret, s). ((ret = SUCCESS_RET, demo_init\<lparr>command_timeout := 500\<rparr>), s)) (uiot_mqtt_connect False smooth_hal 10 demo_params smooth_start)"
    by (simp add: k IOT_MQTT_Construct_def i auth_password_def demo_init_sel HAL_Snprintf_def str_def demo_params_def
        auth_digit_def DEFAULT_MQTT_CONNECT_PARAMS_def Let_def map_option_case split: option.splits)
  moreover have "map_option (\<lambda>(r, s). (r, list_sub_wait_ack s)) (uiot_mqtt_connect False smooth_hal 10 demo_params smooth_start) = Some (SUCCESS_RET, [])"
    by code_simp
  ultimately show ?thesis using that by auto
qed

end
