(* ===== verification/Shadow_State.thy ===== *)
theory Shadow_State
  imports Shadow_Client Mqtt_Api
begin

text \<open>
  The device shadow client as a transition system: what every operation keeps of its state, and the states it can get into.
  The message handlers run while \<open>IOT_MQTT_Yield\<close> delivers a message; in the MQTT model their calls are in the trace
  (\<open>Message sync_fp \<dots>\<close>), so here they are steps of their own, which may happen at any time.
\<close>

section \<open>The invariant\<close>

definition shadow_inv :: "'w shadow \<Rightarrow> bool" where
  "shadow_inv s \<longleftrightarrow> mqtt_ok (mqtt s) \<and> length (request_list s) \<le> MAX_APPENDING_REQUEST_AT_ANY_GIVEN_TIME
     \<and> nodes_ok (shadow_next s) (request_list s) \<and> nodes_ok (shadow_next s) (property_list s)
     \<and> length (cloud_rcv_buf s) = CLOUD_IOT_JSON_RX_BUF_LEN"

text \<open>
  What an operation keeps: the invariant, and its own mutexes; the operations that call \<open>list_iterator_new\<close> with
  the property mutex locked only if every allocation is granted.
\<close>

definition sh_same :: "'w shadow \<Rightarrow> 'w shadow \<Rightarrow> bool" where
  "sh_same s s' \<longleftrightarrow> (shadow_inv s \<longrightarrow> shadow_inv s') \<and> shadow_held s' = shadow_held s"

definition sh_keeps :: "'w hal \<Rightarrow> 'w shadow \<Rightarrow> 'w shadow \<Rightarrow> bool" where
  "sh_keeps hal s s' \<longleftrightarrow> (shadow_inv s \<longrightarrow> shadow_inv s') \<and> shadow_held s' request_mutex = shadow_held s request_mutex
     \<and> (granting hal \<longrightarrow> shadow_held s' = shadow_held s)"

named_theorems shadow_dest \<open>operations keep the invariant and the mutexes\<close>

lemma sh_same_keeps: "sh_same s s' \<Longrightarrow> sh_keeps hal s s'"
  by (simp add: sh_same_def sh_keeps_def)

lemma shadow_inv_upd [simp]:
  "shadow_inv (s\<lparr>version := v\<rparr>) = shadow_inv s" "shadow_inv (s\<lparr>props := p\<rparr>) = shadow_inv s"
  "shadow_inv (s\<lparr>cloud_send_method := m\<rparr>) = shadow_inv s" "shadow_inv (s\<lparr>shadow_calls := c\<rparr>) = shadow_inv s"
  "shadow_inv (s\<lparr>shadow_held := h\<rparr>) = shadow_inv s" "shadow_inv (s\<lparr>sh_product_sn := d\<rparr>) = shadow_inv s"
  "shadow_inv (s\<lparr>sh_device_sn := d\<rparr>) = shadow_inv s"
  by (simp_all add: shadow_inv_def)

lemma shadow_inv_mqtt [simp]: "shadow_inv s \<Longrightarrow> mqtt_ok q \<Longrightarrow> shadow_inv (s\<lparr>mqtt := q\<rparr>)"
  by (simp add: shadow_inv_def)

lemma shadow_inv_mqtt_ok: "shadow_inv s \<Longrightarrow> mqtt_ok (mqtt s)"
  by (simp add: shadow_inv_def)

lemma nodes_ok_remove: "nodes_ok n xs \<Longrightarrow> nodes_ok n (nodes_remove a xs)"
  by (auto simp: nodes_ok_def nodes_remove_def distinct_map_filter)

lemma length_nodes_remove: "length (nodes_remove a xs) \<le> length xs"
  by (simp add: nodes_remove_def)

lemma shadow_inv_remove:
  "shadow_inv s \<Longrightarrow> shadow_inv (s\<lparr>request_list := nodes_remove a (request_list s)\<rparr>)"
  "shadow_inv s \<Longrightarrow> shadow_inv (s\<lparr>property_list := nodes_remove a (property_list s)\<rparr>)"
  using length_nodes_remove [of a "request_list s"] by (auto simp: shadow_inv_def nodes_ok_remove)

lemma shadow_inv_os [simp]: "mqtt s = q \<Longrightarrow> shadow_inv (s\<lparr>mqtt := q\<lparr>os := w\<rparr>\<rparr>) = shadow_inv s"
  by (auto simp: shadow_inv_def)

lemma mqtt_calls_dest [shadow_dest]:
  "IOT_MQTT_Publish hal fuel t p (mqtt s) = Some ((r, p'), q') \<Longrightarrow> shadow_inv s \<longrightarrow> mqtt_ok q'"
  "IOT_MQTT_Subscribe hal fuel f sp (mqtt s) = Some (r, q') \<Longrightarrow> shadow_inv s \<longrightarrow> mqtt_ok q'"
  "IOT_MQTT_Unsubscribe hal fuel j f (mqtt s) = Some (r, q') \<Longrightarrow> shadow_inv s \<longrightarrow> mqtt_ok q'"
  "IOT_MQTT_Yield cr hal fuel ms (mqtt s) = Some (r, q') \<Longrightarrow> shadow_inv s \<longrightarrow> mqtt_ok q'"
  by (blast intro: mqtt_calls_ok shadow_inv_mqtt_ok)+

lemma os_changes [shadow_dest]:
  "shadow_malloc hal n s = (b, s') \<Longrightarrow> \<exists>w. s' = s\<lparr>mqtt := (mqtt s)\<lparr>os := w\<rparr>\<rparr> \<and> (granting hal \<longrightarrow> b)"
  "countdown hal t q = (tm, q') \<Longrightarrow> \<exists>w. q' = q\<lparr>os := w\<rparr>"
  "has_expired hal tm q = (b, q') \<Longrightarrow> \<exists>w. q' = q\<lparr>os := w\<rparr>"
  by (auto simp: shadow_malloc_def malloc_def countdown_def has_expired_def granting_def Let_def split: prod.splits) (metis fst_conv)

lemma shadow_lock_simps [simp]:
  "shadow_inv (shadow_lock m s) = shadow_inv s" "shadow_held (shadow_lock m s) = (shadow_held s)(m := Suc (shadow_held s m))"
  "request_list (shadow_lock m s) = request_list s" "property_list (shadow_lock m s) = property_list s"
  "props (shadow_lock m s) = props s" "mqtt (shadow_lock m s) = mqtt s" "shadow_next (shadow_lock m s) = shadow_next s"
  "shadow_calls (shadow_lock m s) = shadow_calls s" "cloud_rcv_buf (shadow_lock m s) = cloud_rcv_buf s"
  by (simp_all add: shadow_lock_def)

lemma shadow_unlock_iff:
  "shadow_unlock m s = Some s' \<longleftrightarrow> shadow_held s m \<noteq> 0 \<and> s' = s\<lparr>shadow_held := (shadow_held s)(m := shadow_held s m - 1)\<rparr>"
  by (auto simp: shadow_unlock_def)

lemmas shadow_step_simps = shadow_unlock_iff Let_def sh_same_def sh_keeps_def shadow_inv_remove

lemma find_property_same [shadow_dest]: "find_property hal p s = Some (r, s') \<Longrightarrow> sh_same s s'"
  by (auto simp: find_property_def shadow_step_simps split: prod.splits if_splits elim!: bind_SomeE dest!: shadow_dest)

lemma property_same [shadow_dest]:
  "shadow_common_check_property_existence hal p s = Some (b, s') \<Longrightarrow> sh_same s s'"
  "shadow_common_update_property hal p m s = Some (r, s') \<Longrightarrow> sh_same s s'"
  "shadow_common_remove_property hal p s = Some (r, s') \<Longrightarrow> sh_same s s'"
  by (auto simp: shadow_common_check_property_existence_def shadow_common_update_property_def shadow_common_remove_property_def
      shadow_step_simps split: prod.splits if_splits option.splits elim!: bind_SomeE dest!: shadow_dest)

lemma add_handle_same [shadow_dest]: "add_property_handle_to_list hal p c s = (r, s') \<Longrightarrow> sh_same s s'"
  by (auto simp: add_property_handle_to_list_def fresh_node_def shadow_step_simps shadow_inv_def nodes_ok_append nodes_ok_Suc
      split: prod.splits if_splits dest!: shadow_dest)

lemma register_same [shadow_dest]: "shadow_common_register_property_on_delta hal p c s = Some (r, s') \<Longrightarrow> sh_same s s'"
  by (auto simp: shadow_common_register_property_on_delta_def shadow_step_simps split: prod.splits if_splits
      elim!: bind_SomeE dest!: shadow_dest)

lemma request_init_same [shadow_dest]: "uiot_shadow_request_init hal m c t u s = (r, s') \<Longrightarrow> sh_same s s'"
  by (auto simp: uiot_shadow_request_init_def shadow_step_simps split: prod.splits if_splits dest!: shadow_dest)

lemma add_delta_same [shadow_dest]:
  "request_common_add_delta_property hal r p s = ((x, r'), s') \<Longrightarrow> sh_same s s'"
  "IOT_Shadow_Request_Add_Delta_Property hal r p s = ((x, r'), s') \<Longrightarrow> sh_same s s'"
proof -
  show "request_common_add_delta_property hal r p s = ((x, r'), s') \<Longrightarrow> sh_same s s'" for x r'
    by (auto simp: request_common_add_delta_property_def shadow_step_simps split: option.splits prod.splits if_splits dest!: shadow_dest)
  then show "IOT_Shadow_Request_Add_Delta_Property hal r p s = ((x, r'), s') \<Longrightarrow> sh_same s s'"
    by (auto simp: IOT_Shadow_Request_Add_Delta_Property_def sh_same_def split: option.splits if_splits)
qed

lemma add_deltas_same [shadow_dest]: "add_deltas hal ps r s = (r', s') \<Longrightarrow> sh_same s s'"
proof (induction ps arbitrary: r s)
  case (Cons p ps)
  then show ?case by (fastforce simp: shadow_step_simps split: prod.splits dest!: add_delta_same)
qed (simp add: sh_same_def)

lemma add_arguments_same [shadow_dest]: "add_arguments hal as r s = (r', s') \<Longrightarrow> sh_same s s'"
proof (induction as arbitrary: r s)
  case (Cons p as)
  then show ?case by (cases p) (fastforce simp: shadow_step_simps split: prod.splits if_splits dest!: add_delta_same)+
qed (simp add: sh_same_def)

lemma add_request_same [shadow_dest]: "shadow_add_request_to_list hal r s = Some (x, s') \<Longrightarrow> sh_same s s'"
  by (auto simp: shadow_add_request_to_list_def fresh_node_def shadow_step_simps
      split: prod.splits if_splits elim!: bind_SomeE dest!: shadow_dest)
    (auto simp: shadow_inv_def nodes_ok_append nodes_ok_Suc)

lemma publish_operation_same [shadow_dest]:
  "uiot_shadow_publish_operation_to_cloud hal fuel m doc s = Some (r, s') \<Longrightarrow> sh_same s s'"
  by (auto simp: uiot_shadow_publish_operation_to_cloud_def shadow_step_simps split: prod.splits if_splits elim!: bind_SomeE
      dest!: shadow_dest)

lemma update_property_loop_same [shadow_dest]: "update_property_loop hal m it s = Some s' \<Longrightarrow> sh_same s s'"
proof (induction it arbitrary: s)
  case (Cons p it)
  then show ?case by (fastforce simp: shadow_step_simps elim!: bind_SomeE dest!: property_same)
qed (simp add: sh_same_def)

lemma clear_properties_simps [simp]:
  "shadow_inv (clear_properties it s) = shadow_inv s" "shadow_held (clear_properties it s) = shadow_held s"
  by (induction it s rule: clear_properties.induct) simp_all

lemma update_property_keeps [shadow_dest]: "uiot_shadow_update_property hal r s = Some (x, s') \<Longrightarrow> sh_keeps hal s s'"
  by (auto simp: uiot_shadow_update_property_def shadow_step_simps split: prod.splits if_splits elim!: bind_SomeE dest!: shadow_dest)

lemma make_request_keeps [shadow_dest]: "uiot_shadow_make_request app hal fuel m n r s = Some (x, s') \<Longrightarrow> sh_keeps hal s s'"
  by (auto simp: uiot_shadow_make_request_def shadow_step_simps split: prod.splits if_splits option.splits elim!: bind_SomeE dest!: shadow_dest)

lemma delta_loop_same [shadow_dest]: "delta_loop app hal d it r s = Some (r', s') \<Longrightarrow> sh_same s s'"
proof (induction it arbitrary: r s)
  case (Cons x it)
  then show ?case
    by (cases x) (fastforce simp: shadow_step_simps split: prod.splits option.splits elim!: bind_SomeE dest!: add_deltas_same)
qed (simp add: sh_same_def)

lemma handle_delta_keeps [shadow_dest]: "handle_delta app hal fuel d s = Some s' \<Longrightarrow> sh_keeps hal s s'"
  by (auto simp: handle_delta_def shadow_step_simps split: prod.splits if_splits elim!: bind_SomeE dest!: shadow_dest)

lemma traverse_loop_same:
  assumes "\<And>a rq s s'. handle a rq s = Some s' \<Longrightarrow> sh_same s s'"
  shows "traverse_loop handle it s = Some s' \<Longrightarrow> sh_same s s'"
proof (induction it arbitrary: s)
  case (Cons x it)
  then show ?case by (cases x) (auto simp: shadow_step_simps elim!: bind_SomeE dest!: assms)
qed (simp add: sh_same_def)

lemma traverse_list_same:
  assumes "\<And>a rq s s'. handle a rq s = Some s' \<Longrightarrow> sh_same s s'" and "traverse_list hal handle s = Some s'"
  shows "sh_same s s'"
proof -
  have l: "\<And>it s s'. traverse_loop handle it s = Some s' \<Longrightarrow> sh_same s s'" using traverse_loop_same [of handle] assms(1) by blast
  show ?thesis using assms(2)
    by (auto simp: traverse_list_def shadow_step_simps split: prod.splits if_splits elim!: bind_SomeE dest!: shadow_dest l)
qed

lemma request_ack_simps [simp]:
  "shadow_inv (request_ack rq a s) = shadow_inv s" "shadow_held (request_ack rq a s) = shadow_held s"
  "request_list (request_ack rq a s) = request_list s" "cloud_rcv_buf (request_ack rq a s) = cloud_rcv_buf s"
  "mqtt (request_ack rq a s) = mqtt s"
  by (simp_all add: request_ack_def split: option.splits)

lemma request_ack_remove:
  "shadow_inv s \<Longrightarrow> request_list s = xs \<Longrightarrow> shadow_inv (request_ack rq a s\<lparr>request_list := nodes_remove b xs\<rparr>)"
  using shadow_inv_remove(1) [of "request_ack rq a s" b] by simp

lemma handlers_same:
  "handle_request_callback hal t a rq s = Some s' \<Longrightarrow> sh_same s s'"
  "handle_expired_request_callback hal a rq s = Some s' \<Longrightarrow> sh_same s s'"
  by (auto simp: handle_request_callback_def handle_expired_request_callback_def shadow_step_simps request_ack_remove
      split: prod.splits if_splits elim!: bind_SomeE dest!: shadow_dest)

lemma traversals_same [shadow_dest]:
  "traverse_list hal (handle_request_callback hal t) s = Some s' \<Longrightarrow> sh_same s s'"
  "traverse_list hal (handle_expired_request_callback hal) s = Some s' \<Longrightarrow> sh_same s s'"
  by (rule traverse_list_same [rotated], assumption, erule handlers_same)+

lemma store_document_same [shadow_dest]: "store_document m s = Some s' \<Longrightarrow> sh_same s s'"
  by (auto simp: store_document_def shadow_step_simps shadow_inv_def split: if_splits elim!: bind_SomeE)

lemma handlers_keep [shadow_dest]:
  "topic_request_result_handler app hal fuel m s = Some s' \<Longrightarrow> sh_keeps hal s s'"
  "topic_sync_handler app hal fuel m s = Some s' \<Longrightarrow> sh_keeps hal s s'"
  by (auto simp: topic_request_result_handler_def topic_sync_handler_def shadow_step_simps
      split: prod.splits if_splits option.splits elim!: bind_SomeE dest!: shadow_dest)

lemma interface_keeps [shadow_dest]:
  "IOT_Shadow_Yield cr hal fuel ms s = Some (r, s') \<Longrightarrow> sh_same s s'"
  "IOT_Shadow_Register_Property hal p c s = Some (r, s') \<Longrightarrow> sh_same s s'"
  "IOT_Shadow_UnRegister_Property hal p s = Some (r, s') \<Longrightarrow> sh_same s s'"
  "shadow_request app hal fuel m c t u as s = Some (r, s') \<Longrightarrow> sh_keeps hal s s'"
  by (auto simp: IOT_Shadow_Yield_def handle_expired_request_def IOT_Shadow_Register_Property_def IOT_Shadow_UnRegister_Property_def
      shadow_request_def shadow_step_simps
      split: prod.splits if_splits option.splits elim!: bind_SomeE dest!: shadow_dest)

section \<open>Reachable states\<close>

datatype shadow_op =
    Op_Yield u32
  | Op_Register "addr option" "fptr option"
  | Op_UnRegister "addr option"
  | Op_Get_Sync "fptr option" u32 nat
  | Op_Update "fptr option" u32 nat "addr option list"
  | Op_Update_And_Reset_Version "fptr option" u32 nat "addr option list"
  | Op_Delete "fptr option" u32 nat "addr option list"
  | Op_Delete_All "fptr option" u32 nat
  | Op_Result MQTTMessage
  | Op_Sync MQTTMessage
  | Op_Mqtt api_call

fun shadow_step :: "bool \<Rightarrow> shadow_app \<Rightarrow> 'w hal \<Rightarrow> nat \<Rightarrow> shadow_op \<Rightarrow> 'w shadow \<Rightarrow> (int \<times> 'w shadow) option" where
  "shadow_step cr app hal fuel (Op_Yield ms) s = IOT_Shadow_Yield cr hal fuel ms s"
| "shadow_step cr app hal fuel (Op_Register p c) s = IOT_Shadow_Register_Property hal p c s"
| "shadow_step cr app hal fuel (Op_UnRegister p) s = IOT_Shadow_UnRegister_Property hal p s"
| "shadow_step cr app hal fuel (Op_Get_Sync c t u) s = IOT_Shadow_Get_Sync app hal fuel c t u s"
| "shadow_step cr app hal fuel (Op_Update c t u as) s = IOT_Shadow_Update app hal fuel c t u as s"
| "shadow_step cr app hal fuel (Op_Update_And_Reset_Version c t u as) s = IOT_Shadow_Update_And_Reset_Version app hal fuel c t u as s"
| "shadow_step cr app hal fuel (Op_Delete c t u as) s = IOT_Shadow_Delete app hal fuel c t u as s"
| "shadow_step cr app hal fuel (Op_Delete_All c t u) s = IOT_Shadow_Delete_All app hal fuel c t u s"
| "shadow_step cr app hal fuel (Op_Result m) s = map_option (Pair 0) (topic_request_result_handler app hal fuel m s)"
| "shadow_step cr app hal fuel (Op_Sync m) s = map_option (Pair 0) (topic_sync_handler app hal fuel m s)"
| "shadow_step cr app hal fuel (Op_Mqtt c) s = map_option (\<lambda>(r, q). (r, s\<lparr>mqtt := q\<rparr>)) (api_step cr hal fuel c (mqtt s))"

inductive shadow_state :: "bool \<Rightarrow> shadow_app \<Rightarrow> 'w hal \<Rightarrow> 'w shadow \<Rightarrow> bool" for cr app hal where
  constructed: "client_state cr hal (mqtt s0) \<Longrightarrow> length (cloud_rcv_buf s0) = CLOUD_IOT_JSON_RX_BUF_LEN \<Longrightarrow>
    IOT_Shadow_Construct hal fuel sync_fp result_fp p d s0 = Some (True, s) \<Longrightarrow> shadow_state cr app hal s"
| called: "shadow_state cr app hal s \<Longrightarrow> shadow_step cr app hal fuel c s = Some (r, s') \<Longrightarrow> shadow_state cr app hal s'"
| elsewhere: "shadow_state cr app hal s \<Longrightarrow> shadow_state cr app hal (s\<lparr>mqtt := (mqtt s)\<lparr>os := w\<rparr>, props := ps\<rparr>)"

lemma shadow_step_keeps: "shadow_step cr app hal fuel c s = Some (r, s') \<Longrightarrow> sh_keeps hal s s'"
proof (cases c)
  case (Op_Mqtt a)
  assume "shadow_step cr app hal fuel c s = Some (r, s')"
  then show ?thesis using api_step_keeps [of cr hal fuel a "mqtt s"] shadow_inv_mqtt_ok [of s]
    by (auto simp: Op_Mqtt sh_keeps_def mqtt_ok_def intro!: shadow_inv_mqtt [unfolded mqtt_ok_def])
qed (auto simp: IOT_Shadow_Get_Sync_def IOT_Shadow_Update_def IOT_Shadow_Update_And_Reset_Version_def IOT_Shadow_Delete_def
    IOT_Shadow_Delete_All_def dest!: shadow_dest intro: sh_same_keeps)

lemma subscribe_topic_same [shadow_dest]: "uiot_shadow_subscribe_topic hal fuel t f s = Some (r, s') \<Longrightarrow> sh_same s s'"
  by (auto simp: uiot_shadow_subscribe_topic_def shadow_step_simps split: prod.splits if_splits elim!: bind_SomeE dest!: shadow_dest)

lemma shadow_init_inv:
  assumes "uiot_shadow_init hal s = (SUCCESS_RET, s')" and "mqtt_ok (mqtt s)" and "length (cloud_rcv_buf s) = CLOUD_IOT_JSON_RX_BUF_LEN"
  shows "shadow_inv s' \<and> shadow_held s' = (\<lambda>_. 0)"
proof -
  have "shadow_held s' m = 0" for m using assms(1)
    by (cases m) (auto simp: uiot_shadow_init_def create_shadow_lock_def Let_def split: prod.splits if_splits dest!: shadow_dest)
  moreover have "shadow_inv s'" using assms
    by (auto simp: uiot_shadow_init_def create_shadow_lock_def Let_def shadow_inv_def nodes_ok_def split: prod.splits if_splits dest!: shadow_dest)
  ultimately show ?thesis by auto
qed

lemma shadow_construct_inv:
  assumes "IOT_Shadow_Construct hal fuel f g p d s0 = Some (True, s)" and "mqtt_ok (mqtt s0)"
    and "length (cloud_rcv_buf s0) = CLOUD_IOT_JSON_RX_BUF_LEN"
  shows "shadow_inv s \<and> shadow_held s = (\<lambda>_. 0)"
  using assms
  by (auto simp: IOT_Shadow_Construct_def Let_def sh_same_def split: option.splits prod.splits if_splits elim!: bind_SomeE
      dest!: shadow_dest shadow_init_inv)

section \<open>A shadow client on the platform on which everything succeeds\<close>

definition blank_shadow :: "'w sys \<Rightarrow> 'w shadow" where
  "blank_shadow q = \<lparr> mqtt = q, sh_product_sn = [], sh_device_sn = [], version = 0, request_list = [], property_list = [],
     props = (\<lambda>_. \<lparr> prop_key = None, prop_data = None, prop_type = JINT32 \<rparr>), cloud_rcv_buf = replicate CLOUD_IOT_JSON_RX_BUF_LEN 0,
     cloud_send_method = GET, shadow_held = (\<lambda>_. 0), shadow_calls = [], shadow_next = 1 \<rparr>"

lemma smooth_shadow:
  assumes "client_inv q" and "is_connected q \<noteq> 0" and "list_sub_wait_ack q = []"
  obtains s where "IOT_Shadow_Construct smooth_hal 10 1 2 (Some (str ''p'')) (Some (str ''d'')) (blank_shadow q) = Some (True, s)"
proof -
  let ?s0 = "(blank_shadow q)\<lparr>sh_product_sn := str ''p'', sh_device_sn := str ''d'', shadow_held := (\<lambda>_. 0)\<rparr>"
  define sub where "sub t f = \<lparr> sp_qos = QOS1, on_message_handler = Some f, user_data = 0 \<rparr>" for t :: nat and f
  have [simp]: "HAL_MutexCreate smooth_hal w = (True, w)" "shadow_malloc smooth_hal n s = (True, s)" for w n and s :: "bytes shadow"
    by (simp_all add: smooth_hal_def shadow_malloc_def malloc_def)
  have init: "uiot_shadow_init smooth_hal ((blank_shadow q)\<lparr>sh_product_sn := str ''p'', sh_device_sn := str ''d'', version := 0\<rparr>) = (SUCCESS_RET, ?s0)"
    by (simp add: uiot_shadow_init_def create_shadow_lock_def blank_shadow_def Let_def fun_eq_iff)
  let ?t1 = "fst (shadow_topic ?s0 ''/shadow/get_reply'')" and ?t2 = "fst (shadow_topic ?s0 ''/shadow/downstream'')"
  have t: "?t1 \<noteq> []" "length ?t1 \<le> 128" "?t2 \<noteq> []" "length ?t2 \<le> 128" by (simp_all add: shadow_topic_def HAL_Snprintf_def str_def)
  from smooth_subscribe [OF assms(1,2) t(1,2), of "sub 0 1" 8] assms(3) obtain q1 where
    q1: "uiot_mqtt_subscribe smooth_hal 10 ?t1 (sub 0 1) q = Some (uint (next_id (next_packet_id q)), q1)"
    "is_connected q1 \<noteq> 0" "length (list_sub_wait_ack q1) = 1" using assms(2) by (auto simp: sub_def numeral_eq_Suc)
  have "client_inv q1" using uiot_mqtt_subscribe_keeps [OF q1(1) assms(1)] assms(1) by (simp add: keeps_def)
  from smooth_subscribe [OF this q1(2) t(3,4), of "sub 0 2" 8] q1(3) obtain q2 where
    q2: "uiot_mqtt_subscribe smooth_hal 10 ?t2 (sub 0 2) q1 = Some (uint (next_id (next_packet_id q1)), q2)"
    by (auto simp: sub_def numeral_eq_Suc)
  have m: "mqtt ?s0 = q" by (simp add: blank_shadow_def)
  have tt: "shadow_topic (x\<lparr>mqtt := y\<rparr>) t = shadow_topic x t" for x :: "bytes shadow" and y t by (simp add: shadow_topic_def)
  have "uiot_shadow_subscribe_topic smooth_hal 10 ''/shadow/get_reply'' 1 ?s0 = Some (uint (next_id (next_packet_id q)), ?s0\<lparr>mqtt := q1\<rparr>)"
    "uiot_shadow_subscribe_topic smooth_hal 10 ''/shadow/downstream'' 2 (?s0\<lparr>mqtt := q1\<rparr>) = Some (uint (next_id (next_packet_id q1)), ?s0\<lparr>mqtt := q2\<rparr>)"
    using q1(1) q2 unfolding uiot_shadow_subscribe_topic_def IOT_MQTT_Subscribe_def sub_def by (simp_all add: m tt)
  with init that show ?thesis by (simp add: IOT_Shadow_Construct_def Let_def)
qed



end
