(* ===== verification/Shadow_Requests.thy ===== *)
theory Shadow_Requests
  imports Shadow_State
begin

text \<open>
  The pending requests of the shadow client: how a reply, a control message and the passing of time settle them.  The two
  callbacks of \<open>_traverse_list\<close> have the same shape; the locale \<open>request_scan\<close> states it and proves the effect of the
  traversal once.
\<close>

section \<open>Traversing the pending requests\<close>

text \<open>The call that reports a request, if it has a callback.\<close>

definition ack_calls :: "bytes \<Rightarrow> Request \<Rightarrow> RequestAck option \<Rightarrow> shadow_call list" where
  "ack_calls doc rq d = (case (d, rq_callback rq) of
     (Some a, Some f) \<Rightarrow> [Request_Ack f (rq_meth rq) a doc (rq_user_context rq)] | _ \<Rightarrow> [])"

abbreviation set_os :: "'w \<Rightarrow> 'w shadow \<Rightarrow> 'w shadow" where
  "set_os w s \<equiv> s\<lparr>mqtt := (mqtt s)\<lparr>os := w\<rparr>\<rparr>"

definition settle :: "addr \<Rightarrow> Request \<Rightarrow> RequestAck option \<Rightarrow> 'w \<Rightarrow> 'w shadow \<Rightarrow> 'w shadow" where
  "settle a rq d w s = (set_os w s)\<lparr>shadow_calls := shadow_calls s @ ack_calls (cloud_rcv_buf s) rq d,
     request_list := (if d = None then request_list s else nodes_remove a (request_list s))\<rparr>"

locale request_scan =
  fixes hal :: "'w hal"
    and handle :: "addr \<Rightarrow> Request \<Rightarrow> 'w shadow \<Rightarrow> 'w shadow option"
    and ready :: "'w \<Rightarrow> bytes \<Rightarrow> bool"
    and verdict :: "'w \<Rightarrow> bytes \<Rightarrow> Request \<Rightarrow> RequestAck option \<Rightarrow> bool"
  assumes handle: "ready (os (mqtt s)) (cloud_rcv_buf s) \<Longrightarrow> \<exists>d w. handle a rq s = Some (settle a rq d w s)
      \<and> verdict (os (mqtt s)) (cloud_rcv_buf s) rq d \<and> clock_run hal (os (mqtt s)) w \<and> ready w (cloud_rcv_buf s)"
    and later: "verdict w' doc rq d \<Longrightarrow> clock_run hal w w' \<Longrightarrow> verdict w doc rq d"
begin

text \<open>
  The traversal decides on every request (\<open>D\<close> is \<open>None\<close> for one that stays pending), reports those it decides on in the
  order of the traversal and takes them out of the list.
\<close>

lemma traverse:
  assumes "ready (os (mqtt s)) (cloud_rcv_buf s)" and "distinct (map fst it)"
  shows "\<exists>D w. traverse_loop handle it s = Some ((set_os w s)\<lparr>
       shadow_calls := shadow_calls s @ concat (map (\<lambda>(a, rq). ack_calls (cloud_rcv_buf s) rq (D a)) it),
       request_list := filter (\<lambda>x. fst x \<in> fst ` set it \<longrightarrow> D (fst x) = None) (request_list s)\<rparr>)
    \<and> (\<forall>(a, rq) \<in> set it. verdict (os (mqtt s)) (cloud_rcv_buf s) rq (D a)) \<and> clock_run hal (os (mqtt s)) w"
  using assms
proof (induction it arbitrary: s)
  case Nil
  show ?case by (rule exI [of _ "\<lambda>_. None"], rule exI [of _ "os (mqtt s)"]) simp
next
  case (Cons x it)
  obtain a rq where x: "x = (a, rq)" by fastforce
  from handle [OF Cons.prems(1)] obtain d w1 where
    h: "handle a rq s = Some (settle a rq d w1 s)" "verdict (os (mqtt s)) (cloud_rcv_buf s) rq d"
      "clock_run hal (os (mqtt s)) w1" "ready w1 (cloud_rcv_buf s)" by blast
  let ?s1 = "settle a rq d w1 s"
  have s1: "os (mqtt ?s1) = w1" "cloud_rcv_buf ?s1 = cloud_rcv_buf s" by (simp_all add: settle_def)
  have "distinct (map fst it)" "a \<notin> fst ` set it" using Cons.prems(2) by (auto simp: x)
  from Cons.IH [of ?s1] h(4) this(1) obtain D w where
    ih: "traverse_loop handle it ?s1 = Some ((set_os w ?s1)\<lparr>
       shadow_calls := shadow_calls ?s1 @ concat (map (\<lambda>(a, rq). ack_calls (cloud_rcv_buf s) rq (D a)) it),
       request_list := filter (\<lambda>x. fst x \<in> fst ` set it \<longrightarrow> D (fst x) = None) (request_list ?s1)\<rparr>)"
      "\<forall>(a, rq) \<in> set it. verdict w1 (cloud_rcv_buf s) rq (D a)" "clock_run hal w1 w"
    by (auto simp: s1)
  let ?D = "D(a := d)"
  have "concat (map (\<lambda>(b, rq). ack_calls (cloud_rcv_buf s) rq (?D b)) it) = concat (map (\<lambda>(b, rq). ack_calls (cloud_rcv_buf s) rq (D b)) it)"
    using \<open>a \<notin> fst ` set it\<close> by (intro arg_cong [where f = concat] map_cong) (auto simp: image_iff)
  moreover have "filter (\<lambda>y. fst y \<in> fst ` set it \<longrightarrow> D (fst y) = None) (request_list ?s1) =
      filter (\<lambda>y. fst y \<in> fst ` set (x # it) \<longrightarrow> ?D (fst y) = None) (request_list s)"
    using \<open>a \<notin> fst ` set it\<close> by (auto simp: settle_def nodes_remove_def x intro!: filter_cong)
  moreover have "\<forall>(b, rq) \<in> set (x # it). verdict (os (mqtt s)) (cloud_rcv_buf s) rq (?D b)"
  proof clarify
    fix b r assume m: "(b, r) \<in> set (x # it)"
    show "verdict (os (mqtt s)) (cloud_rcv_buf s) r (?D b)"
    proof (cases "(b, r) \<in> set it")
      case True
      then have "b \<noteq> a" "verdict w1 (cloud_rcv_buf s) r (D b)" using \<open>a \<notin> fst ` set it\<close> ih(2) by (auto simp: rev_image_eqI)
      then show ?thesis using later [OF _ h(3)] by simp
    qed (use m h(2) in \<open>simp add: x\<close>)
  qed
  moreover have "clock_run hal (os (mqtt s)) w" using h(3) ih(3) by (rule rtranclp_trans)
  ultimately show ?case using h(1) ih(1)
    by (intro exI [of _ ?D] exI [of _ w]) (simp add: x settle_def)
qed

text \<open>The traversal of the whole list, the iterator granted.\<close>

lemma traverse_all:
  assumes "HAL_Malloc hal sizeof_ListIterator (os (mqtt s)) = (True, w0)" and "ready w0 (cloud_rcv_buf s)"
    and "distinct (map fst (request_list s))"
  shows "\<exists>D w. traverse_list hal handle s = Some ((set_os w s)\<lparr>
       shadow_calls := shadow_calls s @ concat (map (\<lambda>(a, rq). ack_calls (cloud_rcv_buf s) rq (D a)) (rev (request_list s))),
       request_list := filter (\<lambda>x. D (fst x) = None) (request_list s)\<rparr>)
    \<and> (\<forall>(a, rq) \<in> set (request_list s). verdict w0 (cloud_rcv_buf s) rq (D a))"
proof (cases "request_list s = []")
  case True
  show ?thesis
    by (intro exI [of _ "\<lambda>_. None"] exI [of _ "os (mqtt s)"]) (use True in \<open>simp add: traverse_list_def shadow_lock_def shadow_unlock_def\<close>)
next
  case False
  let ?s1 = "set_os w0 (shadow_lock request_mutex s)"
  have m: "shadow_malloc hal sizeof_ListIterator (shadow_lock request_mutex s) = (True, ?s1)"
    using assms(1) by (simp add: shadow_malloc_def malloc_def shadow_lock_def)
  have r: "ready (os (mqtt ?s1)) (cloud_rcv_buf ?s1)" "distinct (map fst (rev (request_list s)))"
    using assms(2,3) by (simp_all add: rev_map [symmetric] shadow_lock_def)
  from traverse [OF r] obtain D w where
    t: "traverse_loop handle (rev (request_list s)) ?s1 = Some ((set_os w ?s1)\<lparr>
       shadow_calls := shadow_calls s @ concat (map (\<lambda>(a, rq). ack_calls (cloud_rcv_buf s) rq (D a)) (rev (request_list s))),
       request_list := filter (\<lambda>x. fst x \<in> fst ` set (request_list s) \<longrightarrow> D (fst x) = None) (request_list s)\<rparr>)"
      "\<forall>(a, rq) \<in> set (request_list s). verdict w0 (cloud_rcv_buf s) rq (D a)" by (auto simp: shadow_lock_def)
  have f: "filter (\<lambda>x. fst x \<in> fst ` set (request_list s) \<longrightarrow> D (fst x) = None) (request_list s) = filter (\<lambda>x. D (fst x) = None) (request_list s)"
    by (intro filter_cong) auto
  show ?thesis
    by (intro exI [of _ D] exI [of _ w])
      (use t False m f in \<open>simp add: traverse_list_def shadow_lock_def shadow_unlock_def del: filter_id_conv\<close>)
qed

end

section \<open>The two callbacks\<close>

text \<open>The clock, read at some later moment, says that the timer has run out.\<close>

definition expired_at :: "'w hal \<Rightarrow> 'w \<Rightarrow> Timer \<Rightarrow> bool \<Rightarrow> bool" where
  "expired_at hal w t b \<longleftrightarrow> (\<exists>w'. clock_run hal w w' \<and> fst (has_expired_w hal t w') = b)"

text \<open>The status that a message of a type gives to the pending requests.\<close>

definition message_status :: "(nat \<Rightarrow> bool) \<Rightarrow> cstr \<Rightarrow> bytes \<Rightarrow> RequestAck option" where
  "message_status mal pType doc =
     (if pType = str ''get_reply'' then Some ACK_ACCEPTED
      else if pType = str ''reply'' \<or> pType = str ''control''
      then map_option (\<lambda>(ok, code). if ok \<and> code = Some 0 then ACK_ACCEPTED else ACK_REJECTED) (parse_shadow_payload_retcode_type mal doc)
      else Some ACK_NONE)"

lemma reply_status_eq: "reply_status hal pType s = message_status (\<lambda>n. fst (HAL_Malloc hal n (os (mqtt s)))) pType (cloud_rcv_buf s)"
  by (auto simp: reply_status_def message_status_def json_mal_def [abs_def] map_option_case split: option.splits)

lemma request_ack_settle:
  "(request_ack rq st s)\<lparr>request_list := nodes_remove a (request_list s)\<rparr> = settle a rq (Some st) (os (mqtt s)) s"
  by (simp add: request_ack_def settle_def ack_calls_def split: option.splits)

interpretation expiry: request_scan hal "handle_expired_request_callback hal" "\<lambda>_ _. True"
  "\<lambda>w doc rq d. (d = Some ACK_TIMEOUT \<or> d = None) \<and> expired_at hal w (rq_timer rq) (d \<noteq> None)" for hal
proof unfold_locales
  fix s :: "'a shadow" and a and rq :: Request
  obtain b w where h: "has_expired_w hal (rq_timer rq) (os (mqtt s)) = (b, w)" by fastforce
  then have w: "clock_run hal (os (mqtt s)) w" "fst (has_expired_w hal (rq_timer rq) (os (mqtt s))) = b"
    by (auto simp: has_expired_w_def HAL_Timer_Expired_def tick_step_def Let_def split: prod.split_asm)
  let ?d = "if b then Some ACK_TIMEOUT else None"
  have "handle_expired_request_callback hal a rq s = Some (settle a rq ?d w s)"
    using h by (simp add: handle_expired_request_callback_def has_expired_def request_ack_def settle_def ack_calls_def split: option.splits)
  moreover have "expired_at hal (os (mqtt s)) (rq_timer rq) (?d \<noteq> None)" using w by (auto simp: expired_at_def)
  ultimately show "\<exists>d w. handle_expired_request_callback hal a rq s = Some (settle a rq d w s)
      \<and> ((d = Some ACK_TIMEOUT \<or> d = None) \<and> expired_at hal (os (mqtt s)) (rq_timer rq) (d \<noteq> None)) \<and> clock_run hal (os (mqtt s)) w \<and> True"
    using w(1) by (intro exI [of _ ?d] exI [of _ w]) auto
qed (auto simp: expired_at_def intro: rtranclp_trans)

interpretation answer: request_scan hal "handle_request_callback hal pType"
  "\<lambda>w doc. message_status (\<lambda>n. fst (HAL_Malloc hal n w)) pType doc = Some st" "\<lambda>_ _ _ d. d = Some st" for hal pType st
proof unfold_locales
  fix s :: "'a shadow" and a rq
  assume r: "message_status (\<lambda>n. fst (HAL_Malloc hal n (os (mqtt s)))) pType (cloud_rcv_buf s) = Some st"
  then have "handle_request_callback hal pType a rq s = Some (settle a rq (Some st) (os (mqtt s)) s)"
    by (simp add: handle_request_callback_def reply_status_eq request_ack_settle [symmetric])
  with r show "\<exists>d w. handle_request_callback hal pType a rq s = Some (settle a rq d w s) \<and> d = Some st
    \<and> clock_run hal (os (mqtt s)) w \<and> message_status (\<lambda>n. fst (HAL_Malloc hal n w)) pType (cloud_rcv_buf s) = Some st" by blast
qed

text \<open>An answer with one status for all.\<close>

lemma settle_all:
  assumes "granting hal" and "message_status (\<lambda>_. True) t (cloud_rcv_buf s) = Some st" and "distinct (map fst (request_list s))"
  shows "\<exists>w. traverse_list hal (handle_request_callback hal t) s = Some ((set_os w s)\<lparr>
    shadow_calls := shadow_calls s @ concat (map (\<lambda>(a, rq). ack_calls (cloud_rcv_buf s) rq (Some st)) (rev (request_list s))), request_list := []\<rparr>)"
proof -
  have mal: "(\<lambda>n. fst (HAL_Malloc hal n w)) = (\<lambda>_. True)" for w using assms(1) by (simp add: granting_def fun_eq_iff)
  obtain w0 where w0: "HAL_Malloc hal sizeof_ListIterator (os (mqtt s)) = (True, w0)"
    using assms(1) by (auto simp: granting_def) (metis prod.collapse)
  from answer.traverse_all [OF w0, of t st] assms(2,3) obtain D w where
    t: "traverse_list hal (handle_request_callback hal t) s = Some ((set_os w s)\<lparr>
       shadow_calls := shadow_calls s @ concat (map (\<lambda>(a, rq). ack_calls (cloud_rcv_buf s) rq (D a)) (rev (request_list s))),
       request_list := filter (\<lambda>x. D (fst x) = None) (request_list s)\<rparr>)"
      "\<forall>(a, rq) \<in> set (request_list s). D a = Some st" unfolding mal by blast
  have "concat (map (\<lambda>(a, rq). ack_calls (cloud_rcv_buf s) rq (D a)) (rev (request_list s)))
    = concat (map (\<lambda>(a, rq). ack_calls (cloud_rcv_buf s) rq (Some st)) (rev (request_list s)))"
    using t(2) by (intro arg_cong [where f = concat] map_cong) auto
  moreover have "filter (\<lambda>x. D (fst x) = None) (request_list s) = []" using t(2) by (auto simp: filter_empty_conv)
  ultimately show ?thesis using t(1) by auto
qed

section \<open>Time\<close>

text \<open>
  C32. Expired requests are settled.  \<open>_handle_expired_request\<close> takes out of the list of pending requests exactly those whose
  timer had run out at some reading of the clock, reports each of them once, with its method, its context and the status
  \<open>ACK_TIMEOUT\<close>, and leaves the others pending and in order.
\<close>
theorem expired_requests_settled:
  assumes "shadow_inv s" and "HAL_Malloc hal sizeof_ListIterator (os (mqtt s)) = (True, w0)"
  shows "\<exists>s' R. handle_expired_request hal s = Some s' \<and> shadow_inv s' \<and> shadow_held s' = shadow_held s
    \<and> request_list s' = filter (\<lambda>x. fst x \<notin> R) (request_list s)
    \<and> (\<forall>x \<in> set (request_list s). expired_at hal w0 (rq_timer (snd x)) (fst x \<in> R))
    \<and> shadow_calls s' = shadow_calls s @ concat (map (\<lambda>(a, rq). if a \<in> R then ack_calls (cloud_rcv_buf s) rq (Some ACK_TIMEOUT) else [])
        (rev (request_list s)))"
proof -
  have d: "distinct (map fst (request_list s))" using assms(1) by (simp add: shadow_inv_def nodes_ok_def)
  from expiry.traverse_all [OF assms(2) TrueI d] obtain D w where
    t: "handle_expired_request hal s = Some ((set_os w s)\<lparr>
       shadow_calls := shadow_calls s @ concat (map (\<lambda>(a, rq). ack_calls (cloud_rcv_buf s) rq (D a)) (rev (request_list s))),
       request_list := filter (\<lambda>x. D (fst x) = None) (request_list s)\<rparr>)" (is "_ = Some ?s'")
      "\<forall>(a, rq) \<in> set (request_list s). (D a = Some ACK_TIMEOUT \<or> D a = None) \<and> expired_at hal w0 (rq_timer rq) (D a \<noteq> None)"
    unfolding handle_expired_request_def by blast
  let ?R = "{a. D a \<noteq> None}"
  have "concat (map (\<lambda>(a, rq). ack_calls (cloud_rcv_buf s) rq (D a)) (rev (request_list s)))
    = concat (map (\<lambda>(a, rq). if a \<in> ?R then ack_calls (cloud_rcv_buf s) rq (Some ACK_TIMEOUT) else []) (rev (request_list s)))"
    using t(2) by (intro arg_cong [where f = concat] map_cong) (auto simp: ack_calls_def)
  moreover have "shadow_inv ?s'" using assms(1) by (auto simp: shadow_inv_def nodes_ok_def distinct_map_filter mqtt_ok_def intro: le_trans [OF length_filter_le])
  ultimately show ?thesis using t by (intro exI [of _ ?s'] exI [of _ ?R]) auto
qed

section \<open>Answers\<close>

text \<open>An answer of the server: its type, a code and the version of the document.\<close>

definition code_member :: "u32 \<Rightarrow> json_member" where
  "code_member c = jmember [] ''RetCode'' (J_Number (dec_int (uint c)))"

definition answer_members :: "string \<Rightarrow> u32 \<Rightarrow> u32 \<Rightarrow> json_member list" where
  "answer_members t c v =
     [jmember [LBRACE] ''Method'' (J_String (str t)),
      jmember [44] ''Payload'' (J_Object (member_text (code_member c))),
      jmember [44] ''Version'' (J_Number (dec_int (uint v)))]"

definition answer_text :: "string \<Rightarrow> u32 \<Rightarrow> u32 \<Rightarrow> cstr" where
  "answer_text t c v = members_text (answer_members t c v) @ [RBRACE]"

lemma dec_uint_chars: "set (dec_int (uint c)) \<inter> {0, QUOTE, LBRACE, RBRACE} = {}" "dec_int (uint c) \<noteq> []"
  using dec_nat_digits [of "nat (uint c)"] by (auto simp: dec_int_def is_digit_def)

lemma answer_docs:
  assumes "QUOTE \<notin> set (str t)" and "0 \<notin> set (str t)"
  shows "json_doc (answer_members t c v) [RBRACE] (answer_text t c v)"
    and "json_doc [(code_member c)\<lparr>m_gap := [LBRACE]\<rparr>] [RBRACE] (LBRACE # member_text (code_member c) @ [RBRACE])"
proof -
  have f: "set (member_text (code_member c)) \<inter> {LBRACE, RBRACE} = {}" "0 \<notin> set (member_text (code_member c))"
    using dec_uint_chars [of c] by (auto simp: code_member_def member_text_def jmember_def str_def)
  have "nested JSOBJECT 0 (member_text (code_member c))" using nested_skip [OF f(1), of 0 "[]"] by simp
  then show "json_doc (answer_members t c v) [RBRACE] (answer_text t c v)"
    using assms f dec_int_number [of "uint v"]
    by (simp add: json_doc_def answer_members_def answer_text_def wf_member_def jmember_def ends_number_def is_digit_def)
      (simp add: member_text_def str_def)
  show "json_doc [(code_member c)\<lparr>m_gap := [LBRACE]\<rparr>] [RBRACE] (LBRACE # member_text (code_member c) @ [RBRACE])"
    using dec_int_number [of "uint c"]
    by (simp add: json_doc_def code_member_def wf_member_def jmember_def ends_number_def is_digit_def) (simp add: member_text_def str_def)
qed

lemma sscanf_u_uint: "sscanf_u 32 (dec_int (uint (c :: u32))) = Some (Some (uint c))"
  using sscanf_u_dec [of "uint c" 32] uint_lt2p [of c] by simp

text \<open>What the readers find in an answer.\<close>

lemma answer_fields:
  assumes "QUOTE \<notin> set (str t)" and "0 \<notin> set (str t)" and "str t \<noteq> []" and "\<forall>n. mal n"
  shows "parse_shadow_method_type mal (answer_text t c v @ 0 # post) = Some (True, Some (str t))"
    and "parse_version_num mal (answer_text t c v @ 0 # post) = Some (True, Some v)"
    and "parse_shadow_payload_retcode_type mal (answer_text t c v @ 0 # post) = Some (True, Some c)"
proof -
  note doc = answer_docs(1) [OF assms(1,2), of c v]
  note look = value_of_name [OF doc _ assms(4), of _ post]
  note ne = dec_uint_chars(2)
  show "parse_shadow_method_type mal (answer_text t c v @ 0 # post) = Some (True, Some (str t))"
    using look [of "lit ''Method''"] assms(3)
    by (simp add: parse_shadow_method_type_def json_field_def plain_name_def lit_def answer_members_def jmember_def matches_def str_def)
  show "parse_version_num mal (answer_text t c v @ 0 # post) = Some (True, Some v)"
    using look [of "lit ''Version''"] ne [of v]
    by (simp add: parse_version_num_def json_number_def plain_name_def lit_def answer_members_def jmember_def matches_def str_def sscanf_u_uint)
  let ?m1 = "jmember [LBRACE] ''Method'' (J_String (str t))" and ?m2 = "jmember [44] ''Payload'' (J_Object (member_text (code_member c)))"
    and ?m3 = "jmember [44] ''Version'' (J_Number (dec_int (uint v)))"
  have ms: "answer_members t c v = [?m1] @ ?m2 # [?m3]" by (simp add: answer_members_def)
  have inner: "json_doc [(code_member c)\<lparr>m_gap := [LBRACE]\<rparr>] [RBRACE] (content (m_val ?m2))"
    using answer_docs(2) [OF assms(1,2)] by (simp add: jmember_def)
  from value_of_path [OF doc [unfolded ms] _ _ _ inner _ _ assms(4), of "str ''Payload''" "member_text (code_member c)" "str ''RetCode''" post] ne [of c]
  show "parse_shadow_payload_retcode_type mal (answer_text t c v @ 0 # post) = Some (True, Some c)"
    by (simp add: parse_shadow_payload_retcode_type_def json_number_def plain_name_def lit_def jmember_def matches_def str_def code_member_def
        sscanf_u_uint)
qed

lemma store_document_fits:
  assumes "payload message = Some data" and "payload_len message = of_nat (length data)" and "length data < CLOUD_IOT_JSON_RX_BUF_LEN"
    and "length (cloud_rcv_buf s) = CLOUD_IOT_JSON_RX_BUF_LEN"
  shows "store_document message s = Some (s\<lparr>cloud_rcv_buf := data @ 0 # drop (Suc (length data)) (cloud_rcv_buf s)\<rparr>)"
    and "\<not> payload_len message > of_nat CLOUD_IOT_JSON_RX_BUF_LEN"
  using assms by (simp_all add: store_document_def Let_def word_less_nat_alt take_bit_nat_eq_self unsigned_of_nat)

lemma reply_step:
  assumes "shadow_inv s" and "granting hal" and "str t \<noteq> []" and "QUOTE \<notin> set (str t)" and "0 \<notin> set (str t)"
    and "payload message = Some (answer_text t c v)" and "payload_len message = of_nat (length (answer_text t c v))"
    and "length (answer_text t c v) < CLOUD_IOT_JSON_RX_BUF_LEN"
  shows "store_document message s = Some (s\<lparr>cloud_rcv_buf := answer_text t c v @ 0 # drop (Suc (length (answer_text t c v))) (cloud_rcv_buf s)\<rparr>)"
    and "\<not> payload_len message > of_nat CLOUD_IOT_JSON_RX_BUF_LEN"
  using store_document_fits [OF assms(6-8)] assms(1) by (auto simp: shadow_inv_def)


text \<open>
  A message by which the server sets properties (method \<open>control\<close>) is no answer to a request; it is handled as one, and
  as it has no code every pending request is reported as rejected.
\<close>

definition control_members :: "u32 \<Rightarrow> json_member list" where
  "control_members v = [jmember [LBRACE] ''Method'' (J_String (str ''control'')), jmember [44] ''Version'' (J_Number (dec_int (uint v)))]"

definition control_text :: "u32 \<Rightarrow> cstr" where
  "control_text v = members_text (control_members v) @ [RBRACE]"

lemma control_fields:
  assumes "\<forall>n. mal n"
  shows "parse_shadow_method_type mal (control_text v @ 0 # post) = Some (True, Some (str ''control''))"
    and "parse_version_num mal (control_text v @ 0 # post) = Some (True, Some v)"
    and "parse_shadow_payload_state_desired_state mal (control_text v @ 0 # post) = Some (False, None)"
    and "parse_shadow_payload_retcode_type mal (control_text v @ 0 # post) = Some (False, None)"
proof -
  have doc: "json_doc (control_members v) [RBRACE] (control_text v)"
    using dec_int_number [of "uint v"]
    by (simp add: json_doc_def control_members_def control_text_def wf_member_def jmember_def ends_number_def is_digit_def)
      (simp add: member_text_def str_def)
  note look = value_of_name [OF doc _ assms, of _ post]
  note defs = plain_name_def lit_def control_members_def jmember_def matches_def str_def
  show "parse_shadow_method_type mal (control_text v @ 0 # post) = Some (True, Some (str ''control''))"
    using look [of "lit ''Method''"] by (simp add: parse_shadow_method_type_def json_field_def defs)
  show "parse_version_num mal (control_text v @ 0 # post) = Some (True, Some v)"
    using look [of "lit ''Version''"] dec_uint_chars(2) [of v] by (simp add: parse_version_num_def json_number_def defs sscanf_u_uint)
  have "find (matches (str ''Payload'')) (control_members v) = None" "plain_name (str ''Payload'')" by (simp_all add: defs)
  note absent = value_of_absent_path [OF doc this assms, of post]
  show "parse_shadow_payload_state_desired_state mal (control_text v @ 0 # post) = Some (False, None)"
    using absent [of "str ''State.Desired''"] by (simp add: parse_shadow_payload_state_desired_state_def json_field_def lit_def str_def)
  show "parse_shadow_payload_retcode_type mal (control_text v @ 0 # post) = Some (False, None)"
    using absent [of "str ''RetCode''"] by (simp add: parse_shadow_payload_retcode_type_def json_number_def lit_def str_def)
qed

lemma control_rejects_pending:
  assumes "shadow_inv s" and "granting hal" and "topic_len message \<noteq> 0"
    and "payload message = Some (control_text v)" and "payload_len message = of_nat (length (control_text v))"
    and "length (control_text v) < CLOUD_IOT_JSON_RX_BUF_LEN"
  shows "\<exists>s'. topic_request_result_handler app hal fuel message s = Some s' \<and> version s' = v \<and> request_list s' = []
    \<and> shadow_calls s' = shadow_calls s @ concat (map (\<lambda>(a, rq). ack_calls (cloud_rcv_buf s') rq (Some ACK_REJECTED)) (rev (request_list s)))"
proof -
  let ?t = "control_text v" and ?post = "drop (Suc (length (control_text v))) (cloud_rcv_buf s)"
  let ?s2 = "s\<lparr>cloud_rcv_buf := ?t @ 0 # ?post, version := v\<rparr>"
  have b: "length (cloud_rcv_buf s) = CLOUD_IOT_JSON_RX_BUF_LEN" using assms(1) by (simp add: shadow_inv_def)
  note st = store_document_fits [OF assms(4-6) b]
  have mal: "json_mal hal x = (\<lambda>_. True)" for x :: "'a shadow" using assms(2) by (simp add: json_mal_def granting_def fun_eq_iff)
  note f = control_fields [of "\<lambda>_. True" v ?post, simplified]
  have "str ''control'' \<noteq> str ''reply''" "str ''control'' \<noteq> str ''get_reply''" by (simp_all add: str_def)
  then have e: "topic_request_result_handler app hal fuel message s = traverse_list hal (handle_request_callback hal (str ''control'')) ?s2"
    using assms(3) st(2) by (simp add: topic_request_result_handler_def st(1) mal f)
  have "message_status (\<lambda>_. True) (str ''control'') (?t @ 0 # ?post) = Some ACK_REJECTED"
    using f(4) by (simp add: message_status_def str_def)
  with settle_all [of hal "str ''control''" ?s2 ACK_REJECTED] assms(1,2) e show ?thesis by (auto simp: shadow_inv_def nodes_ok_def)
qed

section \<open>Witnesses\<close>

text \<open>A client with two pending requests, one of which is late.\<close>

definition pending :: "Method \<Rightarrow> u32 \<Rightarrow> nat \<Rightarrow> Request" where
  "pending m e u = \<lparr> rq_meth = m, rq_user_context = u, rq_timer = \<lparr> end_time = e \<rparr>, rq_callback = Some 3 \<rparr>"

definition waiting_shadow :: "u32 shadow" where
  "waiting_shadow = (blank_shadow still_sys)\<lparr>request_list := [(0, pending GET 900 8), (1, pending UPDATE 5000 9)], shadow_next := 2\<rparr>"

lemma waiting_shadow_inv: "shadow_inv waiting_shadow"
  using still_sys_inv
  by (simp add: shadow_inv_def mqtt_ok_def session_ok_def waiting_shadow_def blank_shadow_def nodes_ok_def still_sys_def demo_client_def)

theorem expired_requests_settled_witness:
  "\<exists>s' doc. handle_expired_request tick_hal waiting_shadow = Some s' \<and> request_list s' = [(1, pending UPDATE 5000 9)]
    \<and> shadow_calls s' = [Request_Ack 3 GET ACK_TIMEOUT doc 8]"
proof -
  have m: "HAL_Malloc tick_hal sizeof_ListIterator (os (mqtt waiting_shadow)) = (True, 1000)"
    by (simp add: tick_hal_def waiting_shadow_def blank_shadow_def still_sys_def)
  have e: "expired_at tick_hal 1000 t b \<longleftrightarrow> (end_time t < 1000) = b" for t b
    using tick_hal_run [of 1000] by (auto simp: expired_at_def has_expired_w_def HAL_Timer_Expired_def tick_hal_def)
  from expired_requests_settled [OF waiting_shadow_inv m] show ?thesis
    by (auto simp: waiting_shadow_def blank_shadow_def pending_def e ack_calls_def)
qed

definition answer_message :: "cstr \<Rightarrow> MQTTMessage" where
  "answer_message doc = \<lparr> qos = QOS1, retained = 0, dup = 0, msg_ident = Some 7, topic = str ''t'', topic_len = 1,
     payload = Some doc, payload_len = of_nat (length doc) \<rparr>"


end
