(* ===== verification/Utils_Md5.thy ===== *)
theory Utils_Md5
  imports Utils_Hash
begin

text \<open>
  The MD5 implementation of \<^verbatim>\<open>utils_md5.c\<close>, which checks firmware images, and its correctness: the compression
  function is the one of RFC 1321, and digesting data in any pieces is MD5 of their concatenation.
\<close>

unbundle bit_operations_syntax

section \<open>Bytes and words\<close>

definition get_uint32_le :: "bytes \<Rightarrow> nat \<Rightarrow> u32" where
  "get_uint32_le b i = ucast (b ! i) OR push_bit 8 (ucast (b ! (i + 1))) OR push_bit 16 (ucast (b ! (i + 2)))
     OR push_bit 24 (ucast (b ! (i + 3)))"

definition put_uint32_le :: "u32 \<Rightarrow> bytes" where
  "put_uint32_le n = [ucast (n AND 0xFF), ucast (drop_bit 8 n AND 0xFF), ucast (drop_bit 16 n AND 0xFF), ucast (drop_bit 24 n AND 0xFF)]"

section \<open>The compression function\<close>

type_synonym md5_state = "u32 \<times> u32 \<times> u32 \<times> u32"
type_synonym iot_md5_context = "md5_state hash_context"

definition md5_S :: "u32 \<Rightarrow> nat \<Rightarrow> u32" where
  "md5_S x n = push_bit n x OR drop_bit (32 - n) (x AND 0xFFFFFFFF)"

text \<open>
  The macro \<open>P\<close>.  Each call of \<open>P\<close> names the registers in the order of the previous call shifted by one, starting with
  \<open>A, B, C, D\<close>; the state is the tuple in the order of the next call.
\<close>

definition md5_P :: "(u32 \<Rightarrow> u32 \<Rightarrow> u32 \<Rightarrow> u32) \<Rightarrow> u32 list \<Rightarrow> md5_state \<Rightarrow> nat \<times> nat \<times> u32 \<Rightarrow> md5_state" where
  "md5_P F X = (\<lambda>(a, b, c, d) (k, s, t).
     let a = a + (F b c d + X ! k + t);
         a = md5_S a s + b
     in (d, a, b, c))"

definition md5_ops1 :: "(nat \<times> nat \<times> u32) list" where
  "md5_ops1 = [(0, 7, 0xD76AA478), (1, 12, 0xE8C7B756), (2, 17, 0x242070DB), (3, 22, 0xC1BDCEEE),
      (4, 7, 0xF57C0FAF), (5, 12, 0x4787C62A), (6, 17, 0xA8304613), (7, 22, 0xFD469501),
      (8, 7, 0x698098D8), (9, 12, 0x8B44F7AF), (10, 17, 0xFFFF5BB1), (11, 22, 0x895CD7BE),
      (12, 7, 0x6B901122), (13, 12, 0xFD987193), (14, 17, 0xA679438E), (15, 22, 0x49B40821)]"

definition md5_ops2 :: "(nat \<times> nat \<times> u32) list" where
  "md5_ops2 = [(1, 5, 0xF61E2562), (6, 9, 0xC040B340), (11, 14, 0x265E5A51), (0, 20, 0xE9B6C7AA),
      (5, 5, 0xD62F105D), (10, 9, 0x02441453), (15, 14, 0xD8A1E681), (4, 20, 0xE7D3FBC8),
      (9, 5, 0x21E1CDE6), (14, 9, 0xC33707D6), (3, 14, 0xF4D50D87), (8, 20, 0x455A14ED),
      (13, 5, 0xA9E3E905), (2, 9, 0xFCEFA3F8), (7, 14, 0x676F02D9), (12, 20, 0x8D2A4C8A)]"

definition md5_ops3 :: "(nat \<times> nat \<times> u32) list" where
  "md5_ops3 = [(5, 4, 0xFFFA3942), (8, 11, 0x8771F681), (11, 16, 0x6D9D6122), (14, 23, 0xFDE5380C),
      (1, 4, 0xA4BEEA44), (4, 11, 0x4BDECFA9), (7, 16, 0xF6BB4B60), (10, 23, 0xBEBFBC70),
      (13, 4, 0x289B7EC6), (0, 11, 0xEAA127FA), (3, 16, 0xD4EF3085), (6, 23, 0x04881D05),
      (9, 4, 0xD9D4D039), (12, 11, 0xE6DB99E5), (15, 16, 0x1FA27CF8), (2, 23, 0xC4AC5665)]"

definition md5_ops4 :: "(nat \<times> nat \<times> u32) list" where
  "md5_ops4 = [(0, 6, 0xF4292244), (7, 10, 0x432AFF97), (14, 15, 0xAB9423A7), (5, 21, 0xFC93A039),
      (12, 6, 0x655B59C3), (3, 10, 0x8F0CCC92), (10, 15, 0xFFEFF47D), (1, 21, 0x85845DD1),
      (8, 6, 0x6FA87E4F), (15, 10, 0xFE2CE6E0), (6, 15, 0xA3014314), (13, 21, 0x4E0811A1),
      (4, 6, 0xF7537E82), (11, 10, 0xBD3AF235), (2, 15, 0x2AD7D2BB), (9, 21, 0xEB86D391)]"

definition utils_md5_process :: "iot_md5_context \<Rightarrow> bytes \<Rightarrow> iot_md5_context" where
  "utils_md5_process ctx data =
     (let X = map (\<lambda>i. get_uint32_le data (4 * i)) [0..<16];
          r = state ctx;
          r = foldl (md5_P (\<lambda>x y z. z XOR (x AND (y XOR z))) X) r md5_ops1;
          r = foldl (md5_P (\<lambda>x y z. y XOR (z AND (x XOR y))) X) r md5_ops2;
          r = foldl (md5_P (\<lambda>x y z. x XOR y XOR z) X) r md5_ops3;
          r = foldl (md5_P (\<lambda>x y z. y XOR (x OR NOT z)) X) r md5_ops4
      in ctx\<lparr>state := (case (state ctx, r) of ((s0, s1, s2, s3), (A, B, C, D)) \<Rightarrow> (s0 + A, s1 + B, s2 + C, s3 + D))\<rparr>)"

section \<open>Digesting\<close>

definition utils_md5_init :: iot_md5_context where
  "utils_md5_init = \<lparr> total0 = 0, total1 = 0, state = (0, 0, 0, 0), buffer = replicate 64 0 \<rparr>"

text \<open>\<open>utils_md5_free\<close> overwrites the context with zeros and ignores a null pointer (\<open>None\<close>); \<open>utils_md5_clone\<close> copies it.\<close>

definition utils_md5_free :: "iot_md5_context option \<Rightarrow> iot_md5_context option" where
  "utils_md5_free ctx = (case ctx of None \<Rightarrow> None | Some ctx \<Rightarrow>
     Some (ctx\<lparr>total0 := 0, total1 := 0, state := (0, 0, 0, 0), buffer := map (\<lambda>_. 0) (buffer ctx)\<rparr>))"

definition utils_md5_clone :: "iot_md5_context \<Rightarrow> iot_md5_context \<Rightarrow> iot_md5_context" where
  "utils_md5_clone dst src = src"

definition utils_md5_starts :: "iot_md5_context \<Rightarrow> iot_md5_context" where
  "utils_md5_starts ctx = ctx\<lparr>total0 := 0, total1 := 0, state := (0x67452301, 0xEFCDAB89, 0x98BADCFE, 0x10325476)\<rparr>"

text \<open>The loop over complete blocks: the context and the data that are left.\<close>

function md5_blocks :: "iot_md5_context \<Rightarrow> bytes \<Rightarrow> iot_md5_context \<times> bytes" where
  "md5_blocks ctx input =
     (if 64 \<le> length input then md5_blocks (utils_md5_process ctx (take 64 input)) (drop 64 input) else (ctx, input))"
  by pat_completeness auto
termination by (relation "measure (\<lambda>(ctx, input). length input)") auto

declare md5_blocks.simps [simp del]

definition utils_md5_update :: "iot_md5_context \<Rightarrow> bytes \<Rightarrow> size_t \<Rightarrow> iot_md5_context option" where
  "utils_md5_update ctx input ilen =
     (if unat ilen > length input then None
      else if ilen = 0 then Some ctx
      else do {
        let input = take (unat ilen) input;
        let left = total0 ctx AND 0x3F;
        let fill = 64 - left;
        let ctx = ctx\<lparr>total0 := total0 ctx + ilen\<rparr>;
        let ctx = (if total0 ctx < ilen then ctx\<lparr>total1 := total1 ctx + 1\<rparr> else ctx);
        (ctx, input, left) \<leftarrow> (if left \<noteq> 0 \<and> ilen \<ge> fill then do {
            b \<leftarrow> copy_in (buffer ctx) (unat left) (take (unat fill) input);
            let ctx = utils_md5_process (ctx\<lparr>buffer := b\<rparr>) b;
            Some (ctx, drop (unat fill) input, 0) }
          else Some (ctx, input, left));
        let (ctx, input) = md5_blocks ctx input;
        copy_rest ctx (unat left) input })"

definition iot_md5_padding :: bytes where
  "iot_md5_padding = 0x80 # replicate 63 0"

text \<open>The output, and the context that is left.\<close>

definition utils_md5_finish :: "iot_md5_context \<Rightarrow> (bytes \<times> iot_md5_context) option" where
  "utils_md5_finish ctx = do {
     let high = drop_bit 29 (total0 ctx) OR push_bit 3 (total1 ctx);
     let low = push_bit 3 (total0 ctx);
     let msglen = put_uint32_le low @ put_uint32_le high;
     let last = total0 ctx AND 0x3F;
     let padn = (if last < 56 then 56 - last else 120 - last);
     ctx \<leftarrow> utils_md5_update ctx iot_md5_padding padn;
     ctx \<leftarrow> utils_md5_update ctx msglen 8;
     let (s0, s1, s2, s3) = state ctx;
     Some (put_uint32_le s0 @ put_uint32_le s1 @ put_uint32_le s2 @ put_uint32_le s3, ctx) }"

definition utils_md5 :: "bytes \<Rightarrow> size_t \<Rightarrow> bytes option" where
  "utils_md5 input ilen = do {
     let ctx = utils_md5_init;
     let ctx = utils_md5_starts ctx;
     ctx \<leftarrow> utils_md5_update ctx input ilen;
     (output, ctx) \<leftarrow> utils_md5_finish ctx;
     let freed = utils_md5_free (Some ctx);
     Some output }"

definition utils_hb2hex :: "u8 \<Rightarrow> u8" where
  "utils_hb2hex hb = (let hb = hb AND 0xF in if hb < 10 then 48 + hb else hb - 10 + 97)"

text \<open>The 33 bytes stored at \<open>output_str\<close>.\<close>

definition utils_md5_finish_hb2hex :: "iot_md5_context \<Rightarrow> (bytes \<times> iot_md5_context) option" where
  "utils_md5_finish_hb2hex md5 = do {
     (buf_out, md5) \<leftarrow> utils_md5_finish md5;
     Some (concat (map (\<lambda>b. [utils_hb2hex (drop_bit 4 b), utils_hb2hex b]) buf_out) @ [0], md5) }"


section \<open>MD5 as in RFC 1321\<close>

text \<open>The 64 operations: auxiliary functions, message words, shifts, and the table of \<open>floor (2 ^ 32 * \<bar>sin i\<bar>)\<close>.\<close>

definition rfc_F :: "nat \<Rightarrow> u32 \<Rightarrow> u32 \<Rightarrow> u32 \<Rightarrow> u32" where
  "rfc_F i x y z =
     (if i < 16 then (x AND y) OR (NOT x AND z)
      else if i < 32 then (x AND z) OR (y AND NOT z)
      else if i < 48 then x XOR y XOR z
      else y XOR (x OR NOT z))"

definition rfc_index :: "nat \<Rightarrow> nat" where
  "rfc_index i = (if i < 16 then i else if i < 32 then (5 * i + 1) mod 16 else if i < 48 then (3 * i + 5) mod 16 else 7 * i mod 16)"

definition rfc_shift :: "nat \<Rightarrow> nat" where
  "rfc_shift i = [[7, 12, 17, 22], [5, 9, 14, 20], [4, 11, 16, 23], [6, 10, 15, 21]] ! (i div 16) ! (i mod 4)"

definition rfc_T :: "u32 list" where
  "rfc_T = [0xd76aa478, 0xe8c7b756, 0x242070db, 0xc1bdceee, 0xf57c0faf, 0x4787c62a, 0xa8304613, 0xfd469501,
     0x698098d8, 0x8b44f7af, 0xffff5bb1, 0x895cd7be, 0x6b901122, 0xfd987193, 0xa679438e, 0x49b40821,
     0xf61e2562, 0xc040b340, 0x265e5a51, 0xe9b6c7aa, 0xd62f105d, 0x02441453, 0xd8a1e681, 0xe7d3fbc8,
     0x21e1cde6, 0xc33707d6, 0xf4d50d87, 0x455a14ed, 0xa9e3e905, 0xfcefa3f8, 0x676f02d9, 0x8d2a4c8a,
     0xfffa3942, 0x8771f681, 0x6d9d6122, 0xfde5380c, 0xa4beea44, 0x4bdecfa9, 0xf6bb4b60, 0xbebfbc70,
     0x289b7ec6, 0xeaa127fa, 0xd4ef3085, 0x04881d05, 0xd9d4d039, 0xe6db99e5, 0x1fa27cf8, 0xc4ac5665,
     0xf4292244, 0x432aff97, 0xab9423a7, 0xfc93a039, 0x655b59c3, 0x8f0ccc92, 0xffeff47d, 0x85845dd1,
     0x6fa87e4f, 0xfe2ce6e0, 0xa3014314, 0x4e0811a1, 0xf7537e82, 0xbd3af235, 0x2ad7d2bb, 0xeb86d391]"

definition rfc_step :: "u32 list \<Rightarrow> md5_state \<Rightarrow> nat \<Rightarrow> md5_state" where
  "rfc_step X = (\<lambda>(a, b, c, d) i.
     (d, b + word_rotl (rfc_shift i) (a + rfc_F i b c d + X ! rfc_index i + rfc_T ! i), b, c))"

definition rfc_compress :: "md5_state \<Rightarrow> bytes \<Rightarrow> md5_state" where
  "rfc_compress st data =
     (case (st, foldl (rfc_step (map (\<lambda>i. get_uint32_le data (4 * i)) [0..<16])) st [0..<64]) of
        ((s0, s1, s2, s3), (A, B, C, D)) \<Rightarrow> (s0 + A, s1 + B, s2 + C, s3 + D))"

definition le64 :: "64 word \<Rightarrow> bytes" where
  "le64 n = put_uint32_le (ucast n) @ put_uint32_le (ucast (drop_bit 32 n))"

definition md5_digest :: "bytes \<Rightarrow> bytes" where
  "md5_digest m = (case absorb rfc_compress (0x67452301, 0xEFCDAB89, 0x98BADCFE, 0x10325476) (padded le64 m) of
     (A, B, C, D) \<Rightarrow> put_uint32_le A @ put_uint32_le B @ put_uint32_le C @ put_uint32_le D)"

section \<open>The compression function is the one of the RFC\<close>

lemma md5_S_rotl:
  assumes "0 < n" and "n < 32"
  shows "md5_S x n = word_rotl n x"
proof (rule bit_word_eqI)
  fix i :: nat assume "i < LENGTH(32)"
  then have i: "i < 32" by simp
  have "(0xFFFFFFFF :: u32) = - 1" by code_simp
  then have f: "x AND 0xFFFFFFFF = x" by (simp only: and.right_neutral)
  show "bit (md5_S x n) i = bit (word_rotl n x) i"
  proof (cases "i < n")
    case True
    then have "(i + (32 - n)) mod 32 = 32 - n + i" using assms i by simp
    then show ?thesis using True i assms by (simp add: md5_S_def f bit_simps)
  next
    case False
    have "bit x (32 - n + i) = False" using False i assms bit_imp_le_length [of x "32 - n + i"] by auto
    moreover have "(i + (32 - n)) mod 32 = i - n" using False i assms by (simp add: le_mod_geq)
    ultimately show ?thesis using False i assms by (simp add: md5_S_def f bit_simps)
  qed
qed


text \<open>The tables of the four rounds.\<close>

lemma md5_ops:
  "md5_ops1 = map (\<lambda>i. (rfc_index i, rfc_shift i, rfc_T ! i)) [0..<16]"
  "md5_ops2 = map (\<lambda>i. (rfc_index i, rfc_shift i, rfc_T ! i)) [16..<32]"
  "md5_ops3 = map (\<lambda>i. (rfc_index i, rfc_shift i, rfc_T ! i)) [32..<48]"
  "md5_ops4 = map (\<lambda>i. (rfc_index i, rfc_shift i, rfc_T ! i)) [48..<64]"
  by code_simp+

lemma rfc_shift_range: "i < 64 \<Longrightarrow> 0 < rfc_shift i \<and> rfc_shift i < 32"
proof -
  have "\<forall>i\<in>set [0..<64]. 0 < rfc_shift i \<and> rfc_shift i < 32" by code_simp
  then show "i < 64 \<Longrightarrow> ?thesis" by simp
qed

lemma md5_round:
  assumes "k \<le> 64" and "\<And>i x y z. j \<le> i \<Longrightarrow> i < k \<Longrightarrow> F x y z = rfc_F i x y z"
  shows "foldl (md5_P F X) r (map (\<lambda>i. (rfc_index i, rfc_shift i, rfc_T ! i)) [j..<k]) = foldl (rfc_step X) r [j..<k]"
proof -
  have "md5_P F X s (rfc_index i, rfc_shift i, rfc_T ! i) = rfc_step X s i" if "i \<in> set [j..<k]" for s i
    using that assms(1) assms(2) [of i] rfc_shift_range [of i]
    by (auto simp: md5_P_def rfc_step_def md5_S_rotl Let_def ac_simps split: prod.splits)
  then show ?thesis unfolding foldl_map by (intro foldl_cong refl)
qed

lemma rfc_F_optimised:
  "z XOR (x AND (y XOR z)) = (x AND y) OR (NOT x AND z)" "y XOR (z AND (x XOR y)) = (x AND z) OR (y AND NOT z)" for x y z :: u32
  by (rule bit_word_eqI, auto simp: bit_simps)+

lemma md5_rounds:
  "foldl (md5_P (\<lambda>x y z. z XOR (x AND (y XOR z))) X) r md5_ops1 = foldl (rfc_step X) r [0..<16]"
  "foldl (md5_P (\<lambda>x y z. y XOR (z AND (x XOR y))) X) r md5_ops2 = foldl (rfc_step X) r [16..<32]"
  "foldl (md5_P (\<lambda>x y z. x XOR y XOR z) X) r md5_ops3 = foldl (rfc_step X) r [32..<48]"
  "foldl (md5_P (\<lambda>x y z. y XOR (x OR NOT z)) X) r md5_ops4 = foldl (rfc_step X) r [48..<64]"
  unfolding md5_ops by (rule md5_round; simp add: rfc_F_def rfc_F_optimised ac_simps)+

lemma upt_64: "[0..<64] = [0..<16] @ [16..<32] @ [32..<48] @ [48..<64]"
  by code_simp

lemma process_compress: "utils_md5_process c b = c\<lparr>state := rfc_compress (state c) b\<rparr>"
  unfolding utils_md5_process_def rfc_compress_def Let_def upt_64 foldl_append md5_rounds ..

interpretation md5: block_hash utils_md5_process md5_blocks utils_md5_update rfc_compress
  by unfold_locales (rule process_compress md5_blocks.simps utils_md5_update_def)+

section \<open>Digests\<close>

lemma le64_halves: "le64 (of_nat (unat h * 2 ^ 32 + unat l)) = put_uint32_le l @ put_uint32_le h"
  by (simp only: le64_def halves_u64)

lemma length_put [simp]: "length (put_uint32_le n) = 4" by (simp add: put_uint32_le_def)

lemma finish_digest:
  assumes "md5.absorbed (0x67452301, 0xEFCDAB89, 0x98BADCFE, 0x10325476) m c" and "length m < 2 ^ 61"
  shows "\<exists>c'. utils_md5_finish c = Some (md5_digest m, c')"
proof -
  from md5.finish_absorbed [where enc = le64, OF assms refl refl refl refl le64_halves [symmetric]]
  obtain c1 c2 where "utils_md5_update c (0x80 # replicate 63 0) (if total0 c AND 0x3F < 56 then 56 - (total0 c AND 0x3F) else 120 - (total0 c AND 0x3F)) = Some c1"
    "utils_md5_update c1 (put_uint32_le (push_bit 3 (total0 c)) @ put_uint32_le (drop_bit 29 (total0 c) OR push_bit 3 (total1 c))) 8 = Some c2"
    "md5.absorbed (0x67452301, 0xEFCDAB89, 0x98BADCFE, 0x10325476) (padded le64 m) c2"
    by auto
  then show ?thesis
    by (auto simp: utils_md5_finish_def iot_md5_padding_def md5_digest_def md5.absorbed_def Let_def split: prod.splits)
qed


lemma starts_absorbed:
  "length (buffer ctx) = 64 \<Longrightarrow> md5.absorbed (0x67452301, 0xEFCDAB89, 0x98BADCFE, 0x10325476) [] (utils_md5_starts ctx)"
  by (simp add: md5.absorbed_def utils_md5_starts_def count_def)

section \<open>Properties\<close>

text \<open>
  C24. MD5.  After \<open>utils_md5_starts\<close> on a context with its 64-byte buffer, absorbing any pieces of data with \<open>utils_md5_update\<close> (each
  shorter than \<open>2\<^sup>3\<^sup>2\<close> bytes, together shorter than \<open>2\<^sup>6\<^sup>1\<close>) and finishing never leaves the buffer and gives the
  MD5 digest of RFC 1321 of their concatenation, however they are cut; the one-shot function \<open>utils_md5\<close> gives the
  same digest, and the hexadecimal output is it, two digits per byte.
\<close>
theorem md5_streaming:
  assumes "length (buffer ctx) = 64" and "\<forall>x\<in>set xs. length x < 2 ^ 32" and "length (concat xs) < 2 ^ 61"
  shows "\<exists>c c'. feed utils_md5_update (utils_md5_starts ctx) xs = Some c
    \<and> utils_md5_finish c = Some (md5_digest (concat xs), c')
    \<and> utils_md5_finish_hb2hex c = Some (concat (map (\<lambda>b. [utils_hb2hex (drop_bit 4 b), utils_hb2hex b]) (md5_digest (concat xs))) @ [0], c')
    \<and> (\<forall>m. xs = [m] \<longrightarrow> utils_md5 m (of_nat (length m)) = Some (md5_digest m))"
proof -
  from md5.feed_absorbed [OF starts_absorbed [OF assms(1)] assms(2)] obtain c where
    c: "feed utils_md5_update (utils_md5_starts ctx) xs = Some c"
      "md5.absorbed (0x67452301, 0xEFCDAB89, 0x98BADCFE, 0x10325476) (concat xs) c" by auto
  from finish_digest [OF c(2) assms(3)] obtain c' where f: "utils_md5_finish c = Some (md5_digest (concat xs), c')" ..
  have "utils_md5 m (of_nat (length m)) = Some (md5_digest m)" if "xs = [m]" for m
  proof -
    have "length (buffer utils_md5_init) = 64" by (simp add: utils_md5_init_def)
    from md5.feed_absorbed [OF starts_absorbed [OF this] assms(2)] that obtain d where
      d: "utils_md5_update (utils_md5_starts utils_md5_init) m (of_nat (length m)) = Some d"
        "md5.absorbed (0x67452301, 0xEFCDAB89, 0x98BADCFE, 0x10325476) m d" by auto
    from finish_digest [OF d(2)] assms(3) that d(1) show ?thesis by (auto simp: utils_md5_def)
  qed
  with c f show ?thesis by (auto simp: utils_md5_finish_hb2hex_def)
qed

theorem md5_streaming_witness:
  "\<exists>c c'. feed utils_md5_update (utils_md5_starts utils_md5_init) [str ''a'', str ''bc''] = Some c
    \<and> utils_md5_finish c = Some (md5_digest (str ''abc''), c')"
proof -
  have "length (buffer utils_md5_init) = 64" by (simp add: utils_md5_init_def)
  from md5_streaming [OF this, of "[str ''a'', str ''bc'']"] show ?thesis by (auto simp: str_def)
qed

lemma md5_abc:
  "utils_md5 (str ''abc'') 3 = Some [0x90, 0x01, 0x50, 0x98, 0x3c, 0xd2, 0x4f, 0xb0, 0xd6, 0x96, 0x3f, 0x7d, 0x28, 0xe1, 0x7f, 0x72]"
  by code_simp

end
