(* ===== verification/Utils_Httpc.thy ===== *)
theory Utils_Httpc
  imports Hal_Timer Utils_Numbers Utils_Md5
begin

text \<open>
  The HTTP client (\<^verbatim>\<open>utils_httpc.c\<close>) on top of \<^verbatim>\<open>utils_net.c\<close> in its TCP configuration.  The network is
  the one of the platform record; \<open>net_handle\<close> is the handle of the connection: 0 when there is none, \<open>-1\<close> after a failed
  connect or a disconnect, anything else a connection.  Buffers are byte lists; an access outside of them, a negative
  length and a number that \<open>atoi\<close> cannot represent are \<open>None\<close>, and so is fuel that runs out in the two loops that wait for the
  network.  The fields of \<open>http_client_t\<close> that no function reads (port, user, password) are left out.
\<close>

abbreviation (input) ERR_HTTP_CLOSED :: int where "ERR_HTTP_CLOSED \<equiv> - 3"
abbreviation (input) ERR_HTTP_UNRESOLVED_DNS :: int where "ERR_HTTP_UNRESOLVED_DNS \<equiv> - 6"
abbreviation (input) ERR_HTTP_CONN_ERROR :: int where "ERR_HTTP_CONN_ERROR \<equiv> - 8"
abbreviation (input) ERR_HTTP_AUTH_ERROR :: int where "ERR_HTTP_AUTH_ERROR \<equiv> - 9"
abbreviation (input) ERR_HTTP_NOT_FOUND :: int where "ERR_HTTP_NOT_FOUND \<equiv> - 10"
abbreviation (input) ERR_HTTP_TIMEOUT :: int where "ERR_HTTP_TIMEOUT \<equiv> - 11"
abbreviation (input) HTTP_RETRIEVE_MORE_DATA :: int where "HTTP_RETRIEVE_MORE_DATA \<equiv> 1"

abbreviation (input) HTTP_CLIENT_READ_BUF_SIZE :: nat where "HTTP_CLIENT_READ_BUF_SIZE \<equiv> 1024"
abbreviation (input) HTTP_CLIENT_READ_HEAD_SIZE :: int where "HTTP_CLIENT_READ_HEAD_SIZE \<equiv> 32"
abbreviation (input) HTTP_CLIENT_SEND_BUF_SIZE :: nat where "HTTP_CLIENT_SEND_BUF_SIZE \<equiv> 1024"
abbreviation (input) HTTP_CLIENT_REQUEST_BUF_SIZE :: nat where "HTTP_CLIENT_REQUEST_BUF_SIZE \<equiv> 300"
abbreviation (input) HTTP_CLIENT_MAX_URL_LEN :: nat where "HTTP_CLIENT_MAX_URL_LEN \<equiv> 256"
abbreviation (input) HTTP_CLIENT_CHUNK_SIZE :: int where "HTTP_CLIENT_CHUNK_SIZE \<equiv> 1024"
abbreviation (input) MIN_TIMEOUT :: int where "MIN_TIMEOUT \<equiv> 100"
abbreviation (input) MAX_RETRY_COUNT :: nat where "MAX_RETRY_COUNT \<equiv> 600"

section \<open>State\<close>

datatype HTTP_Request_Method = HTTP_GET | HTTP_POST | HTTP_PUT | HTTP_DELETE | HTTP_HEAD

record http_client =
  net_handle :: u32
  response_code :: int
  http_header :: "cstr option"

record http_client_data =
  is_more :: bool
  is_chunked :: bool
  retrieve_len :: int
  response_content_len :: int
  response_received_len :: int
  response_buf_len :: int
  post_content_type :: "cstr option"
  post_buf :: "bytes option"
  post_buf_len :: nat
  response_buf :: "bytes option"

section \<open>The network\<close>

definition utils_net_init :: "http_client \<Rightarrow> http_client" where
  "utils_net_init client = client\<lparr>net_handle := 0\<rparr>"

definition utils_net_connect :: "'w hal \<Rightarrow> http_client \<Rightarrow> 'w \<Rightarrow> (int \<times> http_client) \<times> 'w" where
  "utils_net_connect hal client w =
     (let (rc, w) = net_connect hal w
      in if rc = SUCCESS_RET then ((SUCCESS_RET, client\<lparr>net_handle := 1\<rparr>), w)
         else ((FAILURE_RET, client\<lparr>net_handle := - 1\<rparr>), w))"

definition utils_net_disconnect :: "'w hal \<Rightarrow> http_client \<Rightarrow> 'w \<Rightarrow> (int \<times> http_client) \<times> 'w" where
  "utils_net_disconnect hal client w = ((SUCCESS_RET, client\<lparr>net_handle := - 1\<rparr>), net_disconnect hal w)"

text \<open>On the handle \<open>-1\<close> the socket calls of the port fail.\<close>

definition utils_net_write :: "'w hal \<Rightarrow> http_client \<Rightarrow> bytes \<Rightarrow> u32 \<Rightarrow> 'w \<Rightarrow> int \<times> 'w" where
  "utils_net_write hal client data timeout_ms w =
     (if net_handle client = - 1 then (ERR_TCP_WRITE_FAILED, w) else net_write hal data timeout_ms w)"

definition utils_net_read :: "'w hal \<Rightarrow> http_client \<Rightarrow> int \<Rightarrow> u32 \<Rightarrow> 'w \<Rightarrow> (int \<times> bytes) \<times> 'w" where
  "utils_net_read hal client len timeout_ms w =
     (if net_handle client = - 1 then ((ERR_TCP_READ_FAILED, []), w) else net_read hal (of_int len) timeout_ms w)"

section \<open>Strings\<close>

text \<open>The first occurrence of a text.\<close>

fun find_text :: "cstr \<Rightarrow> cstr \<Rightarrow> nat option" where
  "find_text t [] = (if t = [] then Some 0 else None)"
| "find_text t (c # cs) = (if take (length t) (c # cs) = t then Some 0 else map_option Suc (find_text t cs))"

definition strstr_at :: "bytes \<Rightarrow> pos \<Rightarrow> cstr \<Rightarrow> pos option option" where
  "strstr_at m p t = do { l \<leftarrow> strlen_at m p; Some (map_option ((+) p) (find_text t (take l (drop p m)))) }"

definition atoi_at :: "bytes \<Rightarrow> pos \<Rightarrow> int option" where
  "atoi_at m p = do {
     l \<leftarrow> strlen_at m p;
     case scan_int 10 (take l (drop p m)) of None \<Rightarrow> Some 0
     | Some v \<Rightarrow> if - (2 ^ 31) \<le> v \<and> v < 2 ^ 31 then Some v else None }"

text \<open>\<open>memmove\<close> inside a buffer.\<close>

definition memmove :: "bytes \<Rightarrow> pos \<Rightarrow> pos \<Rightarrow> int \<Rightarrow> bytes option" where
  "memmove m dst src n = (if n < 0 \<or> src + nat n > length m then None else poke_bytes m dst (slice m src (nat n)))"

definition CRLF :: cstr where "CRLF = [13, 10]"

text \<open>The host and the path of a URL, stored in two arrays of \<open>HTTP_CLIENT_MAX_URL_LEN\<close> bytes.\<close>

definition utils_parse_url :: "cstr \<Rightarrow> (int \<times> cstr \<times> cstr) option" where
  "utils_parse_url url =
     (case find_text (str ''://'') url of None \<Rightarrow> Some (ERR_PARAM_INVALID, [], [])
      | Some i \<Rightarrow>
          let host_ptr = drop (i + 3) url
          in case find_text (str ''/'') host_ptr of None \<Rightarrow> Some (ERR_PARAM_INVALID, [], [])
             | Some host_len \<Rightarrow>
                 let path_end = (case find_text (str ''#'') host_ptr of Some k \<Rightarrow> k | None \<Rightarrow> length host_ptr)
                 in if host_len \<ge> HTTP_CLIENT_MAX_URL_LEN \<or> path_end < host_len
                       \<or> path_end - host_len \<ge> HTTP_CLIENT_MAX_URL_LEN then None
                    else Some (SUCCESS_RET, take host_len host_ptr, take (path_end - host_len) (drop host_len host_ptr)))"

section \<open>Sending\<close>

text \<open>
  The loop of \<open>_utils_fill_tx_buffer\<close> over the text that is left: the buffer with the number of bytes in it.  With an
  error \<open>*send_idx\<close> keeps its value.
\<close>

function fill_loop :: "'w hal \<Rightarrow> http_client \<Rightarrow> bytes \<Rightarrow> nat \<Rightarrow> bytes \<Rightarrow> 'w \<Rightarrow> (int \<times> bytes \<times> nat) \<times> 'w" where
  "fill_loop hal client send_buf idx buf w =
     (let cp_len = min (length buf) (HTTP_CLIENT_SEND_BUF_SIZE - idx);
          send_buf = take idx send_buf @ take cp_len buf @ drop (idx + cp_len) send_buf;
          rest = drop cp_len buf;
          idx' = idx + cp_len
      in if idx' = HTTP_CLIENT_SEND_BUF_SIZE
         then let (ret, w) = utils_net_write hal client (take HTTP_CLIENT_SEND_BUF_SIZE send_buf) 5000 w
           in if ret < 0 then ((ret, send_buf, idx), w)
              else if ret \<noteq> int HTTP_CLIENT_SEND_BUF_SIZE then ((if ret = 0 then ERR_HTTP_CLOSED else ERR_HTTP_CONN_ERROR, send_buf, idx), w)
              else if rest = [] then ((SUCCESS_RET, send_buf, 0), w)
              else fill_loop hal client send_buf 0 rest w
         else ((SUCCESS_RET, send_buf, idx'), w))"
  by pat_completeness auto
termination
  by (relation "measure (\<lambda>(hal, client, send_buf, idx, buf, w). 2 * length buf + idx)") auto

declare fill_loop.simps [simp del]

definition utils_fill_tx_buffer :: "'w hal \<Rightarrow> http_client \<Rightarrow> bytes \<Rightarrow> nat \<Rightarrow> cstr \<Rightarrow> 'w \<Rightarrow> (int \<times> bytes \<times> nat) \<times> 'w" where
  "utils_fill_tx_buffer hal client send_buf idx buf w =
     (let ((ret, send_buf, idx'), w) = fill_loop hal client send_buf idx buf w
      in ((ret, send_buf, if ret < 0 then idx else idx'), w))"

definition method_name :: "HTTP_Request_Method \<Rightarrow> cstr" where
  "method_name meth = (case meth of HTTP_GET \<Rightarrow> str ''GET'' | HTTP_POST \<Rightarrow> str ''POST'' | HTTP_PUT \<Rightarrow> str ''PUT''
     | HTTP_DELETE \<Rightarrow> str ''DELETE'' | HTTP_HEAD \<Rightarrow> str ''HEAD'')"

text \<open>The request line, the host and the range; the numbers are printed as signed integers.\<close>

definition request_text :: "cstr \<Rightarrow> cstr \<Rightarrow> HTTP_Request_Method \<Rightarrow> u32 \<Rightarrow> size_t \<Rightarrow> cstr" where
  "request_text host path meth size_fetched range_len =
     method_name meth @ str '' '' @ path @ str '' HTTP/1.1'' @ CRLF @ str ''Host: '' @ host @ CRLF
     @ (if range_len \<noteq> 0 then str ''Range: bytes='' @ dec_int (sint size_fetched) @ str ''-'' @ dec_int (sint (size_fetched + range_len)) @ CRLF
        else [])"

text \<open>The errors of the later calls of \<open>_utils_fill_tx_buffer\<close> are ignored.\<close>

definition http_send_header ::
  "'w hal \<Rightarrow> http_client \<Rightarrow> cstr \<Rightarrow> cstr \<Rightarrow> HTTP_Request_Method \<Rightarrow> u32 \<Rightarrow> size_t \<Rightarrow> http_client_data \<Rightarrow> 'w \<Rightarrow> int \<times> 'w" where
  "http_send_header hal client host path meth size_fetched range_len client_data w =
     (let send_buf = replicate HTTP_CLIENT_SEND_BUF_SIZE 0;
          buf = fst (HAL_Snprintf HTTP_CLIENT_REQUEST_BUF_SIZE (request_text host path meth size_fetched range_len));
          ((ret, send_buf, len), w) = utils_fill_tx_buffer hal client send_buf 0 buf w
      in if ret < 0 then (ERR_HTTP_CONN_ERROR, w)
         else let
           ((_, send_buf, len), w) =
             (case http_header client of None \<Rightarrow> ((0, send_buf, len), w)
              | Some h \<Rightarrow> utils_fill_tx_buffer hal client send_buf len h w);
           ((_, send_buf, len), w) =
             (if post_buf client_data = None then ((0, send_buf, len), w)
              else let
                buf = fst (HAL_Snprintf HTTP_CLIENT_REQUEST_BUF_SIZE (str ''Content-Length: '' @ dec_int (int (post_buf_len client_data)) @ CRLF));
                ((_, send_buf, len), w) = utils_fill_tx_buffer hal client send_buf len buf w
              in case post_content_type client_data of None \<Rightarrow> ((0, send_buf, len), w)
                 | Some t \<Rightarrow> utils_fill_tx_buffer hal client send_buf len
                     (fst (HAL_Snprintf HTTP_CLIENT_REQUEST_BUF_SIZE (str ''Content-Type: '' @ t @ CRLF))) w);
           ((_, send_buf, len), w) = utils_fill_tx_buffer hal client send_buf len CRLF w;
           (ret, w) = utils_net_write hal client (take len send_buf) 5000 w
         in (if ret \<le> 0 then if ret = 0 then ERR_HTTP_CLOSED else ERR_HTTP_CONN_ERROR else SUCCESS_RET, w))"

definition http_send_user_data :: "'w hal \<Rightarrow> http_client \<Rightarrow> http_client_data \<Rightarrow> u32 \<Rightarrow> 'w \<Rightarrow> (int \<times> 'w) option" where
  "http_send_user_data hal client client_data timeout_ms w =
     (case post_buf client_data of None \<Rightarrow> Some (SUCCESS_RET, w)
      | Some data \<Rightarrow>
          if post_buf_len client_data = 0 then Some (SUCCESS_RET, w)
          else if post_buf_len client_data > length data then None
          else Some (let (ret, w) = utils_net_write hal client (take (post_buf_len client_data) data) timeout_ms w
            in (if ret \<le> 0 then if ret = 0 then ERR_HTTP_CLOSED else ERR_HTTP_CONN_ERROR else SUCCESS_RET, w)))"

section \<open>Receiving\<close>

text \<open>The return value, \<open>*p_read_len\<close> and the bytes stored at the buffer.\<close>

definition http_recv :: "'w hal \<Rightarrow> http_client \<Rightarrow> int \<Rightarrow> u32 \<Rightarrow> 'w \<Rightarrow> (int \<times> int \<times> bytes) \<times> 'w" where
  "http_recv hal client max_len timeout_ms w =
     (let ((ret, bs), w) = utils_net_read hal client max_len timeout_ms w
      in (if ret > 0 then (0, ret, bs) else if ret = 0 then (FAILURE_RET, 0, bs) else (ERR_HTTP_CONN_ERROR, 0, bs), w))"

text \<open>The return value, the timer and the two counters.\<close>

definition utils_check_deadloop :: "'w hal \<Rightarrow> int \<Rightarrow> Timer \<Rightarrow> int \<Rightarrow> nat \<Rightarrow> nat \<Rightarrow> 'w \<Rightarrow> (int \<times> Timer \<times> nat \<times> nat) \<times> 'w" where
  "utils_check_deadloop hal len timer ret dead_loop_count extend_count w =
     (let (left, w) = left_ms_w hal timer w;
          (timer, extend_count, w) =
            (if left < MIN_TIMEOUT then let (t, w) = countdown_ms_w hal (of_int MIN_TIMEOUT) w in (t, extend_count + 1, w)
             else (timer, extend_count, w));
          (dead, w) = (if len = 0 then let (left, w) = left_ms_w hal timer w in (left = 0 \<and> ret = FAILURE_RET, w) else (False, w));
          dead_loop_count = (if dead then dead_loop_count + 1 else 0)
      in ((if dead \<and> dead_loop_count > MAX_RETRY_COUNT then ERR_HTTP_CONN_ERROR
           else if len = 0 \<and> extend_count > 2 * MAX_RETRY_COUNT \<and> ret = FAILURE_RET then ERR_HTTP_CONN_ERROR else SUCCESS_RET,
           timer, dead_loop_count, extend_count), w))"

text \<open>
  The return value, \<open>*recv_count\<close> and the data structure.  What does not fit into the response buffer is dropped.
\<close>

definition utils_fill_rx_buf :: "nat \<Rightarrow> int \<Rightarrow> http_client_data \<Rightarrow> bytes \<Rightarrow> (int \<times> nat \<times> http_client_data) option" where
  "utils_fill_rx_buf cnt len client_data data = do {
     rb \<leftarrow> response_buf client_data;
     let room = response_buf_len client_data - 1;
     let n = (if int cnt + len < room then len else room - int cnt);
     if n < 0 \<or> nat n > length data then None
     else do {
       rb \<leftarrow> poke_bytes rb cnt (take (nat n) data);
       rb \<leftarrow> poke rb (cnt + nat n) 0;
       let client_data = client_data\<lparr>response_buf := Some rb, retrieve_len := retrieve_len client_data - n\<rparr>;
       if int cnt + len < room then Some (SUCCESS_RET, cnt + nat n, client_data)
       else Some (HTTP_RETRIEVE_MORE_DATA, cnt, client_data) } }"

text \<open>
  The inner loop of \<open>_http_get_response_body\<close>: \<open>data\<close> is the buffer, \<open>received\<close> the number of bytes in it, \<open>written\<close> the
  number of bytes in the response buffer.
\<close>

primrec body_loop ::
  "'w hal \<Rightarrow> nat \<Rightarrow> http_client \<Rightarrow> u32 \<Rightarrow> Timer \<Rightarrow> nat \<Rightarrow> nat \<Rightarrow> bytes \<Rightarrow> int \<Rightarrow> nat \<Rightarrow> http_client_data \<Rightarrow> 'w
    \<Rightarrow> ((int \<times> http_client_data) \<times> 'w) option" where
  "body_loop hal 0 client timeout_ms timer dead ext data received written client_data w = None"
| "body_loop hal (Suc fuel) client timeout_ms timer dead ext data received written client_data w = do {
     (res, written, client_data) \<leftarrow>
       utils_fill_rx_buf written (min received (retrieve_len client_data)) client_data data;
     if res = HTTP_RETRIEVE_MORE_DATA then Some ((HTTP_RETRIEVE_MORE_DATA, client_data), w)
     else if retrieve_len client_data = 0 then Some ((SUCCESS_RET, client_data\<lparr>is_more := False\<rparr>), w)
     else do {
       let max_len = min (HTTP_CLIENT_CHUNK_SIZE - 1) (response_buf_len client_data - 1 - int written);
       let max_len = min max_len (retrieve_len client_data);
       let ((ret, received, bs), w) = http_recv hal client max_len timeout_ms w;
       data \<leftarrow> poke_bytes data 0 bs;
       if ret = ERR_HTTP_CONN_ERROR then Some ((ret, client_data), w)
       else do {
         let ((ret, timer, dead, ext), w) = utils_check_deadloop hal received timer ret dead ext w;
         if ret = ERR_HTTP_CONN_ERROR then Some ((ret, client_data), w)
         else body_loop hal fuel client timeout_ms timer dead ext data received written client_data w } } }"

definition http_get_response_body ::
  "'w hal \<Rightarrow> nat \<Rightarrow> http_client \<Rightarrow> bytes \<Rightarrow> int \<Rightarrow> u32 \<Rightarrow> http_client_data \<Rightarrow> 'w \<Rightarrow> ((int \<times> http_client_data) \<times> 'w) option" where
  "http_get_response_body hal fuel client data received timeout_ms client_data w =
     (let (timer, w) = countdown_ms_w hal timeout_ms w;
          client_data = client_data\<lparr>is_more := True\<rparr>
      in if response_content_len client_data = - 1 \<and> \<not> is_chunked client_data then Some ((ERR_HTTP_CONN_ERROR, client_data), w)
         else body_loop hal fuel client timeout_ms timer 0 0 data received 0 client_data w)"

text \<open>The loop that reads more of the header: the position of its end, the buffer and the number of bytes in it.\<close>

primrec header_loop ::
  "'w hal \<Rightarrow> nat \<Rightarrow> http_client \<Rightarrow> u32 \<Rightarrow> bytes \<Rightarrow> nat \<Rightarrow> 'w \<Rightarrow> ((pos option \<times> bytes \<times> nat) \<times> 'w) option" where
  "header_loop hal 0 client timeout_ms data len w = None"
| "header_loop hal (Suc fuel) client timeout_ms data len w = do {
     r \<leftarrow> strstr_at data 0 (CRLF @ CRLF);
     case r of Some p \<Rightarrow> Some ((Some p, data, len), w)
     | None \<Rightarrow> do {
         let ((ret, new_trf_len, bs), w) = http_recv hal client HTTP_CLIENT_READ_HEAD_SIZE timeout_ms w;
         data \<leftarrow> poke_bytes data len bs;
         if ret = ERR_HTTP_CONN_ERROR then Some ((None, data, len), w)
         else do {
           let len = len + nat new_trf_len;
           data \<leftarrow> poke data len 0;
           header_loop hal fuel client timeout_ms data len w } } }"

definition http_parse_response_header ::
  "'w hal \<Rightarrow> nat \<Rightarrow> http_client \<Rightarrow> bytes \<Rightarrow> nat \<Rightarrow> u32 \<Rightarrow> http_client_data \<Rightarrow> 'w
    \<Rightarrow> ((int \<times> http_client \<times> http_client_data) \<times> 'w) option" where
  "http_parse_response_header hal fuel client data len timeout_ms client_data w = do {
     let client_data = client_data\<lparr>response_content_len := - 1\<rparr>;
     crlf \<leftarrow> strstr_at data 0 CRLF;
     case crlf of None \<Rightarrow> Some ((ERR_HTTP_UNRESOLVED_DNS, client, client_data), w)
     | Some crlf_pos \<Rightarrow> do {
         data \<leftarrow> poke data crlf_pos 0;
         code \<leftarrow> atoi_at data 9;
         let client = client\<lparr>response_code := code\<rparr>;
         data \<leftarrow> memmove data 0 (crlf_pos + 2) (int len - int (crlf_pos + 2) + 1);
         let client_data = client_data\<lparr>is_chunked := False\<rparr>;
         ((body_end, data, len), w) \<leftarrow> header_loop hal fuel client timeout_ms data (len - (crlf_pos + 2)) w;
         case body_end of None \<Rightarrow> Some ((ERR_HTTP_CONN_ERROR, client, client_data), w)
         | Some p \<Rightarrow> do {
             tmp \<leftarrow> strstr_at data 0 (str ''Content-Length'');
             case tmp of None \<Rightarrow> Some ((ERR_HTTP_CONN_ERROR, client, client_data), w)
             | Some t \<Rightarrow> do {
                 n \<leftarrow> atoi_at data (t + 16);
                 let client_data = client_data\<lparr>response_content_len := n, retrieve_len := n\<rparr>;
                 let len = int len - int (p + 4);
                 data \<leftarrow> memmove data 0 (p + 4) (len + 1);
                 let client_data = client_data\<lparr>response_received_len := response_received_len client_data + len\<rparr>;
                 ((ret, client_data), w) \<leftarrow> http_get_response_body hal fuel client data len timeout_ms client_data w;
                 Some ((ret, client, client_data), w) } } } }"

definition http_client_recv_response ::
  "'w hal \<Rightarrow> nat \<Rightarrow> http_client \<Rightarrow> u32 \<Rightarrow> http_client_data \<Rightarrow> 'w \<Rightarrow> ((int \<times> http_client \<times> http_client_data) \<times> 'w) option" where
  "http_client_recv_response hal fuel client timeout_ms client_data w =
     (if net_handle client = 0 then Some ((ERR_HTTP_CONN_ERROR, client, client_data), w)
      else do {
        let buf = replicate HTTP_CLIENT_READ_BUF_SIZE 0;
        if is_more client_data then do {
          rb \<leftarrow> response_buf client_data;
          rb \<leftarrow> poke rb 0 0;
          ((ret, client_data), w) \<leftarrow> http_get_response_body hal fuel client buf 0 timeout_ms (client_data\<lparr>response_buf := Some rb\<rparr>) w;
          Some ((ret, client, client_data), w) }
        else do {
          let client_data = client_data\<lparr>is_more := True\<rparr>;
          let ((ret, read_len, bs), w) = http_recv hal client HTTP_CLIENT_READ_HEAD_SIZE timeout_ms w;
          if ret \<noteq> 0 then Some ((ret, client, client_data), w)
          else do {
            buf \<leftarrow> poke_bytes buf 0 bs;
            buf \<leftarrow> poke buf (nat read_len) 0;
            if read_len \<noteq> 0 then http_parse_response_header hal fuel client buf (nat read_len) timeout_ms client_data w
            else Some ((ret, client, client_data), w) } } })"

section \<open>The interface\<close>

definition http_client_close :: "'w hal \<Rightarrow> http_client \<Rightarrow> 'w \<Rightarrow> http_client \<times> 'w" where
  "http_client_close hal client w =
     (let (client, w) =
        (if net_handle client > 0 then let ((_, client), w) = utils_net_disconnect hal client w in (client, w) else (client, w))
      in (client\<lparr>net_handle := 0\<rparr>, w))"

text \<open>\<open>n\<close> attempts are left.\<close>

primrec http_connect_loop :: "'w hal \<Rightarrow> nat \<Rightarrow> http_client \<Rightarrow> 'w \<Rightarrow> http_client \<times> 'w" where
  "http_connect_loop hal 0 client w = (client, w)"
| "http_connect_loop hal (Suc n) client w =
     (let ((rc, client), w) = utils_net_connect hal (client\<lparr>net_handle := 0\<rparr>) w
      in if rc = 0 then (client, w)
         else let ((_, client), w) = utils_net_disconnect hal client w
           in http_connect_loop hal n client (HAL_SleepMs hal 1000 w))"

definition http_connect :: "'w hal \<Rightarrow> http_client \<Rightarrow> 'w \<Rightarrow> (int \<times> http_client) \<times> 'w" where
  "http_connect hal client w = (let (client, w) = http_connect_loop hal 3 client w in ((SUCCESS_RET, client), w))"

definition http_client_connect :: "'w hal \<Rightarrow> http_client \<Rightarrow> cstr \<Rightarrow> 'w \<Rightarrow> ((int \<times> http_client) \<times> 'w) option" where
  "http_client_connect hal client url w =
     (if net_handle client \<noteq> 0 then Some ((ERR_HTTP_CONN_ERROR, client), w)
      else do {
        (rc, host, path) \<leftarrow> utils_parse_url url;
        if rc \<noteq> SUCCESS_RET then Some ((rc, client), w)
        else do {
          let client = utils_net_init client;
          let ((rc, client), w) = http_connect hal client w;
          if rc \<noteq> SUCCESS_RET then (let (client, w) = http_client_close hal client w in Some ((rc, client), w))
          else Some ((rc, client), w) } })"

definition http_send_request ::
  "'w hal \<Rightarrow> http_client \<Rightarrow> cstr \<Rightarrow> HTTP_Request_Method \<Rightarrow> u32 \<Rightarrow> size_t \<Rightarrow> http_client_data \<Rightarrow> u32 \<Rightarrow> 'w \<Rightarrow> (int \<times> 'w) option" where
  "http_send_request hal client url meth size_fetched range_len client_data timeout_ms w =
     (if net_handle client = 0 then Some (- 1, w)
      else do {
        (rc, host, path) \<leftarrow> utils_parse_url url;
        if rc \<noteq> SUCCESS_RET then Some (rc, w)
        else do {
          let (ret, w) = http_send_header hal client host path meth size_fetched range_len client_data w;
          if ret \<noteq> 0 then Some (ERR_HTTP_CONN_ERROR, w)
          else if meth = HTTP_POST \<or> meth = HTTP_PUT then do {
            (ret, w) \<leftarrow> http_send_user_data hal client client_data timeout_ms w;
            Some (if ret < 0 then ERR_HTTP_CONN_ERROR else ret, w) }
          else Some (ret, w) } })"

definition http_client_common ::
  "'w hal \<Rightarrow> http_client \<Rightarrow> cstr \<Rightarrow> HTTP_Request_Method \<Rightarrow> http_client_data \<Rightarrow> u32 \<Rightarrow> 'w \<Rightarrow> ((int \<times> http_client) \<times> 'w) option" where
  "http_client_common hal client url meth client_data timeout_ms w = do {
     ((rc, client), w) \<leftarrow> (if net_handle client = 0 then http_client_connect hal client url w else Some ((SUCCESS_RET, client), w));
     if rc \<noteq> SUCCESS_RET then Some ((rc, client), w)
     else do {
       (rc, w) \<leftarrow> http_send_request hal client url meth 0 0 client_data timeout_ms w;
       if rc \<noteq> SUCCESS_RET then (let (client, w) = http_client_close hal client w in Some ((rc, client), w))
       else Some ((SUCCESS_RET, client), w) } }"

definition http_client_recv_data ::
  "'w hal \<Rightarrow> nat \<Rightarrow> http_client \<Rightarrow> u32 \<Rightarrow> http_client_data \<Rightarrow> 'w \<Rightarrow> ((int \<times> http_client \<times> http_client_data) \<times> 'w) option" where
  "http_client_recv_data hal fuel client timeout_ms client_data w =
     (if response_buf client_data \<noteq> None \<and> response_buf_len client_data \<noteq> 0 then do {
        ((rc, client, client_data), w) \<leftarrow> http_client_recv_response hal fuel client timeout_ms client_data w;
        if rc < 0 then (let (client, w) = http_client_close hal client w in Some ((rc, client, client_data), w))
        else Some ((SUCCESS_RET, client, client_data), w) }
      else Some ((SUCCESS_RET, client, client_data), w))"

definition http_client_buffer_md5 :: "bytes \<Rightarrow> size_t \<Rightarrow> bytes option" where
  "http_client_buffer_md5 buf buffer_len = do {
     let ctx = utils_md5_starts utils_md5_init;
     ctx \<leftarrow> utils_md5_update ctx buf buffer_len;
     (output, ctx) \<leftarrow> utils_md5_finish_hb2hex ctx;
     Some output }"

end
