(* ===== verification/Http_Request.thy ===== *)
theory Http_Request
  imports Utils_Httpc
begin

text \<open>
  What a request of the HTTP client puts on the network.  The first section is about text in a buffer, which the reading of
  responses shares.
\<close>

section \<open>Texts in a buffer\<close>

lemma find_text_bound: "find_text t xs = Some i \<Longrightarrow> i + length t \<le> length xs \<and> take (length t) (drop i xs) = t"
proof (induction t xs arbitrary: i rule: find_text.induct)
  case (2 t c cs)
  show ?case
  proof (cases "take (length t) (c # cs) = t")
    case True
    then have "length t \<le> length (c # cs)" by (metis length_take min.cobounded1)
    then show ?thesis using 2(2) True by simp
  qed (use 2 in auto)
qed (auto split: if_splits)

lemma find_text_append: "find_text t xs = Some i \<Longrightarrow> find_text t (xs @ ys) = Some i"
proof (induction t xs arbitrary: i rule: find_text.induct)
  case (1 t)
  then show ?case by (cases ys) (auto split: if_splits)
next
  case (2 t c cs)
  show ?case
  proof (cases "take (length t) (c # cs) = t")
    case True
    then have "length t \<le> length (c # cs)" by (metis length_take min.cobounded1)
    then have "take (length t) ((c # cs) @ ys) = take (length t) (c # cs)" by (subst take_append) simp
    with True show ?thesis using 2(2) by simp
  next
    case False
    then obtain j where j: "find_text t cs = Some j" "i = Suc j" using 2(2) by auto
    from 2(1) [OF False j(1)] have a: "find_text t (cs @ ys) = Some j" .
    have "take (length t) ((c # cs) @ ys) \<noteq> t"
    proof
      assume "take (length t) ((c # cs) @ ys) = t"
      moreover from find_text_bound [OF j(1)] have "length t \<le> length (c # cs)" by simp
      ultimately show False using False by (metis take_append diff_is_0_eq' take_0 append_Nil2)
    qed
    with a j(2) show ?thesis by simp
  qed
qed

lemma find_text_early:
  assumes "find_text t (xs @ ys) = Some i" and "length xs < i + length t"
  shows "find_text t xs = None"
  using assms find_text_append [of t xs _ ys] find_text_bound [of t xs] by (cases "find_text t xs") auto

abbreviation until_nul :: "bytes \<Rightarrow> cstr" where
  "until_nul xs \<equiv> takeWhile (\<lambda>x. x \<noteq> 0) xs"

lemma strlen_at_nul: "strlen_at (pre @ xs @ 0 # post) (length pre) = Some (length (until_nul xs))"
proof (cases "dropWhile (\<lambda>x. x \<noteq> 0) xs")
  case Nil
  then have n: "\<forall>x \<in> set xs. x \<noteq> 0" by (simp add: dropWhile_eq_Nil_conv)
  then have u: "until_nul xs = xs" by (simp add: takeWhile_eq_all_conv)
  have "0 \<notin> set xs" using n by auto
  from strlen_at_zstr [OF zstr_text [OF this]] show ?thesis unfolding u by simp
next
  case (Cons z zs)
  then have "z = 0" using hd_dropWhile [of "\<lambda>x. x \<noteq> 0" xs] by simp
  with Cons have x: "xs = until_nul xs @ 0 # zs" using takeWhile_dropWhile_id [of "\<lambda>x. x \<noteq> 0" xs] by simp
  have "0 \<notin> set (until_nul xs)" by (auto dest: set_takeWhileD)
  from strlen_at_zstr [OF zstr_text [OF this, of pre "zs @ 0 # post"]]
  have "strlen_at (pre @ (until_nul xs @ 0 # zs) @ 0 # post) (length pre) = Some (length (until_nul xs))" by simp
  then show ?thesis unfolding x [symmetric] .
qed

lemma take_until_nul: "take (length (until_nul xs)) (xs @ ys) = until_nul xs"
  using length_takeWhile_le [of "\<lambda>x. x \<noteq> 0" xs] by (simp add: takeWhile_eq_take [symmetric] take_append)

lemma strstr_at_nul: "strstr_at (xs @ 0 # post) 0 t = Some (find_text t (until_nul xs))"
  using strlen_at_nul [of "[]" xs post]
  by (cases "find_text t (until_nul xs)") (simp_all add: strstr_at_def take_until_nul del: take_append)

lemma until_nul_append: "0 \<notin> set xs \<Longrightarrow> until_nul (xs @ ys) = xs @ until_nul ys"
  by (induction xs) auto

text \<open>Bytes stored behind the text in a buffer, with a terminator.\<close>

lemma put_behind:
  assumes "length xs + length bs \<le> length (xs @ post)" and "length xs + length bs < length (xs @ 0 # post)"
  shows "\<exists>post'. poke_bytes (xs @ 0 # post) (length xs) bs = Some (xs @ bs @ drop (length bs) (0 # post))
    \<and> poke (xs @ bs @ drop (length bs) (0 # post)) (length xs + length bs) 0 = Some (xs @ bs @ 0 # post')
    \<and> length (xs @ bs @ 0 # post') = length (xs @ 0 # post)"
proof -
  have "drop (length bs) (0 # post) \<noteq> []" using assms(2) by simp
  then obtain c cs where c: "drop (length bs) (0 # post) = c # cs" by (metis list.exhaust)
  then have "length (c # cs) = length (0 # post) - length bs" by (metis length_drop)
  with c assms show ?thesis
    by (intro exI [of _ cs]) (simp add: poke_bytes_def poke_def list_update_append)
qed

section \<open>The request\<close>

text \<open>A network that accepts all it is given: \<open>sent\<close> is what has been sent.\<close>

definition accepts_all :: "'w hal \<Rightarrow> ('w \<Rightarrow> bytes) \<Rightarrow> bool" where
  "accepts_all hal sent \<longleftrightarrow> (\<forall>d t w. fst (net_write hal d t w) = int (length d) \<and> sent (snd (net_write hal d t w)) = sent w @ d)"

text \<open>What is on its way: sent, or in the first bytes of the buffer.\<close>

lemma fill_loop_effect:
  assumes "accepts_all hal sent" and "net_handle client \<noteq> - 1" and "length send_buf = 1024" and "idx < 1024"
  shows "\<exists>b i w'. fill_loop hal client send_buf idx buf w = ((SUCCESS_RET, b, i), w') \<and> length b = 1024 \<and> i < 1024
    \<and> sent w' @ take i b = sent w @ take idx send_buf @ buf \<and> i = (idx + length buf) mod 1024"
  using assms(3,4)
proof (induction "2 * length buf + idx" arbitrary: send_buf idx buf w rule: less_induct)
  case less
  let ?cp = "min (length buf) (1024 - idx)" let ?b = "take idx send_buf @ take ?cp buf @ drop (idx + ?cp) send_buf"
  have lb: "length ?b = 1024" using less.prems by simp
  show ?case
  proof (cases "idx + ?cp = 1024")
    case False
    then have cp: "?cp = length buf" "idx + length buf < 1024" using less.prems by auto
    have "fill_loop hal client send_buf idx buf w = ((SUCCESS_RET, ?b, idx + ?cp), w)"
      using False by (subst fill_loop.simps) (simp add: Let_def)
    moreover have "take (idx + ?cp) ?b = take idx send_buf @ buf" using cp less.prems by simp
    ultimately show ?thesis using cp lb by simp
  next
    case True
    obtain w1 where w: "net_write hal ?b 5000 w = (1024, w1)" "sent w1 = sent w @ ?b"
      using assms(1) lb unfolding accepts_all_def by (metis (no_types, lifting) of_nat_numeral prod.collapse)
    have b: "?b = take idx send_buf @ take ?cp buf" "take 1024 ?b = ?b" using True less.prems lb by simp_all
    have cp: "?cp = 1024 - idx" "0 < ?cp" "?cp \<le> length buf" using True less.prems by auto
    note step = fill_loop.simps [of hal client send_buf idx buf w]
    have s: "fill_loop hal client send_buf idx buf w =
      (if drop ?cp buf = [] then ((SUCCESS_RET, ?b, 0), w1) else fill_loop hal client ?b 0 (drop ?cp buf) w1)"
      using True w(1) assms(2) b(2) by (subst fill_loop.simps) (simp add: Let_def utils_net_write_def)
    show ?thesis
    proof (cases "drop ?cp buf = []")
      case True
      then have "length buf = ?cp" using cp(3) by simp
      then show ?thesis using s True w(2) lb b(1) cp(1) less.prems by simp
    next
      case False
      have "2 * length (drop ?cp buf) + 0 < 2 * length buf + idx" using cp by simp
      from less.hyps [OF this lb, of w1] obtain c i w' where
        c: "fill_loop hal client ?b 0 (drop ?cp buf) w1 = ((SUCCESS_RET, c, i), w')" "length c = 1024" "i < 1024"
          "sent w' @ take i c = sent w1 @ take 0 ?b @ drop ?cp buf" "i = (0 + length (drop ?cp buf)) mod 1024" by auto
      have "idx + length buf = 1024 + length (drop ?cp buf)" using cp less.prems by simp
      then have "(idx + length buf) mod 1024 = length (drop ?cp buf) mod 1024" by (metis mod_add_self1)
      moreover have "sent w1 @ drop ?cp buf = sent w @ take idx send_buf @ buf" unfolding w(2) b(1) by simp
      ultimately show ?thesis using s False c by (intro exI [of _ c] exI [of _ i] exI [of _ w']) simp
    qed
  qed
qed

text \<open>The buffer and the network after \<open>msg\<close> has been written behind \<open>old\<close>.\<close>

definition carries :: "('w \<Rightarrow> bytes) \<Rightarrow> bytes \<Rightarrow> bytes \<Rightarrow> bytes \<Rightarrow> nat \<Rightarrow> 'w \<Rightarrow> bool" where
  "carries sent old msg b i w \<longleftrightarrow> length b = 1024 \<and> i = length msg mod 1024 \<and> sent w @ take i b = old @ msg"

lemma carries_fill:
  assumes "accepts_all hal sent" and "net_handle client \<noteq> - 1" and "carries sent old msg b i w"
  obtains b' i' w' where "utils_fill_tx_buffer hal client b i t w = ((SUCCESS_RET, b', i'), w')" "carries sent old (msg @ t) b' i' w'"
proof -
  from assms(3) have c: "length b = 1024" "i = length msg mod 1024" "sent w @ take i b = old @ msg" "i < 1024" by (auto simp: carries_def)
  from fill_loop_effect [OF assms(1,2) c(1,4), of t w] obtain b' i' w' where
    f: "fill_loop hal client b i t w = ((SUCCESS_RET, b', i'), w')" "length b' = 1024" "sent w' @ take i' b' = sent w @ take i b @ t"
      "i' = (i + length t) mod 1024" by blast
  have "i' = length (msg @ t) mod 1024" using f(4) c(2) by (simp add: mod_add_left_eq)
  moreover have "sent w' @ take i' b' = old @ msg @ t" using f(3) c(3) by (metis append.assoc)
  ultimately show ?thesis using that f(1,2) by (simp add: utils_fill_tx_buffer_def carries_def)
qed

text \<open>The header that is meant, each line cut to the size of the array it is printed into.\<close>

definition cut_line :: "cstr \<Rightarrow> cstr" where "cut_line t = take 299 t"

lemma cut_snprintf: "fst (HAL_Snprintf 300 t) = cut_line t"
  by (simp add: HAL_Snprintf_def cut_line_def)

definition header_text :: "http_client \<Rightarrow> cstr \<Rightarrow> cstr \<Rightarrow> HTTP_Request_Method \<Rightarrow> u32 \<Rightarrow> size_t \<Rightarrow> http_client_data \<Rightarrow> cstr" where
  "header_text client host path meth size_fetched range_len cd =
     cut_line (request_text host path meth size_fetched range_len)
     @ (case http_header client of None \<Rightarrow> [] | Some h \<Rightarrow> h)
     @ (if post_buf cd = None then []
        else cut_line (str ''Content-Length: '' @ dec_int (int (post_buf_len cd)) @ CRLF)
          @ (case post_content_type cd of None \<Rightarrow> [] | Some t \<Rightarrow> cut_line (str ''Content-Type: '' @ t @ CRLF)))
     @ CRLF"

lemma send_header_effect:
  fixes host path :: cstr and meth :: HTTP_Request_Method and sf :: u32 and rl :: size_t and cd :: http_client_data
  assumes "accepts_all hal sent" and "net_handle client \<noteq> - 1"
  defines "H \<equiv> header_text client host path meth sf rl cd"
  shows "\<exists>w'. http_send_header hal client host path meth sf rl cd w = (if length H mod 1024 = 0 then ERR_HTTP_CLOSED else SUCCESS_RET, w')
    \<and> sent w' = sent w @ H"
proof -
  let ?l1 = "cut_line (request_text host path meth sf rl)" and ?h = "case http_header client of None \<Rightarrow> [] | Some h \<Rightarrow> h"
  let ?l2 = "cut_line (str ''Content-Length: '' @ dec_int (int (post_buf_len cd)) @ CRLF)"
  let ?l3 = "case post_content_type cd of None \<Rightarrow> [] | Some t \<Rightarrow> cut_line (str ''Content-Type: '' @ t @ CRLF)"
  let ?p = "if post_buf cd = None then [] else ?l2 @ ?l3"
  note fill = carries_fill [OF assms(1,2)]
  have "carries sent (sent w) [] (replicate 1024 0) 0 w" by (simp add: carries_def)
  from fill [OF this, of ?l1] obtain b1 i1 w1 where
    1: "utils_fill_tx_buffer hal client (replicate 1024 0) 0 ?l1 w = ((SUCCESS_RET, b1, i1), w1)" "carries sent (sent w) ?l1 b1 i1 w1" by auto
  obtain b2 i2 w2 x where
    2: "(case http_header client of None \<Rightarrow> ((0, b1, i1), w1) | Some h \<Rightarrow> utils_fill_tx_buffer hal client b1 i1 h w1) = ((x, b2, i2), w2)"
      "carries sent (sent w) (?l1 @ ?h) b2 i2 w2"
  proof (cases "http_header client")
    case None
    then show ?thesis using 1(2) that by auto
  next
    case (Some h)
    from fill [OF 1(2), of h] obtain b i w' where
      "utils_fill_tx_buffer hal client b1 i1 h w1 = ((SUCCESS_RET, b, i), w')" "carries sent (sent w) (?l1 @ h) b i w'" by auto
    with Some that show ?thesis by simp
  qed
  obtain b3 i3 w3 y where
    3: "(if post_buf cd = None then ((0, b2, i2), w2)
         else let ((_, send_buf, len), w) = utils_fill_tx_buffer hal client b2 i2 ?l2 w2
           in case post_content_type cd of None \<Rightarrow> ((0, send_buf, len), w)
              | Some t \<Rightarrow> utils_fill_tx_buffer hal client send_buf len (cut_line (str ''Content-Type: '' @ t @ CRLF)) w) = ((y, b3, i3), w3)"
      "carries sent (sent w) (?l1 @ ?h @ ?p) b3 i3 w3"
  proof (cases "post_buf cd = None")
    case True
    then show ?thesis using 2(2) that by auto
  next
    case False
    from fill [OF 2(2), of ?l2] obtain b i w' where
      a: "utils_fill_tx_buffer hal client b2 i2 ?l2 w2 = ((SUCCESS_RET, b, i), w')" "carries sent (sent w) (?l1 @ ?h @ ?l2) b i w'" by auto
    show ?thesis
    proof (cases "post_content_type cd")
      case None
      then show ?thesis using a False that by auto
    next
      case (Some t)
      from fill [OF a(2), of "cut_line (str ''Content-Type: '' @ t @ CRLF)"] obtain c j w'' where
        c: "utils_fill_tx_buffer hal client b i (cut_line (str ''Content-Type: '' @ t @ CRLF)) w' = ((SUCCESS_RET, c, j), w'')"
          "carries sent (sent w) ((?l1 @ ?h @ ?l2) @ cut_line (str ''Content-Type: '' @ t @ CRLF)) c j w''" by auto
      show ?thesis by (rule that [of SUCCESS_RET c j w'']) (use a(1) c False Some in auto)
    qed
  qed
  from fill [OF 3(2), of CRLF] obtain b4 i4 w4 where
    4: "utils_fill_tx_buffer hal client b3 i3 CRLF w3 = ((SUCCESS_RET, b4, i4), w4)" "carries sent (sent w) H b4 i4 w4"
    by (auto simp: H_def header_text_def)
  then have i4: "i4 = length H mod 1024" "sent w4 @ take i4 b4 = sent w @ H" "i4 \<le> length b4" by (auto simp: carries_def)
  obtain w5 where 5: "net_write hal (take i4 b4) 5000 w4 = (int i4, w5)" "sent w5 = sent w4 @ take i4 b4"
    using assms(1) i4(3) unfolding accepts_all_def by (metis length_take min.absorb2 prod.collapse)
  have "http_send_header hal client host path meth sf rl cd w = (if i4 = 0 then ERR_HTTP_CLOSED else SUCCESS_RET, w5)"
    by (simp only: http_send_header_def cut_snprintf Let_def 1(1) prod.case less_irrefl if_False 2(1) 3(1) [unfolded Let_def] 4(1))
      (simp add: 5(1) utils_net_write_def assms(2))
  with i4 5(2) show ?thesis by simp
qed

text \<open>The body that follows the header of a \<open>POST\<close> or \<open>PUT\<close>.\<close>

definition body_sent :: "HTTP_Request_Method \<Rightarrow> http_client_data \<Rightarrow> bytes" where
  "body_sent meth cd = (if meth = HTTP_POST \<or> meth = HTTP_PUT
     then case post_buf cd of None \<Rightarrow> [] | Some d \<Rightarrow> take (post_buf_len cd) d else [])"

text \<open>
  C33. A request.  On a network that accepts all it is given, \<open>_http_send_request\<close> sends the header of the request, whatever its length and
  however often the send buffer is flushed, followed by the body of a \<open>POST\<close> or \<open>PUT\<close>, and nothing else.  The exception is a
  header whose length is a multiple of the size of the send buffer: it is sent in full, but the write of the 0 bytes
  that are left is taken for a closed connection, and the request fails without its body.
\<close>
theorem http_request_exact:
  fixes meth :: HTTP_Request_Method and size_fetched :: u32 and range_len :: size_t
  assumes "accepts_all hal sent" and "net_handle client \<notin> {0, - 1}" and "utils_parse_url url = Some (SUCCESS_RET, host, path)"
    and "\<forall>d. post_buf cd = Some d \<longrightarrow> post_buf_len cd \<le> length d"
  defines "H \<equiv> header_text client host path meth size_fetched range_len cd"
  shows "\<exists>ret w'. http_send_request hal client url meth size_fetched range_len cd timeout_ms w = Some (ret, w')
    \<and> (if length H mod 1024 = 0 then ret = ERR_HTTP_CONN_ERROR \<and> sent w' = sent w @ H
       else ret = SUCCESS_RET \<and> sent w' = sent w @ H @ body_sent meth cd)"
proof -
  from send_header_effect [OF assms(1), of client host path meth size_fetched range_len cd w] assms(2) obtain w1 where
    h: "http_send_header hal client host path meth size_fetched range_len cd w = (if length H mod 1024 = 0 then ERR_HTTP_CLOSED else SUCCESS_RET, w1)"
      "sent w1 = sent w @ H" by (auto simp: H_def)
  obtain w2 where u: "http_send_user_data hal client cd timeout_ms w1 = Some (SUCCESS_RET, w2)"
    "meth = HTTP_POST \<or> meth = HTTP_PUT \<Longrightarrow> sent w2 = sent w1 @ body_sent meth cd"
  proof (cases "post_buf cd = None \<or> post_buf_len cd = 0")
    case True
    then show ?thesis using that [of w1] by (cases "post_buf cd") (auto simp: http_send_user_data_def body_sent_def)
  next
    case False
    then obtain d where d: "post_buf cd = Some d" "post_buf_len cd \<noteq> 0" by auto
    with assms(4) have l: "length (take (post_buf_len cd) d) = post_buf_len cd" "\<not> length d < post_buf_len cd" by auto
    then obtain w2 where "net_write hal (take (post_buf_len cd) d) timeout_ms w1 = (int (post_buf_len cd), w2)"
      "sent w2 = sent w1 @ take (post_buf_len cd) d"
      using assms(1) unfolding accepts_all_def by (metis l(1) prod.collapse)
    then show ?thesis using that d l assms(2) by (simp add: http_send_user_data_def body_sent_def utils_net_write_def)
  qed
  show ?thesis using h u assms(2,3) by (auto simp: http_send_request_def body_sent_def)
qed

text \<open>A network of which all is kept: what has been sent and what is still to be read.\<close>

definition demo_web :: "(bytes \<times> bytes) hal" where
  "demo_web = \<lparr> rt_tick_get = Pair 0, rt_tick_from_millisecond = id,
     net_read = (\<lambda>n t (snt, inp). ((int (min (unat n) (length inp)), take (unat n) inp), (snt, drop (unat n) inp))),
     net_write = (\<lambda>d t (snt, inp). (int (length d), (snt @ d, inp))), net_connect = Pair 0, net_disconnect = id,
     HAL_Malloc = (\<lambda>n. Pair True), HAL_SleepMs = (\<lambda>n. id), HAL_MutexCreate = Pair True \<rparr>"

definition demo_http :: http_client where
  "demo_http = \<lparr> net_handle = 1, response_code = 0, http_header = Some (str ''Accept: text/html'' @ CRLF) \<rparr>"

definition demo_http_data :: http_client_data where
  "demo_http_data = \<lparr> is_more = False, is_chunked = False, retrieve_len = 0, response_content_len = 0, response_received_len = 0,
     response_buf_len = 12, post_content_type = Some (str ''text/plain''), post_buf = Some (str ''data=1''), post_buf_len = 6,
     response_buf = Some (replicate 12 0) \<rparr>"

lemma demo_web_accepts: "accepts_all demo_web fst"
  by (auto simp: accepts_all_def demo_web_def)

theorem http_request_exact_witness:
  "\<exists>w'. http_send_request demo_web demo_http (str ''http://h/a'') HTTP_POST 0 0 demo_http_data 5000 ([], []) = Some (SUCCESS_RET, w')
   \<and> fst w' = str ''POST /a HTTP/1.1'' @ CRLF @ str ''Host: h'' @ CRLF @ str ''Accept: text/html'' @ CRLF @ str ''Content-Length: 6'' @ CRLF
       @ str ''Content-Type: text/plain'' @ CRLF @ CRLF @ str ''data=1''"
proof -
  have u: "utils_parse_url (str ''http://h/a'') = Some (SUCCESS_RET, str ''h'', str ''/a'')" by code_simp
  have n: "net_handle demo_http \<notin> {0, - 1}" by (simp add: demo_http_def)
  have d: "\<forall>d. post_buf demo_http_data = Some d \<longrightarrow> post_buf_len demo_http_data \<le> length d" by (simp add: demo_http_data_def str_def)
  have h: "header_text demo_http (str ''h'') (str ''/a'') HTTP_POST 0 0 demo_http_data
    = str ''POST /a HTTP/1.1'' @ CRLF @ str ''Host: h'' @ CRLF @ str ''Accept: text/html'' @ CRLF @ str ''Content-Length: 6'' @ CRLF
       @ str ''Content-Type: text/plain'' @ CRLF @ CRLF" by code_simp
  have l: "length (header_text demo_http (str ''h'') (str ''/a'') HTTP_POST 0 0 demo_http_data) mod 1024 \<noteq> 0" by code_simp
  have b: "body_sent HTTP_POST demo_http_data = str ''data=1''" by code_simp
  show ?thesis using http_request_exact [OF demo_web_accepts n u d, of HTTP_POST 0 0 5000 "([], [])"] l by (simp add: h b)
qed

end
