(* ===== verification/Http_Response.thy ===== *)
theory Http_Response
  imports Http_Request
begin

text \<open>
  What the HTTP client delivers of a response: the search for the end of the header while it arrives, the fields that are
  read from it, and the body.
\<close>

section \<open>The response\<close>

text \<open>A network that delivers the bytes \<open>inp\<close> as fast as they are asked for, whatever the clock says.\<close>

definition delivers :: "'w hal \<Rightarrow> ('w \<Rightarrow> bytes) \<Rightarrow> bool" where
  "delivers hal inp \<longleftrightarrow> (\<forall>w. inp (snd (rt_tick_get hal w)) = inp w)
     \<and> (\<forall>n t w. fst (net_read hal n t w) = (int (min (unat n) (length (inp w))), take (unat n) (inp w))
          \<and> inp (snd (net_read hal n t w)) = drop (unat n) (inp w))"

lemma delivers_clock:
  assumes "delivers hal inp"
  shows "inp (snd (left_ms_w hal t w)) = inp w" and "inp (snd (countdown_ms_w hal n w)) = inp w"
proof -
  obtain now w' where t: "rt_tick_get hal w = (now, w')" by fastforce
  with assms have "inp w' = inp w" unfolding delivers_def by (metis snd_conv)
  with t show "inp (snd (left_ms_w hal t w)) = inp w" "inp (snd (countdown_ms_w hal n w)) = inp w"
    by (simp_all add: left_ms_w_def HAL_Timer_Remain_ms_def countdown_ms_w_def HAL_Timer_Countdown_ms_def)
qed

lemma recv_delivers:
  assumes "delivers hal inp" and "net_handle client \<noteq> - 1" and "0 < n" and "n < 2 ^ 31" and "inp w \<noteq> []"
  obtains w' where "http_recv hal client n t w = ((0, int (min (nat n) (length (inp w))), take (nat n) (inp w)), w')"
    "inp w' = drop (nat n) (inp w)"
proof -
  obtain k where "n = int k" using assms(3) zero_le_imp_eq_int [of n] by auto
  moreover from this have "k < 2 ^ 32" using assms(4) by simp
  ultimately have u: "unat (of_int n :: u32) = nat n" by (simp add: unat_of_nat take_bit_nat_eq_self)
  obtain r w' where r: "net_read hal (of_int n) t w = (r, w')" by fastforce
  from assms(1) have "\<forall>n t w. fst (net_read hal n t w) = (int (min (unat n) (length (inp w))), take (unat n) (inp w))
      \<and> inp (snd (net_read hal n t w)) = drop (unat n) (inp w)" unfolding delivers_def by (rule conjunct2)
  note d = this [THEN spec, of "of_int n", THEN spec, of t, THEN spec, of w]
  have "fst (net_read hal (of_int n) t w) = (int (min (unat (of_int n :: u32)) (length (inp w))), take (unat (of_int n :: u32)) (inp w))"
    "inp (snd (net_read hal (of_int n) t w)) = drop (unat (of_int n :: u32)) (inp w)" by (rule d [THEN conjunct1], rule d [THEN conjunct2])
  then have "net_read hal (of_int n) t w = ((int (min (nat n) (length (inp w))), take (nat n) (inp w)), w')" "inp w' = drop (nat n) (inp w)"
    unfolding u using r by simp_all
  moreover have "0 < min (nat n) (length (inp w))" using assms(3,5) by simp
  ultimately show ?thesis using that assms(2) by (simp add: http_recv_def utils_net_read_def)
qed

lemma check_received:
  assumes "delivers hal inp" and "0 < n"
  obtains t' d e w' where "utils_check_deadloop hal n t 0 dead ext w = ((SUCCESS_RET, t', d, e), w')" "inp w' = inp w"
proof -
  obtain l w1 where l: "left_ms_w hal t w = (l, w1)" by fastforce
  obtain t2 w2 where c: "countdown_ms_w hal 100 w1 = (t2, w2)" by fastforce
  have "inp w1 = inp w" "inp w2 = inp w" using delivers_clock [OF assms(1)] l c by (metis snd_conv)+
  then show ?thesis using l c assms(2) that by (cases "l < 100") (simp_all add: utils_check_deadloop_def)
qed

text \<open>What has been written to the response buffer.\<close>

definition holds :: "http_client_data \<Rightarrow> bytes \<Rightarrow> bool" where
  "holds cd got \<longleftrightarrow> (\<exists>post. response_buf cd = Some (got @ post) \<and> int (length (got @ post)) = response_buf_len cd)"

lemma fill_rx:
  assumes "holds cd got" and "length got + length chunk < nat (response_buf_len cd - 1)" and "k = int (length chunk)"
  obtains cd' post where "utils_fill_rx_buf (length got) k cd (chunk @ junk) = Some (SUCCESS_RET, length (got @ chunk), cd')"
    "cd' = cd\<lparr>response_buf := Some ((got @ chunk) @ 0 # post), retrieve_len := retrieve_len cd - int (length chunk)\<rparr>" "holds cd' (got @ chunk)"
proof -
  obtain post where p: "response_buf cd = Some (got @ post)" "int (length (got @ post)) = response_buf_len cd" using assms(1) by (auto simp: holds_def)
  then have l: "length got + length chunk < length (got @ post) - 1" "int (length got) + int (length chunk) < response_buf_len cd - 1"
    using assms(2) by simp_all
  then have "drop (length chunk) post \<noteq> []" by simp
  then obtain c cs where c: "drop (length chunk) post = c # cs" by (metis list.exhaust)
  then have lc: "length (c # cs) = length post - length chunk" by (metis length_drop)
  let ?cd = "cd\<lparr>response_buf := Some ((got @ chunk) @ 0 # cs), retrieve_len := retrieve_len cd - int (length chunk)\<rparr>"
  have "poke_bytes (got @ post) (length got) chunk = Some ((got @ chunk) @ c # cs)" using l c by (simp add: poke_bytes_def)
  moreover have "poke ((got @ chunk) @ c # cs) (length got + length chunk) 0 = Some ((got @ chunk) @ 0 # cs)"
    by (simp add: poke_def list_update_append)
  ultimately have "utils_fill_rx_buf (length got) k cd (chunk @ junk) = Some (SUCCESS_RET, length (got @ chunk), ?cd)"
    using p(1) l(2) assms(3) by (simp add: utils_fill_rx_buf_def Let_def)
  moreover have "holds ?cd (got @ chunk)" using p l lc by (auto simp: holds_def)
  ultimately show ?thesis using that by blast
qed

text \<open>The body: what is in the buffer and what is still on the network.\<close>

lemma body_received:
  assumes "delivers hal inp" and "net_handle client \<noteq> - 1" and "holds cd got"
    and "length got + nat (retrieve_len cd) < nat (response_buf_len cd - 1)" and "chunk @ inp w = body" and "retrieve_len cd = int (length body)"
    and "length (chunk @ junk) = 1024" and "length body + (if chunk = [] then 1 else 0) < fuel" and "retrieve_len cd < 2 ^ 31"
  shows "\<exists>cd' w' post. body_loop hal fuel client t timer dead ext (chunk @ junk) (int (length chunk)) (length got) cd w = Some ((SUCCESS_RET, cd'), w')
    \<and> cd' = cd\<lparr>response_buf := Some ((got @ body) @ 0 # post), retrieve_len := 0, is_more := False\<rparr> \<and> inp w' = []"
  using assms(3-9)
proof (induction fuel arbitrary: cd got chunk w junk timer dead ext body)
  case (Suc fuel)
  have min: "min (int (length chunk)) (retrieve_len cd) = int (length chunk)" using Suc.prems(3,4) by auto
  have "length got + length chunk < nat (response_buf_len cd - 1)" using Suc.prems(2-4) by auto
  from fill_rx [OF Suc.prems(1) this refl, of junk] obtain cd1 post where
    f: "utils_fill_rx_buf (length got) (int (length chunk)) cd (chunk @ junk) = Some (SUCCESS_RET, length (got @ chunk), cd1)"
      "cd1 = cd\<lparr>response_buf := Some ((got @ chunk) @ 0 # post), retrieve_len := retrieve_len cd - int (length chunk)\<rparr>" "holds cd1 (got @ chunk)" .
  have r: "retrieve_len cd1 = int (length (inp w))" using f(2) Suc.prems(3,4) by auto
  show ?case
  proof (cases "inp w = []")
    case True
    then show ?thesis using f r Suc.prems(3) min by (auto intro: exI [of _ post])
  next
    case False
    define n where "n = min (min 1023 (response_buf_len cd1 - 1 - int (length (got @ chunk)))) (retrieve_len cd1)"
    have n: "0 < n" "n \<le> 1023" using False r f(2) Suc.prems(2-4) by (auto simp: n_def)
    define c where "c = take (nat n) (inp w)"
    have lc: "0 < length c" "length c \<le> 1024" using n False by (auto simp: c_def)
    from recv_delivers [OF assms(1,2) n(1) _ False, of t] n(2) obtain w1 where
      v: "http_recv hal client n t w = ((0, int (length c), c), w1)" "inp w1 = drop (nat n) (inp w)"
      by (auto simp: c_def min.commute)
    have "0 < int (length c)" using lc(1) by simp
    then obtain t' d e w2 where
      k: "utils_check_deadloop hal (int (length c)) timer 0 dead ext w1 = ((SUCCESS_RET, t', d, e), w2)" "inp w2 = inp w1"
      by (rule check_received [OF assms(1)])
    have p: "poke_bytes (chunk @ junk) 0 c = Some (c @ drop (length c) (chunk @ junk))" using lc(2) Suc.prems(5) by (simp add: poke_bytes_def)
    have len: "length (c @ drop (length c) (chunk @ junk)) = 1024" using lc(2) Suc.prems(5) by simp
    have q: "length (got @ chunk) + nat (retrieve_len cd1) < nat (response_buf_len cd1 - 1)" using r f(2) Suc.prems(2-4) by auto
    have w2: "c @ inp w2 = inp w" using v(2) k(2) by (simp add: c_def)
    have "length body = length chunk + length (inp w)" using Suc.prems(3) by auto
    then have "length (inp w) + (if c = [] then 1 else 0) < fuel" using lc(1) Suc.prems(6) by (cases chunk) auto
    moreover have "retrieve_len cd1 < 2 ^ 31" using f(2) Suc.prems(7) by simp
    ultimately obtain cd' w' post' where
      ih: "body_loop hal fuel client t t' d e (c @ drop (length c) (chunk @ junk)) (int (length c)) (length (got @ chunk)) cd1 w2 = Some ((SUCCESS_RET, cd'), w')"
        "cd' = cd1\<lparr>response_buf := Some (((got @ chunk) @ inp w) @ 0 # post'), retrieve_len := 0, is_more := False\<rparr>" "inp w' = []"
      using Suc.IH [OF f(3) q w2 r len, of t' d e] by blast
    have "body_loop hal (Suc fuel) client t timer dead ext (chunk @ junk) (int (length chunk)) (length got) cd w = Some ((SUCCESS_RET, cd'), w')"
      using f(1) r False ih(1) v(1) k(1) p by (simp add: min n_def)
    moreover have "cd' = cd\<lparr>response_buf := Some ((got @ body) @ 0 # post'), retrieve_len := 0, is_more := False\<rparr>"
      using ih(2) f(2) Suc.prems(3) by auto
    ultimately show ?thesis using ih(3) by blast
  qed
qed simp

section \<open>The header\<close>

lemma header_received:
  assumes "delivers hal inp" and "net_handle client \<noteq> - 1" and "0 \<notin> set head" and "4 \<le> length head" and "length head \<le> 992"
    and "find_text (CRLF @ CRLF) head = Some (length head - 4)"
    and "xs @ inp w = head @ body" and "length (xs @ 0 # post) = 1024" and "length head - length xs < fuel"
  shows "\<exists>zs post' w'. header_loop hal fuel client t (xs @ 0 # post) (length xs) w
      = Some ((Some (length head - 4), (head @ zs) @ 0 # post', length (head @ zs)), w')
    \<and> zs @ inp w' = body \<and> length ((head @ zs) @ 0 # post') = 1024"
  using assms(7-9)
proof (induction fuel arbitrary: xs post w)
  case (Suc fuel)
  show ?case
  proof (cases "length head \<le> length xs")
    case True
    then obtain zs where zs: "xs = head @ zs" "zs @ inp w = body" using Suc.prems(1) by (auto simp: append_eq_append_conv2)
    have "find_text (CRLF @ CRLF) (until_nul xs) = Some (length head - 4)"
      unfolding zs(1) until_nul_append [OF assms(3)] by (rule find_text_append [OF assms(6)])
    then have "strstr_at (xs @ 0 # post) 0 (CRLF @ CRLF) = Some (Some (length head - 4))" by (simp only: strstr_at_nul)
    then have "header_loop hal (Suc fuel) client t (xs @ 0 # post) (length xs) w = Some ((Some (length head - 4), xs @ 0 # post, length xs), w)"
      by simp
    then show ?thesis using zs Suc.prems(2) by blast
  next
    case False
    then obtain zs where zs: "head = xs @ zs" "inp w = zs @ body" "zs \<noteq> []" using Suc.prems(1) by (auto simp: append_eq_append_conv2)
    have "0 \<notin> set xs" using assms(3) zs(1) by simp
    then have u: "until_nul xs = xs" using until_nul_append [of xs "[]"] by simp
    have "find_text (CRLF @ CRLF) xs = None"
      by (rule find_text_early [OF assms(6) [unfolded zs(1)]]) (use assms(4) zs in \<open>simp add: CRLF_def; cases zs; simp\<close>)
    then have n: "strstr_at (xs @ 0 # post) 0 (CRLF @ CRLF) = Some None" unfolding strstr_at_nul u by simp
    define c where "c = take 32 (inp w)"
    have lc: "0 < length c" "length c \<le> 32" using zs(2,3) by (auto simp: c_def)
    have ne: "inp w \<noteq> []" using zs(2,3) by simp
    have "(0::int) < 32" "(32::int) < 2 ^ 31" by simp_all
    then obtain w1 where
      v: "http_recv hal client 32 t w = ((0, int (length c), c), w1)" "inp w1 = drop 32 (inp w)"
      by (rule recv_delivers [OF assms(1,2) _ _ ne, of 32 t]) (simp_all add: c_def min.commute)
    have lx: "length xs + length c \<le> length (xs @ post)" "length xs + length c < length (xs @ 0 # post)"
      using False assms(5) lc(2) Suc.prems(2) by simp_all
    from put_behind [OF lx] obtain post1 where
      q: "poke_bytes (xs @ 0 # post) (length xs) c = Some (xs @ c @ drop (length c) (0 # post))"
        "poke (xs @ c @ drop (length c) (0 # post)) (length xs + length c) 0 = Some (xs @ c @ 0 # post1)"
        "length (xs @ c @ 0 # post1) = length (xs @ 0 # post)" by blast
    have r: "(xs @ c) @ inp w1 = head @ body" using v(2) Suc.prems(1) by (simp add: c_def)
    have l: "length ((xs @ c) @ 0 # post1) = 1024" using q(3) Suc.prems(2) by simp
    have f: "length head - length (xs @ c) < fuel" using Suc.prems(3) lc(1) False by (cases c) auto
    have "header_loop hal (Suc fuel) client t (xs @ 0 # post) (length xs) w = header_loop hal fuel client t ((xs @ c) @ 0 # post1) (length (xs @ c)) w1"
      using n v(1) q(1,2) by simp
    with Suc.IH [OF r l f] show ?thesis by simp
  qed
qed simp

lemma memmove_front:
  "\<exists>post'. memmove (pre @ xs @ 0 # post) 0 (length pre) (int (length xs) + 1) = Some (xs @ 0 # post') \<and> length (xs @ 0 # post') = length (pre @ xs @ 0 # post)"
proof -
  have n: "nat (int (length xs) + 1) = length (xs @ [0::u8])" by simp
  have "slice (pre @ (xs @ [0]) @ post) (length pre) (length (xs @ [0])) = xs @ [0]" by (rule slice_append_exact)
  then have "slice (pre @ xs @ 0 # post) (length pre) (nat (int (length xs) + 1)) = xs @ [0]" unfolding n by simp
  then have m: "memmove (pre @ xs @ 0 # post) 0 (length pre) (int (length xs) + 1) = poke_bytes (pre @ xs @ 0 # post) 0 (xs @ [0])"
    unfolding memmove_def n by simp
  show ?thesis unfolding m by (simp add: poke_bytes_def)
qed

lemma atoi_at_nul:
  "atoi_at (pre @ xs @ 0 # post) (length pre)
   = (case scan_int 10 (until_nul xs) of None \<Rightarrow> Some 0 | Some v \<Rightarrow> if - (2 ^ 31) \<le> v \<and> v < 2 ^ 31 then Some v else None)"
  by (simp add: atoi_at_def strlen_at_nul take_until_nul del: take_append)

lemma scan_dec_behind: "digit_value 10 c = None \<Longrightarrow> scan_int 10 (dec_int (int n) @ c # cs) = Some (int n)"
proof -
  assume c: "digit_value 10 c = None"
  have "\<forall>d \<in> set (dec_nat n). digit_value 10 d \<noteq> None" using dec_nat_digits [of n] digit_value_dec by blast
  then have s: "scan_digits 10 0 (dec_nat n @ c # cs) = n" using c by (simp add: scan_digits_append scan_dec_nat)
  obtain d ds where d: "dec_nat n = d # ds" using dec_nat_digits [of n] by (metis list.exhaust)
  with dec_nat_digits [of n] have "is_digit d" by (metis list.set_intros(1))
  with digit_not [of d] digit_value_dec [of d] s d show ?thesis
    by (simp add: scan_int_def dec_int_def scan_magnitude_def starts_digits_def)
qed

text \<open>
  The responses the client understands: a status line \<open>status\<close> of at most 30 bytes with the code \<open>code\<close> after the ninth of them, a header
  \<open>head\<close> of at most 992 bytes, closed by an empty line, with a \<open>Content-Length\<close> of \<open>n\<close>.
\<close>

definition wf_response :: "cstr \<Rightarrow> cstr \<Rightarrow> int \<Rightarrow> nat \<Rightarrow> bool" where
  "wf_response status head code n \<longleftrightarrow> 0 \<notin> set (status @ head) \<and> 9 \<le> length status \<and> length status \<le> 30
     \<and> find_text CRLF (status @ CRLF) = Some (length status)
     \<and> scan_int 10 (drop 9 status) = Some code \<and> - (2 ^ 31) \<le> code \<and> code < 2 ^ 31
     \<and> 4 \<le> length head \<and> length head \<le> 992 \<and> find_text (CRLF @ CRLF) head = Some (length head - 4) \<and> int n < 2 ^ 31
     \<and> (case find_text (str ''Content-Length'') head of None \<Rightarrow> False
        | Some t \<Rightarrow> take (length (dec_int (int n)) + 1) (drop (t + 16) head) = dec_int (int n) @ [13])"

lemma content_length_read:
  assumes "wf_response status head code n"
  obtains t where "strstr_at ((head @ zs) @ 0 # post) 0 (str ''Content-Length'') = Some (Some t)"
    "atoi_at ((head @ zs) @ 0 # post) (t + 16) = Some (int n)"
proof -
  from assms obtain t where t: "find_text (str ''Content-Length'') head = Some t"
    "take (length (dec_int (int n)) + 1) (drop (t + 16) head) = dec_int (int n) @ [13]"
    and z: "0 \<notin> set head" and n: "int n < 2 ^ 31" by (auto simp: wf_response_def split: option.splits)
  define rest where "rest = drop (length (dec_int (int n)) + 1) (drop (t + 16) head)"
  have d: "drop (t + 16) head = dec_int (int n) @ 13 # rest"
    using append_take_drop_id [of "length (dec_int (int n)) + 1" "drop (t + 16) head"] unfolding t(2) rest_def [symmetric] by simp
  then have "drop (t + 16) head \<noteq> []" by simp
  then have l: "length (take (t + 16) head) = t + 16" by simp
  have "find_text (str ''Content-Length'') (until_nul (head @ zs)) = Some t"
    unfolding until_nul_append [OF z] by (rule find_text_append [OF t(1)])
  then have 1: "strstr_at ((head @ zs) @ 0 # post) 0 (str ''Content-Length'') = Some (Some t)" by (simp only: strstr_at_nul)
  have z': "0 \<notin> set (drop (t + 16) head)" using z by (meson in_set_dropD)
  have "scan_int 10 (until_nul (drop (t + 16) head @ zs)) = Some (int n)"
    unfolding until_nul_append [OF z'] unfolding d using scan_dec_behind [of 13 n "rest @ until_nul zs"]
    by (simp add: digit_value_def is_digit_def)
  with n have a: "atoi_at (take (t + 16) head @ (drop (t + 16) head @ zs) @ 0 # post) (length (take (t + 16) head)) = Some (int n)"
    unfolding atoi_at_nul by simp
  have e: "take (t + 16) head @ (drop (t + 16) head @ zs) @ 0 # post = (head @ zs) @ 0 # post"
    by (metis append_assoc append_take_drop_id)
  have "atoi_at ((head @ zs) @ 0 # post) (t + 16) = Some (int n)" using a unfolding l e .
  with 1 show ?thesis by (rule that)
qed

section \<open>The whole response\<close>

text \<open>What \<open>http_client_recv_data\<close> leaves in the data structure after a response with the body \<open>body\<close>.\<close>

definition received :: "http_client_data \<Rightarrow> bytes \<Rightarrow> int \<Rightarrow> bytes \<Rightarrow> http_client_data" where
  "received cd body k post = cd\<lparr>is_more := False, is_chunked := False, retrieve_len := 0, response_content_len := int (length body),
     response_received_len := response_received_len cd + k, response_buf := Some (body @ 0 # post)\<rparr>"

lemma response_parsed:
  assumes "delivers hal inp" and "net_handle client \<noteq> - 1" and wf: "wf_response status head code (length body)"
    and "r @ inp w = head @ body" and len: "length (status @ CRLF @ r @ 0 # post) = 1024"
    and h: "holds cd []" and room: "int (length body) + 1 < response_buf_len cd" and fuel: "length head + length body + 1 < fuel"
  shows "\<exists>w' k post'. http_parse_response_header hal fuel client (status @ CRLF @ r @ 0 # post) (length (status @ CRLF @ r)) t cd w
    = Some ((SUCCESS_RET, client\<lparr>response_code := code\<rparr>, received cd body k post'), w') \<and> inp w' = []"
proof -
  from wf have z: "0 \<notin> set status" "0 \<notin> set head" and st: "9 \<le> length status" "find_text CRLF (status @ CRLF) = Some (length status)"
    and code: "scan_int 10 (drop 9 status) = Some code" "- (2 ^ 31) \<le> code" "code < 2 ^ 31"
    and hd: "4 \<le> length head" "length head \<le> 992" "find_text (CRLF @ CRLF) head = Some (length head - 4)" and n: "int (length body) < 2 ^ 31"
    by (auto simp: wf_response_def)
  let ?cl = "client\<lparr>response_code := code\<rparr>"
  have cr: "0 \<notin> set (status @ CRLF)" using z(1) by (simp add: CRLF_def)
  have "find_text CRLF (until_nul ((status @ CRLF) @ r)) = Some (length status)"
    unfolding until_nul_append [OF cr] by (rule find_text_append [OF st(2)])
  then have 1: "strstr_at (status @ CRLF @ r @ 0 # post) 0 CRLF = Some (Some (length status))"
    using strstr_at_nul [of "(status @ CRLF) @ r" post CRLF] by simp
  have 2: "poke (status @ CRLF @ r @ 0 # post) (length status) 0 = Some (status @ 0 # 10 # r @ 0 # post)" by (simp add: poke_def CRLF_def)
  have ls: "length (take 9 status) = 9" using st(1) by simp
  have "0 \<notin> set (drop 9 status)" using z(1) by (meson in_set_dropD)
  then have u: "until_nul (drop 9 status) = drop 9 status" using until_nul_append [of "drop 9 status" "[]"] by simp
  have a: "atoi_at (take 9 status @ drop 9 status @ 0 # 10 # r @ 0 # post) (length (take 9 status)) = Some code"
    unfolding atoi_at_nul u using code by simp
  have e: "take 9 status @ drop 9 status @ 0 # 10 # r @ 0 # post = status @ 0 # 10 # r @ 0 # post" by (metis append_assoc append_take_drop_id)
  have 3: "atoi_at (status @ 0 # 10 # r @ 0 # post) 9 = Some code" using a unfolding ls e .
  define L where "L = length (status @ CRLF @ r)"
  have l: "int L - int (length status + 2) + 1 = int (length r) + 1" "L - (length status + 2) = length r" by (simp_all add: L_def CRLF_def)
  obtain post1 where p1: "memmove ((status @ [0, 10]) @ r @ 0 # post) 0 (length (status @ [0, 10])) (int (length r) + 1) = Some (r @ 0 # post1)"
    "length (r @ 0 # post1) = length ((status @ [0, 10]) @ r @ 0 # post)" using memmove_front [of "status @ [0, 10]" r post] by blast
  have 4: "memmove (status @ 0 # 10 # r @ 0 # post) 0 (length status + 2) (int (length r) + 1) = Some (r @ 0 # post1)" using p1(1) by simp
  have lr: "length (r @ 0 # post1) = 1024" using p1(2) len by (simp add: CRLF_def)
  have f: "length head - length r < fuel" using fuel by simp
  have nh: "net_handle ?cl \<noteq> - 1" using assms(2) by simp
  from header_received [OF assms(1) nh z(2) hd assms(4) lr f, of t] obtain zs post2 w1 where
    5: "header_loop hal fuel ?cl t (r @ 0 # post1) (length r) w = Some ((Some (length head - 4), (head @ zs) @ 0 # post2, length (head @ zs)), w1)"
      "zs @ inp w1 = body" "length ((head @ zs) @ 0 # post2) = 1024" by blast
  obtain i where 6: "strstr_at ((head @ zs) @ 0 # post2) 0 (str ''Content-Length'') = Some (Some i)"
    "atoi_at ((head @ zs) @ 0 # post2) (i + 16) = Some (int (length body))" by (rule content_length_read [OF wf])
  obtain post3 where 7: "memmove (head @ zs @ 0 # post2) 0 (length head) (int (length zs) + 1) = Some (zs @ 0 # post3)"
    "length (zs @ 0 # post3) = length (head @ zs @ 0 # post2)" using memmove_front [of head zs post2] by blast
  have hl: "length head - 4 + 4 = length head" "int (length (head @ zs)) - int (length head) = int (length zs)" using hd(1) by simp_all
  obtain timer w2 where c: "countdown_ms_w hal t w1 = (timer, w2)" by fastforce
  with delivers_clock(2) [OF assms(1), of t w1] have w2: "zs @ inp w2 = body" using 5(2) by simp
  let ?cd = "cd\<lparr>is_chunked := False, response_content_len := int (length body), retrieve_len := int (length body),
    response_received_len := response_received_len cd + int (length zs), is_more := True\<rparr>"
  have b: "holds ?cd []" "length ([]::bytes) + nat (retrieve_len ?cd) < nat (response_buf_len ?cd - 1)" "retrieve_len ?cd = int (length body)"
    "length (zs @ 0 # post3) = 1024" "length body + (if zs = [] then 1 else 0) < fuel" "retrieve_len ?cd < 2 ^ 31"
    using h room 5(3) 7(2) fuel n by (simp_all add: holds_def)
  from body_received [OF assms(1) nh b(1,2) w2 b(3-6), of t timer 0 0] obtain cd' w' post' where
    8: "body_loop hal fuel ?cl t timer 0 0 (zs @ 0 # post3) (int (length zs)) 0 ?cd w2 = Some ((SUCCESS_RET, cd'), w')" "inp w' = []"
      "cd' = ?cd\<lparr>response_buf := Some (([] @ body) @ 0 # post'), retrieve_len := 0, is_more := False\<rparr>" by auto
  let ?c3 = "cd\<lparr>response_content_len := - 1\<rparr>\<lparr>is_chunked := False\<rparr>\<lparr>response_content_len := int (length body), retrieve_len := int (length body)\<rparr>"
  have 9: "http_get_response_body hal fuel ?cl (zs @ 0 # post3) (int (length zs)) t
      (?c3\<lparr>response_received_len := response_received_len ?c3 + int (length zs)\<rparr>) w1 = Some ((SUCCESS_RET, cd'), w')"
    using 8(1) by (simp add: http_get_response_body_def c)
  have "cd' = received cd body (int (length zs)) post'" using 8(3) by (simp add: received_def)
  moreover have "http_parse_response_header hal fuel client (status @ CRLF @ r @ 0 # post) L t cd w = Some ((SUCCESS_RET, ?cl, cd'), w')"
    unfolding http_parse_response_header_def Let_def 1 bind.bind_lunit option.case 2 3 l 4 5(1) prod.case 6 [unfolded append_assoc] append_assoc hl(1) hl(2) [unfolded append_assoc] 7(1) 9
    by (rule refl)
  ultimately show ?thesis using 8(2) unfolding L_def by blast
qed


text \<open>A response of which three bytes of the body arrive with the header.\<close>

definition demo_status :: cstr where "demo_status = str ''HTTP/1.1 200 OK''"

definition demo_head :: cstr where
  "demo_head = str ''Content-Type: text/plain'' @ CRLF @ str ''Content-Length: 9'' @ CRLF @ CRLF"

lemma demo_web_delivers: "delivers demo_web snd"
  by (auto simp: delivers_def demo_web_def)


end
