(* ===== verification/Ota_Client.thy ===== *)
theory Ota_Client
  imports Mqtt_Client Utils_Json Utils_Httpc
begin

text \<open>
  The firmware update (\<^verbatim>\<open>ota_lib.c\<close>, \<^verbatim>\<open>ota_mqtt.c\<close>, \<^verbatim>\<open>ota_fetch.c\<close>, \<^verbatim>\<open>ota_client.c\<close> and
  \<^verbatim>\<open>HAL_Flash_rtthread.c\<close>) on top of the MQTT client and the HTTP client.  The state is \<open>OTA_Struct_t\<close> with its
  signal channel and the MQTT client that carries it, and the trace of what is done to the flash, to the device and in the
  application.  The field \<open>id\<close>, which no function uses, is left out, and so are null
  handles, which the functions refuse.

  The environment is a parameter: the platform below the MQTT and the HTTP connection, the partitions of the flash, the
  function pointer under which the subscription of the OTA appears in the trace of the MQTT client, and two things C leaves
  undefined: what a string literal holds after \<open>memset\<close> (\<open>erased_literal\<close>), and what \<open>HAL_Snprintf\<close> prints for
  the report of a failure, whose template has three directives and is given one argument (\<open>fail_text\<close>; \<open>None\<close> where it
  reads outside of memory).

  The messages for the OTA that \<open>IOT_MQTT_Yield\<close> delivers are handled when it returns, in the order of their arrival.  While a download
  is under way the handler does not touch the MQTT client, except for the allocator.
\<close>

abbreviation (input) ERR_OTA_GENERAL_FAILURE :: int where "ERR_OTA_GENERAL_FAILURE \<equiv> - 301"
abbreviation (input) ERR_OTA_INVALID_PARAM :: int where "ERR_OTA_INVALID_PARAM \<equiv> - 302"
abbreviation (input) ERR_OTA_INVALID_STATE :: int where "ERR_OTA_INVALID_STATE \<equiv> - 303"
abbreviation (input) ERR_OTA_STR_TOO_LONG :: int where "ERR_OTA_STR_TOO_LONG \<equiv> - 304"
abbreviation (input) ERR_OTA_FETCH_FAILED :: int where "ERR_OTA_FETCH_FAILED \<equiv> - 305"
abbreviation (input) ERR_OTA_FILE_NOT_EXIST :: int where "ERR_OTA_FILE_NOT_EXIST \<equiv> - 306"
abbreviation (input) ERR_OTA_FETCH_AUTH_FAIL :: int where "ERR_OTA_FETCH_AUTH_FAIL \<equiv> - 307"
abbreviation (input) ERR_OTA_FETCH_TIMEOUT :: int where "ERR_OTA_FETCH_TIMEOUT \<equiv> - 308"
abbreviation (input) ERR_OTA_NO_MEMORY :: int where "ERR_OTA_NO_MEMORY \<equiv> - 309"
abbreviation (input) ERR_OTA_OSC_FAILED :: int where "ERR_OTA_OSC_FAILED \<equiv> - 310"
abbreviation (input) ERR_OTA_MD5_MISMATCH :: int where "ERR_OTA_MD5_MISMATCH \<equiv> - 311"

abbreviation (input) HTTP_OTA_BUFF_LEN :: nat where "HTTP_OTA_BUFF_LEN \<equiv> 4100"
abbreviation (input) HTTP_OTA_RANGE_LEN :: size_t where "HTTP_OTA_RANGE_LEN \<equiv> 4096"
abbreviation (input) OTA_UPSTREAM_MSG_BUF_LEN :: nat where "OTA_UPSTREAM_MSG_BUF_LEN \<equiv> 129"
abbreviation (input) OTA_TOPIC_BUF_LEN :: nat where "OTA_TOPIC_BUF_LEN \<equiv> 129"
abbreviation (input) OTA_REPORT_PROGRESS_INTERVAL :: u32 where "OTA_REPORT_PROGRESS_INTERVAL \<equiv> 5"

section \<open>State\<close>

datatype IOT_OTA_CmdType = OTA_IOCTL_FETCHED_SIZE | OTA_IOCTL_FILE_SIZE | OTA_IOCTL_MD5SUM | OTA_IOCTL_VERSION | OTA_IOCTL_CHECK_FIRMWARE

datatype IOT_OTA_UpstreamMsgType =
    OTA_REPORT_UNDEFINED_ERROR | OTA_REPORT_FIRMWARE_BURN_FAILED | OTA_REPORT_MD5_MISMATCH | OTA_REPORT_DOWNLOAD_TIMEOUT
  | OTA_REPORT_SIGNATURE_EXPIRED | OTA_REPORT_FIRMWARE_NOT_EXIST | OTA_REPORT_NONE | OTA_REPORT_DOWNLOADING | OTA_REPORT_BURNING
  | OTA_REPORT_SUCCESS | OTA_REQUEST_FIRMWARE | OTA_REPORT_VERSION

datatype IOT_OTA_State = OTA_STATE_UNINITED | OTA_STATE_INITED | OTA_STATE_FETCHING | OTA_STATE_FETCHED | OTA_STATE_DISCONNECTED

record OTA_Http_Client =
  ofc_url :: "cstr option"
  ofc_http :: http_client
  ofc_data :: http_client_data

text \<open>The pointer \<open>ch_fetch\<close>: null, to a channel, or to memory that has been freed.\<close>

datatype fetch = No_Fetch | Fetch OTA_Http_Client | Freed_Fetch

datatype ota_event =
    Flash_Erase nat
  | Flash_Write nat u32 bytes
  | Device_Reset
  | Fetch_Callback fptr IOT_OTA_UpstreamMsgType

record 'w ota =
  ota_mqtt :: "'w sys"
  ota_product_sn :: cstr
  ota_device_sn :: cstr
  msg_list :: "cstr list option"
  msg_held :: nat
  ota_state :: IOT_OTA_State
  size_last_fetched :: u32
  size_fetched :: u32
  size_file :: u32
  url :: "cstr option"
  download_name :: bool
  module :: "cstr option"
  ota_version :: "cstr option"
  md5sum :: "cstr option"
  md5 :: "iot_md5_context option"
  ch_fetch :: fetch
  err :: int
  report_timer :: Timer
  fetch_callback_func :: "fptr option"
  download_partition :: cstr
  ota_events :: "ota_event list"

record 'w ota_env =
  mqtt_hal :: "'w hal"
  http_hal :: "'w hal"
  fal_partition_find :: "cstr \<Rightarrow> nat option"
  fal_partition_erase_all :: "nat \<Rightarrow> 'w \<Rightarrow> int \<times> 'w"
  fal_partition_write :: "nat \<Rightarrow> u32 \<Rightarrow> bytes \<Rightarrow> 'w \<Rightarrow> int \<times> 'w"
  upgrade_cb :: fptr
  erased_literal :: "cstr \<Rightarrow> cstr"
  fail_text :: "IOT_OTA_UpstreamMsgType \<Rightarrow> cstr option"
  can_reconnect :: bool

definition on_world :: "('w \<Rightarrow> 'a \<times> 'w) \<Rightarrow> 'w ota \<Rightarrow> 'a \<times> 'w ota" where
  "on_world f s = (let (r, w) = f (os (ota_mqtt s)) in (r, s\<lparr>ota_mqtt := (ota_mqtt s)\<lparr>os := w\<rparr>\<rparr>))"

definition on_mqtt :: "('w sys \<Rightarrow> 'a \<times> 'w sys) \<Rightarrow> 'w ota \<Rightarrow> 'a \<times> 'w ota" where
  "on_mqtt f s = (let (r, q) = f (ota_mqtt s) in (r, s\<lparr>ota_mqtt := q\<rparr>))"

definition ota_malloc :: "'w ota_env \<Rightarrow> nat \<Rightarrow> 'w ota \<Rightarrow> bool \<times> 'w ota" where
  "ota_malloc env n s = on_mqtt (malloc (mqtt_hal env) n) s"

definition ota_event :: "ota_event \<Rightarrow> 'w ota \<Rightarrow> 'w ota" where
  "ota_event e s = s\<lparr>ota_events := ota_events s @ [e]\<rparr>"

definition sizeof_iot_md5_context :: nat where "sizeof_iot_md5_context = 88"
definition sizeof_OTA_UPLOAD_Msg :: nat where "sizeof_OTA_UPLOAD_Msg = 8"
definition sizeof_OTA_Http_Client :: nat where "sizeof_OTA_Http_Client = 100"
definition sizeof_OTA_MQTT_Struct :: nat where "sizeof_OTA_MQTT_Struct = 160"
definition sizeof_OTA_Struct :: nat where "sizeof_OTA_Struct = 64"

section \<open>Messages\<close>

definition ota_lib_md5_init :: "'w ota_env \<Rightarrow> 'w ota \<Rightarrow> iot_md5_context option \<times> 'w ota" where
  "ota_lib_md5_init env s =
     (let (ok, s) = ota_malloc env sizeof_iot_md5_context s
      in (if ok then Some (utils_md5_starts utils_md5_init) else None, s))"

definition ota_lib_md5_update :: "iot_md5_context option \<Rightarrow> bytes \<Rightarrow> size_t \<Rightarrow> iot_md5_context option" where
  "ota_lib_md5_update ctx buf buf_len = do { ctx \<leftarrow> ctx; utils_md5_update ctx buf buf_len }"

definition ota_lib_md5_finalize :: "iot_md5_context option \<Rightarrow> (bytes \<times> iot_md5_context) option" where
  "ota_lib_md5_finalize ctx = do { ctx \<leftarrow> ctx; utils_md5_finish_hb2hex ctx }"

definition ota_mal :: "'w ota_env \<Rightarrow> 'w ota \<Rightarrow> nat \<Rightarrow> bool" where
  "ota_mal env s n = fst (HAL_Malloc (mqtt_hal env) n (os (ota_mqtt s)))"

definition ota_value :: "(nat \<Rightarrow> bool) \<Rightarrow> bytes \<Rightarrow> string \<Rightarrow> cstr option option" where
  "ota_value mal json field = map_option fst (LITE_json_value_of mal json (str field) 0)"

definition ota_lib_get_msg_type :: "(nat \<Rightarrow> bool) \<Rightarrow> bytes \<Rightarrow> cstr option option" where
  "ota_lib_get_msg_type mal json = ota_value mal json ''Method''"

definition ota_lib_get_msg_module_ver :: "(nat \<Rightarrow> bool) \<Rightarrow> bytes \<Rightarrow> (int \<times> cstr option \<times> cstr option) option" where
  "ota_lib_get_msg_module_ver mal json = do {
     module_str \<leftarrow> ota_value mal json ''Payload.Module'';
     if module_str = None then Some (ERR_OTA_GENERAL_FAILURE, None, None)
     else do {
       ver \<leftarrow> ota_value mal json ''Payload.Version'';
       Some (if ver = None then ERR_OTA_GENERAL_FAILURE else SUCCESS_RET, module_str, ver) } }"

text \<open>The fields are replaced one after the other, so that an error leaves the earlier ones changed.\<close>

definition ota_lib_get_params :: "(nat \<Rightarrow> bool) \<Rightarrow> bytes \<Rightarrow> 'w ota \<Rightarrow> (int \<times> 'w ota) option" where
  "ota_lib_get_params mal json s = do {
     v \<leftarrow> ota_value mal json ''Payload.Module'';
     if v = None then Some (ERR_OTA_GENERAL_FAILURE, s)
     else do {
       let s = s\<lparr>module := v\<rparr>;
       v \<leftarrow> ota_value mal json ''Payload.Version'';
       if v = None then Some (ERR_OTA_GENERAL_FAILURE, s)
       else do {
         let s = s\<lparr>ota_version := v\<rparr>;
         v \<leftarrow> ota_value mal json ''Payload.URL'';
         if v = None then Some (ERR_OTA_GENERAL_FAILURE, s)
         else do {
           let s = s\<lparr>url := v, download_name := True\<rparr>;
           v \<leftarrow> ota_value mal json ''Payload.MD5'';
           if v = None then Some (ERR_OTA_GENERAL_FAILURE, s)
           else do {
             let s = s\<lparr>md5sum := v\<rparr>;
             v \<leftarrow> ota_value mal json ''Payload.Size'';
             case v of None \<Rightarrow> Some (ERR_OTA_GENERAL_FAILURE, s)
             | Some t \<Rightarrow> do {
                 (ret, n) \<leftarrow> LITE_get_uint32 t;
                 Some (if ret \<noteq> SUCCESS_RET then (ERR_OTA_GENERAL_FAILURE, s)
                   else (SUCCESS_RET, s\<lparr>size_file := (case n of Some n \<Rightarrow> n | None \<Rightarrow> size_file s)\<rparr>)) } } } } } }"

text \<open>In a string literal here, a backquote stands for the double quote of the templates.\<close>

definition tmpl :: "string \<Rightarrow> cstr" where
  "tmpl t = map (\<lambda>c. if c = 96 then 34 else c) (str t)"

definition module_version :: "cstr \<Rightarrow> cstr \<Rightarrow> cstr" where
  "module_version m v = tmpl ''`Module`:`'' @ m @ tmpl ''`, `Version`:`'' @ v @ tmpl ''`''"

text \<open>The return value and the text in the buffer; a null pointer for \<open>%s\<close> is not defined.\<close>

definition ota_lib_gen_upstream_msg ::
  "'w ota_env \<Rightarrow> nat \<Rightarrow> cstr option \<Rightarrow> cstr option \<Rightarrow> int \<Rightarrow> IOT_OTA_UpstreamMsgType \<Rightarrow> (int \<times> cstr) option" where
  "ota_lib_gen_upstream_msg env bufLen module_str version progress reportType =
     (if reportType = OTA_REPORT_NONE then Some (ERR_OTA_GENERAL_FAILURE, [])
      else do {
        t \<leftarrow>
          (if reportType \<in> {OTA_REPORT_DOWNLOAD_TIMEOUT, OTA_REPORT_FIRMWARE_NOT_EXIST, OTA_REPORT_MD5_MISMATCH,
                OTA_REPORT_SIGNATURE_EXPIRED, OTA_REPORT_FIRMWARE_BURN_FAILED, OTA_REPORT_UNDEFINED_ERROR}
           then fail_text env reportType
           else do {
             m \<leftarrow> module_str;
             v \<leftarrow> version;
             Some (case reportType of
               OTA_REPORT_DOWNLOADING \<Rightarrow> tmpl ''{`Method`: `report_progress`, `Payload`: {`State`:`downloading`, `Percent`:'' @ dec_int progress
                  @ str '', '' @ module_version m v @ str '' }}''
             | OTA_REPORT_BURNING \<Rightarrow> tmpl ''{`Method`: `report_progress`, `Payload`: {`State`:`burning`, `Percent`:'' @ dec_int progress
                  @ str '', '' @ module_version m v @ str '' }}''
             | OTA_REPORT_SUCCESS \<Rightarrow> tmpl ''{`Method`: `report_success`, `Payload`:{'' @ module_version m v @ str ''}}''
             | OTA_REQUEST_FIRMWARE \<Rightarrow> tmpl ''{`Method`: `request_firmware`, `Payload`:{'' @ module_version m v @ str ''}}''
             | _ \<Rightarrow> tmpl ''{`Method`: `report_version`, `Payload`:{'' @ module_version m v @ str ''}}'') });
        let (text, ret) = HAL_Snprintf bufLen t;
        Some (if ret < 0 then ERR_OTA_GENERAL_FAILURE else if ret \<ge> int bufLen then ERR_OTA_STR_TOO_LONG else SUCCESS_RET, text) })"

section \<open>The signal channel\<close>

definition ota_mqtt_gen_topic_name :: "string \<Rightarrow> cstr \<Rightarrow> cstr \<Rightarrow> int \<times> cstr" where
  "ota_mqtt_gen_topic_name ota_topic_type sn dn =
     (let (t, ret) = HAL_Snprintf OTA_TOPIC_BUF_LEN
            (str ''/$system/'' @ sn @ str ''/'' @ dn @ str ''/ota/'' @ str ota_topic_type)
      in (if ret \<ge> int OTA_TOPIC_BUF_LEN \<or> ret < 0 then ERR_OTA_GENERAL_FAILURE else SUCCESS_RET, t))"

definition ota_mqtt_publish :: "'w ota_env \<Rightarrow> nat \<Rightarrow> string \<Rightarrow> QoS \<Rightarrow> cstr \<Rightarrow> 'w ota \<Rightarrow> (int \<times> 'w ota) option" where
  "ota_mqtt_publish env fuel topic_type q msg s =
     (let (ret, topic_name) = ota_mqtt_gen_topic_name topic_type (ota_product_sn s) (ota_device_sn s)
      in if ret < 0 then Some (ERR_OTA_GENERAL_FAILURE, s)
         else do {
           ((ret, _), m) \<leftarrow> IOT_MQTT_Publish (mqtt_hal env) fuel topic_name
             \<lparr> qos = (if q = QOS0 then QOS0 else QOS1), retained = 0, dup = 0, msg_ident = Some 0, topic = [], topic_len = 0,
               payload = Some msg, payload_len = of_nat (length msg) \<rparr> (ota_mqtt s);
           Some (if ret < 0 then ERR_OTA_OSC_FAILED else ret, s\<lparr>ota_mqtt := m\<rparr>) })"

definition osc_report_progress :: "'w ota_env \<Rightarrow> nat \<Rightarrow> cstr \<Rightarrow> 'w ota \<Rightarrow> (int \<times> 'w ota) option" where
  "osc_report_progress env fuel msg s = ota_mqtt_publish env fuel ''upstream'' QOS0 msg s"

definition osc_upstream_publish :: "'w ota_env \<Rightarrow> nat \<Rightarrow> cstr \<Rightarrow> 'w ota \<Rightarrow> (int \<times> 'w ota) option" where
  "osc_upstream_publish env fuel msg s = ota_mqtt_publish env fuel ''upstream'' QOS1 msg s"

text \<open>Whether the channel could be made; \<open>list_new\<close> may fail without being noticed.\<close>

definition osc_init :: "'w ota_env \<Rightarrow> nat \<Rightarrow> cstr \<Rightarrow> cstr \<Rightarrow> 'w ota \<Rightarrow> (bool \<times> 'w ota) option" where
  "osc_init env fuel sn dn s = do {
     let (ok, s) = ota_malloc env sizeof_OTA_MQTT_Struct s;
     if \<not> ok then Some (False, s)
     else do {
       let s = s\<lparr>ota_product_sn := sn, ota_device_sn := dn\<rparr>;
       let (ok, s) = ota_malloc env sizeof_List s;
       let s = s\<lparr>msg_list := (if ok then Some [] else None)\<rparr>;
       let (ok, s) = on_world (HAL_MutexCreate (mqtt_hal env)) s;
       if \<not> ok then Some (False, s)
       else do {
         let s = s\<lparr>msg_held := 0\<rparr>;
         let (ret, topic_upgrade) = ota_mqtt_gen_topic_name ''downstream'' sn dn;
         if ret < 0 then Some (False, s)
         else do {
           (ret, m) \<leftarrow> IOT_MQTT_Subscribe (mqtt_hal env) fuel topic_upgrade
             \<lparr> sp_qos = QOS1, on_message_handler = Some (upgrade_cb env), user_data = 0 \<rparr> (ota_mqtt s);
           Some (\<not> ret < 0, s\<lparr>ota_mqtt := m\<rparr>) } } } }"

text \<open>The list and the channel are freed; \<open>list_destroy\<close> of a null pointer is not defined.\<close>

definition osc_deinit :: "'w ota \<Rightarrow> (int \<times> 'w ota) option" where
  "osc_deinit s = (case msg_list s of None \<Rightarrow> None | Some _ \<Rightarrow> Some (SUCCESS_RET, s\<lparr>msg_list := None\<rparr>))"

section \<open>The download channel\<close>

definition ofc_init :: "'w ota_env \<Rightarrow> cstr option \<Rightarrow> 'w ota \<Rightarrow> fetch \<times> 'w ota" where
  "ofc_init env u s =
     (let (ok, s) = ota_malloc env sizeof_OTA_Http_Client s
      in (if \<not> ok then No_Fetch
          else Fetch \<lparr> ofc_url = u,
            ofc_http = \<lparr> net_handle = 0, response_code = 0,
              http_header = Some (str ''Accept: text/html,application/xhtml+xml,application/xml;q=0.9,*/*;q=0.8'' @ CRLF
                @ str ''Accept-Encoding: gzip, deflate'' @ CRLF) \<rparr>,
            ofc_data = \<lparr> is_more = False, is_chunked = False, retrieve_len = 0, response_content_len = 0, response_received_len = 0,
              response_buf_len = 0, post_content_type = None, post_buf = None, post_buf_len = 0, response_buf = None \<rparr> \<rparr>, s))"

definition ofc_connect :: "'w ota_env \<Rightarrow> 'w ota \<Rightarrow> (int \<times> 'w ota) option" where
  "ofc_connect env s =
     (case ch_fetch s of
        Fetch h \<Rightarrow> do {
          u \<leftarrow> ofc_url h;
          ((rc, c), w) \<leftarrow> http_client_connect (http_hal env) (ofc_http h) u (os (ota_mqtt s));
          Some (rc, s\<lparr>ch_fetch := Fetch (h\<lparr>ofc_http := c\<rparr>), ota_mqtt := (ota_mqtt s)\<lparr>os := w\<rparr>\<rparr>) }
      | _ \<Rightarrow> None)"

text \<open>The return value and the contents of \<open>buf\<close>.\<close>

definition ofc_fetch ::
  "'w ota_env \<Rightarrow> nat \<Rightarrow> u32 \<Rightarrow> bytes \<Rightarrow> u32 \<Rightarrow> size_t \<Rightarrow> u32 \<Rightarrow> 'w ota \<Rightarrow> ((int \<times> bytes) \<times> 'w ota) option" where
  "ofc_fetch env fuel fetched buf buf_len range_len timeout_s s =
     (case ch_fetch s of
        Fetch h \<Rightarrow> do {
          u \<leftarrow> ofc_url h;
          (rc, w) \<leftarrow> http_send_request (http_hal env) (ofc_http h) u HTTP_GET fetched range_len (ofc_data h) 5000 (os (ota_mqtt s));
          let s = s\<lparr>ota_mqtt := (ota_mqtt s)\<lparr>os := w\<rparr>\<rparr>;
          if rc \<noteq> SUCCESS_RET then Some ((rc, buf), s)
          else do {
            let d = (ofc_data h)\<lparr>response_buf := Some buf, response_buf_len := sint buf_len, response_content_len := 0,
              response_received_len := 0\<rparr>;
            let diff = response_content_len d - retrieve_len d;
            ((rc, c, d), w) \<leftarrow> http_client_recv_data (http_hal env) fuel (ofc_http h) (timeout_s * 1000) d (os (ota_mqtt s));
            buf \<leftarrow> response_buf d;
            let s = s\<lparr>ch_fetch := Fetch (h\<lparr>ofc_http := c, ofc_data := d\<rparr>), ota_mqtt := (ota_mqtt s)\<lparr>os := w\<rparr>\<rparr>;
            Some ((if rc = SUCCESS_RET then response_content_len d - retrieve_len d - diff
                   else if rc = ERR_HTTP_NOT_FOUND then ERR_OTA_FILE_NOT_EXIST
                   else if rc = ERR_HTTP_AUTH_ERROR then ERR_OTA_FETCH_AUTH_FAIL
                   else if rc = ERR_HTTP_TIMEOUT then ERR_OTA_FETCH_TIMEOUT
                   else rc, buf), s) } }
      | _ \<Rightarrow> None)"

definition ofc_deinit :: "'w ota_env \<Rightarrow> 'w ota \<Rightarrow> (int \<times> 'w ota) option" where
  "ofc_deinit env s =
     (case ch_fetch s of
        Fetch h \<Rightarrow> let (_, s) = on_world (http_client_close (http_hal env) (ofc_http h)) s in Some (SUCCESS_RET, s\<lparr>ch_fetch := Freed_Fetch\<rparr>)
      | _ \<Rightarrow> None)"

section \<open>The flash\<close>

text \<open>\<open>HAL_Download_Name_Set\<close> returns the address of a string literal, whose contents are \<open>download_partition\<close>.\<close>

definition HAL_Download_Init :: "'w ota_env \<Rightarrow> 'w ota \<Rightarrow> (nat option \<times> 'w ota) option" where
  "HAL_Download_Init env s =
     (if \<not> download_name s then None
      else case fal_partition_find env (download_partition s) of None \<Rightarrow> Some (None, s)
      | Some part \<Rightarrow>
          let (r, s) = on_world (fal_partition_erase_all env part) (ota_event (Flash_Erase part) s)
          in Some (if r < 0 then None else Some part, s))"

definition HAL_Download_Write :: "'w ota_env \<Rightarrow> nat \<Rightarrow> u32 \<Rightarrow> bytes \<Rightarrow> nat \<Rightarrow> 'w ota \<Rightarrow> (int \<times> 'w ota) option" where
  "HAL_Download_Write env part total_length buffer_read n s =
     (if n > length buffer_read then None
      else let (r, s) = on_world (fal_partition_write env part total_length (take n buffer_read))
                 (ota_event (Flash_Write part total_length (take n buffer_read)) s)
        in Some (if r < 0 then FAILURE_RET else SUCCESS_RET, s))"

definition HAL_Download_End :: "'w ota \<Rightarrow> int \<times> 'w ota" where
  "HAL_Download_End s = (SUCCESS_RET, ota_event Device_Reset s)"

section \<open>Reports\<close>

definition invalid_state :: "'w ota \<Rightarrow> 'w ota" where "invalid_state s = s\<lparr>err := ERR_OTA_INVALID_STATE\<rparr>"

text \<open>The steps that the reports share: the buffer, the message, and the publication by \<open>send\<close>.\<close>

definition send_report ::
  "'w ota_env \<Rightarrow> cstr option \<Rightarrow> cstr option \<Rightarrow> int \<Rightarrow> IOT_OTA_UpstreamMsgType \<Rightarrow> (cstr \<Rightarrow> 'w ota \<Rightarrow> (int \<times> 'w ota) option) \<Rightarrow> 'w ota
    \<Rightarrow> (int \<times> 'w ota) option" where
  "send_report env module_str version progress reportType send s = do {
     let (ok, s) = ota_malloc env OTA_UPSTREAM_MSG_BUF_LEN s;
     if \<not> ok then Some (ERR_OTA_NO_MEMORY, s\<lparr>err := ERR_OTA_NO_MEMORY\<rparr>)
     else do {
       (ret, msg) \<leftarrow> ota_lib_gen_upstream_msg env OTA_UPSTREAM_MSG_BUF_LEN module_str version progress reportType;
       if ret \<noteq> SUCCESS_RET then Some (ret, s\<lparr>err := ret\<rparr>)
       else do {
         (ret, s) \<leftarrow> send msg s;
         Some (ret, if ret < 0 then s\<lparr>err := ret\<rparr> else s) } } }"

definition IOT_OTA_ReportProgress :: "'w ota_env \<Rightarrow> nat \<Rightarrow> int \<Rightarrow> IOT_OTA_UpstreamMsgType \<Rightarrow> 'w ota \<Rightarrow> (int \<times> 'w ota) option" where
  "IOT_OTA_ReportProgress env fuel progress st s =
     (if ota_state s = OTA_STATE_UNINITED then Some (ERR_OTA_INVALID_STATE, invalid_state s)
      else if progress < 0 \<or> progress > 100 then Some (ERR_OTA_INVALID_PARAM, s\<lparr>err := ERR_OTA_INVALID_PARAM\<rparr>)
      else send_report env (module s) (ota_version s) progress st (osc_report_progress env fuel) s)"

definition send_upstream_msg_with_version ::
  "'w ota_env \<Rightarrow> nat \<Rightarrow> cstr option \<Rightarrow> cstr option \<Rightarrow> IOT_OTA_UpstreamMsgType \<Rightarrow> 'w ota \<Rightarrow> (int \<times> 'w ota) option" where
  "send_upstream_msg_with_version env fuel module_str version reportType s =
     (case version of None \<Rightarrow> Some (ERR_OTA_INVALID_PARAM, s)
      | Some v \<Rightarrow>
          if ota_state s = OTA_STATE_UNINITED then Some (ERR_OTA_INVALID_STATE, invalid_state s)
          else if length v < 1 \<or> length v > 32 then Some (ERR_OTA_INVALID_PARAM, s\<lparr>err := ERR_OTA_INVALID_PARAM\<rparr>)
          else send_report env module_str version 0 reportType (osc_upstream_publish env fuel) s)"

definition IOT_OTA_ReportVersion ::
  "'w ota_env \<Rightarrow> nat \<Rightarrow> cstr option \<Rightarrow> cstr option \<Rightarrow> 'w ota \<Rightarrow> (int \<times> 'w ota) option" where
  "IOT_OTA_ReportVersion env fuel module_str version s =
     send_upstream_msg_with_version env fuel module_str version OTA_REPORT_VERSION s"

definition IOT_OTA_RequestFirmware ::
  "'w ota_env \<Rightarrow> nat \<Rightarrow> cstr option \<Rightarrow> cstr option \<Rightarrow> 'w ota \<Rightarrow> (int \<times> 'w ota) option" where
  "IOT_OTA_RequestFirmware env fuel module_str version s =
     send_upstream_msg_with_version env fuel module_str version OTA_REQUEST_FIRMWARE s"

definition fetch_callback :: "IOT_OTA_UpstreamMsgType \<Rightarrow> 'w ota \<Rightarrow> 'w ota" where
  "fetch_callback t s = (case fetch_callback_func s of None \<Rightarrow> s | Some f \<Rightarrow> ota_event (Fetch_Callback f t) s)"

definition IOT_OTA_ReportSuccess :: "'w ota_env \<Rightarrow> nat \<Rightarrow> cstr option \<Rightarrow> 'w ota \<Rightarrow> (int \<times> 'w ota) option" where
  "IOT_OTA_ReportSuccess env fuel version s =
     (let s = fetch_callback OTA_REPORT_SUCCESS s
      in send_upstream_msg_with_version env fuel (module s) version OTA_REPORT_SUCCESS s)"

definition IOT_OTA_ReportFail :: "'w ota_env \<Rightarrow> nat \<Rightarrow> IOT_OTA_UpstreamMsgType \<Rightarrow> 'w ota \<Rightarrow> (int \<times> 'w ota) option" where
  "IOT_OTA_ReportFail env fuel err_code s =
     (if ota_state s = OTA_STATE_UNINITED then Some (ERR_OTA_INVALID_STATE, invalid_state s)
      else send_report env (module s) (Some []) 0 err_code
        (\<lambda>msg s. do {
           (ret, s) \<leftarrow> osc_upstream_publish env fuel msg s;
           Some (ret, if ret < 0 then s else fetch_callback err_code s) }) s)"

definition IOT_OTA_IsFetching :: "'w ota option \<Rightarrow> bool \<times> 'w ota option" where
  "IOT_OTA_IsFetching handle =
     (case handle of None \<Rightarrow> (False, None)
      | Some s \<Rightarrow> if ota_state s = OTA_STATE_UNINITED then (False, Some (invalid_state s))
          else (ota_state s = OTA_STATE_FETCHING, Some s))"

definition IOT_OTA_IsFetchFinish :: "'w ota option \<Rightarrow> bool \<times> 'w ota option" where
  "IOT_OTA_IsFetchFinish handle =
     (case handle of None \<Rightarrow> (False, None)
      | Some s \<Rightarrow> if ota_state s = OTA_STATE_UNINITED then (False, Some (invalid_state s))
          else (ota_state s = OTA_STATE_FETCHED, Some s))"

definition IOT_OTA_GetLastError :: "'w ota option \<Rightarrow> int" where
  "IOT_OTA_GetLastError handle = (case handle of None \<Rightarrow> ERR_OTA_INVALID_PARAM | Some s \<Rightarrow> err s)"

section \<open>Fetching\<close>

text \<open>
  The attempts of \<open>IOT_OTA_FetchYield\<close>, of which \<open>n\<close> are left: the value of \<open>ret\<close> and the buffer.  After an error other than
  \<open>ERR_HTTP_CONN_ERROR\<close> the state is \<open>OTA_STATE_FETCHED\<close>, and the next attempt follows after a second.
\<close>

primrec fetch_attempts ::
  "'w ota_env \<Rightarrow> nat \<Rightarrow> nat \<Rightarrow> int \<Rightarrow> bytes \<Rightarrow> u32 \<Rightarrow> size_t \<Rightarrow> u32 \<Rightarrow> 'w ota \<Rightarrow> ((int \<times> bytes) \<times> 'w ota) option" where
  "fetch_attempts env fuel 0 ret buf buf_len range_len timeout_s s = Some ((ret, buf), s)"
| "fetch_attempts env fuel (Suc n) ret buf buf_len range_len timeout_s s = do {
     ((ret, buf), s) \<leftarrow> ofc_fetch env fuel (size_fetched s) buf buf_len range_len timeout_s s;
     if ret = ERR_HTTP_CONN_ERROR \<and> ota_state s \<noteq> OTA_STATE_DISCONNECTED then do {
       (_, s) \<leftarrow> ofc_deinit env s;
       let (c, s) = ofc_init env (url s) s;
       (_, s) \<leftarrow> ofc_connect env (s\<lparr>ch_fetch := c\<rparr>);
       fetch_attempts env fuel n ret buf buf_len range_len timeout_s (s\<lparr>ota_state := OTA_STATE_FETCHING\<rparr>) }
     else if ret < 0 then do {
       let s = s\<lparr>ota_state := OTA_STATE_FETCHED, err := ret\<rparr>;
       s \<leftarrow> (if ret = ERR_OTA_FETCH_AUTH_FAIL then map_option snd (IOT_OTA_ReportFail env fuel OTA_REPORT_SIGNATURE_EXPIRED s)
             else if ret = ERR_OTA_FILE_NOT_EXIST then map_option snd (IOT_OTA_ReportFail env fuel OTA_REPORT_FIRMWARE_NOT_EXIST s)
             else if ret = ERR_OTA_FETCH_TIMEOUT then map_option snd (IOT_OTA_ReportFail env fuel OTA_REPORT_DOWNLOAD_TIMEOUT s)
             else Some (s\<lparr>err := ERR_OTA_FETCH_FAILED\<rparr>));
       let (_, s) = on_world (\<lambda>w. ((), HAL_SleepMs (mqtt_hal env) 1000 w)) s;
       fetch_attempts env fuel n ret buf buf_len range_len timeout_s s }
     else if size_fetched s = 0 then do {
       (_, s) \<leftarrow> IOT_OTA_ReportProgress env fuel 0 OTA_REPORT_DOWNLOADING s;
       let (t, s) = on_mqtt (countdown (mqtt_hal env) OTA_REPORT_PROGRESS_INTERVAL) s;
       Some ((ret, buf), s\<lparr>report_timer := t\<rparr>) }
     else Some ((ret, buf), s) }"

text \<open>The report of the progress, at the end and every five seconds, and the progress in percent.\<close>

definition report_percent :: "'w ota_env \<Rightarrow> nat \<Rightarrow> 'w ota \<Rightarrow> 'w ota option" where
  "report_percent env fuel s = do {
     if size_file s = 0 then None
     else do {
       let percent = size_fetched s * 100 div size_file s;
       if percent = 100 then map_option snd (IOT_OTA_ReportProgress env fuel (sint percent) OTA_REPORT_DOWNLOADING s)
       else if size_last_fetched s > 0 then do {
         let (expired, s) = on_mqtt (has_expired (mqtt_hal env) (report_timer s)) s;
         if expired then do {
           (_, s) \<leftarrow> IOT_OTA_ReportProgress env fuel (sint percent) OTA_REPORT_DOWNLOADING s;
           let (t, s) = on_mqtt (countdown (mqtt_hal env) OTA_REPORT_PROGRESS_INTERVAL) s;
           let (_, s) = on_world (\<lambda>w. ((), HAL_SleepMs (mqtt_hal env) 100 w)) (s\<lparr>report_timer := t\<rparr>);
           Some s }
         else Some s }
       else Some s } }"

definition IOT_OTA_FetchYield ::
  "'w ota_env \<Rightarrow> nat \<Rightarrow> bytes \<Rightarrow> u32 \<Rightarrow> size_t \<Rightarrow> u32 \<Rightarrow> 'w ota \<Rightarrow> ((int \<times> bytes) \<times> 'w ota) option" where
  "IOT_OTA_FetchYield env fuel buf buf_len range_len timeout_s s =
     (if buf_len = 0 then Some ((ERR_OTA_INVALID_PARAM, buf), s)
      else if ota_state s \<noteq> OTA_STATE_FETCHING then Some ((ERR_OTA_INVALID_STATE, buf), invalid_state s)
      else do {
        ((ret, buf), s) \<leftarrow> fetch_attempts env fuel 5 0 buf buf_len range_len timeout_s s;
        if ret > 0 then do {
          ctx \<leftarrow> ota_lib_md5_update (md5 s) buf (of_int ret);
          let s = s\<lparr>md5 := Some ctx, size_last_fetched := of_int ret, size_fetched := size_fetched s + of_int ret\<rparr>;
          s \<leftarrow> report_percent env fuel s;
          Some ((ret, buf), if size_fetched s \<ge> size_file s then s\<lparr>ota_state := OTA_STATE_FETCHED\<rparr> else s) }
        else Some ((ret, buf), s) })"

section \<open>Control\<close>

text \<open>What is stored at \<open>buf\<close>; the pointer is null (\<open>None\<close>) or aligned to 4 bytes or not.\<close>

datatype ota_out = Out32 u32 | Out_Text cstr

definition IOT_OTA_Ioctl ::
  "'w ota_env \<Rightarrow> nat \<Rightarrow> IOT_OTA_CmdType \<Rightarrow> bool option \<Rightarrow> size_t \<Rightarrow> 'w ota \<Rightarrow> ((int \<times> ota_out option) \<times> 'w ota) option" where
  "IOT_OTA_Ioctl env fuel cmd buf buf_len s =
     (case buf of None \<Rightarrow> Some ((ERR_OTA_INVALID_PARAM, None), s)
      | Some aligned \<Rightarrow>
          if buf_len = 0 then Some ((ERR_OTA_INVALID_PARAM, None), s)
          else if ota_state s \<in> {OTA_STATE_UNINITED, OTA_STATE_INITED} then Some ((ERR_OTA_INVALID_STATE, None), invalid_state s)
          else let bad = (buf_len \<noteq> 4 \<or> \<not> aligned); s_bad = s\<lparr>err := ERR_OTA_INVALID_PARAM\<rparr>
          in case cmd of
            OTA_IOCTL_FETCHED_SIZE \<Rightarrow> Some (if bad then ((FAILURE_RET, None), s_bad) else ((SUCCESS_RET, Some (Out32 (size_fetched s))), s))
          | OTA_IOCTL_FILE_SIZE \<Rightarrow> Some (if bad then ((FAILURE_RET, None), s_bad) else ((SUCCESS_RET, Some (Out32 (size_file s))), s))
          | OTA_IOCTL_VERSION \<Rightarrow> do { v \<leftarrow> ota_version s; Some ((SUCCESS_RET, Some (Out_Text (take (unat buf_len - 1) v))), s) }
          | OTA_IOCTL_MD5SUM \<Rightarrow> do { v \<leftarrow> md5sum s; Some ((SUCCESS_RET, Some (Out_Text (take (unat buf_len - 1) v))), s) }
          | OTA_IOCTL_CHECK_FIRMWARE \<Rightarrow>
              if bad then Some ((FAILURE_RET, None), s_bad)
              else if ota_state s \<noteq> OTA_STATE_FETCHED then Some ((FAILURE_RET, None), invalid_state s)
              else do {
                (md5_str, ctx) \<leftarrow> ota_lib_md5_finalize (md5 s);
                let s = s\<lparr>md5 := Some ctx\<rparr>;
                sum \<leftarrow> md5sum s;
                if sum = takeWhile (\<lambda>c. c \<noteq> 0) md5_str then Some ((SUCCESS_RET, Some (Out32 1)), s)
                else do {
                  (_, s) \<leftarrow> IOT_OTA_ReportFail env fuel OTA_REPORT_MD5_MISMATCH (s\<lparr>err := ERR_OTA_MD5_MISMATCH\<rparr>);
                  Some ((SUCCESS_RET, Some (Out32 0)), s) } })"

text \<open>\<open>memset\<close> of the strings to zero leaves empty strings; \<open>download_name\<close> points to a string literal.\<close>

definition IOT_OTA_Clear :: "'w ota_env \<Rightarrow> 'w ota \<Rightarrow> 'w ota option" where
  "IOT_OTA_Clear env s = do {
     (_, s) \<leftarrow> ofc_deinit env s;
     let s = s\<lparr>url := map_option (\<lambda>_. []) (url s), module := map_option (\<lambda>_. []) (module s),
       download_partition := (if download_name s then erased_literal env (download_partition s) else download_partition s),
       ota_version := map_option (\<lambda>_. []) (ota_version s), md5sum := map_option (\<lambda>_. []) (md5sum s),
       size_last_fetched := 0, size_fetched := 0, size_file := 0\<rparr>;
     let (ctx, s) = ota_lib_md5_init env s;
     Some (s\<lparr>md5 := ctx, ota_state := OTA_STATE_INITED\<rparr>) }"

text \<open>\<open>None\<close> where the string literal would be freed.\<close>

definition IOT_OTA_Destroy :: "'w ota_env \<Rightarrow> 'w ota \<Rightarrow> (int \<times> 'w ota) option" where
  "IOT_OTA_Destroy env s =
     (if ota_state s = OTA_STATE_UNINITED then Some (FAILURE_RET, s)
      else do {
        (_, s) \<leftarrow> osc_deinit s;
        (_, s) \<leftarrow> ofc_deinit env s;
        if download_name s then None else Some (SUCCESS_RET, s) })"

section \<open>The download\<close>

text \<open>
  The message that \<open>IOT_MQTT_Yield\<close> hands to \<open>_ota_mqtt_upgrade_cb\<close>: its payload goes to the callback \<open>cb\<close>.
\<close>

fun ota_mqtt_upgrade_cb :: "'w ota_env \<Rightarrow> (bytes \<Rightarrow> 'w ota \<Rightarrow> 'w ota option) \<Rightarrow> callback list \<Rightarrow> 'w ota \<Rightarrow> 'w ota option" where
  "ota_mqtt_upgrade_cb env cb [] s = Some s"
| "ota_mqtt_upgrade_cb env cb (c # cs) s = do {
     s \<leftarrow> (case c of
             Message f m _ \<Rightarrow>
               if f = upgrade_cb env then do { p \<leftarrow> payload m; cb (take (unat (payload_len m)) p) s } else Some s
           | _ \<Rightarrow> Some s);
     ota_mqtt_upgrade_cb env cb cs s }"

definition IOT_OTA_Yield ::
  "'w ota_env \<Rightarrow> nat \<Rightarrow> (bytes \<Rightarrow> 'w ota \<Rightarrow> 'w ota option) \<Rightarrow> u32 \<Rightarrow> 'w ota \<Rightarrow> (int \<times> 'w ota) option" where
  "IOT_OTA_Yield env fuel cb timeout_ms s = do {
     let n = length (calls (ota_mqtt s));
     (ret, m) \<leftarrow> IOT_MQTT_Yield (can_reconnect env) (mqtt_hal env) fuel timeout_ms (ota_mqtt s);
     s \<leftarrow> ota_mqtt_upgrade_cb env cb (drop n (calls m)) (s\<lparr>ota_mqtt := m\<rparr>);
     Some (ret, s) }"

text \<open>
  The loop of \<open>IOT_OTA_fw_download\<close>: the return value with which it jumps to the end, or \<open>None\<close> when the file is fetched, and
  the number of bytes written.
\<close>

primrec download_loop ::
  "'w ota_env \<Rightarrow> nat \<Rightarrow> (bytes \<Rightarrow> 'w ota \<Rightarrow> 'w ota option) \<Rightarrow> nat \<Rightarrow> nat \<Rightarrow> bytes \<Rightarrow> nat \<Rightarrow> 'w ota \<Rightarrow> ((int option \<times> nat) \<times> 'w ota) option" where
  "download_loop env fuel cb 0 part buf total_length s = None"
| "download_loop env fuel cb (Suc n) part buf total_length s = do {
     ((len, buf), s) \<leftarrow> IOT_OTA_FetchYield env fuel buf (of_nat HTTP_OTA_BUFF_LEN) HTTP_OTA_RANGE_LEN 10 s;
     if len > 0 then do {
       (r, s) \<leftarrow> HAL_Download_Write env part (of_nat total_length) buf (nat len) s;
       if r = FAILURE_RET then Some ((Some FAILURE_RET, total_length), s)
       else if int total_length + len \<ge> 2 ^ 31 then None
       else do {
         let total_length = total_length + nat len;
         (_, s) \<leftarrow> IOT_OTA_Yield env fuel cb 100 s;
         let (finish, h) = IOT_OTA_IsFetchFinish (Some s);
         s \<leftarrow> h;
         if finish then Some ((None, total_length), s) else download_loop env fuel cb n part buf total_length s } }
     else Some ((Some ERR_OTA_FETCH_FAILED, total_length), s) }"

text \<open>The end of \<open>IOT_OTA_fw_download\<close> after the loop, up to the label \<open>__exit\<close>.\<close>

definition finish_download :: "'w ota_env \<Rightarrow> nat \<Rightarrow> int \<Rightarrow> nat \<Rightarrow> 'w ota \<Rightarrow> (int \<times> 'w ota) option" where
  "finish_download env fuel sz total_length s =
     (if int total_length \<noteq> sz then Some (0, s)
      else do {
        ((_, firmware_valid), s) \<leftarrow> IOT_OTA_Ioctl env fuel OTA_IOCTL_CHECK_FIRMWARE (Some True) 4 s;
        firmware_valid \<leftarrow> firmware_valid;
        if firmware_valid = Out32 0 then Some (IOT_OTA_GetLastError (Some s), s)
        else do {
          ((_, v), s) \<leftarrow> IOT_OTA_Ioctl env fuel OTA_IOCTL_VERSION (Some True) 33 s;
          msg_version \<leftarrow> (case v of Some (Out_Text v) \<Rightarrow> Some v | _ \<Rightarrow> None);
          (_, s) \<leftarrow> IOT_OTA_ReportSuccess env fuel (Some msg_version) s;
          let (r, s) = HAL_Download_End s;
          Some (if r \<noteq> 0 then FAILURE_RET else SUCCESS_RET, s) } })"

definition IOT_OTA_fw_download ::
  "'w ota_env \<Rightarrow> nat \<Rightarrow> (bytes \<Rightarrow> 'w ota \<Rightarrow> 'w ota option) \<Rightarrow> 'w ota \<Rightarrow> (int \<times> 'w ota) option" where
  "IOT_OTA_fw_download env fuel cb s = do {
     ((_, sz), s) \<leftarrow> IOT_OTA_Ioctl env fuel OTA_IOCTL_FILE_SIZE (Some True) 4 s;
     let sz = (case sz of Some (Out32 n) \<Rightarrow> sint n | _ \<Rightarrow> 0);
     (part, s) \<leftarrow> HAL_Download_Init env s;
     (ret, s) \<leftarrow>
       (case part of None \<Rightarrow> Some (FAILURE_RET, s)
        | Some part \<Rightarrow> do {
            let (ok, s) = ota_malloc env HTTP_OTA_BUFF_LEN s;
            if \<not> ok then Some (FAILURE_RET, s)
            else do {
              ((r, total_length), s) \<leftarrow> download_loop env fuel cb fuel part (replicate HTTP_OTA_BUFF_LEN 0) 0 s;
              case r of Some ret \<Rightarrow> Some (ret, s) | None \<Rightarrow> finish_download env fuel sz total_length s } });
     s \<leftarrow> IOT_OTA_Clear env s;
     Some (ret, s) }"

section \<open>Commands of the server\<close>

definition ota_lock :: "'w ota \<Rightarrow> 'w ota" where "ota_lock s = s\<lparr>msg_held := msg_held s + 1\<rparr>"

definition ota_unlock :: "'w ota \<Rightarrow> 'w ota option" where
  "ota_unlock s = (if msg_held s = 0 then None else Some (s\<lparr>msg_held := msg_held s - 1\<rparr>))"

text \<open>The first allocation is not checked.\<close>

definition ota_push_upload_msg :: "'w ota_env \<Rightarrow> cstr \<Rightarrow> nat \<Rightarrow> 'w ota \<Rightarrow> 'w ota option" where
  "ota_push_upload_msg env msg msg_len s = do {
     let (ok, s) = ota_malloc env sizeof_OTA_UPLOAD_Msg s;
     if \<not> ok then None
     else do {
       let (ok, s) = ota_malloc env (msg_len + 1) s;
       if \<not> ok then Some s
       else do {
         let (ok, s) = ota_malloc env sizeof_ListNode s;
         if \<not> ok then Some s
         else do {
           let s = ota_lock s;
           l \<leftarrow> msg_list s;
           ota_unlock (s\<lparr>msg_list := Some (l @ [take msg_len (msg @ replicate msg_len 0)])\<rparr>) } } } }"

text \<open>The payload goes through \<open>msg_callback\<close>, with its length.\<close>

definition ota_pop_upload_msg :: "(bytes \<Rightarrow> 'w ota \<Rightarrow> 'w ota option) \<Rightarrow> 'w ota \<Rightarrow> 'w ota option" where
  "ota_pop_upload_msg cb s = do {
     l \<leftarrow> msg_list s;
     case l of [] \<Rightarrow> Some s
     | msg # l \<Rightarrow> do { s \<leftarrow> ota_unlock ((ota_lock s)\<lparr>msg_list := Some l\<rparr>); cb msg s } }"

text \<open>
  The two commands; \<open>cb\<close> is the callback itself, for the messages that arrive during the download and for the one that has
  been kept.
\<close>

definition update_firmware ::
  "'w ota_env \<Rightarrow> nat \<Rightarrow> (bytes \<Rightarrow> 'w ota \<Rightarrow> 'w ota option) \<Rightarrow> (nat \<Rightarrow> bool) \<Rightarrow> bytes \<Rightarrow> cstr \<Rightarrow> nat \<Rightarrow> 'w ota \<Rightarrow> 'w ota option" where
  "update_firmware env fuel cb mal msg_str text msg_len s =
     (if ota_state s = OTA_STATE_FETCHING then ota_push_upload_msg env text msg_len s
      else do {
        (ret, s) \<leftarrow> ota_lib_get_params mal msg_str s;
        if ret \<noteq> SUCCESS_RET then Some s
        else do {
          let (c, s) = ofc_init env (url s) s;
          let s = s\<lparr>ch_fetch := c\<rparr>;
          if c = No_Fetch then Some s
          else do {
            (ret, s) \<leftarrow> ofc_connect env s;
            if ret \<noteq> SUCCESS_RET then Some (s\<lparr>ota_state := OTA_STATE_DISCONNECTED\<rparr>)
            else do {
              (ret, s) \<leftarrow> IOT_OTA_fw_download env fuel cb (s\<lparr>ota_state := OTA_STATE_FETCHING\<rparr>);
              ota_pop_upload_msg cb (if ret \<noteq> SUCCESS_RET then s\<lparr>ota_state := OTA_STATE_DISCONNECTED\<rparr> else s) } } } })"

definition cancel_update :: "'w ota_env \<Rightarrow> (nat \<Rightarrow> bool) \<Rightarrow> bytes \<Rightarrow> 'w ota \<Rightarrow> 'w ota option" where
  "cancel_update env mal msg_str s = do {
     (ret, msg_module, msg_ver) \<leftarrow> ota_lib_get_msg_module_ver mal msg_str;
     if ret \<noteq> SUCCESS_RET then Some s
     else do {
       m \<leftarrow> module s;
       if msg_module \<noteq> Some m then Some s
       else do {
         v \<leftarrow> ota_version s;
         if msg_ver \<noteq> Some v then Some s
         else case ch_fetch s of
           Fetch h \<Rightarrow>
             let (c, s) = on_world (http_client_close (http_hal env) (ofc_http h)) s
             in Some (s\<lparr>ch_fetch := Fetch (h\<lparr>ofc_http := c\<rparr>), ota_state := OTA_STATE_DISCONNECTED\<rparr>)
         | _ \<Rightarrow> None } } }"

text \<open>\<open>_ota_callback\<close>: the copy of the message ends at its first zero byte.\<close>

definition ota_callback_step ::
  "'w ota_env \<Rightarrow> nat \<Rightarrow> (bytes \<Rightarrow> 'w ota \<Rightarrow> 'w ota option) \<Rightarrow> bytes \<Rightarrow> 'w ota \<Rightarrow> 'w ota option" where
  "ota_callback_step env fuel cb msg s = do {
     let (ok, s) = ota_malloc env (length msg + 1) s;
     if \<not> ok then Some s
     else do {
       let text = takeWhile (\<lambda>c. c \<noteq> 0) msg;
       let msg_str = text @ replicate (length msg + 1 - length text) 0;
       let mal = ota_mal env s;
       msg_method \<leftarrow> ota_lib_get_msg_type mal msg_str;
       case msg_method of None \<Rightarrow> Some s
       | Some meth \<Rightarrow>
           if ch_fetch s = No_Fetch \<and> meth = str ''cancel_update'' then Some s
           else if meth = str ''update_firmware'' then update_firmware env fuel cb mal msg_str text (length msg) s
           else if meth = str ''cancel_update'' then cancel_update env mal msg_str s
           else Some s } }"

text \<open>The callback, with at most \<open>d\<close> downloads inside each other.\<close>

primrec ota_callback :: "'w ota_env \<Rightarrow> nat \<Rightarrow> nat \<Rightarrow> bytes \<Rightarrow> 'w ota \<Rightarrow> 'w ota option" where
  "ota_callback env fuel 0 msg s = None"
| "ota_callback env fuel (Suc d) msg s = ota_callback_step env fuel (ota_callback env fuel d) msg s"

text \<open>\<open>s\<close> holds the MQTT client and the contents of the literal; the other fields are set.\<close>

definition IOT_OTA_Init :: "'w ota_env \<Rightarrow> nat \<Rightarrow> cstr option \<Rightarrow> cstr option \<Rightarrow> 'w ota \<Rightarrow> (bool \<times> 'w ota) option" where
  "IOT_OTA_Init env fuel sn dn s =
     (case (sn, dn) of
        (Some p, Some d) \<Rightarrow> do {
          let (ok, s) = ota_malloc env sizeof_OTA_Struct s;
          if \<not> ok then Some (False, s)
          else do {
            let s = s\<lparr>ota_state := OTA_STATE_UNINITED, size_last_fetched := 0, size_fetched := 0, size_file := 0, url := None,
              download_name := False, module := None, ota_version := None, md5sum := None, md5 := None, ch_fetch := No_Fetch, err := 0,
              report_timer := \<lparr> end_time = 0 \<rparr>, fetch_callback_func := None\<rparr>;
            (ok, s) \<leftarrow> osc_init env fuel p d s;
            if \<not> ok then Some (False, s)
            else do {
              let (ctx, s) = ota_lib_md5_init env s;
              let s = s\<lparr>md5 := ctx\<rparr>;
              if ctx = None then do { (_, s) \<leftarrow> osc_deinit s; Some (False, s) }
              else Some (True, s\<lparr>ota_state := OTA_STATE_INITED\<rparr>) } } }
      | _ \<Rightarrow> Some (False, s))"

end
