(* ===== verification/Ota_Download.thy ===== *)
theory Ota_Download
  imports Ota_Client
begin

text \<open>
  What a firmware update writes, checks and reports.  \<open>quiet\<close> is what the operations of a download keep; the locale
  \<open>ota_handler\<close> is the contract of the handler of messages that the download relies on, and \<open>_ota_callback\<close> fulfils it.
\<close>

section \<open>What the operations keep\<close>

definition is_callback :: "ota_event \<Rightarrow> bool" where
  "is_callback e = (case e of Fetch_Callback _ _ \<Rightarrow> True | _ \<Rightarrow> False)"

definition quiet :: "'w ota \<Rightarrow> 'w ota \<Rightarrow> bool" where
  "quiet s s' \<longleftrightarrow> md5 s' = md5 s \<and> (\<exists>es. ota_events s' = ota_events s @ es \<and> list_all is_callback es)"

named_theorems quiet_ops

lemma quiet_refl [simp]: "quiet s s" by (simp add: quiet_def)

lemma quiet_trans: "quiet s s1 \<Longrightarrow> quiet s1 s2 \<Longrightarrow> quiet s s2"
  by (auto simp: quiet_def)

lemma quiet_updates [simp]:
  "quiet s (s1\<lparr>ota_mqtt := q\<rparr>) = quiet s s1" "quiet s (s1\<lparr>err := e\<rparr>) = quiet s s1" "quiet s (s1\<lparr>ota_state := t\<rparr>) = quiet s s1"
  "quiet s (s1\<lparr>ch_fetch := c\<rparr>) = quiet s s1" "quiet s (s1\<lparr>report_timer := r\<rparr>) = quiet s s1"
  "quiet s (s1\<lparr>size_fetched := n\<rparr>) = quiet s s1" "quiet s (s1\<lparr>size_last_fetched := n\<rparr>) = quiet s s1"
  "quiet (s\<lparr>ota_mqtt := q\<rparr>) s1 = quiet s s1" "quiet (s\<lparr>err := e\<rparr>) s1 = quiet s s1" "quiet (s\<lparr>ota_state := t\<rparr>) s1 = quiet s s1"
  by (simp_all add: quiet_def)

lemma on_world_result: "snd (on_world f s) = s\<lparr>ota_mqtt := (ota_mqtt s)\<lparr>os := snd (f (os (ota_mqtt s)))\<rparr>\<rparr>"
  by (simp add: on_world_def split: prod.split)

lemma on_mqtt_result: "snd (on_mqtt f s) = s\<lparr>ota_mqtt := snd (f (ota_mqtt s))\<rparr>"
  by (simp add: on_mqtt_def split: prod.split)

lemma on_worldE: assumes "on_world f s = (r, s')" obtains q where "s' = s\<lparr>ota_mqtt := q\<rparr>"
  using on_world_result [of f s] assms by auto

lemma on_mqttE: assumes "on_mqtt f s = (r, s')" obtains q where "s' = s\<lparr>ota_mqtt := q\<rparr>"
  using on_mqtt_result [of f s] assms by auto

lemma ota_mallocE: assumes "ota_malloc env n s = (r, s')" obtains q where "s' = s\<lparr>ota_mqtt := q\<rparr>"
  using assms unfolding ota_malloc_def by (rule on_mqttE)

text \<open>A report changes the MQTT client, the last error, which stays or becomes negative, and what \<open>send\<close> changes.\<close>

lemma gen_error: "ota_lib_gen_upstream_msg env n m v p t = Some (ret, msg) \<Longrightarrow> ret \<noteq> SUCCESS_RET \<Longrightarrow> ret < 0"
  by (auto simp: ota_lib_gen_upstream_msg_def HAL_Snprintf_def bind_eq_Some_conv Let_def split: if_splits)

lemma publishE:
  assumes "ota_mqtt_publish env fuel ty q msg s = Some (r, s')"
  obtains m where "s' = s\<lparr>ota_mqtt := m\<rparr>"
proof (cases "fst (ota_mqtt_gen_topic_name ty (ota_product_sn s) (ota_device_sn s)) < 0")
  case True
  with assms have "s' = s" by (auto simp: ota_mqtt_publish_def split: prod.splits)
  then show ?thesis using that [of "ota_mqtt s"] by simp
next
  case False
  with assms show ?thesis using that by (auto simp: ota_mqtt_publish_def bind_eq_Some_conv split: prod.splits)
qed

lemma send_report_effect:
  assumes "send_report env m v p t send s = Some (ret, s')"
    and "\<And>msg s r s'. send msg s = Some (r, s') \<Longrightarrow> quiet s s' \<and> ota_state s' = ota_state s \<and> err s' = err s \<and> md5sum s' = md5sum s"
  shows "quiet s s' \<and> ota_state s' = ota_state s \<and> md5sum s' = md5sum s \<and> (err s' = err s \<or> err s' < 0)"
proof -
  obtain ok s1 where m: "ota_malloc env OTA_UPSTREAM_MSG_BUF_LEN s = (ok, s1)" by fastforce
  then obtain q where s1: "s1 = s\<lparr>ota_mqtt := q\<rparr>" by (rule ota_mallocE)
  show ?thesis
  proof (cases ok)
    case False
    then show ?thesis using assms(1) m s1 by (auto simp: send_report_def)
  next
    case True
    with assms(1) m obtain r msg where g: "ota_lib_gen_upstream_msg env OTA_UPSTREAM_MSG_BUF_LEN m v p t = Some (r, msg)"
      "(if r \<noteq> SUCCESS_RET then Some (r, s1\<lparr>err := r\<rparr>) else do { (ret, s) \<leftarrow> send msg s1; Some (ret, if ret < 0 then s\<lparr>err := ret\<rparr> else s) }) = Some (ret, s')"
      by (auto simp: send_report_def bind_eq_Some_conv)
    show ?thesis
    proof (cases "r = SUCCESS_RET")
      case False
      with g(2) have s': "s' = s1\<lparr>err := r\<rparr>" by auto
      from gen_error [OF g(1) False] show ?thesis unfolding s' s1 by simp
    next
      case True
      with g(2) obtain s2 where s2: "send msg s1 = Some (ret, s2)" "s' = (if ret < 0 then s2\<lparr>err := ret\<rparr> else s2)"
        by (auto simp: bind_eq_Some_conv)
      from assms(2) [OF s2(1)] have "quiet s1 s2" "ota_state s2 = ota_state s1" "err s2 = err s1" "md5sum s2 = md5sum s1" by simp_all
      moreover have "quiet s s1" by (simp add: s1)
      ultimately show ?thesis using s2(2) s1 by (auto intro: quiet_trans)
    qed
  qed
qed

abbreviation reported :: "'w ota \<Rightarrow> 'w ota \<Rightarrow> bool" where
  "reported s s' \<equiv> quiet s s' \<and> ota_state s' = ota_state s \<and> md5sum s' = md5sum s \<and> (err s' = err s \<or> err s' < 0)"

lemma quiet_callback [simp]: "quiet s (fetch_callback t s)" and fetch_callback_keeps [simp]:
  "ota_state (fetch_callback t s) = ota_state s" "err (fetch_callback t s) = err s" "md5sum (fetch_callback t s) = md5sum s"
  "ota_version (fetch_callback t s) = ota_version s"
  by (auto simp: fetch_callback_def ota_event_def quiet_def is_callback_def split: option.split)

lemma report_progress_effect:
  assumes "IOT_OTA_ReportProgress env fuel p t s = Some (r, s')"
  shows "reported s s'"
proof (cases "ota_state s = OTA_STATE_UNINITED \<or> p < 0 \<or> p > 100")
  case True
  then show ?thesis using assms by (auto simp: IOT_OTA_ReportProgress_def invalid_state_def split: if_splits)
next
  case False
  with assms have "send_report env (module s) (ota_version s) p t (osc_report_progress env fuel) s = Some (r, s')"
    by (simp add: IOT_OTA_ReportProgress_def)
  then show ?thesis by (rule send_report_effect) (auto simp: osc_report_progress_def elim!: publishE)
qed

lemma send_upstream_effect:
  assumes "send_upstream_msg_with_version env fuel m v t s = Some (r, s')"
  shows "reported s s'"
proof (cases "case v of None \<Rightarrow> True | Some v \<Rightarrow> ota_state s = OTA_STATE_UNINITED \<or> length v < 1 \<or> length v > 32")
  case True
  then show ?thesis using assms by (auto simp: send_upstream_msg_with_version_def invalid_state_def split: if_splits option.splits)
next
  case False
  with assms have "send_report env m v 0 t (osc_upstream_publish env fuel) s = Some (r, s')"
    by (auto simp: send_upstream_msg_with_version_def split: option.splits)
  then show ?thesis by (rule send_report_effect) (auto simp: osc_upstream_publish_def elim!: publishE)
qed

lemma report_fail_effect:
  assumes "IOT_OTA_ReportFail env fuel t s = Some (r, s')"
  shows "reported s s'"
proof (cases "ota_state s = OTA_STATE_UNINITED")
  case True
  then show ?thesis using assms by (auto simp: IOT_OTA_ReportFail_def invalid_state_def)
next
  case False
  with assms have "send_report env (module s) (Some []) 0 t
    (\<lambda>msg s. do { (ret, s) \<leftarrow> osc_upstream_publish env fuel msg s; Some (ret, if ret < 0 then s else fetch_callback t s) }) s = Some (r, s')"
    by (simp add: IOT_OTA_ReportFail_def)
  then show ?thesis
  proof (rule send_report_effect, goal_cases)
    case (1 msg s r s')
    then obtain s1 where s1: "osc_upstream_publish env fuel msg s = Some (r, s1)" "s' = (if r < 0 then s1 else fetch_callback t s1)"
      by (auto simp: bind_eq_Some_conv)
    from s1(1) obtain q where "s1 = s\<lparr>ota_mqtt := q\<rparr>" unfolding osc_upstream_publish_def by (rule publishE)
    then have "quiet s s1" "ota_state s1 = ota_state s" "err s1 = err s" "md5sum s1 = md5sum s" by simp_all
    then show ?case using s1(2) quiet_trans [of s s1 "fetch_callback t s1"] by auto
  qed
qed

lemma report_success_effect:
  assumes "IOT_OTA_ReportSuccess env fuel v s = Some (r, s')"
  shows "reported s s'"
proof -
  from assms have "send_upstream_msg_with_version env fuel (module (fetch_callback OTA_REPORT_SUCCESS s)) v OTA_REPORT_SUCCESS
    (fetch_callback OTA_REPORT_SUCCESS s) = Some (r, s')" by (simp add: IOT_OTA_ReportSuccess_def Let_def)
  from send_upstream_effect [OF this] show ?thesis by (auto intro: quiet_trans [OF quiet_callback])
qed

section \<open>Fetching a range\<close>

lemma ofc_fetch_effect:
  assumes "ofc_fetch env fuel n buf l r t s = Some ((ret, buf'), s')"
  obtains q c where "s' = s\<lparr>ch_fetch := c, ota_mqtt := q\<rparr>"
proof -
  from assms obtain h u rc w where h: "ch_fetch s = Fetch h" "ofc_url h = Some u"
    "http_send_request (http_hal env) (ofc_http h) u HTTP_GET n r (ofc_data h) 5000 (os (ota_mqtt s)) = Some (rc, w)"
    by (auto simp: ofc_fetch_def bind_eq_Some_conv split: fetch.splits)
  let ?s = "s\<lparr>ota_mqtt := (ota_mqtt s)\<lparr>os := w\<rparr>\<rparr>"
  show ?thesis
  proof (cases "rc = SUCCESS_RET")
    case False
    with assms h have "s' = ?s" by (auto simp: ofc_fetch_def)
    then show ?thesis using that [where q = "(ota_mqtt s)\<lparr>os := w\<rparr>" and c = "ch_fetch s"] by simp
  next
    case True
    with assms h show ?thesis using that by (auto simp: ofc_fetch_def bind_eq_Some_conv Let_def)
  qed
qed

lemma reconnectE:
  assumes "ofc_deinit env s = Some (r, s1)" and "ofc_init env u s1 = (c, s2)" and "ofc_connect env (s2\<lparr>ch_fetch := c\<rparr>) = Some (r', s3)"
  obtains q c' where "s3 = s\<lparr>ch_fetch := c', ota_mqtt := q\<rparr>"
proof -
  from assms(1) obtain q where s1: "s1 = s\<lparr>ota_mqtt := q, ch_fetch := Freed_Fetch\<rparr>"
    by (auto simp: ofc_deinit_def split: fetch.splits prod.splits elim!: on_worldE)
  from assms(2) obtain q2 where s2: "s2 = s1\<lparr>ota_mqtt := q2\<rparr>"
    by (auto simp: ofc_init_def split: prod.splits elim!: ota_mallocE)
  from assms(3) show ?thesis using that unfolding s2 s1 by (auto simp: ofc_connect_def bind_eq_Some_conv split: fetch.splits)
qed

lemma fetch_attempts_quiet:
  "fetch_attempts env fuel n ret0 buf0 l r t s = Some ((ret, buf), s') \<Longrightarrow> quiet s s'"
proof (induction n arbitrary: ret0 buf0 s)
  case (Suc n)
  from Suc.prems obtain v b s1 where f: "ofc_fetch env fuel (size_fetched s) buf0 l r t s = Some ((v, b), s1)"
    by (auto simp: bind_eq_Some_conv)
  then obtain q c where s1: "s1 = s\<lparr>ch_fetch := c, ota_mqtt := q\<rparr>" by (rule ofc_fetch_effect)
  have q1: "quiet s s1" by (simp add: s1)
  show ?case
  proof (cases "v = ERR_HTTP_CONN_ERROR \<and> ota_state s1 \<noteq> OTA_STATE_DISCONNECTED")
    case True
    with Suc.prems f obtain x s2 where d: "ofc_deinit env s1 = Some (x, s2)" by (auto simp: bind_eq_Some_conv)
    obtain c s3 where i: "ofc_init env (url s2) s2 = (c, s3)" by fastforce
    from Suc.prems f True d i obtain y s4 where k: "ofc_connect env (s3\<lparr>ch_fetch := c\<rparr>) = Some (y, s4)"
      "fetch_attempts env fuel n v b l r t (s4\<lparr>ota_state := OTA_STATE_FETCHING\<rparr>) = Some ((ret, buf), s')"
      by (auto simp: bind_eq_Some_conv)
    from d i k(1) obtain q c where "s4 = s1\<lparr>ch_fetch := c, ota_mqtt := q\<rparr>" by (rule reconnectE)
    then have "quiet s (s4\<lparr>ota_state := OTA_STATE_FETCHING\<rparr>)" using q1 by simp
    then show ?thesis using Suc.IH [OF k(2)] by (rule quiet_trans)
  next
    case no_conn: False
    show ?thesis
    proof (cases "v < 0")
      case True
      let ?s = "s1\<lparr>ota_state := OTA_STATE_FETCHED, err := v\<rparr>"
      from Suc.prems f True no_conn obtain s2 where
        s2: "(if v = ERR_OTA_FETCH_AUTH_FAIL then map_option snd (IOT_OTA_ReportFail env fuel OTA_REPORT_SIGNATURE_EXPIRED ?s)
             else if v = ERR_OTA_FILE_NOT_EXIST then map_option snd (IOT_OTA_ReportFail env fuel OTA_REPORT_FIRMWARE_NOT_EXIST ?s)
             else if v = ERR_OTA_FETCH_TIMEOUT then map_option snd (IOT_OTA_ReportFail env fuel OTA_REPORT_DOWNLOAD_TIMEOUT ?s)
             else Some (?s\<lparr>err := ERR_OTA_FETCH_FAILED\<rparr>)) = Some s2"
        and k': "(let (_, s) = on_world (\<lambda>w. ((), HAL_SleepMs (mqtt_hal env) 1000 w)) s2
          in fetch_attempts env fuel n v b l r t s) = Some ((ret, buf), s')"
        by (auto simp: bind_eq_Some_conv Let_def)
      obtain u s3 where s3: "on_world (\<lambda>w. ((), HAL_SleepMs (mqtt_hal env) 1000 w)) s2 = (u, s3)" by (metis surj_pair)
      have k: "fetch_attempts env fuel n v b l r t s3 = Some ((ret, buf), s')" using k' s3 by simp
      have "quiet ?s s2" using s2 by (auto split: if_splits dest!: report_fail_effect)
      then have "quiet s s2" using q1 quiet_trans [of s ?s s2] by simp
      moreover from s3 obtain q where "s3 = s2\<lparr>ota_mqtt := q\<rparr>" by (rule on_worldE)
      ultimately have "quiet s s3" by simp
      then show ?thesis using Suc.IH [OF k] by (rule quiet_trans)
    next
      case False
      show ?thesis
      proof (cases "size_fetched s1 = 0")
        case True
        with Suc.prems f False no_conn obtain x s2 where
          p: "IOT_OTA_ReportProgress env fuel 0 OTA_REPORT_DOWNLOADING s1 = Some (x, s2)"
          by (auto simp: bind_eq_Some_conv)
        obtain tm s3 where s3: "on_mqtt (countdown (mqtt_hal env) OTA_REPORT_PROGRESS_INTERVAL) s2 = (tm, s3)" by fastforce
        with Suc.prems f False no_conn True p have s': "s' = s3\<lparr>report_timer := tm\<rparr>" by (auto simp: bind_eq_Some_conv)
        have "quiet s s2" using q1 report_progress_effect [OF p] quiet_trans by blast
        moreover from s3 obtain q where "s3 = s2\<lparr>ota_mqtt := q\<rparr>" by (rule on_mqttE)
        ultimately show ?thesis using s' by simp
      next
        case no: False
        with Suc.prems f False no_conn have "s' = s1" by (auto simp: bind_eq_Some_conv)
        with q1 show ?thesis by simp
      qed
    qed
  qed
qed simp

lemma report_percent_effect:
  assumes "report_percent env fuel s = Some s'"
  shows "quiet s s' \<and> ota_state s' = ota_state s"
proof (cases "size_fetched s * 100 div size_file s = 100")
  case True
  then show ?thesis using assms by (auto simp: report_percent_def split: if_splits dest!: report_progress_effect)
next
  case False
  show ?thesis
  proof (cases "size_last_fetched s > 0")
    case no: False
    with False show ?thesis using assms by (auto simp: report_percent_def split: if_splits)
  next
    case last: True
    obtain b s1 where h: "on_mqtt (has_expired (mqtt_hal env) (report_timer s)) s = (b, s1)" by fastforce
    then obtain q where s1: "s1 = s\<lparr>ota_mqtt := q\<rparr>" by (rule on_mqttE)
    show ?thesis
    proof (cases b)
      case no: False
      with False last h s1 show ?thesis using assms by (auto simp: report_percent_def split: if_splits)
    next
      case True
      with False last h assms obtain x s2 where
        p: "IOT_OTA_ReportProgress env fuel (sint (size_fetched s * 100 div size_file s)) OTA_REPORT_DOWNLOADING s1 = Some (x, s2)"
        by (auto simp: report_percent_def bind_eq_Some_conv split: if_splits)
      obtain tm s3 where s3: "on_mqtt (countdown (mqtt_hal env) OTA_REPORT_PROGRESS_INTERVAL) s2 = (tm, s3)" by fastforce
      obtain u s4 where s4: "on_world (\<lambda>w. ((), HAL_SleepMs (mqtt_hal env) 100 w)) (s3\<lparr>report_timer := tm\<rparr>) = (u, s4)" by (metis surj_pair)
      have s': "s' = s4" using False last h assms True p s3 s4 by (auto simp: report_percent_def split: if_splits)
      have "quiet s s1" by (simp add: s1)
      then have "quiet s s2 \<and> ota_state s2 = ota_state s" using report_progress_effect [OF p] s1 by (auto intro: quiet_trans)
      moreover from s3 obtain q2 where "s3 = s2\<lparr>ota_mqtt := q2\<rparr>" by (rule on_mqttE)
      moreover from s4 obtain q3 where "s4 = s3\<lparr>report_timer := tm\<rparr>\<lparr>ota_mqtt := q3\<rparr>" by (rule on_worldE)
      ultimately show ?thesis unfolding s' by simp
    qed
  qed
qed

abbreviation md5_iv :: md5_state where "md5_iv \<equiv> (0x67452301, 0xEFCDAB89, 0x98BADCFE, 0x10325476)"

text \<open>The context in use has absorbed \<open>data\<close>.\<close>

definition hashed :: "bytes \<Rightarrow> 'w ota \<Rightarrow> bool" where
  "hashed data s \<longleftrightarrow> (\<exists>c. md5 s = Some c \<and> md5.absorbed md5_iv data c)"

lemma hashed_quiet: "quiet s s' \<Longrightarrow> hashed data s' = hashed data s"
  by (simp add: quiet_def hashed_def)

lemma fetch_yield_effect:
  assumes "IOT_OTA_FetchYield env fuel buf0 l r t s = Some ((ret, buf), s')" and "0 < ret" and "ret < 2 ^ 32" and "hashed data s"
  shows "ota_state s = OTA_STATE_FETCHING \<and> hashed (data @ take (nat ret) buf) s'
    \<and> (\<exists>es. ota_events s' = ota_events s @ es \<and> list_all is_callback es)"
proof -
  have st: "ota_state s = OTA_STATE_FETCHING" "l \<noteq> 0" using assms(1,2) by (auto simp: IOT_OTA_FetchYield_def split: if_splits)
  with assms(1,2) obtain s1 ctx s2 where
    f: "fetch_attempts env fuel 5 0 buf0 l r t s = Some ((ret, buf), s1)"
    and m: "ota_lib_md5_update (md5 s1) buf (of_int ret) = Some ctx"
    and p: "report_percent env fuel (s1\<lparr>md5 := Some ctx, size_last_fetched := of_int ret, size_fetched := size_fetched s1 + of_int ret\<rparr>) = Some s2"
    and s': "s' = (if size_fetched s2 \<ge> size_file s2 then s2\<lparr>ota_state := OTA_STATE_FETCHED\<rparr> else s2)"
    by (auto simp: IOT_OTA_FetchYield_def bind_eq_Some_conv Let_def split: if_splits)
  let ?s = "s1\<lparr>md5 := Some ctx, size_last_fetched := of_int ret, size_fetched := size_fetched s1 + of_int ret\<rparr>"
  from fetch_attempts_quiet [OF f] have q: "quiet s s1" .
  with assms(4) obtain c where c: "md5 s1 = Some c" "md5.absorbed md5_iv data c" by (auto simp: hashed_def quiet_def)
  have u: "unat (of_int ret :: u32) = nat ret" using assms(2,3) by (simp add: unat_eq_nat_uint uint_word_of_int_eq take_bit_int_eq_self)
  have up: "utils_md5_update c buf (of_int ret) = Some ctx" using m c(1) by (simp add: ota_lib_md5_update_def)
  then have "nat ret \<le> length buf" using u by (auto simp: utils_md5_update_def split: if_splits)
  with md5.update_absorbed [OF c(2), of "of_int ret" buf] u up have a: "md5.absorbed md5_iv (data @ take (nat ret) buf) ctx" by simp
  from report_percent_effect [OF p] have q2: "quiet ?s s2" by simp
  have "hashed (data @ take (nat ret) buf) ?s" using a by (simp add: hashed_def)
  then have "hashed (data @ take (nat ret) buf) s'" using hashed_quiet [OF q2] s' by (simp add: hashed_def)
  moreover have "\<exists>es. ota_events s' = ota_events s @ es \<and> list_all is_callback es"
    using q q2 s' by (fastforce simp: quiet_def)
  ultimately show ?thesis using st by simp
qed

section \<open>The image in the flash\<close>

text \<open>The contents of a partition after writes that follow each other without a gap.\<close>

fun flash_image :: "nat \<Rightarrow> bytes \<Rightarrow> ota_event list \<Rightarrow> bytes option" where
  "flash_image part img [] = Some img"
| "flash_image part img (Flash_Write p off bs # es) =
     (if p = part \<and> unat off = length img then flash_image part (img @ bs) es else None)"
| "flash_image part img (Fetch_Callback f t # es) = flash_image part img es"
| "flash_image part img (e # es) = None"

lemma flash_image_append:
  "flash_image part img (es @ fs) = do { img \<leftarrow> flash_image part img es; flash_image part img fs }"
  by (induction part img es rule: flash_image.induct) auto

lemma flash_image_callbacks: "list_all is_callback es \<Longrightarrow> flash_image part img es = Some img"
  by (induction es) (auto simp: is_callback_def split: ota_event.splits)

text \<open>
  The contract of the handler of messages: where it leaves a download under way or a file fetched, it has changed neither
  the state of the download nor what has been computed and written.
\<close>

locale ota_handler =
  fixes cb :: "bytes \<Rightarrow> 'w ota \<Rightarrow> 'w ota option"
  assumes cb_keeps: "cb m s = Some s' \<Longrightarrow> ota_state s' \<in> {OTA_STATE_FETCHING, OTA_STATE_FETCHED}
    \<Longrightarrow> ota_state s' = ota_state s \<and> md5 s' = md5 s \<and> ota_events s' = ota_events s"
begin

lemma messages_keep:
  "ota_mqtt_upgrade_cb env cb cs s = Some s' \<Longrightarrow> ota_state s' \<in> {OTA_STATE_FETCHING, OTA_STATE_FETCHED}
   \<Longrightarrow> ota_state s' = ota_state s \<and> md5 s' = md5 s \<and> ota_events s' = ota_events s"
proof (induction cs arbitrary: s)
  case (Cons c cs)
  from Cons.prems(1) obtain s1 where
    s1: "(case c of Message f m _ \<Rightarrow> if f = upgrade_cb env then do { p \<leftarrow> payload m; cb (take (unat (payload_len m)) p) s } else Some s
      | _ \<Rightarrow> Some s) = Some s1" "ota_mqtt_upgrade_cb env cb cs s1 = Some s'" by (auto simp: bind_eq_Some_conv)
  from Cons.IH [OF s1(2) Cons.prems(2)] have k: "ota_state s' = ota_state s1" "md5 s' = md5 s1" "ota_events s' = ota_events s1" by simp_all
  have "ota_state s1 = ota_state s \<and> md5 s1 = md5 s \<and> ota_events s1 = ota_events s"
  proof (cases "s1 = s")
    case False
    with s1(1) obtain m where "cb m s = Some s1" by (auto simp: bind_eq_Some_conv split: callback.splits if_splits)
    then show ?thesis using Cons.prems(2) k(1) by (intro cb_keeps) simp_all
  qed simp
  with k show ?case by simp
qed simp

lemma yield_keeps:
  assumes "IOT_OTA_Yield env fuel cb t s = Some (r, s')" and "ota_state s' \<in> {OTA_STATE_FETCHING, OTA_STATE_FETCHED}"
  shows "ota_state s' = ota_state s \<and> md5 s' = md5 s \<and> ota_events s' = ota_events s"
proof -
  from assms(1) obtain m cs where "ota_mqtt_upgrade_cb env cb cs (s\<lparr>ota_mqtt := m\<rparr>) = Some s'"
    by (auto simp: IOT_OTA_Yield_def bind_eq_Some_conv Let_def)
  from messages_keep [OF this assms(2)] show ?thesis by simp
qed

lemma loop_writes:
  assumes "download_loop env fuel cb n part buf (length data) s = Some ((None, tot), s')" and "hashed data s"
  shows "\<exists>es data'. ota_events s' = ota_events s @ es \<and> flash_image part data es = Some data' \<and> length data' = tot
    \<and> hashed data' s' \<and> ota_state s' = OTA_STATE_FETCHED \<and> int tot < 2 ^ 31"
  using assms
proof (induction n arbitrary: buf data s)
  case (Suc n)
  from Suc.prems(1) obtain ln b s1 where
    y: "IOT_OTA_FetchYield env fuel buf (of_nat HTTP_OTA_BUFF_LEN) HTTP_OTA_RANGE_LEN 10 s = Some ((ln, b), s1)" "0 < ln"
    by (auto simp: bind_eq_Some_conv split: if_splits)
  with Suc.prems(1) obtain w s2 r s3 where
    w: "HAL_Download_Write env part (of_nat (length data)) b (nat ln) s1 = Some (w, s2)" "w \<noteq> FAILURE_RET"
    and lt: "int (length data) + ln < 2 ^ 31"
    and i: "IOT_OTA_Yield env fuel cb 100 s2 = Some (r, s3)"
    and k: "(let (finish, h) = IOT_OTA_IsFetchFinish (Some s3) in do { s \<leftarrow> h;
      if finish then Some ((None, length data + nat ln), s) else download_loop env fuel cb n part b (length data + nat ln) s }) = Some ((None, tot), s')"
    by (auto simp: bind_eq_Some_conv Let_def split: if_splits)
  have "ln < 2 ^ 32" using lt by simp
  from fetch_yield_effect [OF y this Suc.prems(2)] obtain es1 where
    f: "hashed (data @ take (nat ln) b) s1" "ota_events s1 = ota_events s @ es1" "list_all is_callback es1" by blast
  have nl: "nat ln \<le> length b" using w(1) by (auto simp: HAL_Download_Write_def split: if_splits)
  obtain x s2' where "on_world (fal_partition_write env part (of_nat (length data)) (take (nat ln) b))
    (ota_event (Flash_Write part (of_nat (length data)) (take (nat ln) b)) s1) = (x, s2')" by fastforce
  moreover from this obtain q where "s2' = (ota_event (Flash_Write part (of_nat (length data)) (take (nat ln) b)) s1)\<lparr>ota_mqtt := q\<rparr>" by (rule on_worldE)
  ultimately have s2: "s2 = (ota_event (Flash_Write part (of_nat (length data)) (take (nat ln) b)) s1)\<lparr>ota_mqtt := q\<rparr>"
    using w(1) nl by (auto simp: HAL_Download_Write_def split: if_splits)
  let ?data = "data @ take (nat ln) b" and ?es = "es1 @ [Flash_Write part (of_nat (length data)) (take (nat ln) b)]"
  have ld: "length ?data = length data + nat ln" using nl by simp
  have h2: "hashed ?data s2" using f(1) by (simp add: s2 ota_event_def hashed_def)
  have e2: "ota_events s2 = ota_events s @ ?es" using f(2) by (simp add: s2 ota_event_def)
  have "unat (of_nat (length data) :: u32) = length data" using lt y(2) by (simp add: unat_of_nat take_bit_nat_eq_self)
  then have img: "flash_image part data ?es = Some ?data" using flash_image_callbacks [OF f(3)] by (simp add: flash_image_append)
  show ?case
  proof (cases "ota_state s3 \<in> {OTA_STATE_FETCHING, OTA_STATE_FETCHED}")
    case True
    from yield_keeps [OF i True] have s3: "ota_state s3 = ota_state s2" "md5 s3 = md5 s2" "ota_events s3 = ota_events s2" by simp_all
    then have h3: "hashed ?data s3" using h2 by (simp add: hashed_def)
    show ?thesis
    proof (cases "ota_state s3 = OTA_STATE_FETCHED")
      case True
      with k have "s' = s3" "tot = length ?data" using ld by (simp_all add: IOT_OTA_IsFetchFinish_def)
      then show ?thesis using img e2 h3 s3(3) True lt y(2) by (intro exI [of _ ?es] exI [of _ ?data]) simp
    next
      case False
      with k have "download_loop env fuel cb n part b (length ?data) s3 = Some ((None, tot), s')"
        using True ld by (auto simp: IOT_OTA_IsFetchFinish_def)
      from Suc.IH [OF this h3] obtain es data' where
        r: "ota_events s' = ota_events s3 @ es" "flash_image part ?data es = Some data'" "length data' = tot" "hashed data' s'"
          "ota_state s' = OTA_STATE_FETCHED" "int tot < 2 ^ 31" by blast
      have "flash_image part data (?es @ es) = Some data'" using img r(2) by (simp only: flash_image_append) simp
      moreover have "ota_events s' = ota_events s @ ?es @ es" using r(1) e2 s3(3) by simp
      ultimately show ?thesis using r(3-6) by blast
    qed
  next
    case False
    with k have "download_loop env fuel cb n part b (length data + nat ln)
      (if ota_state s3 = OTA_STATE_UNINITED then invalid_state s3 else s3) = Some ((None, tot), s')"
      by (auto simp: IOT_OTA_IsFetchFinish_def split: if_splits)
    with False show ?thesis by (cases n) (auto simp: IOT_OTA_FetchYield_def invalid_state_def bind_eq_Some_conv split: if_splits)
  qed
qed simp

end

section \<open>The handler of messages\<close>

lemma clear_effect:
  assumes "IOT_OTA_Clear env s = Some s'"
  shows "ota_state s' = OTA_STATE_INITED \<and> ota_events s' = ota_events s \<and> ch_fetch s' = Freed_Fetch"
proof -
  from assms obtain r s1 where d: "ofc_deinit env s = Some (r, s1)" by (auto simp: IOT_OTA_Clear_def bind_eq_Some_conv)
  then obtain q where s1: "s1 = s\<lparr>ota_mqtt := q, ch_fetch := Freed_Fetch\<rparr>"
    by (auto simp: ofc_deinit_def split: fetch.splits prod.splits elim!: on_worldE)
  let ?s = "s1\<lparr>url := map_option (\<lambda>_. []) (url s1), module := map_option (\<lambda>_. []) (module s1),
       download_partition := (if download_name s1 then erased_literal env (download_partition s1) else download_partition s1),
       ota_version := map_option (\<lambda>_. []) (ota_version s1), md5sum := map_option (\<lambda>_. []) (md5sum s1),
       size_last_fetched := 0, size_fetched := 0, size_file := 0\<rparr>"
  obtain ctx s2 where m: "ota_lib_md5_init env ?s = (ctx, s2)" by fastforce
  then obtain q2 where "s2 = ?s\<lparr>ota_mqtt := q2\<rparr>" by (auto simp: ota_lib_md5_init_def split: prod.splits elim!: ota_mallocE)
  moreover have "s' = s2\<lparr>md5 := ctx, ota_state := OTA_STATE_INITED\<rparr>" using assms d m by (simp add: IOT_OTA_Clear_def Let_def)
  ultimately show ?thesis by (simp add: s1)
qed

lemma fw_download_state:
  assumes "IOT_OTA_fw_download env fuel cb s = Some (r, s')"
  shows "ota_state s' = OTA_STATE_INITED"
proof -
  from assms obtain s1 where "IOT_OTA_Clear env s1 = Some s'"
    by (auto simp: IOT_OTA_fw_download_def bind_eq_Some_conv Let_def)
  from clear_effect [OF this] show ?thesis by simp
qed

lemma field_step:
  assumes "Option.bind x (\<lambda>v. if v = None then Some (e, s) else k v) = Some (r, s')"
  obtains "s' = s" | y where "k (Some y) = Some (r, s')"
  using assms by (cases x) (auto split: if_splits)

lemma get_params_keeps:
  assumes "ota_lib_get_params mal json s = Some (r, s')"
  shows "ota_state s' = ota_state s \<and> md5 s' = md5 s \<and> ota_events s' = ota_events s"
  using assms unfolding ota_lib_get_params_def Let_def
proof (cases rule: field_step)
  case (2 m)
  then show ?thesis
  proof (cases rule: field_step)
    case (2 v)
    then show ?thesis
    proof (cases rule: field_step)
      case (2 u)
      then show ?thesis
      proof (cases rule: field_step)
        case (2 h)
        let ?s = "s\<lparr>module := Some m\<rparr>\<lparr>ota_version := Some v\<rparr>\<lparr>url := Some u, download_name := True\<rparr>\<lparr>md5sum := Some h\<rparr>"
        from 2 obtain z where "ota_value mal json ''Payload.Size'' = Some z" by (auto simp: bind_eq_Some_conv)
        note k = 2 [unfolded this bind.bind_lunit]
        show ?thesis
        proof (cases z)
          case None
          with k show ?thesis by auto
        next
          case (Some t)
          with k obtain x n where "LITE_get_uint32 t = Some (x, n)" by (auto simp: bind_eq_Some_conv)
          with k Some show ?thesis by (cases "x = SUCCESS_RET") auto
        qed
      qed simp
    qed simp
  qed simp
qed simp

text \<open>What a message may change while a download goes on: the list of kept messages, and the MQTT client.\<close>

definition same_download :: "'w ota \<Rightarrow> 'w ota \<Rightarrow> bool" where
  "same_download s s' \<longleftrightarrow> s'\<lparr>ota_mqtt := ota_mqtt s, msg_list := msg_list s, msg_held := msg_held s\<rparr> = s"

lemma push_keeps:
  assumes "ota_push_upload_msg env msg n s = Some s'"
  shows "same_download s s'"
proof -
  obtain a s1 where m1: "ota_malloc env sizeof_OTA_UPLOAD_Msg s = (a, s1)" by fastforce
  obtain b s2 where m2: "ota_malloc env (n + 1) s1 = (b, s2)" by fastforce
  obtain c s3 where m3: "ota_malloc env sizeof_ListNode s2 = (c, s3)" by fastforce
  from m1 obtain q1 where q1: "s1 = s\<lparr>ota_mqtt := q1\<rparr>" by (rule ota_mallocE)
  from m2 obtain q2 where q2: "s2 = s1\<lparr>ota_mqtt := q2\<rparr>" by (rule ota_mallocE)
  from m3 obtain q3 where q3: "s3 = s2\<lparr>ota_mqtt := q3\<rparr>" by (rule ota_mallocE)
  show ?thesis
  proof (cases "a \<and> b \<and> c")
    case True
    with assms m1 m2 m3 obtain l where "msg_list (ota_lock s3) = Some l"
      "ota_unlock ((ota_lock s3)\<lparr>msg_list := Some (l @ [take n (msg @ replicate n 0)])\<rparr>) = Some s'"
      by (auto simp: ota_push_upload_msg_def bind_eq_Some_conv Let_def)
    then show ?thesis by (auto simp: ota_lock_def ota_unlock_def q1 q2 q3 same_download_def split: if_splits)
  next
    case False
    with assms m1 m2 m3 have "s' = s2 \<or> s' = s3" by (auto simp: ota_push_upload_msg_def Let_def split: if_splits)
    then show ?thesis by (auto simp: q1 q2 q3 same_download_def)
  qed
qed

lemma same_download_fields:
  assumes "same_download s s'"
  shows "ota_state s' = ota_state s" "md5 s' = md5 s" "ota_events s' = ota_events s"
proof -
  let ?f = "\<lambda>t. t\<lparr>ota_mqtt := ota_mqtt s, msg_list := msg_list s, msg_held := msg_held s\<rparr>"
  have "ota_state (?f s') = ota_state s" "md5 (?f s') = md5 s" "ota_events (?f s') = ota_events s"
    using assms by (simp_all only: same_download_def)
  then show "ota_state s' = ota_state s" "md5 s' = md5 s" "ota_events s' = ota_events s" by simp_all
qed

lemma module_ver_some:
  "ota_lib_get_msg_module_ver mal json = Some (ret, m, v) \<Longrightarrow> ret = SUCCESS_RET \<Longrightarrow> m \<noteq> None \<and> v \<noteq> None"
  by (auto simp: ota_lib_get_msg_module_ver_def bind_eq_Some_conv split: if_splits)

lemma close_closed: "http_client_close hal c w = (c', w') \<Longrightarrow> net_handle c' = 0"
  by (auto simp: http_client_close_def Let_def split: prod.splits if_splits)

lemma cancel_effect:
  assumes "cancel_update env mal js s = Some s'"
  shows "s' = s \<or> (\<exists>h q. s' = s\<lparr>ota_mqtt := q, ch_fetch := Fetch h, ota_state := OTA_STATE_DISCONNECTED\<rparr> \<and> net_handle (ofc_http h) = 0)"
proof (cases "s' = s")
  case False
  with assms obtain h where h: "ch_fetch s = Fetch h"
    and c: "(let (c, s) = on_world (http_client_close (http_hal env) (ofc_http h)) s
       in Some (s\<lparr>ch_fetch := Fetch (h\<lparr>ofc_http := c\<rparr>), ota_state := OTA_STATE_DISCONNECTED\<rparr>)) = Some s'"
    by (auto simp: cancel_update_def bind_eq_Some_conv split: if_splits fetch.splits)
  obtain x w where x: "http_client_close (http_hal env) (ofc_http h) (os (ota_mqtt s)) = (x, w)" by fastforce
  then have "on_world (http_client_close (http_hal env) (ofc_http h)) s = (x, s\<lparr>ota_mqtt := (ota_mqtt s)\<lparr>os := w\<rparr>\<rparr>)"
    by (simp add: on_world_def)
  with c have "s' = s\<lparr>ota_mqtt := (ota_mqtt s)\<lparr>os := w\<rparr>, ch_fetch := Fetch (h\<lparr>ofc_http := x\<rparr>), ota_state := OTA_STATE_DISCONNECTED\<rparr>"
    by simp
  moreover have "net_handle (ofc_http (h\<lparr>ofc_http := x\<rparr>)) = 0" using close_closed [OF x] by simp
  ultimately show ?thesis by blast
qed simp

text \<open>An update that does not find a download: it comes to a new one, or not.\<close>

lemma update_effect:
  assumes "update_firmware env fuel cb mal js tx n s = Some s'" and "ota_state s \<noteq> OTA_STATE_FETCHING"
  shows "(ota_state s' = ota_state s \<and> md5 s' = md5 s \<and> ota_events s' = ota_events s)
    \<or> (\<exists>t. ota_state t \<in> {OTA_STATE_INITED, OTA_STATE_DISCONNECTED} \<and> (s' = t \<or> (\<exists>m. cb m t = Some s')))"
proof -
  from assms obtain ret s1 where g: "ota_lib_get_params mal js s = Some (ret, s1)"
    by (auto simp: update_firmware_def bind_eq_Some_conv)
  note k = get_params_keeps [OF g]
  obtain c s2 where i: "ofc_init env (url s1) s1 = (c, s2)" by fastforce
  then obtain q where s2: "s2 = s1\<lparr>ota_mqtt := q\<rparr>" by (auto simp: ofc_init_def split: prod.splits elim!: ota_mallocE)
  show ?thesis
  proof (cases "ret \<noteq> SUCCESS_RET \<or> c = No_Fetch")
    case True
    with assms g i k s2 show ?thesis by (auto simp: update_firmware_def split: if_splits)
  next
    case False
    with assms g i obtain r s3 where s3: "ofc_connect env (s2\<lparr>ch_fetch := c\<rparr>) = Some (r, s3)"
      by (auto simp: update_firmware_def bind_eq_Some_conv)
    show ?thesis
    proof (cases "r = SUCCESS_RET")
      case no: False
      with False assms g i s3 have "s' = s3\<lparr>ota_state := OTA_STATE_DISCONNECTED\<rparr>" by (auto simp: update_firmware_def)
      then show ?thesis by (intro disjI2 exI [of _ s']) simp
    next
      case True
      with False assms g i s3 obtain r4 s4 where
        s4: "IOT_OTA_fw_download env fuel cb (s3\<lparr>ota_state := OTA_STATE_FETCHING\<rparr>) = Some (r4, s4)"
          "ota_pop_upload_msg cb (if r4 \<noteq> SUCCESS_RET then s4\<lparr>ota_state := OTA_STATE_DISCONNECTED\<rparr> else s4) = Some s'"
        by (auto simp: update_firmware_def bind_eq_Some_conv)
      let ?t = "if r4 \<noteq> SUCCESS_RET then s4\<lparr>ota_state := OTA_STATE_DISCONNECTED\<rparr> else s4"
      have t: "ota_state ?t \<in> {OTA_STATE_INITED, OTA_STATE_DISCONNECTED}" using fw_download_state [OF s4(1)] by simp
      from s4(2) obtain l where l: "msg_list ?t = Some l" by (auto simp: ota_pop_upload_msg_def bind_eq_Some_conv)
      show ?thesis
      proof (cases l)
        case Nil
        with s4(2) l have "s' = ?t" by (simp add: ota_pop_upload_msg_def)
        with t show ?thesis by blast
      next
        case (Cons m ms)
        with s4(2) l obtain t2 where "ota_unlock ((ota_lock ?t)\<lparr>msg_list := Some ms\<rparr>) = Some t2" "cb m t2 = Some s'"
          by (auto simp: ota_pop_upload_msg_def bind_eq_Some_conv)
        moreover from this(1) have "ota_state t2 = ota_state ?t" by (auto simp: ota_unlock_def ota_lock_def split: if_splits)
        ultimately show ?thesis using t by metis
      qed
    qed
  qed
qed

text \<open>The command of a message, with the state in which it is carried out.\<close>

lemma callback_stepE:
  assumes "ota_callback_step env fuel cb msg s = Some s'"
  obtains (none) q where "s' = s\<lparr>ota_mqtt := q\<rparr>"
  | (update) q mal js tx where "update_firmware env fuel cb mal js tx (length msg) (s\<lparr>ota_mqtt := q\<rparr>) = Some s'"
  | (cancel) q mal js where "cancel_update env mal js (s\<lparr>ota_mqtt := q\<rparr>) = Some s'"
proof -
  obtain ok s1 where m: "ota_malloc env (length msg + 1) s = (ok, s1)" by fastforce
  then obtain q where q: "s1 = s\<lparr>ota_mqtt := q\<rparr>" by (rule ota_mallocE)
  define tx where "tx = takeWhile (\<lambda>c. c \<noteq> 0) msg"
  define js where "js = tx @ replicate (length msg + 1 - length tx) 0"
  define mal where "mal = ota_mal env s1"
  show ?thesis
  proof (cases "s' = s1")
    case True
    then show ?thesis using none q by simp
  next
    case False
    note step = assms [unfolded ota_callback_step_def m prod.case Let_def, folded tx_def, folded js_def mal_def]
    from step False have ok by (auto split: if_splits)
    with step obtain r where r: "ota_lib_get_msg_type mal js = Some r" by (cases "ota_lib_get_msg_type mal js") auto
    with step \<open>ok\<close> False obtain meth where "r = Some meth" by (cases r) auto
    with step r \<open>ok\<close> False have "update_firmware env fuel cb mal js tx (length msg) s1 = Some s' \<or> cancel_update env mal js s1 = Some s'"
      by (simp split: if_splits)
    then show ?thesis using update cancel q by blast
  qed
qed

lemma callback_keeps:
  "ota_callback env fuel d m s = Some s' \<Longrightarrow> ota_state s' \<in> {OTA_STATE_FETCHING, OTA_STATE_FETCHED}
   \<Longrightarrow> ota_state s' = ota_state s \<and> md5 s' = md5 s \<and> ota_events s' = ota_events s"
proof (induction d arbitrary: m s)
  case (Suc d)
  from Suc.prems(1) have "ota_callback_step env fuel (ota_callback env fuel d) m s = Some s'" by simp
  then show ?case
  proof (cases rule: callback_stepE)
    case (none q)
    then show ?thesis by simp
  next
    case (update q mal js tx)
    show ?thesis
    proof (cases "ota_state s = OTA_STATE_FETCHING")
      case True
      with update have "same_download (s\<lparr>ota_mqtt := q\<rparr>) s'" by (simp add: update_firmware_def push_keeps)
      from same_download_fields [OF this] show ?thesis by simp
    next
      case False
      then have "ota_state (s\<lparr>ota_mqtt := q\<rparr>) \<noteq> OTA_STATE_FETCHING" by simp
      from update_effect [OF update this] show ?thesis
      proof
        assume "\<exists>t. ota_state t \<in> {OTA_STATE_INITED, OTA_STATE_DISCONNECTED} \<and> (s' = t \<or> (\<exists>m. ota_callback env fuel d m t = Some s'))"
        then obtain t where t: "ota_state t \<in> {OTA_STATE_INITED, OTA_STATE_DISCONNECTED}" "s' = t \<or> (\<exists>m. ota_callback env fuel d m t = Some s')" by blast
        then have "\<exists>m. ota_callback env fuel d m t = Some s'" using Suc.prems(2) by auto
        with Suc.IH Suc.prems(2) have "ota_state s' = ota_state t" by blast
        with t(1) Suc.prems(2) show ?thesis by auto
      qed simp
    qed
  next
    case (cancel q mal js)
    from cancel_effect [OF this] show ?thesis using Suc.prems(2) by auto
  qed
qed simp

text \<open>Which makes the callback a handler for every bound on the nesting.\<close>

interpretation otah: ota_handler "ota_callback env fuel d" for env fuel d
  by unfold_locales (rule callback_keeps)

end
