(* ===== verification/Ota_Update.thy ===== *)
theory Ota_Update
  imports Ota_Download Http_Request
begin

text \<open>
  The firmware update from its start to the restart of the device: what is in the flash when the device restarts, and
  what a message does to a download under way.
\<close>

section \<open>The checksum\<close>

definition md5_hex :: "bytes \<Rightarrow> cstr" where
  "md5_hex data = concat (map (\<lambda>b. [utils_hb2hex (drop_bit 4 b), utils_hb2hex b]) (md5_digest data))"

lemma hex_digit_nonzero: "utils_hb2hex b \<noteq> 0"
proof -
  define x where "x = b AND 0xF"
  have "b AND mask 4 < 2 ^ 4" by (rule and_mask_less_size) (simp add: word_size)
  then have x: "unat x < 16" by (simp add: x_def mask_eq_exp_minus_1 word_less_nat_alt)
  have "unat (48 + x) = 48 + unat x" "\<not> x < 10 \<Longrightarrow> unat (x - 10 + 97) = unat x + 87"
    using x by (simp_all add: unat_word_ariths word_less_nat_alt unat_sub_if')
  then have "unat (utils_hb2hex b) \<noteq> 0" unfolding utils_hb2hex_def x_def [symmetric] Let_def by (cases "x < 10") auto
  then show ?thesis by (metis unat_0)
qed

lemma md5_hex_text: "takeWhile (\<lambda>c. c \<noteq> 0) (md5_hex data @ [0]) = md5_hex data"
proof -
  have "\<forall>c \<in> set (md5_hex data). c \<noteq> 0" using hex_digit_nonzero by (auto simp: md5_hex_def)
  then show ?thesis by (simp add: takeWhile_append2)
qed

lemma finalize_hashed:
  assumes "hashed data s" and "length data < 2 ^ 61"
  obtains c where "ota_lib_md5_finalize (md5 s) = Some (md5_hex data @ [0], c)"
proof -
  from assms(1) obtain c where c: "md5 s = Some c" "md5.absorbed md5_iv data c" by (auto simp: hashed_def)
  from finish_digest [OF c(2) assms(2)] obtain c' where "utils_md5_finish c = Some (md5_digest data, c')" ..
  then show ?thesis using that c(1) by (simp add: ota_lib_md5_finalize_def utils_md5_finish_hb2hex_def md5_hex_def)
qed

lemma check_firmware_effect:
  assumes "IOT_OTA_Ioctl env fuel OTA_IOCTL_CHECK_FIRMWARE (Some True) 4 s = Some ((r, v), s')" and "ota_state s = OTA_STATE_FETCHED"
    and "hashed data s" and "length data < 2 ^ 61"
  shows "\<exists>h. md5sum s = Some h \<and> v = Some (Out32 (if h = md5_hex data then 1 else 0)) \<and> md5sum s' = md5sum s \<and> ota_state s' = ota_state s
    \<and> (\<exists>es. ota_events s' = ota_events s @ es \<and> list_all is_callback es) \<and> (h = md5_hex data \<or> err s' < 0)"
proof -
  obtain c where c: "ota_lib_md5_finalize (md5 s) = Some (md5_hex data @ [0], c)" by (rule finalize_hashed [OF assms(3,4)])
  with assms(1,2) obtain h where h: "md5sum s = Some h" by (cases "md5sum s") (auto simp: IOT_OTA_Ioctl_def Let_def)
  let ?s = "s\<lparr>md5 := Some c\<rparr>"
  show ?thesis
  proof (cases "h = md5_hex data")
    case True
    with assms(1,2) c h show ?thesis by (auto simp: IOT_OTA_Ioctl_def Let_def md5_hex_text)
  next
    case False
    with assms(1,2) c h obtain x where x: "IOT_OTA_ReportFail env fuel OTA_REPORT_MD5_MISMATCH (?s\<lparr>err := ERR_OTA_MD5_MISMATCH\<rparr>) = Some (x, s')"
      "v = Some (Out32 0)" by (auto simp: IOT_OTA_Ioctl_def Let_def md5_hex_text bind_eq_Some_conv)
    from report_fail_effect [OF x(1)] show ?thesis using h False x(2) by (auto simp: quiet_def)
  qed
qed

lemma finish_effect:
  assumes "finish_download env fuel sz (length data) s = Some (ret, s')" and "ota_state s = OTA_STATE_FETCHED" and "hashed data s" and "length data < 2 ^ 61"
  shows "if int (length data) \<noteq> sz then ret = SUCCESS_RET \<and> s' = s
    else \<exists>h es. md5sum s = Some h \<and> list_all is_callback es
      \<and> (if h = md5_hex data then ret = SUCCESS_RET \<and> ota_events s' = ota_events s @ es @ [Device_Reset]
         else ret < 0 \<and> ota_events s' = ota_events s @ es)"
proof (cases "int (length data) = sz")
  case False
  then show ?thesis using assms(1) by (auto simp: finish_download_def)
next
  case True
  with assms(1) obtain r v s1 where v: "IOT_OTA_Ioctl env fuel OTA_IOCTL_CHECK_FIRMWARE (Some True) 4 s = Some ((r, v), s1)"
    by (auto simp: finish_download_def bind_eq_Some_conv)
  from check_firmware_effect [OF v assms(2-4)] obtain h es where
    h: "md5sum s = Some h" "v = Some (Out32 (if h = md5_hex data then 1 else 0))" "ota_state s1 = ota_state s"
      "ota_events s1 = ota_events s @ es" "list_all is_callback es" "h = md5_hex data \<or> err s1 < 0" by blast
  show ?thesis
  proof (cases "h = md5_hex data")
    case False
    with True assms(1) v h have "ret = err s1 \<and> s' = s1" by (auto simp: finish_download_def IOT_OTA_GetLastError_def)
    with False True h show ?thesis by auto
  next
    case same: True
    have v1: "v = Some (Out32 1)" using same h(2) by simp
    from True assms(1) v v1 obtain t x s2 where x: "IOT_OTA_Ioctl env fuel OTA_IOCTL_VERSION (Some True) 33 s1 = Some ((t, x), s2)"
      by (auto simp: finish_download_def bind_eq_Some_conv)
    with h(3) assms(2) obtain ver where "x = Some (Out_Text ver)" "s2 = s1" by (auto simp: IOT_OTA_Ioctl_def bind_eq_Some_conv)
    with True assms(1) v v1 x obtain y s3 where y: "IOT_OTA_ReportSuccess env fuel (Some ver) s1 = Some (y, s3)"
      and e: "ret = SUCCESS_RET" "s' = ota_event Device_Reset s3"
      by (auto simp: finish_download_def HAL_Download_End_def bind_eq_Some_conv)
    from report_success_effect [OF y] obtain fs where "ota_events s3 = ota_events s1 @ fs" "list_all is_callback fs" by (auto simp: quiet_def)
    with same True h e show ?thesis by (auto simp: ota_event_def intro!: exI [of _ "es @ fs"])
  qed
qed

section \<open>The update\<close>

lemma download_init_effect:
  assumes "HAL_Download_Init env s = Some (part, s')"
  shows "ota_state s' = ota_state s \<and> md5 s' = md5 s \<and> (case part of None \<Rightarrow> True | Some p \<Rightarrow> ota_events s' = ota_events s @ [Flash_Erase p])"
proof -
  from assms have d: "download_name s" by (simp add: HAL_Download_Init_def split: if_splits)
  show ?thesis
  proof (cases "fal_partition_find env (download_partition s)")
    case None
    then show ?thesis using assms d by (auto simp: HAL_Download_Init_def)
  next
    case (Some p)
    obtain r s1 where w: "on_world (fal_partition_erase_all env p) (ota_event (Flash_Erase p) s) = (r, s1)" by fastforce
    then obtain q where "s1 = (ota_event (Flash_Erase p) s)\<lparr>ota_mqtt := q\<rparr>" by (rule on_worldE)
    then show ?thesis using assms d Some w by (auto simp: HAL_Download_Init_def ota_event_def)
  qed
qed

lemma loop_exit_negative: "download_loop env fuel cb n part buf k s = Some ((Some r, k'), s') \<Longrightarrow> r < 0"
  by (induction n arbitrary: buf k s) (auto simp: IOT_OTA_IsFetchFinish_def bind_eq_Some_conv Let_def split: if_splits)


text \<open>
  C35. The wrong checksum.  When the loop has fetched as many bytes as the server announced but their MD5 digest is not the announced one,
  the end of \<open>IOT_OTA_fw_download\<close> returns a negative code and does not restart the device.
\<close>
theorem checksum_mismatch_refused:
  assumes "finish_download env fuel (int (length data)) (length data) s = Some (ret, s')" and "ota_state s = OTA_STATE_FETCHED"
    and "hashed data s" and "length data < 2 ^ 61" and "md5sum s \<noteq> Some (md5_hex data)"
  shows "ret < 0 \<and> (\<exists>es. ota_events s' = ota_events s @ es \<and> Device_Reset \<notin> set es)"
proof -
  from finish_effect [OF assms(1-4)] assms(5) obtain es where "ret < 0" "ota_events s' = ota_events s @ es" "list_all is_callback es"
    by (auto split: if_splits)
  then show ?thesis by (intro conjI exI [of _ es]) (auto simp: list_all_iff is_callback_def split: ota_event.splits)
qed


section \<open>A run\<close>

text \<open>
  A device that is not connected to the MQTT server any more downloads a file of three bytes: the state after the command
  of the server, on a network that keeps what is sent and holds one response.
\<close>

definition demo_env :: "(bytes \<times> bytes) ota_env" where
  "demo_env = \<lparr> mqtt_hal = demo_web, http_hal = demo_web, fal_partition_find = (\<lambda>name. if name = str ''download'' then Some 7 else None),
     fal_partition_erase_all = (\<lambda>p. Pair 0), fal_partition_write = (\<lambda>p off bs. Pair (int (length bs))), upgrade_cb = 1,
     erased_literal = id, fail_text = (\<lambda>t. Some []), can_reconnect = False \<rparr>"

definition demo_offline :: "bytes \<Rightarrow> (bytes \<times> bytes) sys" where
  "demo_offline inp = \<lparr> is_connected = 0, was_manually_disconnected = 1, is_ping_outstanding = 0, next_packet_id = 1,
     command_timeout_ms = 2000, current_reconnect_wait_interval = 1000, counter_network_disconnected = 0,
     write_buf_size = 0, read_buf_size = 0, write_buf = [], read_buf = [],
     list_pub_wait_ack = [], list_sub_wait_ack = [], event_handler = None,
     options = \<lparr> client_id = Some [97], username = None, password = None, mqtt_version = 4,
       keep_alive_interval = 60, clean_session = 1, auto_connect_enable = 0 \<rparr>,
     ping_timer = init_timer, reconnect_delay_timer = init_timer, sub_handles = [],
     sg_repeat_packet_id_buf = [], current_packet_id_cnt = 0, os = ([], inp), held = (\<lambda>_. 0), calls = [], next_node = 0 \<rparr>"

definition demo_client :: http_client where "demo_client = \<lparr> net_handle = 1, response_code = 0, http_header = None \<rparr>"

definition demo_data :: "nat \<Rightarrow> int \<Rightarrow> bytes option \<Rightarrow> http_client_data" where
  "demo_data k l b = \<lparr> is_more = False, is_chunked = False, retrieve_len = 0, response_content_len = int k, response_received_len = int k,
     response_buf_len = l, post_content_type = None, post_buf = None, post_buf_len = 0, response_buf = b \<rparr>"

definition demo_inp :: bytes where
  "demo_inp = str ''HTTP/1.1 206 OK'' @ CRLF @ str ''Content-Length: 3'' @ CRLF @ CRLF @ str ''abc''"

definition demo_ota :: "cstr \<Rightarrow> (bytes \<times> bytes) ota" where
  "demo_ota h = \<lparr> ota_mqtt = demo_offline demo_inp,
     ota_product_sn = str ''p'', ota_device_sn = str ''d'', msg_list = Some [], msg_held = 0, ota_state = OTA_STATE_FETCHING,
     size_last_fetched = 0, size_fetched = 0, size_file = 3, url = Some (str ''http://h/f''), download_name = True,
     module = Some (str ''m''), ota_version = Some (str ''2''), md5sum = Some h, md5 = Some (utils_md5_starts utils_md5_init),
     ch_fetch = Fetch \<lparr> ofc_url = Some (str ''http://h/f''), ofc_http = demo_client, ofc_data = demo_data 0 0 None \<rparr>,
     err = 0, report_timer = init_timer, fetch_callback_func = Some 5, download_partition = str ''download'', ota_events = [] \<rparr>"

definition abc_sum :: cstr where "abc_sum = str ''900150983cd24fb0d6963f7d28e17f72''"

lemma demo_malloc: "ota_malloc demo_env n s = (True, s)"
  by (simp add: ota_malloc_def on_mqtt_def malloc_def demo_env_def demo_web_def)

definition offline :: "'w ota \<Rightarrow> bool" where
  "offline s \<longleftrightarrow> is_connected (ota_mqtt s) = 0 \<and> was_manually_disconnected (ota_mqtt s) = 1
     \<and> ota_product_sn s = str ''p'' \<and> ota_device_sn s = str ''d'' \<and> module s = Some (str ''m'') \<and> ota_version s = Some (str ''2'')"

lemma publish_offline: "offline s \<Longrightarrow> q \<noteq> QOS2 \<Longrightarrow> ota_mqtt_publish env fuel ''upstream'' q msg s = Some (ERR_OTA_OSC_FAILED, s)"
  by (simp add: offline_def ota_mqtt_publish_def ota_mqtt_gen_topic_name_def HAL_Snprintf_def IOT_MQTT_Publish_def uiot_mqtt_publish_def
    str_def strlen_def)

lemma progress_offline:
  assumes "offline s" and "ota_state s \<noteq> OTA_STATE_UNINITED" and "p \<in> {0, 100}"
  shows "IOT_OTA_ReportProgress demo_env fuel p OTA_REPORT_DOWNLOADING s = Some (ERR_OTA_OSC_FAILED, s\<lparr>err := ERR_OTA_OSC_FAILED\<rparr>)"
proof -
  have "map_option fst (ota_lib_gen_upstream_msg demo_env 129 (Some (str ''m'')) (Some (str ''2'')) 0 OTA_REPORT_DOWNLOADING) = Some 0"
    "map_option fst (ota_lib_gen_upstream_msg demo_env 129 (Some (str ''m'')) (Some (str ''2'')) 100 OTA_REPORT_DOWNLOADING) = Some 0"
    by code_simp+
  with assms(3) obtain t where "ota_lib_gen_upstream_msg demo_env 129 (Some (str ''m'')) (Some (str ''2'')) p OTA_REPORT_DOWNLOADING = Some (0, t)"
    by auto
  with assms show ?thesis
    by (auto simp: IOT_OTA_ReportProgress_def send_report_def demo_malloc osc_report_progress_def publish_offline offline_def)
qed

lemma success_offline:
  assumes "offline s" and "ota_state s \<noteq> OTA_STATE_UNINITED" and "fetch_callback_func s = Some f"
  shows "IOT_OTA_ReportSuccess demo_env fuel (Some (str ''2'')) s
    = Some (ERR_OTA_OSC_FAILED, (ota_event (Fetch_Callback f OTA_REPORT_SUCCESS) s)\<lparr>err := ERR_OTA_OSC_FAILED\<rparr>)"
proof -
  have "map_option fst (ota_lib_gen_upstream_msg demo_env 129 (Some (str ''m'')) (Some (str ''2'')) 0 OTA_REPORT_SUCCESS) = Some 0"
    by code_simp
  then obtain t where t: "ota_lib_gen_upstream_msg demo_env 129 (Some (str ''m'')) (Some (str ''2'')) 0 OTA_REPORT_SUCCESS = Some (0, t)" by auto
  have o: "offline (ota_event (Fetch_Callback f OTA_REPORT_SUCCESS) s)" using assms(1) by (simp add: offline_def ota_event_def)
  have "length (str ''2'') = 1" by (simp add: str_def)
  with assms t publish_offline [OF o] show ?thesis
    by (simp add: IOT_OTA_ReportSuccess_def fetch_callback_def send_upstream_msg_with_version_def send_report_def demo_malloc
      osc_upstream_publish_def offline_def ota_event_def)
qed

lemma demo_send: "\<exists>req. http_send_request demo_web demo_client (str ''http://h/f'') HTTP_GET 0 4096 (demo_data 0 0 None) 5000 ([], demo_inp)
  = Some (0, (req, demo_inp))"
proof -
  have "map_option (\<lambda>(r, w). (r, snd w)) (http_send_request demo_web demo_client (str ''http://h/f'') HTTP_GET 0 4096 (demo_data 0 0 None) 5000 ([], demo_inp))
    = Some (0, demo_inp)" by code_simp
  then show ?thesis by auto
qed

lemma demo_recv: "http_client_recv_data demo_web 3 demo_client 10000 (demo_data 0 4100 (Some (replicate 4100 0))) (req, demo_inp)
  = Some ((0, demo_client\<lparr>response_code := 206\<rparr>, demo_data 3 4100 (Some (str ''abc'' @ replicate 4097 0))), (req, []))"
  by code_simp

lemma demo_fetch:
  assumes "ch_fetch s = Fetch \<lparr> ofc_url = Some (str ''http://h/f''), ofc_http = demo_client, ofc_data = demo_data 0 0 None \<rparr>"
    and "os (ota_mqtt s) = ([], demo_inp)"
  shows "\<exists>c q. ofc_fetch demo_env 3 0 (replicate 4100 0) 4100 4096 10 s
    = Some ((3, str ''abc'' @ replicate 4097 0), s\<lparr>ch_fetch := Fetch c, ota_mqtt := (ota_mqtt s)\<lparr>os := q\<rparr>\<rparr>)"
proof -
  have l: "sint (4100 :: u32) = 4100" by simp
  obtain req where r: "http_send_request demo_web demo_client (str ''http://h/f'') HTTP_GET 0 4096 (demo_data 0 0 None) 5000 ([], demo_inp)
    = Some (0, (req, demo_inp))" using demo_send by blast
  have d: "(demo_data 0 0 None)\<lparr>response_buf := Some (replicate 4100 0), response_buf_len := sint (4100 :: u32), response_content_len := 0,
    response_received_len := 0\<rparr> = demo_data 0 4100 (Some (replicate 4100 0))" unfolding l by (simp add: demo_data_def)
  have t: "(10 :: u32) * 1000 = 10000" by simp
  have v: "response_content_len (demo_data 3 4100 b) - retrieve_len (demo_data 3 4100 b)
    - (response_content_len (demo_data 0 4100 b') - retrieve_len (demo_data 0 4100 b')) = 3"
    "response_buf (demo_data k n b) = b" for b b' k n by (simp_all add: demo_data_def)
  have e: "http_hal demo_env = demo_web" by (simp add: demo_env_def)
  show ?thesis unfolding ofc_fetch_def assms fetch.case OTA_Http_Client.select_convs bind.bind_lunit e r prod.case Let_def d t
    by (simp only: demo_recv assms(2) UIoT_Client.select_convs sys.select_convs sys.update_convs ota.select_convs ota.update_convs if_True if_False
      bind.bind_lunit prod.case v simp_thms) (auto simp: demo_recv v)
qed

lemma demo_countdown: "\<exists>t. on_mqtt (countdown (mqtt_hal demo_env) n) s = (t, s)"
  by (simp add: on_mqtt_def countdown_def countdown_w_def HAL_Timer_Countdown_def demo_env_def demo_web_def Let_def split: prod.split)

text \<open>What the single fetch of the run leaves.\<close>

definition fetched :: "fetch \<Rightarrow> (bytes \<times> bytes) \<Rightarrow> Timer \<Rightarrow> iot_md5_context \<Rightarrow> (bytes \<times> bytes) ota \<Rightarrow> (bytes \<times> bytes) ota" where
  "fetched c q t ctx s = s\<lparr>ch_fetch := c, ota_mqtt := (ota_mqtt s)\<lparr>os := q\<rparr>, err := ERR_OTA_OSC_FAILED, report_timer := t, md5 := Some ctx,
     size_last_fetched := 3, size_fetched := 3, ota_state := OTA_STATE_FETCHED\<rparr>"

lemma demo_md5:
  obtains ctx ctx' where "ota_lib_md5_update (Some (utils_md5_starts utils_md5_init)) (str ''abc'' @ replicate 4097 0) 3 = Some ctx"
    "ota_lib_md5_finalize (Some ctx) = Some (abc_sum @ [0], ctx')"
proof -
  have "map_option fst (do { c \<leftarrow> utils_md5_update (utils_md5_starts utils_md5_init) (str ''abc'' @ replicate 4097 0) 3; utils_md5_finish_hb2hex c })
    = Some (abc_sum @ [0])" by code_simp
  then show ?thesis using that by (auto simp: ota_lib_md5_update_def ota_lib_md5_finalize_def bind_eq_Some_conv)
qed

lemma demo_yield:
  assumes "ch_fetch s = Fetch \<lparr> ofc_url = Some (str ''http://h/f''), ofc_http = demo_client, ofc_data = demo_data 0 0 None \<rparr>"
    and "os (ota_mqtt s) = ([], demo_inp)" and "offline s" and "ota_state s = OTA_STATE_FETCHING" and "size_fetched s = 0" and "size_file s = 3"
    and "md5 s = Some ctx0" and "ota_lib_md5_update (Some ctx0) (str ''abc'' @ replicate 4097 0) 3 = Some ctx"
  shows "\<exists>c q t. IOT_OTA_FetchYield demo_env 3 (replicate 4100 0) 4100 4096 10 s = Some ((3, str ''abc'' @ replicate 4097 0), fetched (Fetch c) q t ctx s)"
proof -
  obtain c q where f: "ofc_fetch demo_env 3 0 (replicate 4100 0) 4100 4096 10 s
    = Some ((3, str ''abc'' @ replicate 4097 0), s\<lparr>ch_fetch := Fetch c, ota_mqtt := (ota_mqtt s)\<lparr>os := q\<rparr>\<rparr>)" (is "_ = Some (_, ?s1)")
    using demo_fetch [OF assms(1,2)] by blast
  have o1: "offline ?s1" "ota_state ?s1 \<noteq> OTA_STATE_UNINITED" using assms(3,4) by (simp_all add: offline_def)
  let ?s2 = "?s1\<lparr>err := ERR_OTA_OSC_FAILED\<rparr>"
  obtain t where t: "on_mqtt (countdown (mqtt_hal demo_env) OTA_REPORT_PROGRESS_INTERVAL) ?s2 = (t, ?s2)" using demo_countdown by blast
  let ?b = "str ''abc'' @ replicate 4097 0"
  have five: "(5 :: nat) = Suc 4" by simp
  have "fetch_attempts demo_env 3 5 0 (replicate 4100 0) 4100 4096 10 s = Some ((3, ?b), ?s2\<lparr>report_timer := t\<rparr>)"
    using f progress_offline [OF o1, of 0] t assms(5) unfolding five fetch_attempts.simps(2) by (simp del: append.simps)
  moreover let ?s3 = "?s2\<lparr>report_timer := t\<rparr>\<lparr>md5 := Some ctx, size_last_fetched := 3, size_fetched := 3\<rparr>"
  have o3: "offline ?s3" "ota_state ?s3 \<noteq> OTA_STATE_UNINITED" using assms(3,4) by (simp_all add: offline_def)
  have "(3 :: u32) * 100 div 3 = 100" "sint (100 :: u32) = 100" by simp_all
  then have "report_percent demo_env 3 ?s3 = Some (?s3\<lparr>err := ERR_OTA_OSC_FAILED\<rparr>)"
    using progress_offline [OF o3, of 100] assms(6) by (simp add: report_percent_def)
  ultimately have "IOT_OTA_FetchYield demo_env 3 (replicate 4100 0) 4100 4096 10 s
    = Some ((3, ?b), ?s3\<lparr>err := ERR_OTA_OSC_FAILED\<rparr>\<lparr>ota_state := OTA_STATE_FETCHED\<rparr>)"
    using assms(4-8) by (simp add: IOT_OTA_FetchYield_def del: append.simps)
  moreover have "?s3\<lparr>err := ERR_OTA_OSC_FAILED\<rparr>\<lparr>ota_state := OTA_STATE_FETCHED\<rparr> = fetched (Fetch c) q t ctx s" by (simp add: fetched_def)
  ultimately show ?thesis by metis
qed

lemma demo_run:
  "\<exists>s'. IOT_OTA_fw_download demo_env 3 (ota_callback demo_env 3 1) (demo_ota abc_sum) = Some (SUCCESS_RET, s')
    \<and> ota_events s' = [Flash_Erase 7, Flash_Write 7 0 (str ''abc''), Fetch_Callback 5 OTA_REPORT_SUCCESS, Device_Reset]"
proof -
  let ?cb = "ota_callback demo_env 3 1" and ?b = "str ''abc'' @ replicate 4097 0"
  let ?s = "demo_ota abc_sum"
  define s1 where "s1 = ota_event (Flash_Erase 7) ?s"
  have io: "IOT_OTA_Ioctl demo_env 3 OTA_IOCTL_FILE_SIZE (Some True) 4 ?s = Some ((SUCCESS_RET, Some (Out32 3)), ?s)"
    by (simp add: IOT_OTA_Ioctl_def demo_ota_def)
  have i: "HAL_Download_Init demo_env ?s = Some (Some 7, s1)"
    by (simp add: HAL_Download_Init_def demo_env_def demo_ota_def on_world_def ota_event_def s1_def)
  obtain ctx ctx' where m: "ota_lib_md5_update (Some (utils_md5_starts utils_md5_init)) ?b 3 = Some ctx"
    "ota_lib_md5_finalize (Some ctx) = Some (abc_sum @ [0], ctx')" by (rule demo_md5)
  have "ch_fetch s1 = Fetch \<lparr> ofc_url = Some (str ''http://h/f''), ofc_http = demo_client, ofc_data = demo_data 0 0 None \<rparr>"
    "os (ota_mqtt s1) = ([], demo_inp)" "offline s1" "ota_state s1 = OTA_STATE_FETCHING" "size_fetched s1 = 0" "size_file s1 = 3"
    "md5 s1 = Some (utils_md5_starts utils_md5_init)"
    by (simp_all add: s1_def ota_event_def demo_ota_def demo_offline_def offline_def)
  from demo_yield [OF this m(1)] obtain c q t where
    y: "IOT_OTA_FetchYield demo_env 3 (replicate 4100 0) 4100 4096 10 s1 = Some ((3, ?b), fetched (Fetch c) q t ctx s1)" by blast
  define s2 where "s2 = fetched (Fetch c) q t ctx s1"
  define s3 where "s3 = ota_event (Flash_Write 7 0 (str ''abc'')) s2"
  have t3: "take 3 ?b = str ''abc''" by (simp add: str_def)
  have "HAL_Download_Write demo_env 7 0 ?b 3 s2 = Some (SUCCESS_RET, s3)"
    unfolding HAL_Download_Write_def t3 by (simp add: demo_env_def on_world_def s3_def str_def ota_event_def)
  moreover have f: "offline s3" "ota_state s3 = OTA_STATE_FETCHED" "calls (ota_mqtt s3) = []" "md5 s3 = Some ctx" "md5sum s3 = Some abc_sum"
    "fetch_callback_func s3 = Some 5" "ota_version s3 = Some (str ''2'')"
    by (simp_all add: s3_def s2_def s1_def ota_event_def demo_ota_def demo_offline_def offline_def fetched_def)
  moreover have "IOT_OTA_Yield demo_env 3 ?cb 100 s3 = Some (MQTT_MANUALLY_DISCONNECTED, s3)"
    using f(1,3) by (simp add: IOT_OTA_Yield_def IOT_MQTT_Yield_def uiot_mqtt_yield_def offline_def)
  ultimately have l: "download_loop demo_env 3 ?cb 3 7 (replicate 4100 0) 0 s1 = Some ((None, 3), s3)"
    using y by (simp add: numeral_3_eq_3 IOT_OTA_IsFetchFinish_def s2_def del: append.simps replicate.simps)
  have tw: "takeWhile (\<lambda>c. c \<noteq> 0) (abc_sum @ [0]) = abc_sum" by code_simp
  let ?s4 = "s3\<lparr>md5 := Some ctx'\<rparr>"
  have k: "IOT_OTA_Ioctl demo_env 3 OTA_IOCTL_CHECK_FIRMWARE (Some True) 4 s3 = Some ((SUCCESS_RET, Some (Out32 1)), ?s4)"
    using f(2,4,5) m(2) tw by (simp add: IOT_OTA_Ioctl_def)
  have "take 32 (str ''2'') = str ''2''" by (simp add: str_def)
  then have v: "IOT_OTA_Ioctl demo_env 3 OTA_IOCTL_VERSION (Some True) 33 ?s4 = Some ((SUCCESS_RET, Some (Out_Text (str ''2''))), ?s4)"
    using f(2,7) by (simp add: IOT_OTA_Ioctl_def)
  have o: "offline ?s4" "ota_state ?s4 \<noteq> OTA_STATE_UNINITED" "fetch_callback_func ?s4 = Some 5" using f(1,2,6) by (simp_all add: offline_def)
  obtain s5 where fin: "finish_download demo_env 3 3 3 s3 = Some (SUCCESS_RET, s5)"
    "ota_events s5 = ota_events s3 @ [Fetch_Callback 5 OTA_REPORT_SUCCESS, Device_Reset]" "ch_fetch s5 = Fetch c"
    using k v success_offline [OF o] by (auto simp: finish_download_def HAL_Download_End_def ota_event_def s3_def s2_def fetched_def)
  have "\<exists>s6. IOT_OTA_Clear demo_env s5 = Some s6"
    using fin(3) by (simp add: IOT_OTA_Clear_def ofc_deinit_def Let_def split_beta)
  then obtain s6 where clr: "IOT_OTA_Clear demo_env s5 = Some s6" ..
  have "sint (3 :: u32) = 3" by simp
  then have "IOT_OTA_fw_download demo_env 3 ?cb ?s = Some (SUCCESS_RET, s6)"
    using io i demo_malloc l fin(1) clr by (simp add: IOT_OTA_fw_download_def)
  moreover have "ota_events s3 = [Flash_Erase 7, Flash_Write 7 0 (str ''abc'')]"
    by (simp add: s3_def s2_def s1_def ota_event_def demo_ota_def fetched_def)
  ultimately show ?thesis using clear_effect [OF clr] fin(2) by simp
qed


theorem checksum_mismatch_refused_witness:
  "\<exists>ret s'. finish_download demo_env 3 0 0 ((demo_ota (str ''0''))\<lparr>ota_state := OTA_STATE_FETCHED\<rparr>) = Some (ret, s') \<and> ret < 0
    \<and> Device_Reset \<notin> set (ota_events s')"
proof -
  let ?s = "(demo_ota (str ''0''))\<lparr>ota_state := OTA_STATE_FETCHED\<rparr>"
  have h: "hashed [] ?s" using starts_absorbed [of utils_md5_init] by (simp add: hashed_def demo_ota_def utils_md5_init_def)
  have "length (md5_hex []) = 32" by code_simp
  moreover have "length (str ''0'') = 1" by (simp add: str_def)
  ultimately have "str ''0'' \<noteq> md5_hex []" by (metis numeral_One numeral_eq_iff num.distinct(1))
  then have n: "md5sum ?s \<noteq> Some (md5_hex [])" by (simp add: demo_ota_def)
  obtain c where c: "ota_lib_md5_finalize (md5 ?s) = Some (md5_hex [] @ [0], c)" by (rule finalize_hashed [OF h]) simp
  let ?t = "?s\<lparr>md5 := Some c, err := ERR_OTA_MD5_MISMATCH\<rparr>"
  have o: "offline ?t" by (simp add: offline_def demo_ota_def demo_offline_def)
  have "ota_lib_gen_upstream_msg demo_env 129 (Some (str ''m'')) (Some []) 0 OTA_REPORT_MD5_MISMATCH = Some (0, [])"
    by (simp add: ota_lib_gen_upstream_msg_def demo_env_def HAL_Snprintf_def)
  then have f: "IOT_OTA_ReportFail demo_env 3 OTA_REPORT_MD5_MISMATCH ?t = Some (ERR_OTA_OSC_FAILED, ?t\<lparr>err := ERR_OTA_OSC_FAILED\<rparr>)"
    using publish_offline [OF o] by (simp add: IOT_OTA_ReportFail_def send_report_def demo_malloc osc_upstream_publish_def demo_ota_def)
  have "str ''0'' \<noteq> md5_hex []" using n by (simp add: demo_ota_def)
  moreover have "md5sum ?s = Some (str ''0'')" by (simp add: demo_ota_def)
  ultimately have r: "finish_download demo_env 3 (int (length ([]::bytes))) (length ([]::bytes)) ?s
    = Some (ERR_OTA_OSC_FAILED, ?t\<lparr>err := ERR_OTA_OSC_FAILED\<rparr>)"
    using c f by (simp add: finish_download_def IOT_OTA_Ioctl_def IOT_OTA_GetLastError_def md5_hex_text)
  from checksum_mismatch_refused [OF r _ h _ n] r show ?thesis by (simp add: demo_ota_def)
qed

definition demo_cancel :: cstr where
  "demo_cancel = tmpl ''{`Method`:`cancel_update`,`Payload`:{`Module`:`m`,`Version`:`2`}}''"


end
