(* ===== verification/Dm_Payload.thy ===== *)
theory Dm_Payload
  imports Shadow_Json
begin

text \<open>
  The texts of the device model: the functions of \<^verbatim>\<open>dm_mqtt.c\<close> that print nodes, structures, arrays and lists of
  properties into a buffer of \<open>DM_MSG_REPORT_BUF_LEN\<close> bytes, and what the buffer holds afterwards.

  A pointer to an array and its number of elements are a list and an \<open>int\<close>; reading behind the list is \<open>None\<close>, and so is a
  null pointer printed with \<open>%s\<close>.  \<open>alloc n\<close> is what \<open>HAL_Malloc\<close> of \<open>n\<close> bytes returns: the memory with the contents it happens
  to have, or \<open>None\<close> for the null pointer.  \<open>fmt\<close> is what \<open>printf\<close> prints for a \<open>float\<close> or \<open>double\<close>.
\<close>

abbreviation (input) DM_MSG_REPORT_BUF_LEN :: nat where "DM_MSG_REPORT_BUF_LEN \<equiv> 2048"

section \<open>Data\<close>

datatype DM_Type =
  PROPERTY_RESTORE | PROPERTY_POST | PROPERTY_SET | PROPERTY_DESIRED_GET | PROPERTY_DESIRED_DELETE | EVENT_POST | COMMAND
  | DM_TYPE_MAX

text \<open>\<open>OTHER_BASE\<close> and \<open>OTHER_PARSE\<close> stand for numbers that name no type; the functions refuse them.\<close>

datatype DM_Base_Type = TYPE_INT | TYPE_FLOAT | TYPE_DOUBLE | TYPE_BOOL | TYPE_ENUM | TYPE_STRING | TYPE_DATE | OTHER_BASE

datatype DM_Parse_Type = TYPE_NODE | TYPE_STRUCT | TYPE_ARRAY_BASE | TYPE_ARRAY_STRUCT | OTHER_PARSE

text \<open>\<open>int32_value\<close>, \<open>enum_value\<close> and \<open>date_value\<close> are the same four bytes of the union; reading it at another type is undefined.\<close>

datatype DM_Base_Value_U = Int_Value u32 | Float32_Value u32 | Float64_Value "64 word" | Bool_Value bool | String_Value cstr

record DM_Node_t =
  base_type :: DM_Base_Type
  node_key :: "cstr option"
  node_val :: DM_Base_Value_U

record DM_Type_Struct_t =
  struct_key :: "cstr option"
  struct_nodes :: "DM_Node_t list"
  struct_num :: int

record DM_Array_Base_t =
  array_key :: "cstr option"
  array_nodes :: "DM_Node_t list"
  array_num :: int

record DM_Array_Struct_t =
  structs_key :: "cstr option"
  structs :: "DM_Type_Struct_t list"
  structs_num :: int

datatype DM_Property_Value_U =
  Dm_Node DM_Node_t | Dm_Struct DM_Type_Struct_t | Dm_Array_Base DM_Array_Base_t | Dm_Array_Struct DM_Array_Struct_t

record DM_Property_t =
  parse_type :: DM_Parse_Type
  prop_value :: DM_Property_Value_U
  desired_ver :: u32

record DM_Event_t =
  event_identy :: cstr
  dm_property :: "DM_Property_t list option"
  property_num :: int

section \<open>Nodes\<close>

text \<open>The C string at the start of a buffer.\<close>

definition text_in :: "bytes \<Rightarrow> cstr option" where
  "text_in m = do { l \<leftarrow> strlen_at m 0; Some (take l m) }"

definition dm_node_value :: "(DM_Base_Value_U \<Rightarrow> cstr) \<Rightarrow> DM_Node_t \<Rightarrow> cstr option" where
  "dm_node_value fmt n =
     (case (base_type n, node_val n) of
        (TYPE_INT, Int_Value w) \<Rightarrow> Some (dec_int (sint w))
      | (TYPE_BOOL, Bool_Value b) \<Rightarrow> Some (dec_int (if b then 1 else 0))
      | (TYPE_ENUM, Int_Value w) \<Rightarrow> Some (dec_int (sint w))
      | (TYPE_FLOAT, Float32_Value w) \<Rightarrow> Some (fmt (node_val n))
      | (TYPE_DOUBLE, Float64_Value w) \<Rightarrow> Some (fmt (node_val n))
      | (TYPE_STRING, String_Value s) \<Rightarrow> Some (lit ''`'' @ s @ lit ''`'')
      | (TYPE_DATE, Int_Value w) \<Rightarrow> Some (dec_int (sint w))
      | _ \<Rightarrow> None)"

definition dm_node_text :: "bool \<Rightarrow> cstr option \<Rightarrow> cstr \<Rightarrow> cstr" where
  "dm_node_text value_key name v =
     (case name of None \<Rightarrow> v
      | Some k \<Rightarrow> if value_key then lit ''`'' @ k @ lit ''`: {`Value`: '' @ v @ lit ''}'' else lit ''`'' @ k @ lit ''`: '' @ v)"

definition dm_gen_node_payload ::
  "(DM_Base_Value_U \<Rightarrow> cstr) \<Rightarrow> bool \<Rightarrow> DM_Node_t \<Rightarrow> bytes \<Rightarrow> (int \<times> bytes) option" where
  "dm_gen_node_payload fmt value_key dm_node node_payload =
     (if base_type dm_node = OTHER_BASE then Some (FAILURE_RET, node_payload)
      else do {
        v \<leftarrow> dm_node_value fmt dm_node;
        (ret, node_payload) \<leftarrow> snprintf_at node_payload 0 (of_nat DM_MSG_REPORT_BUF_LEN) (dm_node_text value_key (node_key dm_node) v);
        Some (if ret < 0 \<or> ret \<ge> int DM_MSG_REPORT_BUF_LEN then FAILURE_RET else SUCCESS_RET, node_payload) })"

section \<open>Lists of members\<close>

text \<open>
  The loop that the structure, the two arrays and the list of properties share, with \<open>n\<close> members left: \<open>gen\<close> prints a
  member into its own buffer, and its text is printed behind those of the earlier members.  The result is that of \<open>gen\<close>
  when it fails, and \<open>write_size\<close>, \<open>remain_size\<close> and the buffer at the end of the loop.
\<close>

fun dm_members ::
  "('x \<Rightarrow> bytes \<Rightarrow> (int \<times> bytes) option) \<Rightarrow> cstr \<Rightarrow> cstr \<Rightarrow> bool \<Rightarrow> nat \<Rightarrow> 'x list \<Rightarrow> bytes \<Rightarrow> bytes \<Rightarrow> int \<Rightarrow> int
   \<Rightarrow> (int \<times> int \<times> int \<times> bytes) option" where
  "dm_members gen opening closing first 0 xs member_payload payload write_size remain_size =
     Some (SUCCESS_RET, write_size, remain_size, payload)"
| "dm_members gen opening closing first (Suc n) [] member_payload payload write_size remain_size = None"
| "dm_members gen opening closing first (Suc n) (x # xs) member_payload payload write_size remain_size = do {
     (ret, member_payload) \<leftarrow> gen x member_payload;
     if ret \<noteq> SUCCESS_RET then Some (ret, write_size, remain_size, payload)
     else do {
       t \<leftarrow> text_in member_payload;
       if first then do {
         (w, payload) \<leftarrow> snprintf_at payload 0 (of_nat DM_MSG_REPORT_BUF_LEN) (opening @ t);
         dm_members gen opening closing False n xs member_payload payload w (int DM_MSG_REPORT_BUF_LEN - w) }
       else do {
         l \<leftarrow> strlen_at payload 0;
         (w, payload) \<leftarrow> snprintf_at payload l (of_int remain_size) (lit '', '' @ t @ (if n = 0 then closing else []));
         dm_members gen opening closing False n xs member_payload payload w (remain_size - w) } } }"

text \<open>A structure or array: one member is printed at once, without a look at the length.\<close>

definition dm_gen_members ::
  "(nat \<Rightarrow> bytes option) \<Rightarrow> ('x \<Rightarrow> bytes \<Rightarrow> (int \<times> bytes) option) \<Rightarrow> cstr \<Rightarrow> cstr \<Rightarrow> int \<Rightarrow> 'x list \<Rightarrow> bytes \<Rightarrow> (int \<times> bytes) option" where
  "dm_gen_members alloc gen opening closing num xs payload =
     (case alloc DM_MSG_REPORT_BUF_LEN of None \<Rightarrow> Some (FAILURE_RET, payload)
      | Some member_payload \<Rightarrow> do {
          (ret, write_size, remain_size, payload) \<leftarrow>
            (if num = 1 then
               case xs of [] \<Rightarrow> None
               | x # _ \<Rightarrow> do {
                   (ret, member_payload) \<leftarrow> gen x member_payload;
                   if ret \<noteq> SUCCESS_RET then Some (ret, 0, 0, payload)
                   else do {
                     t \<leftarrow> text_in member_payload;
                     (w, payload) \<leftarrow> snprintf_at payload 0 (of_nat DM_MSG_REPORT_BUF_LEN) (opening @ t @ closing);
                     Some (SUCCESS_RET, w, 0, payload) } }
             else dm_members gen opening closing True (nat num) xs member_payload payload 0 0);
          Some (if ret \<noteq> SUCCESS_RET then ret else if write_size < 0 \<or> remain_size < 0 then FAILURE_RET else SUCCESS_RET, payload) })"

text \<open>\<open>b\<close> is the opening bracket.  Only the name of a structure may be a null pointer, that of an array is printed with \<open>%s\<close>.\<close>

definition dm_opening :: "bool \<Rightarrow> cstr \<Rightarrow> string \<Rightarrow> cstr" where
  "dm_opening value_key k b = lit ''`'' @ k @ lit (if value_key then ''`: {`Value`: '' else ''`: '') @ lit b"

definition dm_gen_struct_payload ::
  "(nat \<Rightarrow> bytes option) \<Rightarrow> (DM_Base_Value_U \<Rightarrow> cstr) \<Rightarrow> bool \<Rightarrow> DM_Type_Struct_t \<Rightarrow> bytes \<Rightarrow> (int \<times> bytes) option" where
  "dm_gen_struct_payload alloc fmt value_key dm_struct struct_payload =
     dm_gen_members alloc (dm_gen_node_payload fmt False)
       (case struct_key dm_struct of None \<Rightarrow> lit ''{'' | Some k \<Rightarrow> dm_opening value_key k ''{'')
       (lit (if struct_key dm_struct \<noteq> None \<and> value_key then ''}}'' else ''}''))
       (struct_num dm_struct) (struct_nodes dm_struct) struct_payload"

definition dm_gen_array_payload ::
  "(nat \<Rightarrow> bytes option) \<Rightarrow> ('x \<Rightarrow> bytes \<Rightarrow> (int \<times> bytes) option) \<Rightarrow> bool \<Rightarrow> cstr option \<Rightarrow> int \<Rightarrow> 'x list \<Rightarrow> bytes \<Rightarrow> (int \<times> bytes) option" where
  "dm_gen_array_payload alloc gen value_key name num xs payload =
     (case name of Some k \<Rightarrow>
        dm_gen_members alloc gen (dm_opening value_key k ''['') (lit (if value_key then '']}'' else '']'')) num xs payload
      | None \<Rightarrow>
        (case alloc DM_MSG_REPORT_BUF_LEN of
           Some member_payload \<Rightarrow>
             if num \<le> 0 then Some (SUCCESS_RET, payload)
             else (case xs of [] \<Rightarrow> None
               | x # _ \<Rightarrow> do {
                   (ret, _) \<leftarrow> gen x member_payload;
                   if ret \<noteq> SUCCESS_RET then Some (ret, payload) else None })
         | None \<Rightarrow> Some (FAILURE_RET, payload)))"

definition dm_gen_array_base_payload ::
  "(nat \<Rightarrow> bytes option) \<Rightarrow> (DM_Base_Value_U \<Rightarrow> cstr) \<Rightarrow> bool \<Rightarrow> DM_Array_Base_t \<Rightarrow> bytes \<Rightarrow> (int \<times> bytes) option" where
  "dm_gen_array_base_payload alloc fmt value_key dm_array_base array_base_payload =
     dm_gen_array_payload alloc (dm_gen_node_payload fmt False) value_key
       (array_key dm_array_base) (array_num dm_array_base) (array_nodes dm_array_base) array_base_payload"

definition dm_gen_array_struct_payload ::
  "(nat \<Rightarrow> bytes option) \<Rightarrow> (DM_Base_Value_U \<Rightarrow> cstr) \<Rightarrow> bool \<Rightarrow> DM_Array_Struct_t \<Rightarrow> bytes \<Rightarrow> (int \<times> bytes) option" where
  "dm_gen_array_struct_payload alloc fmt value_key dm_array_struct array_struct_payload =
     dm_gen_array_payload alloc (dm_gen_struct_payload alloc fmt False) value_key
       (structs_key dm_array_struct) (structs_num dm_array_struct) (structs dm_array_struct) array_struct_payload"

section \<open>Properties\<close>

text \<open>Reading the union of a property at another type than the one stored is undefined.\<close>

definition dm_gen_property_post_payload ::
  "(nat \<Rightarrow> bytes option) \<Rightarrow> (DM_Base_Value_U \<Rightarrow> cstr) \<Rightarrow> bool \<Rightarrow> DM_Property_t \<Rightarrow> bytes \<Rightarrow> (int \<times> bytes) option" where
  "dm_gen_property_post_payload alloc fmt value_key property property_payload =
     (case (parse_type property, prop_value property) of
        (OTHER_PARSE, _) \<Rightarrow> Some (FAILURE_RET, property_payload)
      | (TYPE_NODE, Dm_Node n) \<Rightarrow> dm_gen_node_payload fmt value_key n property_payload
      | (TYPE_STRUCT, Dm_Struct t) \<Rightarrow> dm_gen_struct_payload alloc fmt value_key t property_payload
      | (TYPE_ARRAY_BASE, Dm_Array_Base a) \<Rightarrow> dm_gen_array_base_payload alloc fmt value_key a property_payload
      | (TYPE_ARRAY_STRUCT, Dm_Array_Struct a) \<Rightarrow> dm_gen_array_struct_payload alloc fmt value_key a property_payload
      | _ \<Rightarrow> None)"

definition dm_property_key :: "DM_Property_t \<Rightarrow> cstr option" where
  "dm_property_key property =
     (case (parse_type property, prop_value property) of
        (TYPE_NODE, Dm_Node n) \<Rightarrow> node_key n
      | (TYPE_STRUCT, Dm_Struct t) \<Rightarrow> struct_key t
      | (TYPE_ARRAY_BASE, Dm_Array_Base a) \<Rightarrow> array_key a
      | (TYPE_ARRAY_STRUCT, Dm_Array_Struct a) \<Rightarrow> structs_key a
      | _ \<Rightarrow> None)"

definition dm_gen_property_desired_payload :: "DM_Property_t \<Rightarrow> bytes \<Rightarrow> (int \<times> bytes) option" where
  "dm_gen_property_desired_payload property desired_payload =
     (if parse_type property = OTHER_PARSE then Some (FAILURE_RET, desired_payload)
      else do {
        k \<leftarrow> dm_property_key property;
        (write_size, desired_payload) \<leftarrow> snprintf_at desired_payload 0 (of_nat DM_MSG_REPORT_BUF_LEN) (lit ''`'' @ k @ lit ''`'');
        Some (if write_size < 0 then FAILURE_RET else SUCCESS_RET, desired_payload) })"

definition dm_gen_property_delete_payload :: "DM_Property_t \<Rightarrow> bytes \<Rightarrow> (int \<times> bytes) option" where
  "dm_gen_property_delete_payload property delete_payload =
     (if parse_type property = OTHER_PARSE then Some (FAILURE_RET, delete_payload)
      else do {
        k \<leftarrow> dm_property_key property;
        (write_size, delete_payload) \<leftarrow> snprintf_at delete_payload 0 (of_nat DM_MSG_REPORT_BUF_LEN)
          (lit ''`'' @ k @ lit ''`: {`version`: '' @ dec_int (sint (desired_ver property)) @ lit ''}'');
        Some (if write_size < 0 then FAILURE_RET else SUCCESS_RET, delete_payload) })"

text \<open>One property; for another type of message the buffer stays as it is, and that is not an error.\<close>

definition dm_gen_property_payload ::
  "(nat \<Rightarrow> bytes option) \<Rightarrow> (DM_Base_Value_U \<Rightarrow> cstr) \<Rightarrow> DM_Type \<Rightarrow> bool \<Rightarrow> DM_Property_t \<Rightarrow> bytes \<Rightarrow> (int \<times> bytes) option" where
  "dm_gen_property_payload alloc fmt type value_key property payload =
     (if type = PROPERTY_POST then dm_gen_property_post_payload alloc fmt value_key property payload
      else if type = PROPERTY_DESIRED_GET then dm_gen_property_desired_payload property payload
      else if type = PROPERTY_DESIRED_DELETE then dm_gen_property_delete_payload property payload
      else Some (SUCCESS_RET, payload))"

definition dm_gen_properties_payload ::
  "(nat \<Rightarrow> bytes option) \<Rightarrow> (DM_Base_Value_U \<Rightarrow> cstr) \<Rightarrow> DM_Property_t list option \<Rightarrow> int \<Rightarrow> DM_Type \<Rightarrow> bool \<Rightarrow> bytes option
   \<Rightarrow> (int \<times> bytes option) option" where
  "dm_gen_properties_payload alloc fmt property n type value_key properties_payload =
     (case (property, properties_payload) of
        (Some ps, Some out) \<Rightarrow>
          (case alloc DM_MSG_REPORT_BUF_LEN of None \<Rightarrow> Some (FAILURE_RET, Some out)
           | Some payload \<Rightarrow> do {
               (ret, write_size, remain_size, out) \<leftarrow>
                 dm_members (dm_gen_property_payload alloc fmt type value_key) [] [] True (nat n) ps payload out 0 0;
               Some (if ret \<noteq> SUCCESS_RET then ret else if write_size < 0 \<or> remain_size < 0 then FAILURE_RET else SUCCESS_RET,
                 Some out) })
      | _ \<Rightarrow> Some (FAILURE_RET, properties_payload))"

section \<open>What a buffer of the device model holds\<close>

text \<open>The buffer holds the text as far as it fits, and the terminator.\<close>

definition holds :: "bytes \<Rightarrow> cstr \<Rightarrow> bool" where
  "holds m t \<longleftrightarrow> length m = DM_MSG_REPORT_BUF_LEN \<and> 0 \<notin> set t \<and> (\<exists>post. m = take (DM_MSG_REPORT_BUF_LEN - 1) t @ 0 # post)"

lemma strlen_holds: "holds m t \<Longrightarrow> strlen_at m 0 = Some (min (DM_MSG_REPORT_BUF_LEN - 1) (length t))"
proof -
  assume "holds m t"
  then obtain post where m: "m = take (DM_MSG_REPORT_BUF_LEN - 1) t @ 0 # post" and z: "0 \<notin> set t" by (auto simp: holds_def)
  from z have "0 \<notin> set (take (DM_MSG_REPORT_BUF_LEN - 1) t)" by (metis in_set_takeD)
  then show ?thesis unfolding m by (simp add: min.commute)
qed

lemma text_in_holds: "holds m t \<Longrightarrow> text_in m = Some (take (DM_MSG_REPORT_BUF_LEN - 1) t)"
  by (auto simp: text_in_def strlen_holds) (auto simp: holds_def min_def)

lemma print_first:
  assumes "length m = DM_MSG_REPORT_BUF_LEN" and "0 \<notin> set t"
  shows "\<exists>m'. snprintf_at m 0 (of_nat DM_MSG_REPORT_BUF_LEN) t = Some (int (length t), m') \<and> holds m' t"
  using assms by (auto simp: snprintf_at_def poke_bytes_def holds_def)

lemma print_next:
  assumes m: "holds m c" and c: "length c \<le> DM_MSG_REPORT_BUF_LEN" and t: "0 \<notin> set t"
  shows "\<exists>m'. snprintf_at m (min (DM_MSG_REPORT_BUF_LEN - 1) (length c)) (of_int (int DM_MSG_REPORT_BUF_LEN - int (length c))) t
      = Some (int (length t), m') \<and> holds m' (c @ t)"
proof (cases "length c = DM_MSG_REPORT_BUF_LEN")
  case True
  with m t show ?thesis by (auto simp: snprintf_at_def holds_def)
next
  case False
  with c have l: "length c < DM_MSG_REPORT_BUF_LEN" by simp
  with m obtain post where post: "m = c @ 0 # post" "length post = DM_MSG_REPORT_BUF_LEN - 1 - length c" "0 \<notin> set c"
    by (auto simp: holds_def)
  define n where "n = (of_int (int DM_MSG_REPORT_BUF_LEN - int (length c)) :: size_t)"
  have "n = of_nat (DM_MSG_REPORT_BUF_LEN - length c)" using l by (simp add: n_def of_nat_diff)
  then have n: "unat n = DM_MSG_REPORT_BUF_LEN - length c" using l by (simp del: of_nat_diff)
  then have "n \<noteq> 0" "unat n \<le> Suc (length post)" using l post(2) by auto
  note snprintf_at_end [OF this, of c t]
  moreover have "min (DM_MSG_REPORT_BUF_LEN - 1) (length c) = length c" using l by simp
  moreover have "holds ((c @ take (unat n - 1) t) @ 0 # drop (length (take (unat n - 1) t)) post) (c @ t)"
    using l t post n by (auto simp: holds_def min_def)
  ultimately show ?thesis unfolding n_def [symmetric] post(1) by simp
qed

text \<open>Behind an overflow the size is a negative number, and the next print runs out of the buffer.\<close>

lemma print_overflow:
  assumes m: "holds m c" and c: "DM_MSG_REPORT_BUF_LEN < length c" "length c < 2 ^ 31" and t: "t \<noteq> []"
  shows "snprintf_at m (DM_MSG_REPORT_BUF_LEN - 1) (of_int (int DM_MSG_REPORT_BUF_LEN - int (length c))) t = None"
proof -
  define n where "n = (of_int (int DM_MSG_REPORT_BUF_LEN - int (length c)) :: size_t)"
  have "uint n = (int DM_MSG_REPORT_BUF_LEN - int (length c)) mod 2 ^ 32" unfolding n_def by (subst uint_word_of_int) simp
  also have "\<dots> = int DM_MSG_REPORT_BUF_LEN - int (length c) + 2 ^ 32" using c
    by (intro mod_pos_pos_trivial [of "int DM_MSG_REPORT_BUF_LEN - int (length c) + 2 ^ 32" "2 ^ 32", simplified mod_add_self2]) auto
  finally have n: "int (unat n) = int DM_MSG_REPORT_BUF_LEN - int (length c) + 2 ^ 32" by simp
  have "int 2 \<le> int (unat n)" unfolding n using c by simp
  then have "2 \<le> unat n" by (simp only: of_nat_le_iff)
  then have "n \<noteq> 0" "Suc 1 \<le> unat n" by auto
  moreover have "1 \<le> length t" using t by (cases t) auto
  ultimately show ?thesis using m unfolding n_def [symmetric] by (auto simp: snprintf_at_def poke_bytes_def holds_def)
qed

section \<open>Members in sequence\<close>

text \<open>The texts behind the first one, each after a comma.\<close>

definition more_members :: "cstr list \<Rightarrow> cstr" where
  "more_members ts = concat (map (\<lambda>t. lit '', '' @ t) ts)"

fun member_texts :: "cstr list \<Rightarrow> cstr" where
  "member_texts [] = []"
| "member_texts (t # ts) = t @ more_members ts"

lemma more_members_simps [simp]:
  "more_members [] = []" "more_members (t # ts) = lit '', '' @ t @ more_members ts"
  by (simp_all add: more_members_def)

lemma comma_no_NUL [simp]: "(0 :: u8) \<notin> set (lit '', '')" "lit '', '' \<noteq> []"
  by (simp_all add: lit_def)

text \<open>
  A printer of members: \<open>tx\<close> is the text of a member that has one, and \<open>gen\<close> prints every text that fits into the buffer.
\<close>

locale member_printer =
  fixes gen :: "'x \<Rightarrow> bytes \<Rightarrow> (int \<times> bytes) option" and tx :: "'x \<Rightarrow> cstr option"
  assumes prints: "\<lbrakk>tx x = Some t; length t < DM_MSG_REPORT_BUF_LEN; length m = DM_MSG_REPORT_BUF_LEN\<rbrakk>
      \<Longrightarrow> \<exists>m'. gen x m = Some (SUCCESS_RET, m') \<and> holds m' t"
begin

definition fits :: "'x \<Rightarrow> cstr \<Rightarrow> bool" where
  "fits x t \<longleftrightarrow> tx x = Some t \<and> length t < DM_MSG_REPORT_BUF_LEN"

lemma prints_text:
  assumes "fits x t" and "length m = DM_MSG_REPORT_BUF_LEN"
  obtains m' where "gen x m = Some (SUCCESS_RET, m')" "length m' = DM_MSG_REPORT_BUF_LEN" "text_in m' = Some t" "0 \<notin> set t"
  using prints [of x t m] assms by (auto simp: fits_def text_in_holds) (auto simp: holds_def)

lemma members_rest:
  assumes "list_all2 fits xs ts" and "xs \<noteq> []" and "holds m c" and "length mb = DM_MSG_REPORT_BUF_LEN"
    and "0 \<notin> set closing" and "length (c @ more_members ts) < 2 ^ 31"
  shows "if DM_MSG_REPORT_BUF_LEN < length (c @ more_members (butlast ts))
    then dm_members gen op closing False (length xs) xs mb m w (int DM_MSG_REPORT_BUF_LEN - int (length c)) = None
    else \<exists>w' m'. dm_members gen op closing False (length xs) xs mb m w (int DM_MSG_REPORT_BUF_LEN - int (length c)) =
        Some (SUCCESS_RET, int w', int DM_MSG_REPORT_BUF_LEN - int (length (c @ more_members ts @ closing)), m')
      \<and> holds m' (c @ more_members ts @ closing)"
  using assms
proof (induction xs arbitrary: ts m c mb w)
  case (Cons x xs)
  then obtain t us where ts: "ts = t # us" and x: "fits x t" and us: "list_all2 fits xs us" by (cases ts) auto
  obtain mb' where gen: "gen x mb = Some (SUCCESS_RET, mb')" "length mb' = DM_MSG_REPORT_BUF_LEN" "text_in mb' = Some t" "0 \<notin> set t"
    using prints_text [OF x Cons.prems(4)] .
  define s where "s = lit '', '' @ t @ (if length xs = 0 then closing else [])"
  have s: "0 \<notin> set s" "s \<noteq> []" using gen(4) Cons.prems(5) by (simp_all add: s_def)
  have step: "dm_members gen op closing False (length (x # xs)) (x # xs) mb m w r =
      (snprintf_at m (min (DM_MSG_REPORT_BUF_LEN - 1) (length c)) (of_int r) s \<bind>
        (\<lambda>(w', m'). dm_members gen op closing False (length xs) xs mb' m' w' (r - w')))" for r
    using gen by (simp add: s_def strlen_holds [OF Cons.prems(3)])
  show ?case
  proof (cases "DM_MSG_REPORT_BUF_LEN < length c")
    case True
    have "length c < 2 ^ 31" using Cons.prems(6) by simp
    from print_overflow [OF Cons.prems(3) True this s(2)] True show ?thesis unfolding step by simp
  next
    case False
    then have c: "length c \<le> DM_MSG_REPORT_BUF_LEN" by simp
    obtain m' where p: "snprintf_at m (min (DM_MSG_REPORT_BUF_LEN - 1) (length c)) (of_int (int DM_MSG_REPORT_BUF_LEN - int (length c))) s
        = Some (int (length s), m')" and m': "holds m' (c @ s)"
      using print_next [OF Cons.prems(3) c s(1)] by auto
    have r: "int DM_MSG_REPORT_BUF_LEN - int (length c) - int (length s) = int DM_MSG_REPORT_BUF_LEN - int (length (c @ s))" by simp
    show ?thesis
    proof (cases "xs = []")
      case True
      then have "us = []" using us by simp
      moreover have "s = lit '', '' @ t @ closing" using True by (simp add: s_def)
      ultimately show ?thesis using p m' c True ts unfolding step by (auto intro!: exI [of _ "length s"])
    next
      case False
      then have s': "s = lit '', '' @ t" and ne: "us \<noteq> []" using us by (auto simp: s_def)
      have "length ((c @ s) @ more_members us) < 2 ^ 31" using Cons.prems(6) by (simp add: ts s')
      note Cons.IH [OF us False m' gen(2) Cons.prems(5) this, of "int (length s)"]
      then show ?thesis using p r ne False unfolding step by (simp add: ts s' diff_diff_eq split: if_splits)
    qed
  qed
qed simp

text \<open>
  Two or more members: the buffer is left when the members before the last do not fit; otherwise it holds the text as far as
  it fits, and the last \<open>remain_size\<close> tells by how much.
\<close>

lemma members_outcome:
  assumes fit: "list_all2 fits xs ts" and n: "xs \<noteq> []" "length xs = 1 \<longrightarrow> closing = []"
    and l: "length m = DM_MSG_REPORT_BUF_LEN" "length mb = DM_MSG_REPORT_BUF_LEN"
    and z: "0 \<notin> set op" "0 \<notin> set closing" and b: "length (op @ member_texts ts) < 2 ^ 31"
  defines "T \<equiv> op @ member_texts ts @ closing"
  shows "if 1 < length xs \<and> DM_MSG_REPORT_BUF_LEN < length (op @ member_texts (butlast ts))
    then dm_members gen op closing True (length xs) xs mb m w r = None
    else \<exists>w' m'. dm_members gen op closing True (length xs) xs mb m w r =
        Some (SUCCESS_RET, int w', int DM_MSG_REPORT_BUF_LEN - int (length T), m') \<and> holds m' T"
proof -
  obtain x ys t us where xs: "xs = x # ys" and ts: "ts = t # us" and x: "fits x t" and us: "list_all2 fits ys us"
    using fit n(1) by (cases xs; cases ts) auto
  obtain mb' where gen: "gen x mb = Some (SUCCESS_RET, mb')" "length mb' = DM_MSG_REPORT_BUF_LEN" "text_in mb' = Some t" "0 \<notin> set t"
    using prints_text [OF x l(2)] .
  obtain m' where p: "snprintf_at m 0 (of_nat DM_MSG_REPORT_BUF_LEN) (op @ t) = Some (int (length (op @ t)), m')" "holds m' (op @ t)"
    using print_first [OF l(1), of "op @ t"] z(1) gen(4) by auto
  show ?thesis
  proof (cases "ys = []")
    case True
    then have "us = []" "closing = []" using us n(2) xs by simp_all
    then show ?thesis using p True gen by (auto simp: xs ts T_def intro!: exI [of _ "length (op @ t)"])
  next
    case False
    then have ne: "us \<noteq> []" using us by auto
    have "length ((op @ t) @ more_members us) < 2 ^ 31" using b by (simp add: ts)
    note members_rest [OF us False p(2) gen(2) z(2) this, of op "int (length (op @ t))"]
    then show ?thesis using False ne p gen by (simp add: xs ts T_def split: if_splits)
  qed
qed

text \<open>A structure or an array whose text fits is printed exactly.\<close>

lemma gen_members_exact:
  assumes fit: "list_all2 fits xs ts" and n: "xs \<noteq> []" and l: "length m = DM_MSG_REPORT_BUF_LEN"
    and a: "alloc DM_MSG_REPORT_BUF_LEN = Some mb" "length mb = DM_MSG_REPORT_BUF_LEN" and z: "0 \<notin> set op" "0 \<notin> set closing"
    and T: "T = op @ member_texts ts @ closing" "length T < DM_MSG_REPORT_BUF_LEN"
  shows "\<exists>m'. dm_gen_members alloc gen op closing (int (length xs)) xs m = Some (SUCCESS_RET, m') \<and> holds m' T"
proof (cases "length xs = 1")
  case True
  then obtain x t where xs: "xs = [x]" "ts = [t]" "fits x t" using fit by (auto simp: length_Suc_conv list_all2_Cons1)
  obtain mb' where "gen x mb = Some (SUCCESS_RET, mb')" "text_in mb' = Some t" "0 \<notin> set t" using prints_text [OF xs(3) a(2)] .
  then show ?thesis using print_first [OF l, of T] z a(1) xs T(1) by (auto simp: dm_gen_members_def)
next
  case False
  have le: "length (op @ member_texts (butlast ts)) \<le> length T"
  proof -
    obtain t us where "ts = t # us" using fit n by (cases ts) auto
    moreover have "length (more_members (butlast us)) \<le> length (more_members us)"
      by (cases us rule: rev_cases) (simp_all add: more_members_def)
    ultimately show ?thesis by (cases us) (auto simp: T(1))
  qed
  moreover have "length (op @ member_texts ts) < 2 ^ 31" using T by simp
  ultimately show ?thesis
    using members_outcome [OF fit n _ l a(2) z, of 0 0] False T(2) a(1) by (auto simp: dm_gen_members_def T(1) [symmetric])
qed

end

section \<open>The texts of nodes, structures, arrays and properties\<close>

text \<open>The text of something that has one: its values are of the types they are said to be, and no string holds a NUL.\<close>

definition no_NUL :: "cstr \<Rightarrow> cstr option" where
  "no_NUL t = (if 0 \<in> set t then None else Some t)"

definition members_json :: "('x \<Rightarrow> cstr option) \<Rightarrow> cstr \<Rightarrow> cstr \<Rightarrow> int \<Rightarrow> 'x list \<Rightarrow> cstr option" where
  "members_json tx opening closing num xs = do {
     ts \<leftarrow> those (map tx xs);
     if num = int (length xs) \<and> xs \<noteq> [] \<and> 0 \<notin> set opening \<and> 0 \<notin> set closing
     then Some (opening @ member_texts ts @ closing) else None }"

definition node_json :: "(DM_Base_Value_U \<Rightarrow> cstr) \<Rightarrow> bool \<Rightarrow> DM_Node_t \<Rightarrow> cstr option" where
  "node_json fmt value_key n = do { v \<leftarrow> dm_node_value fmt n; no_NUL (dm_node_text value_key (node_key n) v) }"

definition struct_json :: "(DM_Base_Value_U \<Rightarrow> cstr) \<Rightarrow> bool \<Rightarrow> DM_Type_Struct_t \<Rightarrow> cstr option" where
  "struct_json fmt value_key s =
     (case struct_key s of
        None \<Rightarrow> members_json (node_json fmt False) (lit ''{'') (lit ''}'') (struct_num s) (struct_nodes s)
      | Some k \<Rightarrow> members_json (node_json fmt False)
          (lit ''`'' @ k @ lit (if value_key then ''`: {`Value`: {'' else ''`: {'')) (lit (if value_key then ''}}'' else ''}''))
          (struct_num s) (struct_nodes s))"

definition array_json :: "('x \<Rightarrow> cstr option) \<Rightarrow> bool \<Rightarrow> cstr option \<Rightarrow> int \<Rightarrow> 'x list \<Rightarrow> cstr option" where
  "array_json tx value_key name num xs = do {
     k \<leftarrow> name;
     members_json tx (lit ''`'' @ k @ lit (if value_key then ''`: {`Value`: ['' else ''`: ['')) (lit (if value_key then '']}'' else '']''))
       num xs }"

definition value_json :: "(DM_Base_Value_U \<Rightarrow> cstr) \<Rightarrow> bool \<Rightarrow> DM_Property_t \<Rightarrow> cstr option" where
  "value_json fmt value_key p =
     (case (parse_type p, prop_value p) of
        (TYPE_NODE, Dm_Node n) \<Rightarrow> node_json fmt value_key n
      | (TYPE_STRUCT, Dm_Struct s) \<Rightarrow> struct_json fmt value_key s
      | (TYPE_ARRAY_BASE, Dm_Array_Base a) \<Rightarrow> array_json (node_json fmt False) value_key (array_key a) (array_num a) (array_nodes a)
      | (TYPE_ARRAY_STRUCT, Dm_Array_Struct a) \<Rightarrow> array_json (struct_json fmt False) value_key (structs_key a) (structs_num a) (structs a)
      | _ \<Rightarrow> None)"

text \<open>A property in a message of the given type: its value, its name, or the version that is to be deleted.\<close>

definition property_json :: "(DM_Base_Value_U \<Rightarrow> cstr) \<Rightarrow> DM_Type \<Rightarrow> bool \<Rightarrow> DM_Property_t \<Rightarrow> cstr option" where
  "property_json fmt type value_key p =
     (if type = PROPERTY_POST then value_json fmt value_key p
      else if type = PROPERTY_DESIRED_GET then do { k \<leftarrow> dm_property_key p; no_NUL (lit ''`'' @ k @ lit ''`'') }
      else if type = PROPERTY_DESIRED_DELETE then do {
        k \<leftarrow> dm_property_key p;
        no_NUL (lit ''`'' @ k @ lit ''`: {`version`: '' @ dec_int (sint (desired_ver p)) @ lit ''}'') }
      else None)"

lemma those_Some: "those (map f xs) = Some ys \<longleftrightarrow> list_all2 (\<lambda>x y. f x = Some y) xs ys"
proof (induction xs arbitrary: ys)
  case (Cons x xs)
  then show ?case by (cases ys) (auto split: option.splits)
qed auto

lemma no_NUL_Some: "no_NUL t = Some u \<longleftrightarrow> u = t \<and> 0 \<notin> set t"
  by (auto simp: no_NUL_def)

interpretation node_printer: member_printer "dm_gen_node_payload fmt value_key" "node_json fmt value_key" for fmt value_key
proof
  fix n t and m :: bytes
  assume n: "node_json fmt value_key n = Some t" and t: "length t < DM_MSG_REPORT_BUF_LEN" and m: "length m = DM_MSG_REPORT_BUF_LEN"
  from n obtain v where v: "dm_node_value fmt n = Some v" "t = dm_node_text value_key (node_key n) v" "0 \<notin> set t"
    by (auto simp: node_json_def no_NUL_Some bind_Some_iff)
  then have "base_type n \<noteq> OTHER_BASE" by (auto simp: dm_node_value_def)
  with print_first [OF m v(3)] v(1,2) t show "\<exists>m'. dm_gen_node_payload fmt value_key n m = Some (SUCCESS_RET, m') \<and> holds m' t"
    by (auto simp: dm_gen_node_payload_def)
qed

text \<open>Memory for the texts of members is granted.\<close>

definition buffers :: "(nat \<Rightarrow> bytes option) \<Rightarrow> bool" where
  "buffers alloc \<longleftrightarrow> (\<exists>mb. alloc DM_MSG_REPORT_BUF_LEN = Some mb \<and> length mb = DM_MSG_REPORT_BUF_LEN)"

lemma length_member: "t \<in> set ts \<Longrightarrow> length t \<le> length (member_texts ts)"
proof (cases ts)
  case (Cons u us)
  moreover assume "t \<in> set ts"
  moreover have "t \<in> set us \<Longrightarrow> length t \<le> length (more_members us)"
    by (induction us) auto
  ultimately show ?thesis by auto
qed simp

lemma members_printed:
  assumes p: "member_printer gen tx" and j: "members_json tx opening closing num xs = Some t" and t: "length t < DM_MSG_REPORT_BUF_LEN"
    and m: "length m = DM_MSG_REPORT_BUF_LEN" and b: "buffers alloc"
  shows "\<exists>m'. dm_gen_members alloc gen opening closing num xs m = Some (SUCCESS_RET, m') \<and> holds m' t"
proof -
  from j obtain ts where ts: "list_all2 (\<lambda>x y. tx x = Some y) xs ts" "num = int (length xs)" "xs \<noteq> []"
      "0 \<notin> set opening" "0 \<notin> set closing" "t = opening @ member_texts ts @ closing"
    by (auto simp: members_json_def bind_Some_iff those_Some split: if_splits)
  from b obtain mb where mb: "alloc DM_MSG_REPORT_BUF_LEN = Some mb" "length mb = DM_MSG_REPORT_BUF_LEN" by (auto simp: buffers_def)
  have "list_all2 (member_printer.fits tx) xs ts"
    using ts(1) t length_member [of _ ts] unfolding list_all2_conv_all_nth ts(6)
    by (force simp: member_printer.fits_def [OF p] in_set_conv_nth)
  then show ?thesis unfolding ts(2) using ts m mb t member_printer.gen_members_exact [OF p] by metis
qed

lemma struct_printer: "buffers alloc \<Longrightarrow> member_printer (dm_gen_struct_payload alloc fmt value_key) (struct_json fmt value_key)"
  by unfold_locales
    (auto simp: dm_gen_struct_payload_def struct_json_def dm_opening_def lit_def split: option.splits if_splits
      dest!: members_printed [OF node_printer.member_printer_axioms])

lemma array_printer:
  "member_printer gen tx \<Longrightarrow> array_json tx value_key name num xs = Some t \<Longrightarrow> length t < DM_MSG_REPORT_BUF_LEN
   \<Longrightarrow> length m = DM_MSG_REPORT_BUF_LEN \<Longrightarrow> buffers alloc
   \<Longrightarrow> \<exists>m'. dm_gen_array_payload alloc gen value_key name num xs m = Some (SUCCESS_RET, m') \<and> holds m' t"
  by (cases value_key) (auto simp: array_json_def dm_gen_array_payload_def dm_opening_def lit_def bind_Some_iff dest!: members_printed)

lemma property_printer:
  assumes b: "buffers alloc"
  shows "member_printer (dm_gen_property_payload alloc fmt type value_key) (property_json fmt type value_key)"
proof
  fix p t and m :: bytes
  assume p: "property_json fmt type value_key p = Some t" and t: "length t < DM_MSG_REPORT_BUF_LEN" and m: "length m = DM_MSG_REPORT_BUF_LEN"
  note struct = member_printer.prints [OF struct_printer [OF b] _ t m] and node = node_printer.prints [OF _ t m]
  note arrays = array_printer [OF _ _ t m b, OF node_printer.member_printer_axioms] array_printer [OF _ _ t m b, OF struct_printer [OF b]]
  show "\<exists>m'. dm_gen_property_payload alloc fmt type value_key p m = Some (SUCCESS_RET, m') \<and> holds m' t"
  proof (cases "type = PROPERTY_POST")
    case True
    with p show ?thesis
      by (auto simp: dm_gen_property_payload_def property_json_def value_json_def dm_gen_property_post_payload_def
          dm_gen_array_base_payload_def dm_gen_array_struct_payload_def
          split: DM_Parse_Type.splits DM_Property_Value_U.splits intro: struct node arrays)
  next
    case False
    with p obtain k where k: "dm_property_key p = Some k" "0 \<notin> set t"
        "type = PROPERTY_DESIRED_GET \<and> t = lit ''`'' @ k @ lit ''`'' \<or>
         type = PROPERTY_DESIRED_DELETE \<and> t = lit ''`'' @ k @ lit ''`: {`version`: '' @ dec_int (sint (desired_ver p)) @ lit ''}''"
      by (auto simp: property_json_def no_NUL_Some bind_Some_iff split: if_splits)
    then have "parse_type p \<noteq> OTHER_PARSE" by (auto simp: dm_property_key_def)
    moreover obtain m' where "snprintf_at m 0 (of_nat DM_MSG_REPORT_BUF_LEN) t = Some (int (length t), m')" "holds m' t"
      using print_first [OF m k(2)] by blast
    ultimately show ?thesis using k(1,3)
      by (elim disjE conjE) (simp_all only: dm_gen_property_payload_def dm_gen_property_desired_payload_def
        dm_gen_property_delete_payload_def DM_Type.distinct if_True if_False bind.bind_lunit prod.case, simp_all)
  qed
qed

section \<open>Lists of properties\<close>

text \<open>
  C38. The list of properties of a message.  Every property has a text, which fits into its own buffer.  When all but the last
  fit into the message together, the buffer of the message holds the texts separated by commas, cut to its size; the result is
  success when they are at most as long as the buffer, which is one more than it can hold, and failure when they are longer.
  When the properties before the last do not fit, the function writes behind the buffer.
\<close>

theorem properties_printed:
  assumes "buffers alloc" and "length out = DM_MSG_REPORT_BUF_LEN" and "ps \<noteq> []"
    and "list_all2 (\<lambda>p t. property_json fmt type value_key p = Some t \<and> length t < DM_MSG_REPORT_BUF_LEN) ps ts"
    and "length (member_texts ts) < 2 ^ 31"
  shows "if DM_MSG_REPORT_BUF_LEN < length (member_texts (butlast ts))
    then dm_gen_properties_payload alloc fmt (Some ps) (int (length ps)) type value_key (Some out) = None
    else \<exists>m'. dm_gen_properties_payload alloc fmt (Some ps) (int (length ps)) type value_key (Some out) =
        Some (if length (member_texts ts) \<le> DM_MSG_REPORT_BUF_LEN then SUCCESS_RET else FAILURE_RET, Some m')
      \<and> holds m' (member_texts ts)"
proof -
  obtain mb where mb: "alloc DM_MSG_REPORT_BUF_LEN = Some mb" "length mb = DM_MSG_REPORT_BUF_LEN"
    using assms(1) by (auto simp: buffers_def)
  note p = property_printer [OF assms(1), of fmt type value_key]
  have fit: "list_all2 (member_printer.fits (property_json fmt type value_key)) ps ts"
    by (rule list_all2_mono [OF assms(4)]) (simp add: member_printer.fits_def [OF p])
  have single: "\<not> 1 < length ps \<Longrightarrow> butlast ts = []"
    using assms(3,4) by (cases ps; cases ts) auto
  have "length ([] @ member_texts ts) < 2 ^ 31" using assms(5) by simp
  from member_printer.members_outcome [OF p fit assms(3) _ assms(2) mb(2) _ _ this, of "[]" 0 0] single mb(1) show ?thesis
    by (auto simp: dm_gen_properties_payload_def split: if_splits)
qed

definition demo_node :: "string \<Rightarrow> u32 \<Rightarrow> DM_Node_t" where
  "demo_node k w = \<lparr> base_type = TYPE_INT, node_key = Some (str k), node_val = Int_Value w \<rparr>"

definition demo_properties :: "DM_Property_t list" where
  "demo_properties =
     [\<lparr> parse_type = TYPE_NODE, prop_value = Dm_Node (demo_node ''t'' 21), desired_ver = 0 \<rparr>,
      \<lparr> parse_type = TYPE_STRUCT, prop_value = Dm_Struct \<lparr> struct_key = Some (str ''pos''), struct_nodes = [demo_node ''x'' 7, demo_node ''y'' (- 7)],
          struct_num = 2 \<rparr>, desired_ver = 0 \<rparr>]"

definition demo_texts :: "cstr list" where
  "demo_texts = [lit ''`t`: {`Value`: 21}'', lit ''`pos`: {`Value`: {`x`: 7, `y`: -7}}'']"

lemma demo_texts:
  "list_all2 (\<lambda>p t. property_json (\<lambda>_. []) PROPERTY_POST True p = Some t \<and> length t < DM_MSG_REPORT_BUF_LEN) demo_properties demo_texts"
  "length (member_texts demo_texts) < 2048"
  by (simp_all add: demo_properties_def demo_texts_def demo_node_def property_json_def value_json_def struct_json_def node_json_def
      members_json_def dm_node_value_def dm_node_text_def no_NUL_def str_def lit_def dec_int_def dec_nat.simps more_members_def)

theorem properties_printed_witness:
  "\<exists>m'. dm_gen_properties_payload (\<lambda>_. Some (replicate 2048 0)) (\<lambda>_. []) (Some demo_properties) (int (length demo_properties))
      PROPERTY_POST True (Some (replicate 2048 0)) = Some (SUCCESS_RET, Some m')
    \<and> holds m' (lit ''`t`: {`Value`: 21}, `pos`: {`Value`: {`x`: 7, `y`: -7}}'')"
proof -
  have b: "buffers (\<lambda>_. Some (replicate 2048 0))" by (simp add: buffers_def)
  have "member_texts demo_texts = lit ''`t`: {`Value`: 21}, `pos`: {`Value`: {`x`: 7, `y`: -7}}''"
    "\<not> 2048 < length (member_texts (butlast demo_texts))" "demo_properties \<noteq> []"
    by (simp_all add: demo_texts_def demo_properties_def lit_def)
  with properties_printed [OF b _ _ demo_texts(1), of "replicate 2048 0"] demo_texts(2) show ?thesis by simp
qed

text \<open>A structure of one member is cut to the size of the buffer without an error, and one of no members is not printed at all.\<close>

lemma struct_of_one_node:
  assumes "buffers alloc" and "length m = DM_MSG_REPORT_BUF_LEN" and "struct_json fmt value_key s = Some t"
    and "struct_nodes s = [n]" and "node_json fmt False n = Some u" and "length u < DM_MSG_REPORT_BUF_LEN"
  shows "\<exists>m'. dm_gen_struct_payload alloc fmt value_key s m = Some (SUCCESS_RET, m') \<and> holds m' t"
proof -
  obtain mb where mb: "alloc DM_MSG_REPORT_BUF_LEN = Some mb" "length mb = DM_MSG_REPORT_BUF_LEN"
    using assms(1) by (auto simp: buffers_def)
  have "node_printer.fits fmt False n u" using assms(5,6) by (simp add: node_printer.fits_def)
  from node_printer.prints_text [OF this mb(2)] obtain mb' where
    "dm_gen_node_payload fmt False n mb = Some (SUCCESS_RET, mb')" "text_in mb' = Some u" "0 \<notin> set u" .
  moreover define op cl where "op = (case struct_key s of None \<Rightarrow> lit ''{'' | Some k \<Rightarrow> dm_opening value_key k ''{'')"
    and "cl = lit (if struct_key s \<noteq> None \<and> value_key then ''}}'' else ''}'')"
  moreover have op: "t = op @ u @ cl" "struct_num s = 1" "0 \<notin> set op" "0 \<notin> set cl"
    using assms(3-5) by (auto simp: op_def cl_def struct_json_def members_json_def dm_opening_def lit_def split: option.splits if_splits)
  moreover obtain m' where "snprintf_at m 0 (of_nat DM_MSG_REPORT_BUF_LEN) t = Some (int (length t), m')" "holds m' t"
    using print_first [OF assms(2), of t] op calculation(3) by auto
  ultimately show ?thesis using mb assms(4) by (simp add: dm_gen_struct_payload_def dm_gen_members_def)
qed

lemma struct_of_no_nodes:
  "buffers alloc \<Longrightarrow> struct_num s = 0 \<Longrightarrow> dm_gen_struct_payload alloc fmt value_key s m = Some (SUCCESS_RET, m)"
  by (auto simp: buffers_def dm_gen_struct_payload_def dm_gen_members_def split: option.splits)

end
