(* ===== verification/Dm_Client.thy ===== *)
theory Dm_Client
  imports Dm_Payload Mqtt_Api
begin

text \<open>
  The device model client (\<^verbatim>\<open>dm_client.c\<close> and \<^verbatim>\<open>dm_mqtt.c\<close>) on top of the MQTT client.  The state is \<open>DM_MQTT_Struct_t\<close>
  with the MQTT client it uses, and the trace of the calls of the application's callbacks; the field \<open>context\<close>, which no
  function uses, and null handles are left out.  A callback is a function pointer; what the two callbacks that produce an answer
  return and store is a parameter, and so is the address of each message handler of the module, under which it is subscribed.

  The handlers run while \<open>IOT_MQTT_Yield\<close> delivers a message; in the MQTT model their calls are in the trace
  (\<open>Message (dm_handler env type) \<dots>\<close>), so here they are operations of their own, which may happen at any time.
\<close>

abbreviation (input) DM_TOPIC_BUF_LEN :: nat where "DM_TOPIC_BUF_LEN \<equiv> 128"
abbreviation (input) DM_MSG_REPLY_BUF_LEN :: nat where "DM_MSG_REPLY_BUF_LEN \<equiv> 128"
abbreviation (input) DM_EVENT_POST_BUF_LEN :: nat where "DM_EVENT_POST_BUF_LEN \<equiv> 2048"
abbreviation (input) DM_CMD_REPLY_BUF_LEN :: nat where "DM_CMD_REPLY_BUF_LEN \<equiv> 2048"

section \<open>State\<close>

datatype dm_call =
    Property_Restore_Call fptr cstr int cstr
  | Property_Set_Call fptr cstr cstr
  | Desired_Get_Call fptr cstr int cstr
  | Command_Call fptr cstr cstr cstr
  | Common_Reply_Call fptr cstr int

record 'w dm =
  dm_mqtt :: "'w sys"
  dm_product_sn :: cstr
  dm_device_sn :: cstr
  dm_callbacks :: "DM_Type \<Rightarrow> fptr option"
  upstream_topic_templates :: "DM_Type \<Rightarrow> cstr option"
  downstream_topic_templates :: "DM_Type \<Rightarrow> cstr option"
  dm_calls :: "dm_call list"

record 'w dm_env =
  dm_hal :: "'w hal"
  dm_yield_reconnects :: bool
  dm_handler :: "DM_Type \<Rightarrow> fptr"
  dm_junk :: "nat \<Rightarrow> bytes"
  dm_float :: "DM_Base_Value_U \<Rightarrow> cstr"
  set_result :: "fptr \<Rightarrow> cstr \<Rightarrow> cstr \<Rightarrow> int"
  command_result :: "fptr \<Rightarrow> cstr \<Rightarrow> cstr \<Rightarrow> cstr \<Rightarrow> bytes \<Rightarrow> int \<times> bytes"

text \<open>\<open>HAL_Malloc\<close>: fresh memory holds \<open>dm_junk\<close>.  The printing and reading of texts does not change what the allocator grants.\<close>

definition dm_alloc :: "'w dm_env \<Rightarrow> 'w dm \<Rightarrow> nat \<Rightarrow> bytes option" where
  "dm_alloc env s n = (if fst (HAL_Malloc (dm_hal env) n (os (dm_mqtt s))) then Some (dm_junk env n) else None)"

definition dm_malloc :: "'w dm_env \<Rightarrow> nat \<Rightarrow> 'w dm \<Rightarrow> bytes option \<times> 'w dm" where
  "dm_malloc env n s = (let (ok, q) = malloc (dm_hal env) n (dm_mqtt s) in (if ok then Some (dm_junk env n) else None, s\<lparr>dm_mqtt := q\<rparr>))"

section \<open>Topics\<close>

definition dm_upstream_template :: "DM_Type \<Rightarrow> cstr option" where
  "dm_upstream_template type =
     (case type of
        PROPERTY_RESTORE \<Rightarrow> Some (str ''/$system/%s/%s/tmodel/property/restore'')
      | PROPERTY_POST \<Rightarrow> Some (str ''/$system/%s/%s/tmodel/property/post'')
      | PROPERTY_SET \<Rightarrow> Some (str ''/$system/%s/%s/tmodel/property/set_reply'')
      | PROPERTY_DESIRED_GET \<Rightarrow> Some (str ''/$system/%s/%s/tmodel/property/desired/get'')
      | PROPERTY_DESIRED_DELETE \<Rightarrow> Some (str ''/$system/%s/%s/tmodel/property/desired/delete'')
      | EVENT_POST \<Rightarrow> Some (str ''/$system/%s/%s/tmodel/event/post'')
      | COMMAND \<Rightarrow> Some (str ''/$system/%s/%s/tmodel/command_reply/%s'')
      | DM_TYPE_MAX \<Rightarrow> None)"

definition dm_downstream_template :: "DM_Type \<Rightarrow> cstr option" where
  "dm_downstream_template type =
     (case type of
        PROPERTY_RESTORE \<Rightarrow> Some (str ''/$system/%s/%s/tmodel/property/restore_reply'')
      | PROPERTY_POST \<Rightarrow> Some (str ''/$system/%s/%s/tmodel/property/post_reply'')
      | PROPERTY_SET \<Rightarrow> Some (str ''/$system/%s/%s/tmodel/property/set'')
      | PROPERTY_DESIRED_GET \<Rightarrow> Some (str ''/$system/%s/%s/tmodel/property/desired/get_reply'')
      | PROPERTY_DESIRED_DELETE \<Rightarrow> Some (str ''/$system/%s/%s/tmodel/property/desired/delete_reply'')
      | EVENT_POST \<Rightarrow> Some (str ''/$system/%s/%s/tmodel/event/post_reply'')
      | COMMAND \<Rightarrow> Some (str ''/$system/%s/%s/tmodel/command'')
      | DM_TYPE_MAX \<Rightarrow> None)"

text \<open>What \<open>printf\<close> makes of a template whose directives are all \<open>%s\<close>; too few arguments are undefined behaviour.\<close>

fun print_template :: "cstr \<Rightarrow> cstr list \<Rightarrow> cstr option" where
  "print_template [] args = Some []"
| "print_template [c] args = Some [c]"
| "print_template (c # d # t) args =
     (if c = 37 \<and> d = 115 then (case args of [] \<Rightarrow> None | a # args \<Rightarrow> map_option ((@) a) (print_template t args))
      else map_option (Cons c) (print_template (d # t) args))"

definition dm_mqtt_gen_topic_name :: "nat \<Rightarrow> cstr option \<Rightarrow> cstr \<Rightarrow> cstr \<Rightarrow> (int \<times> cstr) option" where
  "dm_mqtt_gen_topic_name buf_len topic_template product device = do {
     template \<leftarrow> topic_template;
     t \<leftarrow> print_template template [product, device];
     let (topic_name, ret) = HAL_Snprintf buf_len t;
     Some (if ret < 0 \<or> ret \<ge> int buf_len then FAILURE_RET else SUCCESS_RET, topic_name) }"

section \<open>Sending\<close>

text \<open>A pointer to a text is \<open>None\<close> where there is no text to read: the null pointer, or memory without a terminator.\<close>

definition dm_mqtt_gen_property_payload :: "nat \<Rightarrow> DM_Type \<Rightarrow> u32 \<Rightarrow> cstr option \<Rightarrow> (int \<times> cstr) option" where
  "dm_mqtt_gen_property_payload buf_len type request_id body =
     (let head = lit ''{`RequestID`: `'' @ dec_int (sint request_id) @ lit ''`'';
          print = (\<lambda>t. let (text, ret) = HAL_Snprintf buf_len t
            in Some (if ret < 0 \<or> ret \<ge> int buf_len then FAILURE_RET else SUCCESS_RET, text))
      in case type of
           PROPERTY_RESTORE \<Rightarrow> print (head @ lit ''}'')
         | PROPERTY_POST \<Rightarrow> do { b \<leftarrow> body; print (head @ lit '', `Property`: {'' @ b @ lit ''}}'') }
         | PROPERTY_DESIRED_GET \<Rightarrow> do { b \<leftarrow> body; print (head @ lit '', `Require`: ['' @ b @ lit '']}'') }
         | PROPERTY_DESIRED_DELETE \<Rightarrow> do { b \<leftarrow> body; print (head @ lit '', `Delete`: {'' @ b @ lit ''}}'') }
         | _ \<Rightarrow> Some (FAILURE_RET, []))"

definition dm_mqtt_gen_event_payload :: "nat \<Rightarrow> u32 \<Rightarrow> cstr \<Rightarrow> cstr option \<Rightarrow> (int \<times> cstr) option" where
  "dm_mqtt_gen_event_payload buf_len request_id identifier body = do {
     b \<leftarrow> body;
     let (text, ret) = HAL_Snprintf buf_len (lit ''{`RequestID`: `'' @ dec_int (sint request_id) @ lit ''`, `Identifier`: `'' @ identifier
       @ lit ''`, `Output`: {'' @ b @ lit ''}}'');
     Some (if ret < 0 \<or> ret \<ge> int buf_len then FAILURE_RET else SUCCESS_RET, text) }"

definition dm_pub_params :: "QoS \<Rightarrow> cstr \<Rightarrow> PublishParams" where
  "dm_pub_params q msg = \<lparr> qos = q, retained = 0, dup = 0, msg_ident = Some 0, topic = [], topic_len = 0,
     payload = Some msg, payload_len = of_nat (length msg) \<rparr>"

definition dm_mqtt_publish :: "'w dm_env \<Rightarrow> nat \<Rightarrow> cstr \<Rightarrow> int \<Rightarrow> cstr \<Rightarrow> 'w dm \<Rightarrow> (int \<times> 'w dm) option" where
  "dm_mqtt_publish env fuel topic_name qos_level msg s = do {
     ((ret, _), q) \<leftarrow> IOT_MQTT_Publish (dm_hal env) fuel topic_name (dm_pub_params (if qos_level = 0 then QOS0 else QOS1) msg) (dm_mqtt s);
     Some (if ret < 0 then FAILURE_RET else ret, s\<lparr>dm_mqtt := q\<rparr>) }"

definition dm_mqtt_property_report_publish ::
  "'w dm_env \<Rightarrow> nat \<Rightarrow> DM_Type \<Rightarrow> u32 \<Rightarrow> cstr option \<Rightarrow> 'w dm \<Rightarrow> (int \<times> 'w dm) option" where
  "dm_mqtt_property_report_publish env fuel type request_id body s = do {
     let (msg_report, s) = dm_malloc env DM_MSG_REPORT_BUF_LEN s;
     if msg_report = None then Some (FAILURE_RET, s)
     else do {
       let (topic_buf, s) = dm_malloc env DM_TOPIC_BUF_LEN s;
       if topic_buf = None then Some (FAILURE_RET, s)
       else do {
         (ret, topic_name) \<leftarrow> dm_mqtt_gen_topic_name DM_TOPIC_BUF_LEN (upstream_topic_templates s type) (dm_product_sn s) (dm_device_sn s);
         if ret \<noteq> SUCCESS_RET then Some (FAILURE_RET, s)
         else do {
           (ret, msg) \<leftarrow> dm_mqtt_gen_property_payload DM_MSG_REPORT_BUF_LEN type request_id body;
           if ret < 0 then Some (FAILURE_RET, s)
           else dm_mqtt_publish env fuel topic_name 1 msg s } } } }"

definition dm_mqtt_property_report_publish_Ex ::
  "'w dm_env \<Rightarrow> nat \<Rightarrow> DM_Type \<Rightarrow> u32 \<Rightarrow> DM_Property_t list option \<Rightarrow> int \<Rightarrow> 'w dm \<Rightarrow> (int \<times> 'w dm) option" where
  "dm_mqtt_property_report_publish_Ex env fuel type request_id property n s = do {
     let (buf, s) = dm_malloc env DM_MSG_REPORT_BUF_LEN s;
     if buf = None then Some (FAILURE_RET, s)
     else do {
       (ret, buf) \<leftarrow> dm_gen_properties_payload (dm_alloc env s) (dm_float env) property n type True buf;
       if ret = FAILURE_RET then Some (FAILURE_RET, s)
       else do {
         m \<leftarrow> buf;
         (ret, s) \<leftarrow> dm_mqtt_property_report_publish env fuel type request_id (text_in m) s;
         Some (if ret = FAILURE_RET then FAILURE_RET else ret, s) } } }"

definition dm_mqtt_event_publish :: "'w dm_env \<Rightarrow> nat \<Rightarrow> u32 \<Rightarrow> cstr \<Rightarrow> cstr option \<Rightarrow> 'w dm \<Rightarrow> (int \<times> 'w dm) option" where
  "dm_mqtt_event_publish env fuel request_id identifier body s = do {
     let (msg_report, s) = dm_malloc env DM_EVENT_POST_BUF_LEN s;
     if msg_report = None then Some (FAILURE_RET, s)
     else do {
       let (topic_buf, s) = dm_malloc env DM_TOPIC_BUF_LEN s;
       if topic_buf = None then Some (FAILURE_RET, s)
       else do {
         (ret, topic_name) \<leftarrow> dm_mqtt_gen_topic_name DM_TOPIC_BUF_LEN (upstream_topic_templates s EVENT_POST) (dm_product_sn s) (dm_device_sn s);
         if ret \<noteq> SUCCESS_RET then Some (FAILURE_RET, s)
         else do {
           (ret, msg) \<leftarrow> dm_mqtt_gen_event_payload DM_EVENT_POST_BUF_LEN request_id identifier body;
           if ret < 0 then Some (ret, s)
           else dm_mqtt_publish env fuel topic_name 1 msg s } } } }"

definition dm_mqtt_event_publish_Ex :: "'w dm_env \<Rightarrow> nat \<Rightarrow> u32 \<Rightarrow> DM_Event_t \<Rightarrow> 'w dm \<Rightarrow> (int \<times> 'w dm) option" where
  "dm_mqtt_event_publish_Ex env fuel request_id event s = do {
     let (buf, s) = dm_malloc env DM_MSG_REPORT_BUF_LEN s;
     if buf = None then Some (FAILURE_RET, s)
     else do {
       (ret, buf) \<leftarrow> dm_gen_properties_payload (dm_alloc env s) (dm_float env) (dm_property event) (property_num event) PROPERTY_POST False buf;
       if ret = FAILURE_RET then Some (FAILURE_RET, s)
       else do {
         m \<leftarrow> buf;
         (ret, s) \<leftarrow> dm_mqtt_event_publish env fuel request_id (event_identy event) (text_in m) s;
         Some (if ret = FAILURE_RET then FAILURE_RET else ret, s) } } }"

section \<open>Received messages\<close>

text \<open>
  The copy of the payload.  \<open>%s\<close> reads it up to a NUL, although a payload is not a C string: in the MQTT client it is followed
  by the rest of the read buffer.
\<close>

definition dm_message_text :: "'w dm_env \<Rightarrow> MQTTMessage \<Rightarrow> 'w dm \<Rightarrow> (bytes option \<times> 'w dm) option" where
  "dm_message_text env message s = do {
     let (buf, s) = dm_malloc env (unat (payload_len message + 1)) s;
     case buf of None \<Rightarrow> Some (None, s)
     | Some buf \<Rightarrow> do {
         p \<leftarrow> payload message;
         t \<leftarrow> text_in p;
         (_, msg) \<leftarrow> snprintf_at buf 0 (payload_len message + 1) t;
         Some (Some msg, s) } }"

definition dm_value :: "'w dm_env \<Rightarrow> 'w dm \<Rightarrow> bytes \<Rightarrow> string \<Rightarrow> cstr option option" where
  "dm_value env s msg field =
     map_option fst (LITE_json_value_of (\<lambda>n. fst (HAL_Malloc (dm_hal env) n (os (dm_mqtt s)))) msg (str field) 0)"

text \<open>The result code and the identifier of the request in a reply.\<close>

definition dm_reply_fields :: "'w dm_env \<Rightarrow> 'w dm \<Rightarrow> bytes \<Rightarrow> (int \<times> cstr) option option" where
  "dm_reply_fields env s msg = do {
     ret_code_char \<leftarrow> dm_value env s msg ''RetCode'';
     case ret_code_char of None \<Rightarrow> Some None
     | Some c \<Rightarrow> do {
         (ret, code) \<leftarrow> LITE_get_int8 c;
         case code of None \<Rightarrow> Some None
         | Some ret_code \<Rightarrow> do {
             request_id \<leftarrow> dm_value env s msg ''RequestID'';
             Some (map_option (Pair (sint ret_code)) request_id) } } }"

definition dm_call :: "dm_call \<Rightarrow> 'w dm \<Rightarrow> 'w dm" where
  "dm_call c s = s\<lparr>dm_calls := dm_calls s @ [c]\<rparr>"

definition dm_mqtt_common_reply_cb :: "'w dm_env \<Rightarrow> fptr \<Rightarrow> MQTTMessage \<Rightarrow> 'w dm \<Rightarrow> 'w dm option" where
  "dm_mqtt_common_reply_cb env cb message s = do {
     (msg, s) \<leftarrow> dm_message_text env message s;
     case msg of None \<Rightarrow> Some s
     | Some msg \<Rightarrow> do {
         r \<leftarrow> dm_reply_fields env s msg;
         Some (case r of None \<Rightarrow> s | Some (ret_code, request_id) \<Rightarrow> dm_call (Common_Reply_Call cb request_id ret_code) s) } }"

text \<open>\<open>dm_mqtt_property_restore_cb\<close> and \<open>dm_mqtt_property_desired_get_cb\<close>, which read one more field.\<close>

definition dm_mqtt_value_reply_cb ::
  "'w dm_env \<Rightarrow> (cstr \<Rightarrow> int \<Rightarrow> cstr \<Rightarrow> dm_call) \<Rightarrow> string \<Rightarrow> MQTTMessage \<Rightarrow> 'w dm \<Rightarrow> 'w dm option" where
  "dm_mqtt_value_reply_cb env cb field message s = do {
     (msg, s) \<leftarrow> dm_message_text env message s;
     case msg of None \<Rightarrow> Some s
     | Some msg \<Rightarrow> do {
         r \<leftarrow> dm_reply_fields env s msg;
         case r of None \<Rightarrow> Some s
         | Some (ret_code, request_id) \<Rightarrow> do {
             v \<leftarrow> dm_value env s msg field;
             Some (case v of None \<Rightarrow> s | Some v \<Rightarrow> dm_call (cb request_id ret_code v) s) } } }"

definition dm_mqtt_property_restore_cb :: "'w dm_env \<Rightarrow> MQTTMessage \<Rightarrow> 'w dm \<Rightarrow> 'w dm option" where
  "dm_mqtt_property_restore_cb env message s =
     (case dm_callbacks s PROPERTY_RESTORE of None \<Rightarrow> Some s
      | Some cb \<Rightarrow> dm_mqtt_value_reply_cb env (Property_Restore_Call cb) ''Property'' message s)"

definition dm_mqtt_property_desired_get_cb :: "'w dm_env \<Rightarrow> MQTTMessage \<Rightarrow> 'w dm \<Rightarrow> 'w dm option" where
  "dm_mqtt_property_desired_get_cb env message s =
     (case dm_callbacks s PROPERTY_DESIRED_GET of None \<Rightarrow> Some s
      | Some cb \<Rightarrow> dm_mqtt_value_reply_cb env (Desired_Get_Call cb) ''Desired'' message s)"

definition dm_mqtt_property_post_cb :: "'w dm_env \<Rightarrow> MQTTMessage \<Rightarrow> 'w dm \<Rightarrow> 'w dm option" where
  "dm_mqtt_property_post_cb env message s =
     (case dm_callbacks s PROPERTY_POST of None \<Rightarrow> Some s | Some cb \<Rightarrow> dm_mqtt_common_reply_cb env cb message s)"

definition dm_mqtt_property_desired_delete_cb :: "'w dm_env \<Rightarrow> MQTTMessage \<Rightarrow> 'w dm \<Rightarrow> 'w dm option" where
  "dm_mqtt_property_desired_delete_cb env message s =
     (case dm_callbacks s PROPERTY_DESIRED_DELETE of None \<Rightarrow> Some s | Some cb \<Rightarrow> dm_mqtt_common_reply_cb env cb message s)"

definition dm_mqtt_event_post_cb :: "'w dm_env \<Rightarrow> MQTTMessage \<Rightarrow> 'w dm \<Rightarrow> 'w dm option" where
  "dm_mqtt_event_post_cb env message s =
     (case dm_callbacks s EVENT_POST of None \<Rightarrow> Some s | Some cb \<Rightarrow> dm_mqtt_common_reply_cb env cb message s)"

definition dm_mqtt_property_set_cb :: "'w dm_env \<Rightarrow> nat \<Rightarrow> MQTTMessage \<Rightarrow> 'w dm \<Rightarrow> 'w dm option" where
  "dm_mqtt_property_set_cb env fuel message s =
     (case dm_callbacks s PROPERTY_SET of None \<Rightarrow> Some s
      | Some cb \<Rightarrow> do {
          (msg, s) \<leftarrow> dm_message_text env message s;
          case msg of None \<Rightarrow> Some s
          | Some msg \<Rightarrow> do {
              request_id \<leftarrow> dm_value env s msg ''RequestID'';
              case request_id of None \<Rightarrow> Some s
              | Some request_id \<Rightarrow> do {
                  property \<leftarrow> dm_value env s msg ''Property'';
                  case property of None \<Rightarrow> Some s
                  | Some property \<Rightarrow> do {
                      let cb_ret = set_result env cb request_id property;
                      let s = dm_call (Property_Set_Call cb request_id property) s;
                      let (msg_reply, s) = dm_malloc env DM_MSG_REPLY_BUF_LEN s;
                      if msg_reply = None then Some s
                      else do {
                        let (topic_buf, s) = dm_malloc env DM_TOPIC_BUF_LEN s;
                        if topic_buf = None then Some s
                        else do {
                          (ret, topic_name) \<leftarrow> dm_mqtt_gen_topic_name DM_TOPIC_BUF_LEN (upstream_topic_templates s PROPERTY_SET)
                            (dm_product_sn s) (dm_device_sn s);
                          if ret \<noteq> SUCCESS_RET then Some s
                          else do {
                            let (reply, ret) = HAL_Snprintf DM_MSG_REPLY_BUF_LEN
                              (lit ''{`RequestID`: `'' @ request_id @ lit ''`, `RetCode`: '' @ dec_int cb_ret @ lit ''}'');
                            if ret < 0 \<or> ret \<ge> int DM_MSG_REPLY_BUF_LEN then Some s
                            else do {
                              (_, s) \<leftarrow> dm_mqtt_publish env fuel topic_name 1 reply s;
                              Some s } } } } } } } })"

definition dm_mqtt_command_cb :: "'w dm_env \<Rightarrow> nat \<Rightarrow> MQTTMessage \<Rightarrow> 'w dm \<Rightarrow> 'w dm option" where
  "dm_mqtt_command_cb env fuel message s =
     (case dm_callbacks s COMMAND of None \<Rightarrow> Some s
      | Some cb \<Rightarrow> do {
          (msg, s) \<leftarrow> dm_message_text env message s;
          case msg of None \<Rightarrow> Some s
          | Some msg \<Rightarrow> do {
              request_id \<leftarrow> dm_value env s msg ''RequestID'';
              case request_id of None \<Rightarrow> Some s
              | Some request_id \<Rightarrow> do {
                  identifier \<leftarrow> dm_value env s msg ''Identifier'';
                  case identifier of None \<Rightarrow> Some s
                  | Some identifier \<Rightarrow> do {
                      input \<leftarrow> dm_value env s msg ''Input'';
                      case input of None \<Rightarrow> Some s
                      | Some input \<Rightarrow> do {
                          let (buf, s) = dm_malloc env DM_MSG_REPORT_BUF_LEN s;
                          case buf of None \<Rightarrow> Some s
                          | Some buf \<Rightarrow> do {
                              let (cb_ret, output) = command_result env cb request_id identifier input buf;
                              let s = dm_call (Command_Call cb request_id identifier input) s;
                              let (cmd_reply, s) = dm_malloc env DM_CMD_REPLY_BUF_LEN s;
                              if cmd_reply = None then Some s
                              else do {
                                let (topic_buf, s) = dm_malloc env DM_TOPIC_BUF_LEN s;
                                if topic_buf = None then Some s
                                else do {
                                  template \<leftarrow> upstream_topic_templates s COMMAND;
                                  t \<leftarrow> print_template template [dm_product_sn s, dm_device_sn s, request_id];
                                  let (topic_name, ret) = HAL_Snprintf DM_TOPIC_BUF_LEN t;
                                  if ret < 0 \<or> ret > int DM_TOPIC_BUF_LEN then Some s
                                  else do {
                                    out \<leftarrow> text_in output;
                                    let (reply, ret) = HAL_Snprintf DM_CMD_REPLY_BUF_LEN
                                      (lit ''{`RequestID`: `'' @ request_id @ lit ''`, `RetCode`: '' @ dec_int cb_ret
                                       @ lit '', `Identifier`: `'' @ identifier @ lit ''`, `Output`: {'' @ out @ lit ''}}'');
                                    if ret < 0 \<or> ret > int DM_CMD_REPLY_BUF_LEN then Some s
                                    else do {
                                      (_, s) \<leftarrow> dm_mqtt_publish env fuel topic_name 1 reply s;
                                      Some s } } } } } } } } } })"

section \<open>Registration\<close>

definition dsc_mqtt_register_callback :: "'w dm_env \<Rightarrow> nat \<Rightarrow> DM_Type \<Rightarrow> fptr option \<Rightarrow> 'w dm \<Rightarrow> (int \<times> 'w dm) option" where
  "dsc_mqtt_register_callback env fuel dm_type cb s =
     (if cb = None then Some (FAILURE_RET, s)
      else do {
        let s = s\<lparr>dm_callbacks := (dm_callbacks s)(dm_type := cb),
          upstream_topic_templates := (upstream_topic_templates s)(dm_type := dm_upstream_template dm_type),
          downstream_topic_templates := (downstream_topic_templates s)(dm_type := dm_downstream_template dm_type)\<rparr>;
        (ret, topic_name) \<leftarrow> dm_mqtt_gen_topic_name DM_TOPIC_BUF_LEN (downstream_topic_templates s dm_type) (dm_product_sn s) (dm_device_sn s);
        if ret < 0 then Some (FAILURE_RET, s)
        else do {
          (ret, q) \<leftarrow> IOT_MQTT_Subscribe (dm_hal env) fuel topic_name
            \<lparr> sp_qos = QOS1, on_message_handler = Some (dm_handler env dm_type), user_data = 0 \<rparr> (dm_mqtt s);
          Some (if ret < 0 then FAILURE_RET else SUCCESS_RET, s\<lparr>dm_mqtt := q\<rparr>) } })"

text \<open>The seven functions \<open>uiot_register_for_\<dots>\<close> of the macro \<open>DEFINE_DM_CALLBACK\<close>: the result of the registration is dropped.\<close>

definition uiot_register_for :: "'w dm_env \<Rightarrow> nat \<Rightarrow> DM_Type \<Rightarrow> fptr option \<Rightarrow> 'w dm \<Rightarrow> (int \<times> 'w dm) option" where
  "uiot_register_for env fuel dm_type cb s =
     (if dm_type = DM_TYPE_MAX then Some (- 1, s)
      else do { (_, s) \<leftarrow> dsc_mqtt_register_callback env fuel dm_type cb s; Some (0, s) })"

section \<open>The interface\<close>

definition sizeof_DM_Struct :: nat where "sizeof_DM_Struct = 4"
definition sizeof_DM_MQTT_Struct :: nat where "sizeof_DM_MQTT_Struct = 100"

definition dsc_init :: "'w dm_env \<Rightarrow> cstr \<Rightarrow> cstr \<Rightarrow> 'w sys \<Rightarrow> 'w dm option \<times> 'w sys" where
  "dsc_init env product device channel =
     (let (ok, q) = malloc (dm_hal env) sizeof_DM_MQTT_Struct channel
      in (if ok then Some \<lparr> dm_mqtt = q, dm_product_sn = product, dm_device_sn = device, dm_callbacks = (\<lambda>_. None),
            upstream_topic_templates = (\<lambda>_. None), downstream_topic_templates = (\<lambda>_. None), dm_calls = [] \<rparr> else None, q))"

text \<open>The handle, and the MQTT client.\<close>

definition IOT_DM_Init :: "'w dm_env \<Rightarrow> cstr option \<Rightarrow> cstr option \<Rightarrow> 'w sys \<Rightarrow> 'w dm option \<times> 'w sys" where
  "IOT_DM_Init env product device channel =
     (case (product, device) of
        (Some p, Some d) \<Rightarrow>
          let (ok, q) = malloc (dm_hal env) sizeof_DM_Struct channel
          in if ok then dsc_init env p d q else (None, q)
      | _ \<Rightarrow> (None, channel))"

text \<open>\<open>IOT_DM_Destroy\<close> frees the two structures; the subscriptions, with the freed handle as \<open>user_data\<close>, stay in the MQTT client.\<close>

definition IOT_DM_Destroy :: "'w dm \<Rightarrow> int \<times> 'w sys" where
  "IOT_DM_Destroy s = (SUCCESS_RET, dm_mqtt s)"

definition IOT_DM_Property_Report :: "'w dm_env \<Rightarrow> nat \<Rightarrow> DM_Type \<Rightarrow> u32 \<Rightarrow> cstr option \<Rightarrow> 'w dm \<Rightarrow> (int \<times> 'w dm) option" where
  "IOT_DM_Property_Report env fuel type request_id body s = dm_mqtt_property_report_publish env fuel type request_id body s"

text \<open>The array that the arguments are copied into; the allocation is not checked.\<close>

definition sizeof_DM_Property :: nat where "sizeof_DM_Property = 12"

definition IOT_DM_Property_ReportEx ::
  "'w dm_env \<Rightarrow> nat \<Rightarrow> DM_Type \<Rightarrow> u32 \<Rightarrow> DM_Property_t list \<Rightarrow> 'w dm \<Rightarrow> (int \<times> 'w dm) option" where
  "IOT_DM_Property_ReportEx env fuel type request_id ps s = do {
     let (array, s) = dm_malloc env (length ps * sizeof_DM_Property) s;
     if array = None then (if ps = [] then dm_mqtt_property_report_publish_Ex env fuel type request_id None 0 s else None)
     else dm_mqtt_property_report_publish_Ex env fuel type request_id (Some ps) (int (length ps)) s }"

definition IOT_DM_TriggerEvent :: "'w dm_env \<Rightarrow> nat \<Rightarrow> u32 \<Rightarrow> cstr \<Rightarrow> cstr option \<Rightarrow> 'w dm \<Rightarrow> (int \<times> 'w dm) option" where
  "IOT_DM_TriggerEvent env fuel request_id identifier body s = dm_mqtt_event_publish env fuel request_id identifier body s"

definition IOT_DM_TriggerEventEx :: "'w dm_env \<Rightarrow> nat \<Rightarrow> u32 \<Rightarrow> DM_Event_t \<Rightarrow> 'w dm \<Rightarrow> (int \<times> 'w dm) option" where
  "IOT_DM_TriggerEventEx env fuel request_id event s = dm_mqtt_event_publish_Ex env fuel request_id event s"

definition IOT_DM_GenCommandOutput :: "'w dm_env \<Rightarrow> bytes \<Rightarrow> DM_Property_t list \<Rightarrow> 'w dm \<Rightarrow> ((int \<times> bytes option) \<times> 'w dm) option" where
  "IOT_DM_GenCommandOutput env output ps s = do {
     let (array, s) = dm_malloc env (length ps * sizeof_DM_Property) s;
     if array = None then (if ps = [] then Some ((FAILURE_RET, Some output), s) else None)
     else do {
       r \<leftarrow> dm_gen_properties_payload (dm_alloc env s) (dm_float env) (Some ps) (int (length ps)) PROPERTY_POST False (Some output);
       Some (r, s) } }"

definition IOT_DM_Yield :: "'w dm_env \<Rightarrow> nat \<Rightarrow> u32 \<Rightarrow> 'w dm \<Rightarrow> (int \<times> 'w dm) option" where
  "IOT_DM_Yield env fuel timeout_ms s = do {
     (ret, q) \<leftarrow> IOT_MQTT_Yield (dm_yield_reconnects env) (dm_hal env) fuel timeout_ms (dm_mqtt s);
     Some (ret, s\<lparr>dm_mqtt := q\<rparr>) }"

end
