(* ===== verification/Dm_State.thy ===== *)
theory Dm_State
  imports Dm_Client
begin

text \<open>
  The device model client as a transition system, and what it does with the messages it receives.
\<close>

section \<open>Reachable states\<close>

datatype dm_op =
    Dm_Register DM_Type "fptr option"
  | Dm_Report DM_Type u32 "cstr option"
  | Dm_ReportEx DM_Type u32 "DM_Property_t list"
  | Dm_Event u32 cstr "cstr option"
  | Dm_EventEx u32 DM_Event_t
  | Dm_Output bytes "DM_Property_t list"
  | Dm_Yield u32
  | Dm_Message DM_Type MQTTMessage
  | Dm_Mqtt api_call

text \<open>The handler of a type of messages, as \<open>g_dm_mqtt_cb\<close> names it.\<close>

definition dm_message :: "'w dm_env \<Rightarrow> nat \<Rightarrow> DM_Type \<Rightarrow> MQTTMessage \<Rightarrow> 'w dm \<Rightarrow> 'w dm option" where
  "dm_message env fuel type message s =
     (case type of
        PROPERTY_RESTORE \<Rightarrow> dm_mqtt_property_restore_cb env message s
      | PROPERTY_POST \<Rightarrow> dm_mqtt_property_post_cb env message s
      | PROPERTY_SET \<Rightarrow> dm_mqtt_property_set_cb env fuel message s
      | PROPERTY_DESIRED_GET \<Rightarrow> dm_mqtt_property_desired_get_cb env message s
      | PROPERTY_DESIRED_DELETE \<Rightarrow> dm_mqtt_property_desired_delete_cb env message s
      | EVENT_POST \<Rightarrow> dm_mqtt_event_post_cb env message s
      | COMMAND \<Rightarrow> dm_mqtt_command_cb env fuel message s
      | DM_TYPE_MAX \<Rightarrow> None)"

fun dm_step :: "'w dm_env \<Rightarrow> nat \<Rightarrow> dm_op \<Rightarrow> 'w dm \<Rightarrow> (int \<times> 'w dm) option" where
  "dm_step env fuel (Dm_Register t cb) s = uiot_register_for env fuel t cb s"
| "dm_step env fuel (Dm_Report t i b) s = IOT_DM_Property_Report env fuel t i b s"
| "dm_step env fuel (Dm_ReportEx t i ps) s = IOT_DM_Property_ReportEx env fuel t i ps s"
| "dm_step env fuel (Dm_Event i e b) s = IOT_DM_TriggerEvent env fuel i e b s"
| "dm_step env fuel (Dm_EventEx i e) s = IOT_DM_TriggerEventEx env fuel i e s"
| "dm_step env fuel (Dm_Output b ps) s = map_option (\<lambda>((r, _), s). (r, s)) (IOT_DM_GenCommandOutput env b ps s)"
| "dm_step env fuel (Dm_Yield ms) s = IOT_DM_Yield env fuel ms s"
| "dm_step env fuel (Dm_Message t m) s = map_option (Pair 0) (dm_message env fuel t m s)"
| "dm_step env fuel (Dm_Mqtt c) s =
     map_option (\<lambda>(r, q). (r, s\<lparr>dm_mqtt := q\<rparr>)) (api_step (dm_yield_reconnects env) (dm_hal env) fuel c (dm_mqtt s))"

inductive dm_state :: "'w dm_env \<Rightarrow> 'w dm \<Rightarrow> bool" for env where
  initialised: "client_state (dm_yield_reconnects env) (dm_hal env) q \<Longrightarrow> IOT_DM_Init env p d q = (Some s, q') \<Longrightarrow> dm_state env s"
| called: "dm_state env s \<Longrightarrow> dm_step env fuel c s = Some (r, s') \<Longrightarrow> dm_state env s'"
| elsewhere: "dm_state env s \<Longrightarrow> dm_state env (s\<lparr>dm_mqtt := (dm_mqtt s)\<lparr>os := w\<rparr>\<rparr>)"

text \<open>
  The MQTT client is consistent, and a type of messages has its templates exactly if it has a callback: no handler of a registered
  callback prints a null template.
\<close>

definition dm_inv :: "'w dm \<Rightarrow> bool" where
  "dm_inv s \<longleftrightarrow> mqtt_ok (dm_mqtt s) \<and> dm_callbacks s DM_TYPE_MAX = None
     \<and> upstream_topic_templates s = (\<lambda>t. if dm_callbacks s t = None then None else dm_upstream_template t)
     \<and> downstream_topic_templates s = (\<lambda>t. if dm_callbacks s t = None then None else dm_downstream_template t)"

text \<open>What the operations other than a registration keep: everything but the MQTT client, and at most one callback is called.\<close>

definition dm_frame :: "'w dm \<Rightarrow> 'w dm \<Rightarrow> bool" where
  "dm_frame s s' \<longleftrightarrow> dm_product_sn s' = dm_product_sn s \<and> dm_device_sn s' = dm_device_sn s \<and> dm_callbacks s' = dm_callbacks s
     \<and> upstream_topic_templates s' = upstream_topic_templates s \<and> downstream_topic_templates s' = downstream_topic_templates s
     \<and> (mqtt_ok (dm_mqtt s) \<longrightarrow> mqtt_ok (dm_mqtt s'))"

definition dm_quiet :: "'w dm \<Rightarrow> 'w dm \<Rightarrow> bool" where
  "dm_quiet s s' \<longleftrightarrow> dm_frame s s' \<and> dm_calls s' = dm_calls s"

definition dm_same :: "'w dm \<Rightarrow> 'w dm \<Rightarrow> bool" where
  "dm_same s s' \<longleftrightarrow> dm_frame s s' \<and> (dm_calls s' = dm_calls s \<or> (\<exists>c. dm_calls s' = dm_calls s @ [c]))"

named_theorems dm_dest \<open>what the operations change\<close>

lemma dm_quiet_refl [simp]: "dm_quiet s s"
  by (simp add: dm_quiet_def dm_frame_def)

lemma dm_frame_trans: "dm_frame s s' \<Longrightarrow> dm_frame s' s'' \<Longrightarrow> dm_frame s s''"
  by (simp add: dm_frame_def)

lemma dm_quiet_trans: "dm_quiet s s' \<Longrightarrow> dm_quiet s' s'' \<Longrightarrow> dm_quiet s s''"
  by (auto simp: dm_quiet_def intro: dm_frame_trans)

lemma dm_quiet_same: "dm_quiet s s' \<Longrightarrow> dm_same s s'"
  by (simp add: dm_quiet_def dm_same_def)

lemma dm_quiet_call: "dm_quiet s s1 \<Longrightarrow> dm_quiet (dm_call c s1) s' \<Longrightarrow> dm_same s s'"
  by (simp add: dm_quiet_def dm_same_def dm_call_def dm_frame_def)

lemma dm_same_inv: "dm_same s s' \<Longrightarrow> dm_inv s \<Longrightarrow> dm_inv s'"
  by (simp add: dm_same_def dm_frame_def dm_inv_def)

lemma dm_malloc_os: "dm_malloc env n s = (b, s') \<Longrightarrow> \<exists>w. s' = s\<lparr>dm_mqtt := (dm_mqtt s)\<lparr>os := w\<rparr>\<rparr>"
  by (auto simp: dm_malloc_def malloc_def Let_def split: prod.splits)

lemma dm_malloc_quiet [dm_dest]: "dm_malloc env n s = (b, s') \<Longrightarrow> dm_quiet s s'"
  by (auto dest!: dm_malloc_os simp: dm_quiet_def dm_frame_def)

lemma dm_publish_quiet [dm_dest]: "dm_mqtt_publish env fuel t q m s = Some (r, s') \<Longrightarrow> dm_quiet s s'"
  by (auto simp: dm_mqtt_publish_def dm_quiet_def dm_frame_def elim!: bind_SomeE split: prod.splits intro: mqtt_calls_ok)

lemma dm_report_quiet [dm_dest]: "dm_mqtt_property_report_publish env fuel t i b s = Some (r, s') \<Longrightarrow> dm_quiet s s'"
  by (auto simp: dm_mqtt_property_report_publish_def Let_def split: prod.splits if_splits elim!: bind_SomeE dest!: dm_dest;
      meson dm_quiet_trans)

lemma dm_report_Ex_quiet [dm_dest]: "dm_mqtt_property_report_publish_Ex env fuel t i ps n s = Some (r, s') \<Longrightarrow> dm_quiet s s'"
  by (auto simp: dm_mqtt_property_report_publish_Ex_def Let_def split: prod.splits if_splits elim!: bind_SomeE dest!: dm_dest;
      meson dm_quiet_trans)

lemma dm_event_quiet [dm_dest]: "dm_mqtt_event_publish env fuel i e b s = Some (r, s') \<Longrightarrow> dm_quiet s s'"
  by (auto simp: dm_mqtt_event_publish_def Let_def split: prod.splits if_splits elim!: bind_SomeE dest!: dm_dest;
      meson dm_quiet_trans)

lemma dm_event_Ex_quiet [dm_dest]: "dm_mqtt_event_publish_Ex env fuel i e s = Some (r, s') \<Longrightarrow> dm_quiet s s'"
  by (auto simp: dm_mqtt_event_publish_Ex_def Let_def split: prod.splits if_splits elim!: bind_SomeE dest!: dm_dest;
      meson dm_quiet_trans)

lemma dm_message_text_quiet [dm_dest]: "dm_message_text env m s = Some (b, s') \<Longrightarrow> dm_quiet s s'"
  by (auto simp: dm_message_text_def Let_def split: prod.splits option.splits elim!: bind_SomeE dest!: dm_dest)

lemma dm_common_reply_same [dm_dest]: "dm_mqtt_common_reply_cb env cb m s = Some s' \<Longrightarrow> dm_same s s'"
  by (auto simp: dm_mqtt_common_reply_cb_def dm_call_def split: option.splits prod.splits elim!: bind_SomeE dest!: dm_dest
      ; blast intro: dm_quiet_same dm_quiet_call [OF _ dm_quiet_refl, unfolded dm_call_def])

lemma dm_value_reply_same [dm_dest]: "dm_mqtt_value_reply_cb env cb f m s = Some s' \<Longrightarrow> dm_same s s'"
  by (auto simp: dm_mqtt_value_reply_cb_def dm_call_def split: option.splits prod.splits elim!: bind_SomeE dest!: dm_dest
      ; blast intro: dm_quiet_same dm_quiet_call [OF _ dm_quiet_refl, unfolded dm_call_def])

lemma dm_set_same [dm_dest]: "dm_mqtt_property_set_cb env fuel m s = Some s' \<Longrightarrow> dm_same s s'"
  by (auto simp: dm_mqtt_property_set_cb_def Let_def split: option.splits prod.splits if_splits elim!: bind_SomeE dest!: dm_dest
      intro: dm_quiet_same; meson dm_quiet_trans dm_quiet_call dm_quiet_refl dm_quiet_same)

lemma dm_command_same [dm_dest]: "dm_mqtt_command_cb env fuel m s = Some s' \<Longrightarrow> dm_same s s'"
  by (auto simp: dm_mqtt_command_cb_def Let_def split: option.splits prod.splits if_splits elim!: bind_SomeE dest!: dm_dest
      intro: dm_quiet_same; meson dm_quiet_trans dm_quiet_call dm_quiet_refl dm_quiet_same)

lemma dm_message_same [dm_dest]: "dm_message env fuel t m s = Some s' \<Longrightarrow> dm_same s s'"
  by (auto simp: dm_message_def dm_mqtt_property_restore_cb_def dm_mqtt_property_post_cb_def dm_mqtt_property_desired_get_cb_def
      dm_mqtt_property_desired_delete_cb_def dm_mqtt_event_post_cb_def split: DM_Type.splits option.splits
      dest!: dm_dest intro: dm_quiet_same)

lemma dm_register_inv:
  assumes "uiot_register_for env fuel t cb s = Some (r, s')" and "dm_inv s"
  shows "dm_inv s'"
proof (cases "t = DM_TYPE_MAX \<or> cb = None")
  case True
  with assms show ?thesis by (auto simp: uiot_register_for_def dsc_mqtt_register_callback_def split: if_splits)
next
  case False
  let ?s = "s\<lparr>dm_callbacks := (dm_callbacks s)(t := cb),
    upstream_topic_templates := (upstream_topic_templates s)(t := dm_upstream_template t),
    downstream_topic_templates := (downstream_topic_templates s)(t := dm_downstream_template t)\<rparr>"
  have inv: "dm_inv ?s" using assms(2) False by (auto simp: dm_inv_def fun_eq_iff)
  note defs = uiot_register_for_def dsc_mqtt_register_callback_def Let_def
  obtain a b where topic: "dm_mqtt_gen_topic_name DM_TOPIC_BUF_LEN (dm_downstream_template t) (dm_product_sn s) (dm_device_sn s) = Some (a, b)"
    using assms(1) False by (auto simp: defs elim!: bind_SomeE)
  show ?thesis
  proof (cases "a < 0")
    case True
    with assms(1) False topic have "s' = ?s" by (auto simp: defs)
    with inv show ?thesis by simp
  next
    case sent: False
    with assms(1) False topic obtain r q where q: "IOT_MQTT_Subscribe (dm_hal env) fuel b
        \<lparr> sp_qos = QOS1, on_message_handler = Some (dm_handler env t), user_data = 0 \<rparr> (dm_mqtt s) = Some (r, q)" "s' = ?s\<lparr>dm_mqtt := q\<rparr>"
      by (auto simp: defs elim!: bind_SomeE)
    from mqtt_calls_ok(2) [OF q(1)] assms(2) have "mqtt_ok q" by (simp add: dm_inv_def)
    with inv q(2) show ?thesis by (simp add: dm_inv_def)
  qed
qed

lemma dm_step_inv:
  assumes "dm_step env fuel c s = Some (r, s')" and "dm_inv s"
  shows "dm_inv s'"
proof (cases c)
  case (Dm_Register t cb)
  then show ?thesis using assms dm_register_inv by auto
next
  case (Dm_Mqtt a)
  then show ?thesis using assms api_step_keeps [of "dm_yield_reconnects env" "dm_hal env" fuel a "dm_mqtt s"]
    by (auto simp: dm_inv_def mqtt_ok_def)
next
  case (Dm_Yield ms)
  then show ?thesis using assms by (auto simp: IOT_DM_Yield_def dm_inv_def elim!: bind_SomeE dest: mqtt_calls_ok)
qed (use assms in \<open>auto simp: IOT_DM_Property_Report_def IOT_DM_Property_ReportEx_def IOT_DM_TriggerEvent_def IOT_DM_TriggerEventEx_def
    IOT_DM_GenCommandOutput_def Let_def split: prod.splits if_splits elim!: bind_SomeE dest!: dm_dest dm_quiet_same dest: dm_same_inv\<close>)

lemma dm_init_inv: "IOT_DM_Init env p d q = (Some s, q') \<Longrightarrow> mqtt_ok q \<Longrightarrow> dm_inv s"
  by (auto simp: IOT_DM_Init_def dsc_init_def dm_inv_def malloc_def Let_def split: option.splits prod.splits if_splits)

lemma dm_state_inv: "dm_state env s \<Longrightarrow> dm_inv s"
proof (induction rule: dm_state.induct)
  case (initialised q p d s q')
  from client_state_ok [OF initialised(1)] have "mqtt_ok q" by (simp add: mqtt_ok_def)
  then show ?case using dm_init_inv [OF initialised(2)] by blast
next
  case (called s fuel c r s')
  then show ?case using dm_step_inv by blast
next
  case (elsewhere s w)
  then show ?case by (simp add: dm_inv_def)
qed

text \<open>
  C39. Consistency of the device model client.  In every state that it can reach, by calls of the application in any order and
  messages of any contents at any time, the MQTT client it uses satisfies its invariant with no mutex held, and a type of messages
  has its two topic templates exactly if a callback is registered for it.
\<close>

theorem reachable_dm_consistent:
  assumes "dm_state env s"
  shows "client_inv (dm_mqtt s) \<and> session_ok (dm_mqtt s) \<and> held (dm_mqtt s) = (\<lambda>_. 0)
    \<and> (\<forall>t. upstream_topic_templates s t = (if dm_callbacks s t = None then None else dm_upstream_template t))
    \<and> (\<forall>t. downstream_topic_templates s t = (if dm_callbacks s t = None then None else dm_downstream_template t))"
  using dm_state_inv [OF assms] by (simp add: dm_inv_def mqtt_ok_def)

section \<open>Received messages\<close>

text \<open>Memory is granted, with contents of the size that was asked for.\<close>

definition dm_memory :: "'w dm_env \<Rightarrow> bool" where
  "dm_memory env \<longleftrightarrow> granting (dm_hal env) \<and> (\<forall>n. length (dm_junk env n) = n)"

text \<open>A message with a payload that is followed by a NUL somewhere in the read buffer.\<close>

definition dm_carries :: "MQTTMessage \<Rightarrow> bytes \<Rightarrow> bool" where
  "dm_carries message doc \<longleftrightarrow> (\<exists>p t. payload message = Some p \<and> text_in p = Some t \<and> payload_len message \<noteq> - 1
     \<and> doc = take (unat (payload_len message)) t)"

text \<open>The value of a field of the document, by the members it consists of.\<close>

definition doc_value :: "json_member list \<Rightarrow> string \<Rightarrow> cstr option" where
  "doc_value ms field = map_option (content \<circ> m_val) (find (matches (str field)) ms)"

lemma dm_malloc_granted:
  assumes "dm_memory env"
  shows "\<exists>w. dm_malloc env n s = (Some (dm_junk env n), s\<lparr>dm_mqtt := (dm_mqtt s)\<lparr>os := w\<rparr>\<rparr>)"
proof -
  obtain b w where w: "HAL_Malloc (dm_hal env) n (os (dm_mqtt s)) = (b, w)" by fastforce
  then have "b" using assms unfolding dm_memory_def granting_def by (metis fst_conv)
  with w show ?thesis by (intro exI [of _ w]) (simp add: dm_malloc_def malloc_def)
qed

lemma dm_message_text_granted:
  assumes m: "dm_memory env" and c: "dm_carries message doc"
  shows "\<exists>w post. dm_message_text env message s = Some (Some (doc @ 0 # post), s\<lparr>dm_mqtt := (dm_mqtt s)\<lparr>os := w\<rparr>\<rparr>)"
proof -
  from c obtain p t where p: "payload message = Some p" "text_in p = Some t" "payload_len message \<noteq> - 1"
    "doc = take (unat (payload_len message)) t" by (auto simp: dm_carries_def)
  define n where "n = payload_len message + 1"
  have n: "unat n = Suc (unat (payload_len message))" using p(3) unfolding n_def
    by (metis add.commute unatSuc add_eq_0_iff add.inverse_inverse)
  then have "n \<noteq> 0" by auto
  obtain w where w: "dm_malloc env (unat n) s = (Some (dm_junk env (unat n)), s\<lparr>dm_mqtt := (dm_mqtt s)\<lparr>os := w\<rparr>\<rparr>)"
    using dm_malloc_granted [OF m] by blast
  moreover have "length (dm_junk env (unat n)) = unat n" using m by (simp add: dm_memory_def)
  ultimately show ?thesis using p n \<open>n \<noteq> 0\<close>
    by (auto simp: dm_message_text_def n_def [symmetric] snprintf_at_def poke_bytes_def)
qed

lemma dm_value_of:
  assumes "dm_memory env" and "json_doc ms bytes_after doc" and "plain_name (str field)"
  shows "dm_value env s (doc @ 0 # post) field = Some (doc_value ms field)"
  using value_of_name [OF assms(2,3), of _ post] assms(1)
  by (simp add: dm_value_def doc_value_def dm_memory_def granting_def)

lemma plain_fields:
  "plain_name (str ''RetCode'')" "plain_name (str ''RequestID'')" "plain_name (str ''Property'')" "plain_name (str ''Desired'')"
  "plain_name (str ''Identifier'')" "plain_name (str ''Input'')"
  by (simp_all add: plain_name_def str_def)

lemma dm_reply_fields_of:
  assumes "dm_memory env" and "json_doc ms bytes_after doc"
    and "doc_value ms ''RetCode'' = Some c" and "LITE_get_int8 c = Some (SUCCESS_RET, Some code)" and "doc_value ms ''RequestID'' = Some rid"
  shows "dm_reply_fields env s (doc @ 0 # post) = Some (Some (sint code, rid))"
  using dm_value_of [OF assms(1,2)] assms(3-5) plain_fields by (simp add: dm_reply_fields_def)

lemma dm_reply_fields_absent:
  assumes "dm_memory env" and "json_doc ms bytes_after doc"
    and "doc_value ms ''RetCode'' = None \<or> doc_value ms ''RequestID'' = None \<and> (\<exists>c. doc_value ms ''RetCode'' = Some c \<and> LITE_get_int8 c \<noteq> None)"
  shows "dm_reply_fields env s (doc @ 0 # post) = Some None"
  using dm_value_of [OF assms(1,2)] assms(3) plain_fields by (auto simp: dm_reply_fields_def split: option.splits)

definition dm_demo_env :: "bytes dm_env" where
  "dm_demo_env = \<lparr> dm_hal = smooth_hal, dm_yield_reconnects = False, dm_handler = (\<lambda>_. 3), dm_junk = (\<lambda>n. replicate n 0),
     dm_float = (\<lambda>_. []), set_result = (\<lambda>_ _ _. 0), command_result = (\<lambda>_ _ _ _ b. (0, lit ''`done`: 1'' @ [0])) \<rparr>"

lemma dm_demo_env_sel [simp]:
  "dm_hal dm_demo_env = smooth_hal" "dm_yield_reconnects dm_demo_env = False" "dm_handler dm_demo_env = (\<lambda>_. 3)"
  "command_result dm_demo_env f i j k b = (0, lit ''`done`: 1'' @ [0])" "dm_memory dm_demo_env"
  by (simp_all add: dm_demo_env_def dm_memory_def granting_def smooth_hal_def)

text \<open>The device model of a freshly constructed client, with a callback for commands.\<close>

definition dm_demo :: "bytes sys \<Rightarrow> bytes dm" where
  "dm_demo q = \<lparr> dm_mqtt = q, dm_product_sn = str ''p'', dm_device_sn = str ''d'', dm_callbacks = [COMMAND \<mapsto> 7],
     upstream_topic_templates = (\<lambda>t. if t = COMMAND then dm_upstream_template t else None),
     downstream_topic_templates = (\<lambda>t. if t = COMMAND then dm_downstream_template t else None), dm_calls = [] \<rparr>"

lemma dm_demo_reachable: obtains q where "dm_state dm_demo_env (dm_demo q)"
proof (rule smooth_construct)
  fix ip q assume c: "IOT_MQTT_Construct False smooth_hal 10 demo_init smooth_start = Some ((True, ip), q)" and l: "list_sub_wait_ack q = []"
  have "globals_ok smooth_start" by (simp add: globals_ok_def smooth_start_def)
  from client_state.constructed [OF this c] constructed_client [OF c this]
  have q: "client_state False smooth_hal q" "client_inv q" "is_connected q \<noteq> 0" by auto
  let ?s = "\<lparr> dm_mqtt = q, dm_product_sn = str ''p'', dm_device_sn = str ''d'', dm_callbacks = (\<lambda>_. None),
     upstream_topic_templates = (\<lambda>_. None), downstream_topic_templates = (\<lambda>_. None), dm_calls = [] \<rparr>"
  have init: "IOT_DM_Init dm_demo_env (Some (str ''p'')) (Some (str ''d'')) q = (Some ?s, q)"
    by (simp add: IOT_DM_Init_def dsc_init_def)
  have t: "dm_mqtt_gen_topic_name DM_TOPIC_BUF_LEN (dm_downstream_template COMMAND) (str ''p'') (str ''d'') =
      Some (SUCCESS_RET, str ''/$system/p/d/tmodel/command'')"
    by (simp add: dm_mqtt_gen_topic_name_def dm_downstream_template_def str_def HAL_Snprintf_def)
  have f: "str ''/$system/p/d/tmodel/command'' \<noteq> []" "length (str ''/$system/p/d/tmodel/command'') \<le> 128" by (simp_all add: str_def)
  from smooth_subscribe [OF q(2,3) f, of "\<lparr> sp_qos = QOS1, on_message_handler = Some 3, user_data = 0 \<rparr>" 8] l obtain q' where
    sub: "IOT_MQTT_Subscribe smooth_hal 10 (str ''/$system/p/d/tmodel/command'') \<lparr> sp_qos = QOS1, on_message_handler = Some 3, user_data = 0 \<rparr> q
      = Some (uint (next_id (next_packet_id q)), q')" by (auto simp: IOT_MQTT_Subscribe_def numeral_eq_Suc)
  have "dm_step dm_demo_env 10 (Dm_Register COMMAND (Some 7)) ?s = Some (0, dm_demo q')"
    by (simp add: uiot_register_for_def dsc_mqtt_register_callback_def t sub dm_demo_def fun_eq_iff)
  moreover have "dm_state dm_demo_env ?s" using dm_state.initialised [OF _ init] q(1) by simp
  ultimately show thesis using that dm_state.called by blast
qed

theorem reachable_dm_consistent_witness:
  "\<exists>s. dm_state dm_demo_env s \<and> dm_callbacks s COMMAND = Some 7 \<and> client_inv (dm_mqtt s)
    \<and> upstream_topic_templates s COMMAND = Some (str ''/$system/%s/%s/tmodel/command_reply/%s'')"
proof (rule dm_demo_reachable)
  fix q assume q: "dm_state dm_demo_env (dm_demo q)"
  from reachable_dm_consistent [OF q] q show ?thesis
    by (intro exI [of _ "dm_demo q"]) (simp add: dm_demo_def dm_upstream_template_def)
qed

text \<open>
  A payload without a NUL behind it is read over the end of the read buffer.  A registration is reported as a success even when
  its subscription failed.
\<close>

lemma strlen_unterminated: "0 \<notin> set (drop p m) \<Longrightarrow> strlen_at m p = None"
proof (induction m p rule: strlen_at.induct)
  case (1 m p)
  show ?case
  proof (cases "p < length m")
    case True
    then have "drop p m = m ! p # drop (p + 1) m" by (simp add: Cons_nth_drop_Suc)
    with 1 True show ?thesis by (subst strlen_at.simps) auto
  qed (subst strlen_at.simps, simp add: peek_def)
qed

lemma dm_payload_overread:
  "dm_memory env \<Longrightarrow> payload message = Some p \<Longrightarrow> 0 \<notin> set p \<Longrightarrow> dm_message_text env message s = None"
  using dm_malloc_granted [of env "unat (payload_len message + 1)" s] strlen_unterminated [of 0 p]
  by (auto simp: dm_message_text_def text_in_def)

lemma registration_always_succeeds:
  "uiot_register_for env fuel t cb s = Some (r, s') \<Longrightarrow> t \<noteq> DM_TYPE_MAX \<Longrightarrow> r = 0"
  by (auto simp: uiot_register_for_def elim!: bind_SomeE)

text \<open>
  C40. Replies to the device.  A reply to a reported property, a deleted desired value or an event, whose payload is a document with
  a result code and the identifier of the request, calls the registered callback once with them; a document without one of the two
  calls nothing.  Nothing else changes.
\<close>

theorem dm_reply_delivered:
  assumes "dm_memory env" and "dm_carries message doc" and "json_doc ms bytes_after doc"
    and "type \<in> {PROPERTY_POST, PROPERTY_DESIRED_DELETE, EVENT_POST}" and "dm_callbacks s type = Some cb"
    and "doc_value ms ''RetCode'' = Some c" and "LITE_get_int8 c = Some (SUCCESS_RET, Some code)"
  shows "\<exists>w. dm_message env fuel type message s = Some (s\<lparr>dm_mqtt := (dm_mqtt s)\<lparr>os := w\<rparr>,
    dm_calls := dm_calls s @ (case doc_value ms ''RequestID'' of None \<Rightarrow> [] | Some rid \<Rightarrow> [Common_Reply_Call cb rid (sint code)])\<rparr>)"
proof -
  obtain w post where t: "dm_message_text env message s = Some (Some (doc @ 0 # post), s\<lparr>dm_mqtt := (dm_mqtt s)\<lparr>os := w\<rparr>\<rparr>)"
    using dm_message_text_granted [OF assms(1,2)] by blast
  have "dm_mqtt_common_reply_cb env cb message s = Some (s\<lparr>dm_mqtt := (dm_mqtt s)\<lparr>os := w\<rparr>,
    dm_calls := dm_calls s @ (case doc_value ms ''RequestID'' of None \<Rightarrow> [] | Some rid \<Rightarrow> [Common_Reply_Call cb rid (sint code)])\<rparr>)"
    using dm_reply_fields_of [OF assms(1,3,6,7)] dm_reply_fields_absent [OF assms(1,3)] assms(6,7)
    by (cases "doc_value ms ''RequestID''") (simp_all add: dm_mqtt_common_reply_cb_def t dm_call_def)
  then show ?thesis using assms(4,5)
    by (auto simp: dm_message_def dm_mqtt_property_post_cb_def dm_mqtt_property_desired_delete_cb_def dm_mqtt_event_post_cb_def)
qed

text \<open>
  C37. Commands.  A command whose payload is a document with an identifier of the request, a name and an input calls the registered
  callback once with them, and the answer is published once with QoS 1: on the topic of the request, with the result and the
  output of the callback.
\<close>

theorem dm_command_answered:
  assumes "dm_memory env" and "dm_inv s" and "dm_callbacks s COMMAND = Some cb"
    and "dm_carries message doc" and "json_doc ms bytes_after doc"
    and "doc_value ms ''RequestID'' = Some rid" and "doc_value ms ''Identifier'' = Some ident" and "doc_value ms ''Input'' = Some input"
    and "command_result env cb rid ident input (dm_junk env DM_MSG_REPORT_BUF_LEN) = (code, output)" and "text_in output = Some out"
    and "topic_name = str ''/$system/'' @ dm_product_sn s @ str ''/'' @ dm_device_sn s @ str ''/tmodel/command_reply/'' @ rid"
    and "length topic_name < DM_TOPIC_BUF_LEN"
    and "reply = lit ''{`RequestID`: `'' @ rid @ lit ''`, `RetCode`: '' @ dec_int code @ lit '', `Identifier`: `'' @ ident
      @ lit ''`, `Output`: {'' @ out @ lit ''}}''"
    and "length reply < DM_CMD_REPLY_BUF_LEN"
  shows "\<exists>w. dm_message env fuel COMMAND message s =
    map_option (\<lambda>(_, q). s\<lparr>dm_mqtt := q, dm_calls := dm_calls s @ [Command_Call cb rid ident input]\<rparr>)
      (IOT_MQTT_Publish (dm_hal env) fuel topic_name (dm_pub_params QOS1 reply) ((dm_mqtt s)\<lparr>os := w\<rparr>))"
proof -
  obtain w post where t: "dm_message_text env message s = Some (Some (doc @ 0 # post), s\<lparr>dm_mqtt := (dm_mqtt s)\<lparr>os := w\<rparr>\<rparr>)"
    using dm_message_text_granted [OF assms(1,4)] by blast
  have template: "print_template (str ''/$system/%s/%s/tmodel/command_reply/%s'') [dm_product_sn s, dm_device_sn s, rid] = Some topic_name"
    unfolding assms(11) by (simp add: str_def)
  have up: "upstream_topic_templates s COMMAND = Some (str ''/$system/%s/%s/tmodel/command_reply/%s'')"
    using assms(2,3) by (simp add: dm_inv_def dm_upstream_template_def)
  let ?on = "\<lambda>w s. s\<lparr>dm_mqtt := (dm_mqtt s)\<lparr>os := w\<rparr>\<rparr>"
  obtain w1 where 1: "dm_malloc env DM_MSG_REPORT_BUF_LEN (?on w s) = (Some (dm_junk env DM_MSG_REPORT_BUF_LEN), ?on w1 s)"
    using dm_malloc_granted [OF assms(1), of DM_MSG_REPORT_BUF_LEN "?on w s"] by auto
  let ?s = "dm_call (Command_Call cb rid ident input) (?on w1 s)"
  obtain w2 where 2: "dm_malloc env DM_CMD_REPLY_BUF_LEN ?s = (Some (dm_junk env DM_CMD_REPLY_BUF_LEN), ?on w2 ?s)"
    using dm_malloc_granted [OF assms(1)] by blast
  obtain w3 where 3: "dm_malloc env DM_TOPIC_BUF_LEN (?on w2 ?s) = (Some (dm_junk env DM_TOPIC_BUF_LEN), ?on w3 (?on w2 ?s))"
    using dm_malloc_granted [OF assms(1)] by blast
  note v = dm_value_of [OF assms(1,5) plain_fields(2)] dm_value_of [OF assms(1,5) plain_fields(5)] dm_value_of [OF assms(1,5) plain_fields(6)]
  have snd: "(m \<bind> (\<lambda>(_, s). Some s)) = map_option snd m" for m :: "(int \<times> 'a dm) option" by (cases m) auto
  have printed: "HAL_Snprintf DM_TOPIC_BUF_LEN topic_name = (topic_name, int (length topic_name))"
    "HAL_Snprintf DM_CMD_REPLY_BUF_LEN (lit ''{`RequestID`: `'' @ rid @ lit ''`, `RetCode`: '' @ dec_int code @ lit '', `Identifier`: `''
      @ ident @ lit ''`, `Output`: {'' @ out @ lit ''}}'') = (reply, int (length reply))"
    using assms(12,14) unfolding assms(13) [symmetric] HAL_Snprintf_def by simp_all
  have "dm_mqtt_command_cb env fuel message s =
    map_option snd (dm_mqtt_publish env fuel topic_name 1 reply (?on w3 (?on w2 ?s)))"
    using assms(12,14) unfolding snd [symmetric]
    by (simp add: dm_mqtt_command_cb_def t v assms(3,6-10) 1 2 [simplified dm_call_def, simplified] 3 [simplified dm_call_def, simplified]
        up dm_call_def template printed)
  moreover have "?on w3 (?on w2 ?s) = s\<lparr>dm_mqtt := (dm_mqtt s)\<lparr>os := w3\<rparr>, dm_calls := dm_calls s @ [Command_Call cb rid ident input]\<rparr>"
    by (simp add: dm_call_def)
  ultimately have "dm_message env fuel COMMAND message s = map_option snd (dm_mqtt_publish env fuel topic_name 1 reply
      (s\<lparr>dm_mqtt := (dm_mqtt s)\<lparr>os := w3\<rparr>, dm_calls := dm_calls s @ [Command_Call cb rid ident input]\<rparr>))"
    by (simp only: dm_message_def DM_Type.case)
  then show ?thesis
    by (intro exI [of _ w3], cases "IOT_MQTT_Publish (dm_hal env) fuel topic_name (dm_pub_params QOS1 reply) ((dm_mqtt s)\<lparr>os := w3\<rparr>)")
      (auto simp: dm_mqtt_publish_def)
qed

definition dm_demo_document :: "json_member list \<Rightarrow> bytes" where
  "dm_demo_document ms = members_text ms @ [RBRACE]"

definition dm_demo_message :: "json_member list \<Rightarrow> MQTTMessage" where
  "dm_demo_message ms = \<lparr> qos = QOS1, retained = 0, dup = 0, msg_ident = Some 1, topic = [], topic_len = 0,
     payload = Some (dm_demo_document ms @ [0]), payload_len = of_nat (length (dm_demo_document ms)) \<rparr>"

definition demo_reply_members :: "json_member list" where
  "demo_reply_members = [jmember [LBRACE] ''RetCode'' (J_Number (str ''0'')), jmember [44] ''RequestID'' (J_String (str ''5''))]"

definition demo_command_members :: "json_member list" where
  "demo_command_members = [jmember [LBRACE] ''RequestID'' (J_String (str ''5'')), jmember [44] ''Identifier'' (J_String (str ''on'')),
     jmember [44] ''Input'' (J_Object (member_text (jmember [] ''x'' (J_Number (str ''1'')))))]"

lemmas dm_demo_defs = demo_reply_members_def demo_command_members_def dm_demo_document_def jmember_def json_doc_def wf_member_def
  member_text_def str_def ends_number_def is_digit_def number_text_def open_mark_def close_mark_def doc_value_def matches_def

lemma dm_demo_documents:
  "json_doc demo_reply_members [RBRACE] (dm_demo_document demo_reply_members)"
  "json_doc demo_command_members [RBRACE] (dm_demo_document demo_command_members)"
  "length (dm_demo_document demo_reply_members) < 100" "length (dm_demo_document demo_command_members) < 100"
  "0 \<notin> set (dm_demo_document demo_reply_members)" "0 \<notin> set (dm_demo_document demo_command_members)"
  by (simp_all add: dm_demo_defs)

lemma dm_demo_carries:
  assumes "length (dm_demo_document ms) < 100" and "0 \<notin> set (dm_demo_document ms)"
  shows "dm_carries (dm_demo_message ms) (dm_demo_document ms)"
proof -
  have max: "\<not> unat (- 1 :: u32) < 100" by (simp add: unsigned_minus_1_eq_mask mask_eq_exp_minus_1)
  have "unat (of_nat (length (dm_demo_document ms)) :: u32) = length (dm_demo_document ms)" using assms(1) by simp
  moreover have "(of_nat (length (dm_demo_document ms)) :: u32) \<noteq> - 1" using assms(1) calculation
    by (metis less_irrefl max)
  moreover have "text_in (dm_demo_document ms @ [0]) = Some (dm_demo_document ms)" using assms(2) by (simp add: text_in_def)
  ultimately show ?thesis by (simp add: dm_carries_def dm_demo_message_def)
qed

lemma dm_demo_values:
  "doc_value demo_reply_members ''RetCode'' = Some (str ''0'')" "doc_value demo_reply_members ''RequestID'' = Some (str ''5'')"
  "doc_value demo_command_members ''RequestID'' = Some (str ''5'')" "doc_value demo_command_members ''Identifier'' = Some (str ''on'')"
  "doc_value demo_command_members ''Input'' = Some (lit ''{`x`:1}'')"
  by (simp_all add: dm_demo_defs lit_def)

theorem dm_reply_delivered_witness:
  "\<exists>w. dm_message dm_demo_env 1 EVENT_POST (dm_demo_message demo_reply_members) ((dm_demo smooth_start)\<lparr>dm_callbacks := [EVENT_POST \<mapsto> 9]\<rparr>) =
    Some (((dm_demo smooth_start)\<lparr>dm_callbacks := [EVENT_POST \<mapsto> 9]\<rparr>)\<lparr>dm_mqtt := smooth_start\<lparr>os := w\<rparr>,
      dm_calls := [Common_Reply_Call 9 (str ''5'') 0]\<rparr>)"
proof -
  have "LITE_get_int8 (str ''0'') = Some (SUCCESS_RET, Some 0)" by code_simp
  from dm_reply_delivered [OF dm_demo_env_sel(5) dm_demo_carries [OF dm_demo_documents(3,5)] dm_demo_documents(1) _ _ dm_demo_values(1) this,
      of EVENT_POST "(dm_demo smooth_start)\<lparr>dm_callbacks := [EVENT_POST \<mapsto> 9]\<rparr>" 9 1]
  show ?thesis by (simp add: dm_demo_values(2) dm_demo_def)
qed

theorem dm_command_answered_witness:
  "\<exists>s w. dm_state dm_demo_env s \<and> dm_message dm_demo_env 10 COMMAND (dm_demo_message demo_command_members) s =
    map_option (\<lambda>(_, q). s\<lparr>dm_mqtt := q, dm_calls := [Command_Call 7 (str ''5'') (str ''on'') (lit ''{`x`:1}'')]\<rparr>)
      (IOT_MQTT_Publish smooth_hal 10 (str ''/$system/p/d/tmodel/command_reply/5'')
        (dm_pub_params QOS1 (lit ''{`RequestID`: `5`, `RetCode`: 0, `Identifier`: `on`, `Output`: {`done`: 1}}'')) ((dm_mqtt s)\<lparr>os := w\<rparr>))"
proof (rule dm_demo_reachable)
  fix q assume q: "dm_state dm_demo_env (dm_demo q)"
  have out: "text_in (lit ''`done`: 1'' @ [0]) = Some (lit ''`done`: 1'')"
    using strlen_at_text [of "lit ''`done`: 1''" "[]"] by (simp add: text_in_def lit_def)
  have call: "command_result dm_demo_env 7 (str ''5'') (str ''on'') (lit ''{`x`:1}'') (dm_junk dm_demo_env DM_MSG_REPORT_BUF_LEN)
      = (0, lit ''`done`: 1'' @ [0])" and cb: "dm_callbacks (dm_demo q) COMMAND = Some 7" by (simp_all add: dm_demo_def)
  from dm_command_answered [OF dm_demo_env_sel(5) dm_state_inv [OF q] cb dm_demo_carries [OF dm_demo_documents(4,6)] dm_demo_documents(2)
      dm_demo_values(3-5) call out, of "str ''/$system/p/d/tmodel/command_reply/5''"
      "lit ''{`RequestID`: `5`, `RetCode`: 0, `Identifier`: `on`, `Output`: {`done`: 1}}''" 10]
  obtain w where "dm_message dm_demo_env 10 COMMAND (dm_demo_message demo_command_members) (dm_demo q) =
    map_option (\<lambda>(_, p). (dm_demo q)\<lparr>dm_mqtt := p, dm_calls := [Command_Call 7 (str ''5'') (str ''on'') (lit ''{`x`:1}'')]\<rparr>)
      (IOT_MQTT_Publish smooth_hal 10 (str ''/$system/p/d/tmodel/command_reply/5'')
        (dm_pub_params QOS1 (lit ''{`RequestID`: `5`, `RetCode`: 0, `Identifier`: `on`, `Output`: {`done`: 1}}'')) ((dm_mqtt (dm_demo q))\<lparr>os := w\<rparr>))"
    by (auto simp: dm_demo_def str_def lit_def dec_int_def dec_nat.simps)
  with q show ?thesis by blast
qed

end
